(* ===== verification/Thalamus_Prelude.thy ===== *)
theory Thalamus_Prelude
  imports Main "HOL-Library.AList" "HOL-Library.Char_ord" "HOL-Library.List_Lexorder" "HOL-Library.Sublist"
begin

text \<open>
  Shared vocabulary of the development. Python exceptions are values of a sum type (\<open>Inl\<close> is
  the raised error), Python dictionaries are association lists (they keep insertion order, and
  \<open>AList.update\<close> overwrites in place or appends, as \<open>d[k] = v\<close> does), and \<open>for\<close> loops that may
  raise are \<open>iter_res\<close> and \<open>fold_res\<close>. The lemmas below are the generic facts about those
  combinators that the component proofs use; they are collected in \<open>res_simps\<close> and
  \<open>frame_simps\<close>.
\<close>

named_theorems res_simps \<open>equations of the result combinators\<close>
named_theorems frame_simps \<open>facts on ordered dictionaries and indexed lists\<close>

type_synonym 'v dict = "(string \<times> 'v) list"

section \<open>Fallible code\<close>

definition bind_res :: "'e + 'a \<Rightarrow> ('a \<Rightarrow> 'e + 'b) \<Rightarrow> 'e + 'b" where
  "bind_res m f = (case m of Inl e \<Rightarrow> Inl e | Inr x \<Rightarrow> f x)"

text \<open>\<open>if b: raise e\<close>\<close>

definition raise_if :: "bool \<Rightarrow> 'e \<Rightarrow> 'e + unit" where
  "raise_if b e = (if b then Inl e else Inr ())"

primrec iter_res :: "('a \<Rightarrow> 'e + unit) \<Rightarrow> 'a list \<Rightarrow> 'e + unit" where
  "iter_res f [] = Inr ()"
| "iter_res f (x # xs) = bind_res (f x) (\<lambda>_. iter_res f xs)"

primrec fold_res :: "('a \<Rightarrow> 's \<Rightarrow> 'e + 's) \<Rightarrow> 'a list \<Rightarrow> 's \<Rightarrow> 'e + 's" where
  "fold_res f [] s = Inr s"
| "fold_res f (x # xs) s = bind_res (f x s) (fold_res f xs)"

primrec map_res :: "('a \<Rightarrow> 'e + 'b) \<Rightarrow> 'a list \<Rightarrow> 'e + 'b list" where
  "map_res f [] = Inr []"
| "map_res f (x # xs) = bind_res (f x) (\<lambda>y. bind_res (map_res f xs) (\<lambda>ys. Inr (y # ys)))"

definition is_ok :: "'e + 'a \<Rightarrow> bool" where
  "is_ok m \<longleftrightarrow> (case m of Inl _ \<Rightarrow> False | Inr _ \<Rightarrow> True)"

lemma bind_res_simps [simp, res_simps]:
  "bind_res (Inl e) f = Inl e"
  "bind_res (Inr x) f = f x"
  by (simp_all add: bind_res_def)

lemma bind_res_Inr_iff [res_simps]: "bind_res m f = Inr y \<longleftrightarrow> (\<exists>x. m = Inr x \<and> f x = Inr y)"
  by (cases m) auto

lemma bind_res_InrE:
  assumes "bind_res m f = Inr y"
  obtains x where "m = Inr x" and "f x = Inr y"
  using assms by (auto simp: bind_res_Inr_iff)

lemma bind_res_assoc: "bind_res (bind_res m f) g = bind_res m (\<lambda>x. bind_res (f x) g)"
  by (cases m) simp_all

lemma raise_if_Inr_iff [simp, res_simps]: "raise_if b e = Inr u \<longleftrightarrow> \<not> b"
  by (simp add: raise_if_def)

lemma raise_if_Inl_iff [simp, res_simps]: "raise_if b e = Inl e' \<longleftrightarrow> b \<and> e' = e"
  by (auto simp: raise_if_def)

lemma is_ok_simps [simp]: "is_ok (Inl e) = False" "is_ok (Inr x) = True"
  by (simp_all add: is_ok_def)

lemma is_ok_iff: "is_ok m \<longleftrightarrow> (\<exists>x. m = Inr x)"
  by (cases m) simp_all

lemma iter_res_Inr_iff [res_simps]: "iter_res f xs = Inr u \<longleftrightarrow> (\<forall>x \<in> set xs. f x = Inr ())"
  by (induction xs) (auto simp: bind_res_Inr_iff)

text \<open>The loop rule: an invariant of the body is an invariant of the loop.\<close>

lemma fold_res_invariant:
  assumes "fold_res f xs s = Inr t" and "I s"
    and "\<And>x s t. x \<in> set xs \<Longrightarrow> I s \<Longrightarrow> f x s = Inr t \<Longrightarrow> I t"
  shows "I t"
  using assms
proof (induction xs arbitrary: s)
  case Nil
  then show ?case by simp
next
  case (Cons x xs)
  from Cons.prems(1) obtain u where u: "f x s = Inr u" and t: "fold_res f xs u = Inr t"
    by (auto elim: bind_res_InrE)
  have "I u" using Cons.prems(2,3) u by auto
  then show ?case using Cons.IH [OF t] Cons.prems(3) by auto
qed

lemma fold_res_ok:
  assumes "I s"
    and "\<And>x s. x \<in> set xs \<Longrightarrow> I s \<Longrightarrow> \<exists>t. f x s = Inr t \<and> I t"
  shows "\<exists>t. fold_res f xs s = Inr t \<and> I t"
  using assms
proof (induction xs arbitrary: s)
  case Nil
  then show ?case by simp
next
  case (Cons x xs)
  then obtain u where "f x s = Inr u" and "I u" by (meson list.set_intros(1))
  moreover from Cons have "\<exists>t. fold_res f xs u = Inr t \<and> I t"
    using \<open>I u\<close> by (meson list.set_intros(2))
  ultimately show ?case by simp
qed

lemma fold_res_append:
  "fold_res f (xs @ ys) s = bind_res (fold_res f xs s) (fold_res f ys)"
proof (induction xs arbitrary: s)
  case (Cons x xs)
  then have "fold_res f (xs @ ys) = (\<lambda>s. bind_res (fold_res f xs s) (fold_res f ys))" by blast
  then show ?case by (simp add: bind_res_assoc)
qed simp

lemma map_res_total:
  assumes "\<And>x. x \<in> set xs \<Longrightarrow> \<exists>y. f x = Inr y \<and> P x y"
  shows "\<exists>ys. map_res f xs = Inr ys \<and> list_all2 P xs ys"
  using assms
proof (induction xs)
  case (Cons x xs)
  from Cons.prems [of x] obtain y where "f x = Inr y" "P x y" by auto
  moreover from Cons obtain ys where "map_res f xs = Inr ys" "list_all2 P xs ys" by auto
  ultimately show ?case by (intro exI [of _ "y # ys"]) simp
qed simp

lemma list_all2_right: "list_all2 P xs ys \<Longrightarrow> y \<in> set ys \<Longrightarrow> \<exists>x \<in> set xs. P x y"
  by (induction rule: list_all2_induct) auto

section \<open>Ordered dictionaries\<close>

definition keys :: "'v dict \<Rightarrow> string list" where
  "keys d = map fst d"

definition has_key :: "'v dict \<Rightarrow> string \<Rightarrow> bool" where
  "has_key d k \<longleftrightarrow> k \<in> set (keys d)"

lemma keys_Nil [simp]: "keys [] = []"
  by (simp add: keys_def)

lemma keys_Cons [simp]: "keys (p # d) = fst p # keys d"
  by (simp add: keys_def)

lemma map_of_None_iff_keys [frame_simps]: "map_of d k = None \<longleftrightarrow> k \<notin> set (keys d)"
  by (simp add: keys_def map_of_eq_None_iff)

lemma map_of_Some_keys: "map_of d k = Some v \<Longrightarrow> k \<in> set (keys d)"
  by (metis map_of_None_iff_keys option.distinct(1))

lemma keys_map_of: "k \<in> set (keys d) \<Longrightarrow> \<exists>v. map_of d k = Some v"
  by (metis map_of_None_iff_keys not_None_eq)

lemma keys_update [frame_simps]:
  "keys (AList.update k v d) = (if k \<in> set (keys d) then keys d else keys d @ [k])"
  by (induction d) (auto simp: keys_def)

lemma set_keys_update [frame_simps]: "set (keys (AList.update k v d)) = insert k (set (keys d))"
  by (auto simp: keys_update)

lemma distinct_keys_update: "distinct (keys d) \<Longrightarrow> distinct (keys (AList.update k v d))"
  by (simp add: keys_update)

lemma map_of_update [frame_simps]: "map_of (AList.update k v d) = (map_of d)(k \<mapsto> v)"
  by (simp add: update_conv')

section \<open>Positions of a list\<close>

text \<open>\<open>[i for i, b in enumerate(mask) if b]\<close>, polars' \<open>arg_true\<close>.\<close>

definition arg_true :: "bool list \<Rightarrow> nat list" where
  "arg_true bs = filter (\<lambda>i. bs ! i) [0..<length bs]"

lemma set_arg_true: "set (arg_true bs) = {i. i < length bs \<and> bs ! i}"
  by (auto simp: arg_true_def)

lemma distinct_arg_true [simp]: "distinct (arg_true bs)"
  by (simp add: arg_true_def)

lemma sorted_arg_true [simp]: "sorted (arg_true bs)"
  by (simp add: arg_true_def sorted_wrt_filter)

lemma arg_true_none: "\<not> (\<exists>b \<in> set bs. b) \<Longrightarrow> arg_true bs = []"
  by (auto simp: arg_true_def filter_empty_conv in_set_conv_nth)

text \<open>\<open>enumerate(xs, start)\<close>\<close>

primrec enumerate_from :: "nat \<Rightarrow> 'a list \<Rightarrow> (nat \<times> 'a) list" where
  "enumerate_from n [] = []"
| "enumerate_from n (x # xs) = (n, x) # enumerate_from (Suc n) xs"

lemma enumerate_from_conv: "enumerate_from n xs = zip [n..<n + length xs] xs"
  by (induction xs arbitrary: n) (simp_all add: upt_rec)

lemma in_enumerate_from:
  "(i, x) \<in> set (enumerate_from n xs) \<longleftrightarrow> n \<le> i \<and> i < n + length xs \<and> xs ! (i - n) = x"
  by (auto simp: enumerate_from_conv set_zip intro!: exI [of _ "i - n"])

section \<open>Dictionary displays\<close>

text \<open>\<open>{k: v for ...}\<close>: a later entry overwrites an earlier one.\<close>

definition dict_of :: "('k \<times> 'v) list \<Rightarrow> ('k \<times> 'v) list" where
  "dict_of kvs = fold (\<lambda>(k, v). AList.update k v) kvs []"

lemma dict_of_lookup: "map_of (dict_of kvs) = map_of (rev kvs)"
proof -
  have "map_of (fold (\<lambda>(k, v). AList.update k v) kvs d) = map_of d ++ map_of (rev kvs)" for d
    by (induction kvs arbitrary: d) (auto simp: update_conv' fun_eq_iff map_add_def split: option.splits)
  then show ?thesis by (simp add: dict_of_def)
qed

lemma dict_of_lookup_distinct: "distinct (map fst kvs) \<Longrightarrow> map_of (dict_of kvs) = map_of kvs"
  by (metis dict_of_lookup distinct_rev map_of_inject_set rev_map set_rev)

lemma dict_of_keys: "fst ` set (dict_of kvs) = fst ` set kvs"
  using dict_of_lookup [of kvs] by (metis dom_map_of_conv_image_fst set_rev image_set)

lemma dict_of_distinct: "distinct (map fst kvs) \<Longrightarrow> dict_of kvs = kvs"
proof -
  have "fold (\<lambda>(k, v). AList.update k v) kvs d = d @ kvs" if "distinct (map fst (d @ kvs))" for d
    using that
  proof (induction kvs arbitrary: d)
    case (Cons kv kvs)
    have "k \<notin> fst ` set d \<Longrightarrow> AList.update k v d = d @ [(k, v)]" for k v
      by (induction d) auto
    then have "AList.update (fst kv) (snd kv) d = d @ [kv]" using Cons.prems by simp
    then show ?case using Cons.IH [of "d @ [kv]"] Cons.prems by (simp add: case_prod_beta)
  qed simp
  from this [of "[]"] show "distinct (map fst kvs) \<Longrightarrow> dict_of kvs = kvs" by (simp add: dict_of_def)
qed

end
