(* ===== verification/Mapping_Rules.thy ===== *)
theory Mapping_Rules
  imports Thalamus_Prelude
begin

text \<open>
  The \<open>mapping_rules\<close> contract of \<open>dis/libs/dis-mapping/src/dis_mapping/models\<close>:
  \<open>transform.py\<close> (the op vocabulary and its argument validation) and \<open>source_mapping.py\<close>
  (\<open>SourceMapping\<close> and its construction-time validation). A \<open>MappingConfigError\<close> is a
  \<open>config_error\<close> value: one constructor per \<open>raise\<close> statement, carrying what the message
  interpolates and the \<open>column\<close> attribute. The JSON argument dictionaries are \<open>json dict\<close>;
  what pydantic checks (field types, no extra fields) is what the record types say.
\<close>

section \<open>JSON values and specs\<close>

datatype json =
    JNull
  | JBool bool
  | JInt int
  | JFloat string  \<comment> \<open>the literal's text: only its type is inspected\<close>
  | JStr string
  | JList "json list"
  | JDict "(string \<times> json) list"

definition NORMALIZE_OPS :: "string list" where
  "NORMALIZE_OPS =
     [''parse_date'', ''parse_datetime'', ''parse_decimal'', ''parse_percent'', ''parse_integer'',
      ''parse_boolean'', ''map_enum'', ''null_tokens'', ''normalize_whitespace'', ''normalize_case'']"

definition DERIVE_GENERATOR_OPS :: "string list" where
  "DERIVE_GENERATOR_OPS = [''copy'', ''constant'', ''date_from_datetime'']"

datatype cast_type = CString | CInteger | CDecimal | CDate | CDatetime | CBoolean

record transform_spec =
  ts_op :: string
  ts_args :: "json dict"

record cast_spec =
  cs_type :: cast_type
  cs_precision :: "int option"
  cs_scale :: "int option"

datatype config_error =
    MissingArgs string string "string list"       \<comment> \<open>op, column, sorted missing keys\<close>
  | UnknownArgs string string "string list"
  | NotNonEmptyString string string string         \<comment> \<open>op, column, arg key\<close>
  | NotStringList string string string
  | TimezoneNullWithoutOffset string string        \<comment> \<open>column, format\<close>
  | TimezoneNotString string
  | TimezoneConflictsWithOffset string string string
  | DecimalSeparatorNotOneChar string string
  | ThousandsSeparatorNotOneChar string string
  | SeparatorsEqual string string
  | BooleanTokensOverlap string "string list"
  | EnumMappingNotStringDict string
  | EnumCaseFlagNotBool string
  | EnumKeysCollide string
  | WhitespaceFlagsNotBool string
  | CaseModeInvalid string
  | UnknownNormalizeOp string string
  | ConstantNotScalar string
  | UnknownDeriveGenerator string string
  | DecimalWithoutPrecision string
  | DecimalPrecisionInvalid string int int
  | PrecisionNotAllowed string cast_type
  | VersionInvalid int
  | RenameTargetsNotUnique "string list"
  | NormalizeColumnNotRenamed string
  | CastColumnNotRenamed string
  | DeriveTargetCollides string
  | DeriveListEmpty string
  | DeriveSourceNotRenamed string string string    \<comment> \<open>op, column, source\<close>
  | DeriveSourceNotDatetime string string
  | DeriveOpNotInVocabulary string string nat
  | DeriveDateThenStringOps string
  | DeriveConstantNotString string
  | DeriveCopyNotString string cast_type

section \<open>Argument validation (transform.py)\<close>

text \<open>Python \<open>sorted(set)\<close>.\<close>

definition sorted_set :: "string list \<Rightarrow> string list" where
  "sorted_set xs = sort (remdups xs)"

definition require_keys ::
  "string \<Rightarrow> string \<Rightarrow> json dict \<Rightarrow> string list \<Rightarrow> string list \<Rightarrow> config_error + unit" where
  "require_keys op column args required optional =
     (let missing = filter (\<lambda>k. \<not> has_key args k) required in
      if missing \<noteq> [] then Inl (MissingArgs op column (sorted_set missing))
      else
        let unknown = filter (\<lambda>k. k \<notin> set required \<and> k \<notin> set optional) (keys args) in
        if unknown \<noteq> [] then Inl (UnknownArgs op column (sorted_set unknown))
        else Inr ())"

text \<open>
  The subscript \<open>args[key]\<close>: the callers read it after \<open>require_keys\<close> has found the key, so
  \<open>JNull\<close> for an absent key is never reached; \<open>args.get(key, default)\<close> is \<open>arg_get\<close>.
\<close>

definition arg :: "json dict \<Rightarrow> string \<Rightarrow> json" where
  "arg args k = (case map_of args k of None \<Rightarrow> JNull | Some v \<Rightarrow> v)"

definition arg_get :: "json dict \<Rightarrow> string \<Rightarrow> json \<Rightarrow> json" where
  "arg_get args k d = (case map_of args k of None \<Rightarrow> d | Some v \<Rightarrow> v)"

fun is_json_str :: "json \<Rightarrow> bool" where
  "is_json_str (JStr _) = True"
| "is_json_str _ = False"

fun is_json_bool :: "json \<Rightarrow> bool" where
  "is_json_bool (JBool _) = True"
| "is_json_bool _ = False"

fun json_str :: "json \<Rightarrow> string" where
  "json_str (JStr s) = s"
| "json_str _ = []"

fun json_strs :: "json \<Rightarrow> string list" where
  "json_strs (JList xs) = map json_str xs"
| "json_strs _ = []"

fun json_str_dict :: "json \<Rightarrow> string dict" where
  "json_str_dict (JDict d) = map (\<lambda>(k, v). (k, json_str v)) d"
| "json_str_dict _ = []"

definition require_str :: "string \<Rightarrow> string \<Rightarrow> json dict \<Rightarrow> string \<Rightarrow> config_error + string" where
  "require_str op column args key =
     (case arg args key of
        JStr s \<Rightarrow> if s = [] then Inl (NotNonEmptyString op column key) else Inr s
      | _ \<Rightarrow> Inl (NotNonEmptyString op column key))"

definition require_str_list ::
  "string \<Rightarrow> string \<Rightarrow> json dict \<Rightarrow> string \<Rightarrow> config_error + string list" where
  "require_str_list op column args key =
     (case arg args key of
        JList vs \<Rightarrow>
          if vs = [] \<or> \<not> list_all is_json_str vs then Inl (NotStringList op column key)
          else Inr (map json_str vs)
      | _ \<Rightarrow> Inl (NotStringList op column key))"

text \<open>\<open>thou is not None and (not isinstance(thou, str) or len(thou) != 1)\<close>\<close>

definition bad_thousands :: "json \<Rightarrow> bool" where
  "bad_thousands thou =
     (case thou of JNull \<Rightarrow> False | JStr s \<Rightarrow> length s \<noteq> 1 | _ \<Rightarrow> True)"

definition validate_parse_datetime :: "string \<Rightarrow> json dict \<Rightarrow> config_error + unit" where
  "validate_parse_datetime column args =
     bind_res (require_keys ''parse_datetime'' column args [''format'', ''timezone''] []) (\<lambda>_.
     bind_res (require_str ''parse_datetime'' column args ''format'') (\<lambda>fmt.
       case arg args ''timezone'' of
         JNull \<Rightarrow> raise_if (\<not> sublist ''%z'' fmt) (TimezoneNullWithoutOffset column fmt)
       | JStr tz \<Rightarrow>
           if tz = [] then Inl (TimezoneNotString column)
           else raise_if (sublist ''%z'' fmt) (TimezoneConflictsWithOffset column tz fmt)
       | _ \<Rightarrow> Inl (TimezoneNotString column)))"

definition validate_parse_number :: "string \<Rightarrow> string \<Rightarrow> json dict \<Rightarrow> config_error + unit" where
  "validate_parse_number op column args =
     bind_res (require_keys op column args [''decimal_separator'', ''thousands_separator''] []) (\<lambda>_.
     bind_res (require_str op column args ''decimal_separator'') (\<lambda>dec.
     bind_res (raise_if (length dec \<noteq> 1) (DecimalSeparatorNotOneChar op column)) (\<lambda>_.
     let thou = arg args ''thousands_separator'' in
     bind_res (raise_if (bad_thousands thou) (ThousandsSeparatorNotOneChar op column)) (\<lambda>_.
     raise_if (thou = JStr dec) (SeparatorsEqual op column)))))"

definition validate_parse_boolean :: "string \<Rightarrow> json dict \<Rightarrow> config_error + unit" where
  "validate_parse_boolean column args =
     bind_res (require_keys ''parse_boolean'' column args [''true_values'', ''false_values''] []) (\<lambda>_.
     bind_res (require_str_list ''parse_boolean'' column args ''true_values'') (\<lambda>true_values.
     bind_res (require_str_list ''parse_boolean'' column args ''false_values'') (\<lambda>false_values.
     let overlap = filter (\<lambda>v. v \<in> set false_values) true_values in
     raise_if (overlap \<noteq> []) (BooleanTokensOverlap column (sorted_set overlap)))))"

text \<open>
  \<open>str.upper\<close> is a parameter of the definitions that fold case: its Unicode tables are outside
  the sources.
\<close>

definition validate_map_enum ::
  "(string \<Rightarrow> string) \<Rightarrow> string \<Rightarrow> json dict \<Rightarrow> config_error + unit" where
  "validate_map_enum upper column args =
     bind_res (require_keys ''map_enum'' column args [''mapping''] [''case_insensitive'']) (\<lambda>_.
     case arg args ''mapping'' of
       JDict d \<Rightarrow>
         bind_res (raise_if (d = [] \<or> \<not> list_all (\<lambda>(k, v). is_json_str v) d)
                     (EnumMappingNotStringDict column)) (\<lambda>_.
         bind_res (raise_if (\<not> is_json_bool (arg_get args ''case_insensitive'' (JBool False)))
                     (EnumCaseFlagNotBool column)) (\<lambda>_.
         if arg_get args ''case_insensitive'' (JBool False) = JBool True then
           let folded = map upper (keys d) in
           raise_if (length (remdups folded) \<noteq> length folded) (EnumKeysCollide column)
         else Inr ()))
     | _ \<Rightarrow> Inl (EnumMappingNotStringDict column))"

definition validate_normalize_args ::
  "(string \<Rightarrow> string) \<Rightarrow> transform_spec \<Rightarrow> string \<Rightarrow> config_error + unit" where
  "validate_normalize_args upper spec column =
     (let op = ts_op spec; args = ts_args spec in
      if op = ''parse_date'' then
        bind_res (require_keys op column args [''format''] []) (\<lambda>_.
        bind_res (require_str op column args ''format'') (\<lambda>_. Inr ()))
      else if op = ''parse_datetime'' then validate_parse_datetime column args
      else if op = ''parse_decimal'' \<or> op = ''parse_percent'' then
        validate_parse_number op column args
      else if op = ''parse_integer'' then
        bind_res (require_keys op column args [''thousands_separator''] []) (\<lambda>_.
        raise_if (bad_thousands (arg args ''thousands_separator''))
          (ThousandsSeparatorNotOneChar op column))
      else if op = ''parse_boolean'' then validate_parse_boolean column args
      else if op = ''map_enum'' then validate_map_enum upper column args
      else if op = ''null_tokens'' then
        bind_res (require_keys op column args [''tokens''] []) (\<lambda>_.
        bind_res (require_str_list op column args ''tokens'') (\<lambda>_. Inr ()))
      else if op = ''normalize_whitespace'' then
        bind_res (require_keys op column args [] [''trim'', ''collapse'']) (\<lambda>_.
        raise_if (\<not> is_json_bool (arg_get args ''trim'' (JBool True)) \<or>
                  \<not> is_json_bool (arg_get args ''collapse'' (JBool True)))
          (WhitespaceFlagsNotBool column))
      else if op = ''normalize_case'' then
        bind_res (require_keys op column args [''mode''] []) (\<lambda>_.
        raise_if (arg args ''mode'' \<noteq> JStr ''upper'' \<and> arg args ''mode'' \<noteq> JStr ''lower'')
          (CaseModeInvalid column))
      else Inl (UnknownNormalizeOp op column))"

fun is_scalar :: "json \<Rightarrow> bool" where
  "is_scalar (JStr _) = True"
| "is_scalar (JInt _) = True"
| "is_scalar (JFloat _) = True"
| "is_scalar (JBool _) = True"
| "is_scalar _ = False"

definition validate_derive_generator_args :: "transform_spec \<Rightarrow> string \<Rightarrow> config_error + unit" where
  "validate_derive_generator_args spec column =
     (let op = ts_op spec; args = ts_args spec in
      if op = ''copy'' then
        bind_res (require_keys op column args [''source_column''] []) (\<lambda>_.
        bind_res (require_str op column args ''source_column'') (\<lambda>_. Inr ()))
      else if op = ''constant'' then
        bind_res (require_keys op column args [''value''] []) (\<lambda>_.
        raise_if (\<not> is_scalar (arg args ''value'')) (ConstantNotScalar column))
      else if op = ''date_from_datetime'' then
        bind_res (require_keys op column args [''source_column''] []) (\<lambda>_.
        bind_res (require_str op column args ''source_column'') (\<lambda>_. Inr ()))
      else Inl (UnknownDeriveGenerator op column))"

definition validate_cast_spec :: "cast_spec \<Rightarrow> string \<Rightarrow> config_error + unit" where
  "validate_cast_spec spec column =
     (if cs_type spec = CDecimal then
        (case (cs_precision spec, cs_scale spec) of
           (Some p, Some s) \<Rightarrow> raise_if (p < 1 \<or> s < 0 \<or> s > p) (DecimalPrecisionInvalid column p s)
         | _ \<Rightarrow> Inl (DecimalWithoutPrecision column))
      else raise_if (cs_precision spec \<noteq> None \<or> cs_scale spec \<noteq> None)
             (PrecisionNotAllowed column (cs_type spec)))"

section \<open>SourceMapping (source_mapping.py)\<close>

record source_mapping =
  sm_version :: int
  sm_rename :: "string dict"
  sm_normalize :: "transform_spec list dict"
  sm_cast :: "cast_spec dict"
  sm_derive :: "transform_spec list dict"

definition target_columns :: "source_mapping \<Rightarrow> string list" where
  "target_columns m = map snd (sm_rename m) @ keys (sm_derive m)"

definition validate_derive_source ::
  "source_mapping \<Rightarrow> string \<Rightarrow> transform_spec \<Rightarrow> string list \<Rightarrow> config_error + unit" where
  "validate_derive_source m column generator rename_targets =
     (if ts_op generator = ''copy'' \<or> ts_op generator = ''date_from_datetime'' then
        let source = json_str (arg (ts_args generator) ''source_column'') in
        bind_res (raise_if (source \<notin> set rename_targets)
                    (DeriveSourceNotRenamed (ts_op generator) column source)) (\<lambda>_.
        if ts_op generator = ''date_from_datetime'' then
          (case map_of (sm_cast m) source of
             Some c \<Rightarrow> raise_if (cs_type c \<noteq> CDatetime) (DeriveSourceNotDatetime column source)
           | None \<Rightarrow> Inl (DeriveSourceNotDatetime column source))
        else Inr ())
      else Inr ())"

definition validate_derive_rest ::
  "(string \<Rightarrow> string) \<Rightarrow> string \<Rightarrow> transform_spec list \<Rightarrow> config_error + unit" where
  "validate_derive_rest upper column rest =
     iter_res (\<lambda>(position, spec).
       bind_res (raise_if (ts_op spec \<notin> set NORMALIZE_OPS)
                   (DeriveOpNotInVocabulary column (ts_op spec) position)) (\<lambda>_.
       validate_normalize_args upper spec column)) (enumerate_from 1 rest)"

definition validate_derive_composition ::
  "source_mapping \<Rightarrow> string \<Rightarrow> transform_spec \<Rightarrow> config_error + unit" where
  "validate_derive_composition m column generator =
     (if ts_op generator = ''date_from_datetime'' then Inl (DeriveDateThenStringOps column)
      else if ts_op generator = ''constant'' \<and> \<not> is_json_str (arg (ts_args generator) ''value'')
      then Inl (DeriveConstantNotString column)
      else if ts_op generator = ''copy'' then
        (case map_of (sm_cast m) (json_str (arg (ts_args generator) ''source_column'')) of
           Some c \<Rightarrow> raise_if (cs_type c \<noteq> CString) (DeriveCopyNotString column (cs_type c))
         | None \<Rightarrow> Inr ())
      else Inr ())"

definition validate_derive_list ::
  "(string \<Rightarrow> string) \<Rightarrow> source_mapping \<Rightarrow> string \<Rightarrow> transform_spec list \<Rightarrow> string list \<Rightarrow>
   config_error + unit" where
  "validate_derive_list upper m column specs rename_targets =
     (case specs of
        [] \<Rightarrow> Inl (DeriveListEmpty column)
      | generator # rest \<Rightarrow>
          bind_res (validate_derive_generator_args generator column) (\<lambda>_.
          bind_res (validate_derive_source m column generator rename_targets) (\<lambda>_.
          bind_res (validate_derive_rest upper column rest) (\<lambda>_.
          if rest \<noteq> [] then validate_derive_composition m column generator else Inr ()))))"

definition validate_rules :: "(string \<Rightarrow> string) \<Rightarrow> source_mapping \<Rightarrow> config_error + unit" where
  "validate_rules upper m =
     bind_res (raise_if (sm_version m < 1) (VersionInvalid (sm_version m))) (\<lambda>_.
     let targets = map snd (sm_rename m);
         duplicates = sorted_set (filter (\<lambda>t. count_list targets t > 1) targets) in
     bind_res (raise_if (duplicates \<noteq> []) (RenameTargetsNotUnique duplicates)) (\<lambda>_.
     bind_res (iter_res (\<lambda>column. raise_if (column \<notin> set targets) (NormalizeColumnNotRenamed column))
                 (keys (sm_normalize m))) (\<lambda>_.
     bind_res (iter_res (\<lambda>column. raise_if (column \<notin> set targets) (CastColumnNotRenamed column))
                 (keys (sm_cast m))) (\<lambda>_.
     bind_res (iter_res (\<lambda>column. raise_if (column \<in> set targets) (DeriveTargetCollides column))
                 (keys (sm_derive m))) (\<lambda>_.
     bind_res (iter_res (\<lambda>(column, specs). iter_res (\<lambda>spec. validate_normalize_args upper spec column) specs)
                 (sm_normalize m)) (\<lambda>_.
     bind_res (iter_res (\<lambda>(column, c). validate_cast_spec c column) (sm_cast m)) (\<lambda>_.
     iter_res (\<lambda>(column, specs). validate_derive_list upper m column specs targets)
       (sm_derive m))))))))"

end
