(* ===== verification/Regex_Model.thy ===== *)
theory Regex_Model
  imports Thalamus_Prelude
begin

text \<open>
  The regular expressions the sources build: the anchored patterns of
  \<open>dis_mapping/engine/normalize.py\<close>. \<open>rx_lang\<close> is the documented meaning of a pattern and
  \<open>rx_match\<close> an executable matcher (derivatives) proved to decide it, so that a witness can run
  a pattern on a concrete string. Pattern constructors mirror the pattern syntax: \<open>Atom\<close> is a
  character class, \<open>rx_opt\<close> is \<open>?\<close>, \<open>rx_plus\<close> is \<open>+\<close>, \<open>rx_rep\<close> is \<open>{m,n}\<close>.
\<close>

datatype rx = Zero | One | Atom "char list" | Alt rx rx | Seq rx rx | Star rx

definition rx_opt :: "rx \<Rightarrow> rx" where
  "rx_opt r = Alt One r"

definition rx_plus :: "rx \<Rightarrow> rx" where
  "rx_plus r = Seq r (Star r)"

text \<open>\<open>r{n}\<close> and \<open>r{m,m+k}\<close>\<close>

primrec rx_times :: "nat \<Rightarrow> rx \<Rightarrow> rx" where
  "rx_times 0 r = One"
| "rx_times (Suc n) r = Seq r (rx_times n r)"

primrec rx_upto :: "nat \<Rightarrow> rx \<Rightarrow> rx" where
  "rx_upto 0 r = One"
| "rx_upto (Suc n) r = Alt One (Seq r (rx_upto n r))"

definition rx_rep :: "nat \<Rightarrow> nat \<Rightarrow> rx \<Rightarrow> rx" where
  "rx_rep m n r = Seq (rx_times m r) (rx_upto (n - m) r)"

text \<open>\<open>re.escape(s)\<close>: the string itself, character by character\<close>

primrec rx_literal :: "string \<Rightarrow> rx" where
  "rx_literal [] = One"
| "rx_literal (c # cs) = Seq (Atom [c]) (rx_literal cs)"

inductive_set star_lang :: "string set \<Rightarrow> string set" for A where
  star_Nil [simp, intro]: "[] \<in> star_lang A"
| star_append [intro]: "u \<in> A \<Longrightarrow> v \<in> star_lang A \<Longrightarrow> u @ v \<in> star_lang A"

primrec rx_lang :: "rx \<Rightarrow> string set" where
  "rx_lang Zero = {}"
| "rx_lang One = {[]}"
| "rx_lang (Atom cs) = {[c] | c. c \<in> set cs}"
| "rx_lang (Alt r s) = rx_lang r \<union> rx_lang s"
| "rx_lang (Seq r s) = {u @ v | u v. u \<in> rx_lang r \<and> v \<in> rx_lang s}"
| "rx_lang (Star r) = star_lang (rx_lang r)"

section \<open>The executable matcher\<close>

primrec nullable :: "rx \<Rightarrow> bool" where
  "nullable Zero = False"
| "nullable One = True"
| "nullable (Atom cs) = False"
| "nullable (Alt r s) = (nullable r \<or> nullable s)"
| "nullable (Seq r s) = (nullable r \<and> nullable s)"
| "nullable (Star r) = True"

primrec deriv :: "char \<Rightarrow> rx \<Rightarrow> rx" where
  "deriv c Zero = Zero"
| "deriv c One = Zero"
| "deriv c (Atom cs) = (if c \<in> set cs then One else Zero)"
| "deriv c (Alt r s) = Alt (deriv c r) (deriv c s)"
| "deriv c (Seq r s) =
     (if nullable r then Alt (Seq (deriv c r) s) (deriv c s) else Seq (deriv c r) s)"
| "deriv c (Star r) = Seq (deriv c r) (Star r)"

primrec rx_match :: "rx \<Rightarrow> string \<Rightarrow> bool" where
  "rx_match r [] = nullable r"
| "rx_match r (c # cs) = rx_match (deriv c r) cs"

lemma nullable_iff: "nullable r \<longleftrightarrow> [] \<in> rx_lang r"
  by (induction r) auto

lemma star_lang_Cons:
  "c # s \<in> star_lang A \<longleftrightarrow> (\<exists>u v. s = u @ v \<and> c # u \<in> A \<and> v \<in> star_lang A)"
proof
  assume "c # s \<in> star_lang A"
  then show "\<exists>u v. s = u @ v \<and> c # u \<in> A \<and> v \<in> star_lang A"
    by (induction "c # s" arbitrary: c s rule: star_lang.induct) (auto simp: append_eq_Cons_conv)
next
  assume "\<exists>u v. s = u @ v \<and> c # u \<in> A \<and> v \<in> star_lang A"
  then obtain u v where "s = u @ v" "c # u \<in> A" "v \<in> star_lang A" by blast
  then show "c # s \<in> star_lang A" using star_append [of "c # u" A v] by simp
qed

lemma rx_lang_deriv: "s \<in> rx_lang (deriv c r) \<longleftrightarrow> c # s \<in> rx_lang r"
proof (induction r arbitrary: s)
  case (Seq r1 r2)
  then show ?case by (auto simp: nullable_iff Cons_eq_append_conv)
next
  case (Star r)
  then show ?case by (auto simp: star_lang_Cons)
qed auto

lemma rx_match_iff: "rx_match r s \<longleftrightarrow> s \<in> rx_lang r"
  by (induction s arbitrary: r) (simp_all add: nullable_iff rx_lang_deriv)

section \<open>Meaning of the derived pattern forms\<close>

lemma rx_lang_opt: "rx_lang (rx_opt r) = insert [] (rx_lang r)"
  by (simp add: rx_opt_def)

lemma rx_lang_Seq_Atom: "rx_lang (Seq (Atom cs) r) = {c # v | c v. c \<in> set cs \<and> v \<in> rx_lang r}"
proof -
  have "rx_lang (Seq (Atom cs) r) = {[c] @ v | c v. c \<in> set cs \<and> v \<in> rx_lang r}"
    by (simp only: rx_lang.simps) blast
  then show ?thesis by simp
qed

lemma rx_lang_literal: "rx_lang (rx_literal s) = {s}"
  by (induction s) auto

lemma star_lang_Atom: "star_lang {[c] | c. c \<in> set cs} = {s. set s \<subseteq> set cs}"
proof (intro set_eqI iffI)
  fix s
  assume "s \<in> star_lang {[c] | c. c \<in> set cs}"
  then show "s \<in> {s. set s \<subseteq> set cs}"
    by (induction rule: star_lang.induct) auto
next
  fix s
  assume "s \<in> {s. set s \<subseteq> set cs}"
  then show "s \<in> star_lang {[c] | c. c \<in> set cs}"
  proof (induction s)
    case (Cons c s)
    then have "[c] \<in> {[c] | c. c \<in> set cs}" "s \<in> star_lang {[c] | c. c \<in> set cs}" by auto
    from star_append [OF this] show ?case by simp
  qed simp
qed

lemma rx_lang_plus_Atom: "rx_lang (rx_plus (Atom cs)) = {s. s \<noteq> [] \<and> set s \<subseteq> set cs}"
  by (auto simp: rx_plus_def rx_lang_Seq_Atom star_lang_Atom neq_Nil_conv simp del: rx_lang.simps(5))

lemma rx_lang_times_Atom:
  "rx_lang (rx_times n (Atom cs)) = {s. length s = n \<and> set s \<subseteq> set cs}"
  by (induction n) (auto simp: rx_lang_Seq_Atom length_Suc_conv simp del: rx_lang.simps(5))

lemma rx_lang_upto_Atom:
  "rx_lang (rx_upto n (Atom cs)) = {s. length s \<le> n \<and> set s \<subseteq> set cs}"
proof (induction n)
  case (Suc n)
  have "s \<in> rx_lang (rx_upto (Suc n) (Atom cs)) \<longleftrightarrow> length s \<le> Suc n \<and> set s \<subseteq> set cs" for s
    using Suc by (cases s) (auto simp: rx_lang_Seq_Atom simp del: rx_lang.simps(5))
  then show ?case by blast
qed auto

lemma rx_lang_rep_Atom:
  assumes "m \<le> n"
  shows "rx_lang (rx_rep m n (Atom cs)) = {s. m \<le> length s \<and> length s \<le> n \<and> set s \<subseteq> set cs}"
proof -
  have "s \<in> rx_lang (rx_rep m n (Atom cs)) \<longleftrightarrow>
      m \<le> length s \<and> length s \<le> n \<and> set s \<subseteq> set cs" for s
  proof
    assume "s \<in> rx_lang (rx_rep m n (Atom cs))"
    then show "m \<le> length s \<and> length s \<le> n \<and> set s \<subseteq> set cs"
      using assms by (auto simp: rx_rep_def rx_lang_times_Atom rx_lang_upto_Atom)
  next
    assume r: "m \<le> length s \<and> length s \<le> n \<and> set s \<subseteq> set cs"
    have "take m s \<in> rx_lang (rx_times m (Atom cs))"
      using r by (auto simp: rx_lang_times_Atom dest: in_set_takeD)
    moreover have "drop m s \<in> rx_lang (rx_upto (n - m) (Atom cs))"
      using r by (auto simp: rx_lang_upto_Atom dest: in_set_dropD)
    ultimately show "s \<in> rx_lang (rx_rep m n (Atom cs))"
      by (force simp: rx_rep_def intro: exI [of _ "take m s"] exI [of _ "drop m s"])
  qed
  then show ?thesis by blast
qed

end
