(* ===== verification/Mapping_Engine.thy ===== *)
theory Mapping_Engine
  imports Mapping_Rules Regex_Model
begin

text \<open>
  The four-stage engine of \<open>dis/libs/dis-mapping/src/dis_mapping/engine\<close>
  (\<open>rename.py\<close>, \<open>normalize.py\<close>, \<open>cast.py\<close>, \<open>derive.py\<close>, \<open>apply.py\<close>) and its result type
  (\<open>result.py\<close>). A polars frame is an ordered dictionary of series, a series a list of nullable
  cells with a dtype; a column of dtype String is \<open>StrSeries\<close>, any other \<open>TypedSeries\<close>. What
  polars itself computes on a cell (date parsing, casts, case mapping, decimal arithmetic,
  regular-expression search) is the parameter \<open>polars\<close> of the definitions.
\<close>

section \<open>Values, series, frames\<close>

datatype dtype = DString | DInt64 | DDecimal int int | DDate | DDatetimeUTC | DBoolean | DOther string

text \<open>Dates are days since the epoch and datetimes microseconds since it, in UTC.\<close>

datatype cellval = VInt int | VDecimal int int | VDate int | VDatetime int | VBool bool | VOther string

datatype series = StrSeries "string option list" | TypedSeries dtype "cellval option list"

type_synonym frame = "series dict"

fun series_dtype :: "series \<Rightarrow> dtype" where
  "series_dtype (StrSeries _) = DString"
| "series_dtype (TypedSeries d _) = d"

fun series_len :: "series \<Rightarrow> nat" where
  "series_len (StrSeries cs) = length cs"
| "series_len (TypedSeries _ cs) = length cs"

fun height :: "frame \<Rightarrow> nat" where
  "height [] = 0"
| "height ((_, s) # _) = series_len s"

fun take_rows :: "nat list \<Rightarrow> series \<Rightarrow> series" where
  "take_rows ix (StrSeries cs) = StrSeries (map (\<lambda>i. cs ! i) ix)"
| "take_rows ix (TypedSeries d cs) = TypedSeries d (map (\<lambda>i. cs ! i) ix)"

datatype pattern =
    Anchored rx  \<comment> \<open>\<open>^r$\<close>\<close>
  | AtEnd rx     \<comment> \<open>\<open>r$\<close>\<close>

record polars =
  pl_contains :: "pattern \<Rightarrow> string \<Rightarrow> bool"
  pl_replace :: "pattern \<Rightarrow> string \<Rightarrow> string \<Rightarrow> string"
  pl_replace_all_literal :: "string \<Rightarrow> string \<Rightarrow> string \<Rightarrow> string"
  pl_collapse_whitespace :: "string \<Rightarrow> string"
  pl_strip_chars :: "string \<Rightarrow> string"
  pl_upper :: "string \<Rightarrow> string"
  pl_lower :: "string \<Rightarrow> string"
  pl_strptime_date :: "string \<Rightarrow> string \<Rightarrow> int option"
  pl_strftime_date :: "int \<Rightarrow> string"
  pl_strptime_datetime :: "string \<Rightarrow> string \<Rightarrow> int option"
  pl_format_aware :: "string \<Rightarrow> bool"
  pl_zone_known :: "string option \<Rightarrow> bool"
  pl_replace_time_zone :: "string option \<Rightarrow> int \<Rightarrow> int option"
  pl_strftime_datetime :: "int \<Rightarrow> string"
  pl_decimal18_div100 :: "string \<Rightarrow> string option"
  pl_str_to_int :: "string \<Rightarrow> int option"
  pl_str_to_decimal :: "int \<Rightarrow> int \<Rightarrow> string \<Rightarrow> int option"
  pl_str_to_date :: "string \<Rightarrow> int option"
  pl_str_to_datetime :: "string \<Rightarrow> int option"
  pl_cast_value :: "dtype \<Rightarrow> cellval \<Rightarrow> cellval option"
  pl_cast_to_string :: "cellval \<Rightarrow> string option"
  pl_value_str :: "cellval \<Rightarrow> string"

section \<open>Results (result.py)\<close>

datatype map_stage = StNormalize | StCast | StDerive

text \<open>The \<open>expected_format\<close> text, as the template and what it interpolates.\<close>

datatype expectation =
    ExpNothing
  | ExpDate string
  | ExpDatetime string "string option"
  | ExpDecimal string "string option"
  | ExpPercent string "string option"
  | ExpInteger "string option"
  | ExpBoolean "string list" "string list"
  | ExpEnum "string list"
  | ExpCast cast_spec

record cell_failure =
  cf_row_index :: nat
  cf_column :: string
  cf_source_column :: "string option"
  cf_value :: "string option"
  cf_op :: string
  cf_transform_index :: nat
  cf_expected_format :: expectation
  cf_stage :: map_stage

record mapping_result =
  mr_contribution :: frame
  mr_source_row_indices :: "nat list"
  mr_failures :: "cell_failure list"

definition failed_row_indices :: "mapping_result \<Rightarrow> nat list" where
  "failed_row_indices r = sort (remdups (map cf_row_index (mr_failures r)))"

datatype engine_error =
    MissingSourceColumns "string list"       \<comment> \<open>MappingInputError of rename\<close>
  | NormalizeOnTypedColumn string dtype      \<comment> \<open>MappingInputError of normalize\<close>
  | TimezoneNotAccepted string "string option" \<comment> \<open>MappingConfigError of parse_datetime\<close>
  | UnknownOp string                         \<comment> \<open>KeyError of \<open>NORMALIZE_IMPLS[op]\<close>\<close>
  | ColumnNotFound string                    \<comment> \<open>polars: \<open>get_column\<close>, \<open>select\<close>\<close>
  | StringOpOnTyped string                   \<comment> \<open>polars: a string op on another dtype\<close>
  | DateOfNonTemporal string                 \<comment> \<open>polars: \<open>.dt.date()\<close> on another dtype\<close>

section \<open>The ops (normalize.py)\<close>

record op_outcome =
  oo_values :: "string option list"
  oo_failed :: "bool list"
  oo_expected :: expectation

definition no_failures :: "string option list \<Rightarrow> bool list" where
  "no_failures s = replicate (length s) False"

definition null_where :: "string option list \<Rightarrow> bool list \<Rightarrow> string option list" where
  "null_where vs msk = map2 (\<lambda>v m. if m then None else v) vs msk"

definition parse_date :: "polars \<Rightarrow> string option list \<Rightarrow> json dict \<Rightarrow> op_outcome" where
  "parse_date pl s args =
     (let fmt = json_str (arg args ''format'');
          parsed = map (\<lambda>c. Option.bind c (pl_strptime_date pl fmt)) s;
          failed = map2 (\<lambda>p c. p = None \<and> c \<noteq> None) parsed s
      in \<lparr>oo_values = map (map_option (pl_strftime_date pl)) parsed, oo_failed = failed,
          oo_expected = ExpDate fmt\<rparr>)"

fun json_str_opt :: "json \<Rightarrow> string option" where
  "json_str_opt (JStr s) = Some s"
| "json_str_opt _ = None"

definition parse_datetime ::
  "polars \<Rightarrow> string \<Rightarrow> string option list \<Rightarrow> json dict \<Rightarrow> engine_error + op_outcome" where
  "parse_datetime pl column s args =
     (let fmt = json_str (arg args ''format'');
          tz = json_str_opt (arg args ''timezone'');
          wall = map (\<lambda>c. Option.bind c (pl_strptime_datetime pl fmt)) s in
      bind_res
        (if pl_format_aware pl fmt then Inr wall
         else if \<not> pl_zone_known pl tz then Inl (TimezoneNotAccepted column tz)
         else Inr (map (\<lambda>p. Option.bind p (pl_replace_time_zone pl tz)) wall))
        (\<lambda>parsed.
          let failed = map2 (\<lambda>p c. p = None \<and> c \<noteq> None) parsed s in
          Inr \<lparr>oo_values = map (map_option (pl_strftime_datetime pl)) parsed, oo_failed = failed,
               oo_expected = ExpDatetime fmt tz\<rparr>))"

definition digit :: rx where
  "digit = Atom ''0123456789''"

definition numeric_body_pattern :: "string option \<Rightarrow> rx" where
  "numeric_body_pattern thousands_separator =
     (case thousands_separator of
        Some (c # cs) \<Rightarrow>
          Alt (rx_plus digit)
              (Seq (rx_rep 1 3 digit) (rx_plus (Seq (rx_literal (c # cs)) (rx_times 3 digit))))
      | _ \<Rightarrow> rx_plus digit)"

definition sign_pattern :: rx where
  "sign_pattern = rx_opt (Atom ''+-'')"

definition fraction_pattern :: "string \<Rightarrow> rx" where
  "fraction_pattern dec = rx_opt (Seq (rx_literal dec) (rx_plus digit))"

definition decimal_pattern :: "string \<Rightarrow> string option \<Rightarrow> rx" where
  "decimal_pattern dec thou =
     Seq sign_pattern (Seq (numeric_body_pattern thou) (fraction_pattern dec))"

definition strip_separators ::
  "polars \<Rightarrow> string option list \<Rightarrow> string option \<Rightarrow> string option \<Rightarrow> string option list" where
  "strip_separators pl s decimal_separator thousands_separator =
     (let cleaned =
        (case thousands_separator of
           Some (c # cs) \<Rightarrow> map (map_option (pl_replace_all_literal pl (c # cs) [])) s
         | _ \<Rightarrow> s)
      in case decimal_separator of
           Some (c # cs) \<Rightarrow>
             if c # cs \<noteq> ''.'' then map (map_option (pl_replace_all_literal pl (c # cs) ''.'')) cleaned
             else cleaned
         | _ \<Rightarrow> cleaned)"

text \<open>\<open>s.is_not_null() & ~s.str.contains(pattern).fill_null(False)\<close>\<close>

definition not_matching :: "polars \<Rightarrow> rx \<Rightarrow> string option list \<Rightarrow> bool list" where
  "not_matching pl r s =
     map (\<lambda>c. case c of None \<Rightarrow> False | Some x \<Rightarrow> \<not> pl_contains pl (Anchored r) x) s"

definition parse_decimal :: "polars \<Rightarrow> string option list \<Rightarrow> json dict \<Rightarrow> op_outcome" where
  "parse_decimal pl s args =
     (let dec = json_str (arg args ''decimal_separator'');
          thou = json_str_opt (arg args ''thousands_separator'');
          failed = not_matching pl (decimal_pattern dec thou) s;
          cleaned = strip_separators pl s (Some dec) thou
      in \<lparr>oo_values = null_where cleaned failed, oo_failed = failed,
          oo_expected = ExpDecimal dec thou\<rparr>)"

definition percent_pattern :: "string \<Rightarrow> string option \<Rightarrow> rx" where
  "percent_pattern dec thou =
     Seq sign_pattern
       (Seq (numeric_body_pattern thou) (Seq (fraction_pattern dec) (rx_opt (Atom ''%''))))"

definition parse_percent :: "polars \<Rightarrow> string option list \<Rightarrow> json dict \<Rightarrow> op_outcome" where
  "parse_percent pl s args =
     (let dec = json_str (arg args ''decimal_separator'');
          thou = json_str_opt (arg args ''thousands_separator'');
          failed = not_matching pl (percent_pattern dec thou) s;
          body = map (map_option (pl_replace pl (AtEnd (Atom ''%'')) [])) s;
          cleaned = strip_separators pl body (Some dec) thou;
          divided = map (\<lambda>c. Option.bind c (pl_decimal18_div100 pl)) cleaned;
          trimmed = map (map_option (\<lambda>x. pl_replace pl (AtEnd (Atom ''.'')) []
                       (pl_replace pl (AtEnd (rx_plus (Atom ''0''))) [] x))) divided
      in \<lparr>oo_values = null_where trimmed failed, oo_failed = failed,
          oo_expected = ExpPercent dec thou\<rparr>)"

definition parse_integer :: "polars \<Rightarrow> string option list \<Rightarrow> json dict \<Rightarrow> op_outcome" where
  "parse_integer pl s args =
     (let thou = json_str_opt (arg args ''thousands_separator'');
          failed = not_matching pl (Seq sign_pattern (numeric_body_pattern thou)) s;
          cleaned = strip_separators pl s None thou
      in \<lparr>oo_values = null_where cleaned failed, oo_failed = failed,
          oo_expected = ExpInteger thou\<rparr>)"

definition parse_boolean :: "string option list \<Rightarrow> json dict \<Rightarrow> op_outcome" where
  "parse_boolean s args =
     (let true_values = json_strs (arg args ''true_values'');
          false_values = json_strs (arg args ''false_values'')
      in \<lparr>oo_values = map (\<lambda>c. case c of None \<Rightarrow> None
            | Some x \<Rightarrow> if x \<in> set true_values then Some ''true''
                        else if x \<in> set false_values then Some ''false'' else None) s,
          oo_failed = map (\<lambda>c. case c of None \<Rightarrow> False
            | Some x \<Rightarrow> \<not> (x \<in> set true_values \<or> x \<in> set false_values)) s,
          oo_expected = ExpBoolean true_values false_values\<rparr>)"

definition map_enum :: "polars \<Rightarrow> string option list \<Rightarrow> json dict \<Rightarrow> op_outcome" where
  "map_enum pl s args =
     (let mapping = json_str_dict (arg args ''mapping'');
          case_insensitive = (arg_get args ''case_insensitive'' (JBool False) = JBool True);
          lookup = (if case_insensitive
                    then fold (\<lambda>(k, v) d. AList.update (pl_upper pl k) v d) mapping []
                    else mapping);
          keys' = (if case_insensitive then map (map_option (pl_upper pl)) s else s);
          mapped = map (\<lambda>c. Option.bind c (map_of lookup)) keys';
          failed = map2 (\<lambda>m c. m = None \<and> c \<noteq> None) mapped s
      in \<lparr>oo_values = mapped, oo_failed = failed, oo_expected = ExpEnum (sort (keys mapping))\<rparr>)"

definition null_tokens :: "string option list \<Rightarrow> json dict \<Rightarrow> op_outcome" where
  "null_tokens s args =
     (let tokens = json_strs (arg args ''tokens'');
          msk = map (\<lambda>c. case c of None \<Rightarrow> False | Some x \<Rightarrow> x \<in> set tokens) s
      in \<lparr>oo_values = null_where s msk, oo_failed = no_failures s, oo_expected = ExpNothing\<rparr>)"

definition normalize_whitespace :: "polars \<Rightarrow> string option list \<Rightarrow> json dict \<Rightarrow> op_outcome" where
  "normalize_whitespace pl s args =
     (let trimmed = (if arg_get args ''trim'' (JBool True) = JBool True
                     then map (map_option (pl_strip_chars pl)) s else s);
          collapsed = (if arg_get args ''collapse'' (JBool True) = JBool True
                       then map (map_option (pl_collapse_whitespace pl)) trimmed else trimmed)
      in \<lparr>oo_values = collapsed, oo_failed = no_failures s, oo_expected = ExpNothing\<rparr>)"

definition normalize_case :: "polars \<Rightarrow> string option list \<Rightarrow> json dict \<Rightarrow> op_outcome" where
  "normalize_case pl s args =
     \<lparr>oo_values = map (map_option (if arg args ''mode'' = JStr ''upper'' then pl_upper pl else pl_lower pl)) s,
      oo_failed = no_failures s, oo_expected = ExpNothing\<rparr>"

text \<open>\<open>NORMALIZE_IMPLS[op](series, args)\<close>: the dispatch table.\<close>

definition normalize_impl ::
  "polars \<Rightarrow> string \<Rightarrow> string \<Rightarrow> string option list \<Rightarrow> json dict \<Rightarrow> engine_error + op_outcome" where
  "normalize_impl pl op column s args =
     (if op = ''parse_date'' then Inr (parse_date pl s args)
      else if op = ''parse_datetime'' then parse_datetime pl column s args
      else if op = ''parse_decimal'' then Inr (parse_decimal pl s args)
      else if op = ''parse_percent'' then Inr (parse_percent pl s args)
      else if op = ''parse_integer'' then Inr (parse_integer pl s args)
      else if op = ''parse_boolean'' then Inr (parse_boolean s args)
      else if op = ''map_enum'' then Inr (map_enum pl s args)
      else if op = ''null_tokens'' then Inr (null_tokens s args)
      else if op = ''normalize_whitespace'' then Inr (normalize_whitespace pl s args)
      else if op = ''normalize_case'' then Inr (normalize_case pl s args)
      else Inl (UnknownOp op))"

section \<open>Transform lists and the normalize stage\<close>

definition step_failures ::
  "string \<Rightarrow> string option \<Rightarrow> map_stage \<Rightarrow> nat \<Rightarrow> string \<Rightarrow> string option list \<Rightarrow> op_outcome \<Rightarrow>
   cell_failure list" where
  "step_failures column source_column stage index op entering outcome =
     map (\<lambda>row. \<lparr>cf_row_index = row, cf_column = column, cf_source_column = source_column,
                 cf_value = entering ! row, cf_op = op, cf_transform_index = index,
                 cf_expected_format = oo_expected outcome, cf_stage = stage\<rparr>)
       (arg_true (oo_failed outcome))"

definition transform_step ::
  "polars \<Rightarrow> string \<Rightarrow> string option \<Rightarrow> map_stage \<Rightarrow> nat \<times> transform_spec \<Rightarrow>
   string option list \<times> cell_failure list \<Rightarrow>
   engine_error + (string option list \<times> cell_failure list)" where
  "transform_step pl column source_column stage ispec st =
     (case (ispec, st) of ((index, spec), (current, failures)) \<Rightarrow>
       bind_res (normalize_impl pl (ts_op spec) column current (ts_args spec)) (\<lambda>outcome.
       Inr (null_where (oo_values outcome) (oo_failed outcome),
            failures @ step_failures column source_column stage index (ts_op spec) current outcome)))"

definition apply_transform_list ::
  "polars \<Rightarrow> string option list \<Rightarrow> string \<Rightarrow> transform_spec list \<Rightarrow> string option \<Rightarrow> map_stage \<Rightarrow> nat \<Rightarrow>
   cell_failure list \<Rightarrow> engine_error + (string option list \<times> cell_failure list)" where
  "apply_transform_list pl cells column specs source_column stage offset failures =
     fold_res (transform_step pl column source_column stage) (enumerate_from offset specs)
       (cells, failures)"

definition normalize_column ::
  "polars \<Rightarrow> string dict \<Rightarrow> string \<times> transform_spec list \<Rightarrow> frame \<times> cell_failure list \<Rightarrow>
   engine_error + (frame \<times> cell_failure list)" where
  "normalize_column pl rename_inverse rule st =
     (case (rule, st) of ((column, specs), (frame, failures)) \<Rightarrow>
       case map_of frame column of
         None \<Rightarrow> Inl (ColumnNotFound column)
       | Some (TypedSeries d _) \<Rightarrow> Inl (NormalizeOnTypedColumn column d)
       | Some (StrSeries cells) \<Rightarrow>
           bind_res (apply_transform_list pl cells column specs (map_of rename_inverse column)
                       StNormalize 0 failures) (\<lambda>(normalized, failures').
           Inr (AList.update column (StrSeries normalized) frame, failures')))"

definition run_normalize ::
  "polars \<Rightarrow> transform_spec list dict \<Rightarrow> string dict \<Rightarrow> frame \<times> cell_failure list \<Rightarrow>
   engine_error + (frame \<times> cell_failure list)" where
  "run_normalize pl rules rename_inverse st = fold_res (normalize_column pl rename_inverse) rules st"

section \<open>The rename stage (rename.py)\<close>

definition run_rename :: "frame \<Rightarrow> string dict \<Rightarrow> engine_error + frame" where
  "run_rename frame rename =
     (let missing = filter (\<lambda>source. \<not> has_key frame source) (keys rename) in
      if missing \<noteq> [] then Inl (MissingSourceColumns missing)
      else Inr (map (\<lambda>(source, canonical). (canonical, the (map_of frame source))) rename))"

section \<open>The cast stage (cast.py)\<close>

definition target_dtype :: "cast_spec \<Rightarrow> dtype" where
  "target_dtype spec =
     (case cs_type spec of
        CString \<Rightarrow> DString
      | CInteger \<Rightarrow> DInt64
      | CDecimal \<Rightarrow> DDecimal (the (cs_precision spec)) (the (cs_scale spec))
      | CDate \<Rightarrow> DDate
      | CDatetime \<Rightarrow> DDatetimeUTC
      | CBoolean \<Rightarrow> DBoolean)"

definition cast_string_cell :: "polars \<Rightarrow> cast_spec \<Rightarrow> string \<Rightarrow> cellval option" where
  "cast_string_cell pl spec x =
     (case cs_type spec of
        CString \<Rightarrow> None
      | CInteger \<Rightarrow> map_option VInt (pl_str_to_int pl x)
      | CDecimal \<Rightarrow>
          map_option (\<lambda>n. VDecimal n (the (cs_scale spec)))
            (pl_str_to_decimal pl (the (cs_precision spec)) (the (cs_scale spec)) x)
      | CDate \<Rightarrow> map_option VDate (pl_str_to_date pl x)
      | CDatetime \<Rightarrow> map_option VDatetime (pl_str_to_datetime pl x)
      | CBoolean \<Rightarrow> if x = ''true'' then Some (VBool True)
                    else if x = ''false'' then Some (VBool False) else None)"

definition cast_string_series :: "polars \<Rightarrow> string option list \<Rightarrow> cast_spec \<Rightarrow> series" where
  "cast_string_series pl cells spec =
     (if cs_type spec = CString then StrSeries cells
      else TypedSeries (target_dtype spec) (map (\<lambda>c. Option.bind c (cast_string_cell pl spec)) cells))"

definition cast_typed_series :: "polars \<Rightarrow> cellval option list \<Rightarrow> dtype \<Rightarrow> series" where
  "cast_typed_series pl cells target =
     (if target = DString then StrSeries (map (\<lambda>c. Option.bind c (pl_cast_to_string pl)) cells)
      else TypedSeries target (map (\<lambda>c. Option.bind c (pl_cast_value pl target)) cells))"

fun is_null_mask :: "series \<Rightarrow> bool list" where
  "is_null_mask (StrSeries cs) = map (\<lambda>c. c = None) cs"
| "is_null_mask (TypedSeries _ cs) = map (\<lambda>c. c = None) cs"

fun cell_str :: "polars \<Rightarrow> series \<Rightarrow> nat \<Rightarrow> string option" where
  "cell_str pl (StrSeries cs) i = cs ! i"
| "cell_str pl (TypedSeries _ cs) i = map_option (pl_value_str pl) (cs ! i)"

definition cast_series :: "polars \<Rightarrow> series \<Rightarrow> cast_spec \<Rightarrow> series" where
  "cast_series pl s spec =
     (case s of
        StrSeries cells \<Rightarrow> cast_string_series pl cells spec
      | TypedSeries _ cells \<Rightarrow> cast_typed_series pl cells (target_dtype spec))"

definition cast_column ::
  "polars \<Rightarrow> string dict \<Rightarrow> string \<times> cast_spec \<Rightarrow> frame \<times> cell_failure list \<Rightarrow>
   engine_error + (frame \<times> cell_failure list)" where
  "cast_column pl rename_inverse rule st =
     (case (rule, st) of ((column, spec), (frame, failures)) \<Rightarrow>
       case map_of frame column of
         None \<Rightarrow> Inl (ColumnNotFound column)
       | Some s \<Rightarrow>
           if series_dtype s = target_dtype spec then Inr (frame, failures)
           else
             let cast_values = cast_series pl s spec;
                 failed = map2 (\<lambda>new_null old_null. new_null \<and> \<not> old_null) (is_null_mask cast_values) (is_null_mask s);
                 new = map (\<lambda>row. \<lparr>cf_row_index = row, cf_column = column,
                           cf_source_column = map_of rename_inverse column,
                           cf_value = cell_str pl s row, cf_op = ''cast'', cf_transform_index = 0,
                           cf_expected_format = ExpCast spec, cf_stage = StCast\<rparr>)
                         (arg_true failed)
             in Inr (AList.update column cast_values frame, failures @ new))"

definition run_cast ::
  "polars \<Rightarrow> cast_spec dict \<Rightarrow> string dict \<Rightarrow> frame \<times> cell_failure list \<Rightarrow>
   engine_error + (frame \<times> cell_failure list)" where
  "run_cast pl rules rename_inverse st = fold_res (cast_column pl rename_inverse) rules st"

section \<open>The derive stage (derive.py)\<close>

definition us_per_day :: int where
  "us_per_day = 86400000000"

text \<open>\<open>.dt.date()\<close> of a UTC datetime: the day its microsecond count falls in.\<close>

fun date_of :: "cellval \<Rightarrow> cellval" where
  "date_of (VDatetime us) = VDate (us div us_per_day)"
| "date_of v = v"

fun constant_series :: "json \<Rightarrow> nat \<Rightarrow> series" where
  "constant_series (JStr x) n = StrSeries (replicate n (Some x))"
| "constant_series (JBool b) n = TypedSeries DBoolean (replicate n (Some (VBool b)))"
| "constant_series (JInt k) n = TypedSeries DInt64 (replicate n (Some (VInt k)))"
| "constant_series (JFloat x) n = TypedSeries (DOther ''Float64'') (replicate n (Some (VOther x)))"
| "constant_series _ n = TypedSeries (DOther ''Null'') (replicate n None)"

definition generate :: "frame \<Rightarrow> transform_spec \<Rightarrow> engine_error + series" where
  "generate frame spec =
     (let source = json_str (arg (ts_args spec) ''source_column'') in
      if ts_op spec = ''copy'' then
        (case map_of frame source of None \<Rightarrow> Inl (ColumnNotFound source) | Some s \<Rightarrow> Inr s)
      else if ts_op spec = ''constant'' then
        Inr (constant_series (arg (ts_args spec) ''value'') (height frame))
      else
        (case map_of frame source of
           None \<Rightarrow> Inl (ColumnNotFound source)
         | Some (TypedSeries DDatetimeUTC cells) \<Rightarrow> Inr (TypedSeries DDate (map (map_option date_of) cells))
         | Some _ \<Rightarrow> Inl (DateOfNonTemporal source)))"

definition derive_column ::
  "polars \<Rightarrow> string \<times> transform_spec list \<Rightarrow> frame \<times> cell_failure list \<Rightarrow>
   engine_error + (frame \<times> cell_failure list)" where
  "derive_column pl rule st =
     (case (rule, st) of
        ((column, []), _) \<Rightarrow> Inl (UnknownOp [])
      | ((column, generator # rest), (frame, failures)) \<Rightarrow>
          bind_res (generate frame generator) (\<lambda>s.
          if rest = [] then Inr (AList.update column s frame, failures)
          else
            case s of
              TypedSeries _ _ \<Rightarrow> Inl (StringOpOnTyped column)
            | StrSeries cells \<Rightarrow>
                bind_res (apply_transform_list pl cells column rest
                   (json_str_opt (arg (ts_args generator) ''source_column'')) StDerive 1 failures)
                (\<lambda>(cells', failures'). Inr (AList.update column (StrSeries cells') frame, failures'))))"

definition run_derive ::
  "polars \<Rightarrow> transform_spec list dict \<Rightarrow> frame \<times> cell_failure list \<Rightarrow>
   engine_error + (frame \<times> cell_failure list)" where
  "run_derive pl rules st = fold_res (derive_column pl) rules st"

section \<open>apply_mapping (apply.py)\<close>

definition rename_inverse :: "source_mapping \<Rightarrow> string dict" where
  "rename_inverse m = fold (\<lambda>(source, canonical) d. AList.update canonical source d) (sm_rename m) []"

definition run_stages :: "polars \<Rightarrow> source_mapping \<Rightarrow> frame \<Rightarrow> engine_error + (frame \<times> cell_failure list)" where
  "run_stages pl m chunk =
     bind_res (run_rename chunk (sm_rename m)) (\<lambda>frame.
     bind_res (run_normalize pl (sm_normalize m) (rename_inverse m) (frame, [])) (\<lambda>st.
     bind_res (run_cast pl (sm_cast m) (rename_inverse m) st) (\<lambda>st.
     run_derive pl (sm_derive m) st)))"

definition keep_rows :: "frame \<Rightarrow> cell_failure list \<Rightarrow> nat list" where
  "keep_rows frame failures = filter (\<lambda>i. i \<notin> cf_row_index ` set failures) [0..<height frame]"

definition select_rows :: "frame \<Rightarrow> string list \<Rightarrow> nat list \<Rightarrow> engine_error + frame" where
  "select_rows frame cols ix =
     map_res (\<lambda>c. case map_of frame c of
                    None \<Rightarrow> Inl (ColumnNotFound c)
                  | Some s \<Rightarrow> Inr (c, take_rows ix s)) cols"

definition apply_mapping :: "polars \<Rightarrow> source_mapping \<Rightarrow> frame \<Rightarrow> engine_error + mapping_result" where
  "apply_mapping pl m chunk =
     bind_res (run_stages pl m chunk) (\<lambda>(frame, failures).
     let keep = keep_rows frame failures in
     bind_res (select_rows frame (target_columns m) keep) (\<lambda>contribution.
     Inr \<lparr>mr_contribution = contribution, mr_source_row_indices = keep, mr_failures = failures\<rparr>))"

end
