(* ===== verification/Mapping_Correct.thy ===== *)
theory Mapping_Correct
  imports Mapping_Engine
begin

text \<open>
  Correctness of the mapping engine. The three column-wise stages (normalize, cast, derive) share
  one contract, the locale \<open>column_stage\<close>: a step rewrites one column, keeps its length, nulls
  exactly what it reports and reports only cells that were not null. The stage invariant
  \<open>stage_inv\<close> is proved once from the contract and the three stages are interpretations of it.
\<close>

section \<open>Frames\<close>

definition wf_frame :: "nat \<Rightarrow> frame \<Rightarrow> bool" where
  "wf_frame n F \<longleftrightarrow>
     distinct (keys F) \<and> (\<forall>(c, s) \<in> set F. series_len s = n) \<and> height F = n"

definition null_at :: "frame \<Rightarrow> string \<Rightarrow> nat \<Rightarrow> bool" where
  "null_at F c i \<longleftrightarrow> (\<exists>s. map_of F c = Some s \<and> is_null_mask s ! i)"

lemma length_is_null_mask [simp]: "length (is_null_mask s) = series_len s"
  by (cases s) simp_all

lemma wf_frame_lookup: "wf_frame n F \<Longrightarrow> map_of F c = Some s \<Longrightarrow> series_len s = n"
  by (auto simp: wf_frame_def dest: map_of_SomeD)

lemma wf_frame_height: "wf_frame n F \<Longrightarrow> height F = n"
  by (simp add: wf_frame_def)

lemma set_update_subset: "set (AList.update k v d) \<subseteq> insert (k, v) (set d)"
  by (induction d) auto

lemma update_same: "map_of d k = Some v \<Longrightarrow> AList.update k v d = d"
  by (induction d) (auto split: if_splits)

lemma height_update: "height (AList.update c s F) = n" if "height F = n" "series_len s = n"
  using that by (cases F rule: height.cases) auto

lemma wf_frame_update: "wf_frame n F \<Longrightarrow> series_len s = n \<Longrightarrow> wf_frame n (AList.update c s F)"
  using set_update_subset [of c s F]
  by (fastforce simp: wf_frame_def distinct_keys_update height_update)

lemma null_at_update: "null_at (AList.update c s F) c' i \<longleftrightarrow>
    (if c' = c then is_null_mask s ! i else null_at F c' i)"
  by (auto simp: null_at_def map_of_update)

section \<open>Every op passes null through and nulls nothing it does not report\<close>

text \<open>What all ten ops guarantee, cell by cell.\<close>

definition outcome_ok :: "string option list \<Rightarrow> op_outcome \<Rightarrow> bool" where
  "outcome_ok s out \<longleftrightarrow>
     length (oo_values out) = length s \<and> length (oo_failed out) = length s \<and>
     (\<forall>i < length s. s ! i = None \<longrightarrow> oo_values out ! i = None \<and> \<not> oo_failed out ! i)"

named_theorems op_defs \<open>definitions of the normalize ops\<close>

declare parse_date_def [op_defs] parse_decimal_def [op_defs] parse_percent_def [op_defs]
  parse_integer_def [op_defs] parse_boolean_def [op_defs] map_enum_def [op_defs]
  null_tokens_def [op_defs] normalize_whitespace_def [op_defs] normalize_case_def [op_defs]

lemma length_null_where [simp]: "length (null_where vs ms) = min (length vs) (length ms)"
  by (simp add: null_where_def)

lemma nth_null_where [simp]:
  "i < length vs \<Longrightarrow> i < length ms \<Longrightarrow> null_where vs ms ! i = (if ms ! i then None else vs ! i)"
  by (simp add: null_where_def)

lemma length_strip_separators [simp]: "length (strip_separators pl s d t) = length s"
  by (simp add: strip_separators_def Let_def split: option.splits list.splits)

lemma nth_strip_separators_None:
  "i < length s \<Longrightarrow> s ! i = None \<Longrightarrow> strip_separators pl s d t ! i = None"
  by (simp add: strip_separators_def Let_def split: option.splits list.splits)

lemma not_matching_simps [simp]:
  "length (not_matching pl r s) = length s"
  "i < length s \<Longrightarrow> not_matching pl r s ! i =
     (case s ! i of None \<Rightarrow> False | Some x \<Rightarrow> \<not> pl_contains pl (Anchored r) x)"
  by (simp_all add: not_matching_def)

lemma no_failures_simps [simp]:
  "length (no_failures s) = length s" "i < length s \<Longrightarrow> \<not> no_failures s ! i"
  by (simp_all add: no_failures_def)

lemma outcome_ok_pure_ops:
  "outcome_ok s (parse_date pl s args)"
  "outcome_ok s (parse_decimal pl s args)"
  "outcome_ok s (parse_percent pl s args)"
  "outcome_ok s (parse_integer pl s args)"
  "outcome_ok s (parse_boolean s args)"
  "outcome_ok s (map_enum pl s args)"
  "outcome_ok s (null_tokens s args)"
  "outcome_ok s (normalize_whitespace pl s args)"
  "outcome_ok s (normalize_case pl s args)"
  by (simp_all add: outcome_ok_def op_defs Let_def nth_strip_separators_None)

lemma outcome_ok_parse_datetime:
  "parse_datetime pl column s args = Inr out \<Longrightarrow> outcome_ok s out"
  by (auto simp: parse_datetime_def Let_def outcome_ok_def res_simps split: if_splits)

lemma normalize_impl_outcome_ok:
  "normalize_impl pl op column s args = Inr out \<Longrightarrow> outcome_ok s out"
  using outcome_ok_pure_ops outcome_ok_parse_datetime
  by (auto simp: normalize_impl_def split: if_splits)

section \<open>Transform lists\<close>

text \<open>
  The loop invariant of \<open>apply_transform_list\<close> relative to the cells \<open>s0\<close> it started from and the
  failures \<open>fs0\<close> it was handed.
\<close>

definition list_inv ::
  "string option list \<Rightarrow> cell_failure list \<Rightarrow> string \<Rightarrow> string option list \<times> cell_failure list \<Rightarrow> bool" where
  "list_inv s0 fs0 column st \<longleftrightarrow>
     (case st of (cur, fs) \<Rightarrow>
       length cur = length s0 \<and> (\<forall>i < length s0. s0 ! i = None \<longrightarrow> cur ! i = None) \<and>
       (\<exists>new. fs = fs0 @ new \<and> distinct (map cf_row_index new) \<and>
          (\<forall>f \<in> set new. cf_column f = column \<and> cf_row_index f < length s0 \<and>
             s0 ! cf_row_index f \<noteq> None \<and> cur ! cf_row_index f = None)))"

lemma step_failures_rows:
  "map cf_row_index (step_failures column sc stage ix op s out) = arg_true (oo_failed out)"
  by (simp add: step_failures_def comp_def)

lemma in_step_failures:
  "f \<in> set (step_failures column sc stage ix op s out) \<Longrightarrow>
     cf_column f = column \<and> cf_transform_index f = ix \<and> cf_op f = op \<and> cf_stage f = stage \<and>
     cf_source_column f = sc \<and> cf_row_index f \<in> set (arg_true (oo_failed out))"
  by (auto simp: step_failures_def)

lemma transform_step_inv:
  assumes inv: "list_inv s0 fs0 column (cur, fs)"
    and step: "transform_step pl column sc stage (ix, spec) (cur, fs) = Inr st'"
  shows "list_inv s0 fs0 column st'"
proof -
  from step obtain out where impl: "normalize_impl pl (ts_op spec) column cur (ts_args spec) = Inr out"
    and st': "st' = (null_where (oo_values out) (oo_failed out),
                fs @ step_failures column sc stage ix (ts_op spec) cur out)"
    by (auto simp: transform_step_def res_simps)
  from impl have ok: "outcome_ok cur out" by (rule normalize_impl_outcome_ok)
  from inv obtain new where fs: "fs = fs0 @ new" and d: "distinct (map cf_row_index new)"
    and new: "\<forall>f \<in> set new. cf_column f = column \<and> cf_row_index f < length s0 \<and>
             s0 ! cf_row_index f \<noteq> None \<and> cur ! cf_row_index f = None"
    and len: "length cur = length s0" and nul: "\<forall>i < length s0. s0 ! i = None \<longrightarrow> cur ! i = None"
    by (auto simp: list_inv_def)
  let ?add = "step_failures column sc stage ix (ts_op spec) cur out"
  have add: "cf_column f = column \<and> cf_row_index f < length s0 \<and> oo_failed out ! cf_row_index f \<and>
      cur ! cf_row_index f \<noteq> None \<and> s0 ! cf_row_index f \<noteq> None" if "f \<in> set ?add" for f
    using in_step_failures [OF that] ok len nul by (fastforce simp: set_arg_true outcome_ok_def)
  have "cf_row_index ` set new \<inter> cf_row_index ` set ?add = {}"
    using add new by fastforce
  moreover have "distinct (map cf_row_index ?add)" by (simp add: step_failures_rows)
  ultimately have dist: "distinct (map cf_row_index (new @ ?add))"
    using d by simp
  have fin: "\<forall>f \<in> set (new @ ?add). cf_column f = column \<and> cf_row_index f < length s0 \<and>
      s0 ! cf_row_index f \<noteq> None \<and> null_where (oo_values out) (oo_failed out) ! cf_row_index f = None"
    using new add ok len nul by (auto simp: outcome_ok_def)
  have "\<forall>i < length s0. s0 ! i = None \<longrightarrow> null_where (oo_values out) (oo_failed out) ! i = None"
    using ok len nul by (simp add: outcome_ok_def)
  then show ?thesis
    unfolding list_inv_def st' fs prod.case append_assoc
    using ok len dist fin
    by (intro conjI exI [of _ "new @ ?add"]) (simp_all add: outcome_ok_def del: nth_null_where)
qed

lemma apply_transform_list_inv:
  assumes "apply_transform_list pl cells column specs sc stage off fs = Inr st'"
  shows "list_inv cells fs column st'"
proof (rule fold_res_invariant [where I = "list_inv cells fs column",
      OF assms [unfolded apply_transform_list_def]])
  show "list_inv cells fs column (cells, fs)" by (simp add: list_inv_def)
next
  fix x and s t :: "string option list \<times> cell_failure list"
  assume "list_inv cells fs column s" "transform_step pl column sc stage x s = Inr t"
  then show "list_inv cells fs column t"
    by (cases x; cases s) (auto intro: transform_step_inv)
qed

section \<open>The contract of a column stage\<close>

text \<open>
  What one step of a stage may do to the frame: rewrite column \<open>c\<close> with a series of the same
  length, in which null cells stay null, and report \<open>new\<close> failures, at most one per row, on
  cells of \<open>c\<close> that were not null before and are null afterwards.
\<close>

definition column_step :: "nat \<Rightarrow> string \<Rightarrow> frame \<Rightarrow> frame \<Rightarrow> cell_failure list \<Rightarrow> bool" where
  "column_step n c F F' new \<longleftrightarrow>
     (\<exists>s. F' = AList.update c s F \<and> series_len s = n \<and>
        (\<forall>i < n. null_at F c i \<longrightarrow> is_null_mask s ! i) \<and>
        distinct (map cf_row_index new) \<and>
        (\<forall>f \<in> set new. cf_column f = c \<and> cf_row_index f < n \<and>
           is_null_mask s ! cf_row_index f \<and> \<not> null_at F c (cf_row_index f)))"

definition stage_inv :: "nat \<Rightarrow> frame \<times> cell_failure list \<Rightarrow> bool" where
  "stage_inv n st \<longleftrightarrow>
     (case st of (F, fs) \<Rightarrow>
       wf_frame n F \<and> distinct (map (\<lambda>f. (cf_row_index f, cf_column f)) fs) \<and>
       (\<forall>f \<in> set fs. cf_row_index f < n \<and> null_at F (cf_column f) (cf_row_index f)))"

lemma column_step_inv:
  assumes inv: "stage_inv n (F, fs)" and step: "column_step n c F F' new"
  shows "stage_inv n (F', fs @ new)"
proof -
  from step obtain s where F': "F' = AList.update c s F" and len: "series_len s = n"
    and nul: "\<forall>i < n. null_at F c i \<longrightarrow> is_null_mask s ! i"
    and d: "distinct (map cf_row_index new)"
    and new: "\<forall>f \<in> set new. cf_column f = c \<and> cf_row_index f < n \<and>
       is_null_mask s ! cf_row_index f \<and> \<not> null_at F c (cf_row_index f)"
    by (auto simp: column_step_def)
  let ?key = "\<lambda>f. (cf_row_index f, cf_column f)"
  have old: "\<forall>f \<in> set fs. cf_row_index f < n \<and> null_at F (cf_column f) (cf_row_index f)"
    using inv by (simp add: stage_inv_def)
  have "map cf_row_index new = map fst (map ?key new)" by (simp add: comp_def)
  with d have "distinct (map ?key new)" by (metis distinct_map)
  moreover have "?key ` set fs \<inter> ?key ` set new = {}"
  proof -
    have "?key f \<noteq> ?key g" if "f \<in> set fs" "g \<in> set new" for f g
      using old new that by (metis prod.inject)
    then show ?thesis by blast
  qed
  ultimately have "distinct (map ?key (fs @ new))"
    using inv by (simp add: stage_inv_def)
  moreover have "\<forall>f \<in> set (fs @ new). cf_row_index f < n \<and> null_at F' (cf_column f) (cf_row_index f)"
    using old new nul by (auto simp: F' null_at_update)
  moreover have "wf_frame n F'"
    using inv len by (simp add: stage_inv_def F' wf_frame_update)
  ultimately show ?thesis by (simp add: stage_inv_def)
qed

locale column_stage =
  fixes step :: "string \<times> 'r \<Rightarrow> frame \<times> cell_failure list \<Rightarrow> engine_error + (frame \<times> cell_failure list)"
    and pre :: "string \<Rightarrow> frame \<Rightarrow> bool"
  assumes step_contract:
      "wf_frame n F \<Longrightarrow> pre c F \<Longrightarrow> step (c, r) (F, fs) = Inr (F', fs') \<Longrightarrow>
         \<exists>new. fs' = fs @ new \<and> column_step n c F F' new"
    and pre_other: "pre c F \<Longrightarrow> c' \<noteq> c \<Longrightarrow> pre c (AList.update c' s F)"
begin

lemma step_inv:
  assumes "stage_inv n (F, fs)" and "pre c F" and "step (c, r) (F, fs) = Inr (F', fs')"
  shows "stage_inv n (F', fs')"
proof -
  have "wf_frame n F" using assms(1) by (simp add: stage_inv_def)
  then obtain new where "fs' = fs @ new" "column_step n c F F' new"
    using step_contract assms(2,3) by blast
  then show ?thesis using column_step_inv assms(1) by simp
qed

lemma fold_step_inv:
  assumes "fold_res step rules st = Inr st'" and "stage_inv n st"
    and "distinct (keys rules)" and "\<forall>c \<in> set (keys rules). pre c (fst st)"
  shows "stage_inv n st' \<and> set (keys (fst st')) = set (keys (fst st)) \<union> set (keys rules) \<and>
         (\<exists>new. snd st' = snd st @ new \<and> cf_column ` set new \<subseteq> set (keys rules))"
  using assms
proof (induction rules arbitrary: st)
  case Nil
  then show ?case by simp
next
  case (Cons rule rules)
  obtain c r where rule: "rule = (c, r)" by fastforce
  obtain F fs where st: "st = (F, fs)" by fastforce
  from Cons.prems(1) obtain mid where s1: "step (c, r) (F, fs) = Inr mid"
    and s2: "fold_res step rules mid = Inr st'"
    by (auto simp: rule st elim: bind_res_InrE)
  obtain F' fs' where mid: "mid = (F', fs')" by fastforce
  have "wf_frame n F" using Cons.prems(2) by (simp add: st stage_inv_def)
  then obtain new where fs': "fs' = fs @ new" and cs: "column_step n c F F' new"
    using step_contract s1 Cons.prems(4) by (fastforce simp: rule st mid)
  then obtain s where F': "F' = AList.update c s F" by (auto simp: column_step_def)
  have inv: "stage_inv n mid"
    using column_step_inv [OF _ cs] Cons.prems(2) by (simp add: st mid fs')
  have "\<forall>d \<in> set (keys rules). pre d (fst mid)"
  proof
    fix d assume d: "d \<in> set (keys rules)"
    then have "d \<noteq> c" using Cons.prems(3) by (auto simp: rule)
    then show "pre d (fst mid)" using Cons.prems(4) d by (auto simp: mid F' st intro: pre_other)
  qed
  from Cons.IH [OF s2 inv _ this] obtain new' where IH: "stage_inv n st'"
    "set (keys (fst st')) = set (keys F') \<union> set (keys rules)"
    "snd st' = fs' @ new'" "cf_column ` set new' \<subseteq> set (keys rules)"
    using Cons.prems(3) by (auto simp: mid)
  have "cf_column ` set (new @ new') \<subseteq> set (keys (rule # rules))"
    using cs IH(4) by (auto simp: rule column_step_def)
  moreover have "snd st' = snd st @ (new @ new')" using IH(3) by (simp add: fs' st)
  ultimately show ?case
    using IH(1,2) by (auto simp: rule st F' set_keys_update)
qed

end

section \<open>The three stages satisfy the contract\<close>

lemma list_inv_column_step:
  assumes inv: "list_inv cells fs c (cells', fs')"
    and col: "map_of F c = Some (StrSeries cells) \<or> c \<notin> set (keys F)"
    and n: "length cells = n"
  shows "\<exists>new. fs' = fs @ new \<and> column_step n c F (AList.update c (StrSeries cells') F) new"
proof -
  from inv obtain new where new: "fs' = fs @ new" "distinct (map cf_row_index new)"
    "\<forall>f \<in> set new. cf_column f = c \<and> cf_row_index f < n \<and> cells ! cf_row_index f \<noteq> None \<and>
       cells' ! cf_row_index f = None"
    and len: "length cells' = n" and nul: "\<forall>i < n. cells ! i = None \<longrightarrow> cells' ! i = None"
    by (auto simp: list_inv_def n)
  have at: "null_at F c i \<longrightarrow> cells ! i = None" if "i < n" for i
    using col that n by (auto simp: null_at_def dest: map_of_Some_keys)
  have "column_step n c F (AList.update c (StrSeries cells') F) new"
    unfolding column_step_def
    using new len nul at by (intro exI [of _ "StrSeries cells'"]) fastforce
  with new(1) show ?thesis by blast
qed

interpretation norm_stage: column_stage "normalize_column pl ri" "\<lambda>c F. True" for pl ri
proof (standard, goal_cases)
  case (1 n F c r fs F' fs')
  from 1(3) obtain cells cells' where
    c: "map_of F c = Some (StrSeries cells)" and
    a: "apply_transform_list pl cells c r (map_of ri c) StNormalize 0 fs = Inr (cells', fs')" and
    F': "F' = AList.update c (StrSeries cells') F"
    by (auto simp: normalize_column_def res_simps split: option.splits series.splits)
  from c 1(1) have "length cells = n" by (auto dest: wf_frame_lookup)
  with list_inv_column_step [OF apply_transform_list_inv [OF a]] c show ?case
    by (simp add: F')
next
  case 2
  then show ?case by simp
qed

lemma series_len_cast_series [simp]: "series_len (cast_series pl s spec) = series_len s"
  by (simp add: cast_series_def cast_string_series_def cast_typed_series_def split: series.splits)

lemma cast_series_null:
  "i < series_len s \<Longrightarrow> is_null_mask s ! i \<Longrightarrow> is_null_mask (cast_series pl s spec) ! i"
  by (cases s) (simp_all add: cast_series_def cast_string_series_def cast_typed_series_def)

interpretation cast_stage: column_stage "cast_column pl ri" "\<lambda>c F. True" for pl ri
proof (standard, goal_cases)
  case (1 n F c spec fs F' fs')
  from 1(3) obtain s where s: "map_of F c = Some s"
    by (auto simp: cast_column_def split: option.splits)
  have len: "series_len s = n" using 1(1) s by (rule wf_frame_lookup)
  have at: "null_at F c i \<longleftrightarrow> is_null_mask s ! i" for i
    by (simp add: null_at_def s)
  show ?case
  proof (cases "series_dtype s = target_dtype spec")
    case True
    then have "F' = AList.update c s F" "fs' = fs @ []"
      using 1(3) s by (simp_all add: cast_column_def update_same)
    then show ?thesis
      by (intro exI [of _ "[]"]) (auto simp: column_step_def len at)
  next
    case False
    let ?t = "cast_series pl s spec"
    let ?failed = "map2 (\<lambda>a b. a \<and> \<not> b) (is_null_mask ?t) (is_null_mask s)"
    from False 1(3) s obtain new where F': "F' = AList.update c ?t F" and fs': "fs' = fs @ new"
      and rows: "map cf_row_index new = arg_true ?failed" and col: "\<forall>f \<in> set new. cf_column f = c"
      by (auto simp: cast_column_def Let_def comp_def)
    have "cf_row_index f < n \<and> is_null_mask ?t ! cf_row_index f \<and> \<not> is_null_mask s ! cf_row_index f"
      if "f \<in> set new" for f
    proof -
      have "cf_row_index f \<in> set (arg_true ?failed)"
        using that rows by (metis image_eqI list.set_map)
      then show ?thesis by (auto simp: set_arg_true len)
    qed
    then have "column_step n c F F' new"
      unfolding column_step_def
      using F' rows col len by (intro exI [of _ ?t]) (auto simp: at cast_series_null)
    with fs' show ?thesis by blast
  qed
next
  case 2
  then show ?case by simp
qed

lemma series_len_constant_series [simp]: "series_len (constant_series v n) = n"
  by (cases v) simp_all

lemma generate_len: "generate F spec = Inr s \<Longrightarrow> wf_frame n F \<Longrightarrow> series_len s = n"
  by (auto simp: generate_def Let_def split: if_splits option.splits series.splits dtype.splits
      dest: wf_frame_lookup wf_frame_height)

text \<open>
  Derive targets are new columns: \<open>validate_rules\<close> refuses a target that a rename produces.
\<close>

definition fresh_column :: "string \<Rightarrow> frame \<Rightarrow> bool" where
  "fresh_column c F \<longleftrightarrow> c \<notin> set (keys F)"

lemma fresh_not_null_at: "fresh_column c F \<Longrightarrow> \<not> null_at F c i"
  by (auto simp: fresh_column_def null_at_def dest: map_of_Some_keys)

interpretation derive_stage: column_stage "derive_column pl" fresh_column for pl
proof (standard, goal_cases)
  case (1 n F c r fs F' fs')
  from 1(3) obtain generator rest where r: "r = generator # rest"
    by (auto simp: derive_column_def split: list.splits)
  from 1(3) obtain s where s: "generate F generator = Inr s"
    by (auto simp: derive_column_def r res_simps)
  have len: "series_len s = n" using s 1(1) by (rule generate_len)
  show ?case
  proof (cases "rest = []")
    case True
    then have "F' = AList.update c s F" "fs' = fs @ []"
      using 1(3) s by (simp_all add: derive_column_def r)
    then show ?thesis
      using len fresh_not_null_at [OF 1(2)] by (intro exI [of _ "[]"]) (auto simp: column_step_def)
  next
    case False
    with 1(3) s obtain cells cells' sc where cells: "s = StrSeries cells"
      and a: "apply_transform_list pl cells c rest sc StDerive 1 fs = Inr (cells', fs')"
      and F': "F' = AList.update c (StrSeries cells') F"
      by (auto simp: derive_column_def r res_simps split: series.splits)
    have "length cells = n" using len by (simp add: cells)
    with list_inv_column_step [OF apply_transform_list_inv [OF a]] 1(2) show ?thesis
      by (simp add: F' fresh_column_def)
  qed
next
  case (2 c F c' s)
  then show ?case by (simp add: fresh_column_def set_keys_update)
qed

section \<open>The stages composed\<close>

definition mapping_wf :: "source_mapping \<Rightarrow> bool" where
  "mapping_wf m \<longleftrightarrow> distinct (keys (sm_rename m)) \<and> distinct (keys (sm_normalize m)) \<and>
     distinct (keys (sm_cast m)) \<and> distinct (keys (sm_derive m))"

text \<open>What construction-time validation establishes about the shape of a mapping.\<close>

lemma distinct_iff_count: "distinct xs \<longleftrightarrow> (\<forall>x \<in> set xs. \<not> count_list xs x > 1)"
  by (induction xs) (auto simp: count_list_0_iff)

lemma sorted_set_Nil [simp]: "sorted_set xs = [] \<longleftrightarrow> xs = []"
  by (metis sorted_set_def set_sort set_remdups set_empty)

lemma validate_rules_shape:
  assumes "validate_rules upper m = Inr u"
  shows "distinct (map snd (sm_rename m))"
    and "set (keys (sm_normalize m)) \<subseteq> set (map snd (sm_rename m))"
    and "set (keys (sm_cast m)) \<subseteq> set (map snd (sm_rename m))"
    and "set (keys (sm_derive m)) \<inter> set (map snd (sm_rename m)) = {}"
  using assms
  by (auto simp: validate_rules_def Let_def res_simps distinct_iff_count filter_empty_conv)

definition mapping_shape :: "source_mapping \<Rightarrow> bool" where
  "mapping_shape m \<longleftrightarrow> mapping_wf m \<and> distinct (map snd (sm_rename m)) \<and>
     set (keys (sm_normalize m)) \<subseteq> set (map snd (sm_rename m)) \<and>
     set (keys (sm_cast m)) \<subseteq> set (map snd (sm_rename m)) \<and>
     set (keys (sm_derive m)) \<inter> set (map snd (sm_rename m)) = {}"

lemma validate_rules_mapping_shape:
  "validate_rules upper m = Inr u \<Longrightarrow> mapping_wf m \<Longrightarrow> mapping_shape m"
  using validate_rules_shape unfolding mapping_shape_def by blast

definition rename_rows :: "source_mapping \<Rightarrow> frame \<Rightarrow> nat" where
  "rename_rows m chunk = (if sm_rename m = [] then 0 else height chunk)"

lemma run_rename_wf:
  assumes "run_rename chunk (sm_rename m) = Inr F" and "wf_frame (height chunk) chunk"
    and "distinct (map snd (sm_rename m))"
  shows "wf_frame (rename_rows m chunk) F" and "keys F = map snd (sm_rename m)"
proof -
  have F: "F = map (\<lambda>(source, canonical). (canonical, the (map_of chunk source))) (sm_rename m)"
    and has: "\<forall>k \<in> set (keys (sm_rename m)). k \<in> set (keys chunk)"
    using assms(1) by (auto simp: run_rename_def Let_def has_key_def filter_empty_conv split: if_splits)
  show k: "keys F = map snd (sm_rename m)"
    by (auto simp: F keys_def)
  have len: "series_len s = height chunk" if "(c, s) \<in> set F" for c s
  proof -
    from that obtain src where "s = the (map_of chunk src)" "src \<in> set (keys (sm_rename m))"
      by (force simp: F keys_def)
    with has keys_map_of [of src chunk] show ?thesis
      using wf_frame_lookup [OF assms(2)] by (metis option.sel)
  qed
  have "height F = rename_rows m chunk"
  proof (cases F rule: height.cases)
    case 1
    then show ?thesis by (simp add: rename_rows_def F)
  next
    case (2 c s rest)
    then have "sm_rename m \<noteq> []" by (auto simp: F)
    with 2 len [of c s] show ?thesis by (simp add: rename_rows_def)
  qed
  moreover have "F = [] \<or> rename_rows m chunk = height chunk"
    by (auto simp: F rename_rows_def)
  ultimately show "wf_frame (rename_rows m chunk) F"
    using len assms(3) by (auto simp: wf_frame_def k)
qed

lemma run_stages_inv:
  assumes run: "run_stages pl m chunk = Inr (F, fs)" and wf: "wf_frame (height chunk) chunk"
    and shape: "mapping_shape m"
  shows "stage_inv (rename_rows m chunk) (F, fs)" and "set (keys F) = set (target_columns m)"
    and "cf_column ` set fs \<subseteq> set (target_columns m)"
proof -
  let ?n = "rename_rows m chunk" and ?T = "set (map snd (sm_rename m))"
  obtain F1 st2 st3 where r: "run_rename chunk (sm_rename m) = Inr F1"
    and n: "fold_res (normalize_column pl (rename_inverse m)) (sm_normalize m) (F1, []) = Inr st2"
    and c: "fold_res (cast_column pl (rename_inverse m)) (sm_cast m) st2 = Inr st3"
    and d: "fold_res (derive_column pl) (sm_derive m) st3 = Inr (F, fs)"
    using run by (auto simp: run_stages_def run_normalize_def run_cast_def run_derive_def
        elim!: bind_res_InrE)
  have "stage_inv ?n (F1, [])" and k1: "set (keys F1) = ?T"
    using run_rename_wf [OF r wf] shape by (simp_all add: stage_inv_def mapping_shape_def)
  note s2 = norm_stage.fold_step_inv [OF n this(1)]
  have i2: "stage_inv ?n st2" and k2: "set (keys (fst st2)) = ?T"
    and c2: "cf_column ` set (snd st2) \<subseteq> ?T"
    using s2 k1 shape by (auto simp: mapping_shape_def mapping_wf_def)
  note s3 = cast_stage.fold_step_inv [OF c i2]
  have i3: "stage_inv ?n st3" and k3: "set (keys (fst st3)) = ?T"
    and c3: "cf_column ` set (snd st3) \<subseteq> ?T"
    using s3 k2 c2 shape by (auto simp: mapping_shape_def mapping_wf_def image_subset_iff subset_iff)
  have "\<forall>c \<in> set (keys (sm_derive m)). fresh_column c (fst st3)"
    using k3 shape by (auto simp: fresh_column_def mapping_shape_def)
  note s4 = derive_stage.fold_step_inv [OF d i3 _ this]
  show "stage_inv ?n (F, fs)" and "set (keys F) = set (target_columns m)"
    and "cf_column ` set fs \<subseteq> set (target_columns m)"
    using s4 k3 c3 shape
    by (auto simp: target_columns_def mapping_shape_def mapping_wf_def image_subset_iff)
qed

section \<open>The result of apply_mapping\<close>

lemma map_res_Inr_keys:
  assumes "map_res f xs = Inr ys" and "\<And>x y. x \<in> set xs \<Longrightarrow> f x = Inr y \<Longrightarrow> P x y"
  shows "list_all2 P xs ys"
  using assms by (induction xs arbitrary: ys) (auto simp: res_simps)

lemma apply_mappingE:
  assumes "apply_mapping pl m chunk = Inr r"
  obtains F where "run_stages pl m chunk = Inr (F, mr_failures r)"
    and "mr_source_row_indices r = keep_rows F (mr_failures r)"
    and "select_rows F (target_columns m) (keep_rows F (mr_failures r)) = Inr (mr_contribution r)"
  using assms by (auto simp: apply_mapping_def Let_def elim!: bind_res_InrE)

lemma series_len_take_rows [simp]: "series_len (take_rows ix s) = length ix"
  by (cases s) simp_all

lemma select_rows_Inr:
  assumes "select_rows F cols ix = Inr C"
  shows "keys C = cols" and "(c, s) \<in> set C \<Longrightarrow> \<exists>s0. map_of F c = Some s0 \<and> s = take_rows ix s0"
proof -
  have all: "list_all2 (\<lambda>c cs. fst cs = c \<and> (\<exists>s0. map_of F c = Some s0 \<and> snd cs = take_rows ix s0)) cols C"
    using assms unfolding select_rows_def
    by (rule map_res_Inr_keys) (auto split: option.splits)
  then show "keys C = cols"
    by (auto simp: keys_def list_all2_conv_all_nth intro!: nth_equalityI)
  show "\<exists>s0. map_of F c = Some s0 \<and> s = take_rows ix s0" if "(c, s) \<in> set C"
    using all that by (fastforce simp: list_all2_conv_all_nth in_set_conv_nth)
qed

lemma keep_rows_partition:
  assumes "stage_inv n (F, fs)"
  shows "set (keep_rows F fs) \<union> cf_row_index ` set fs = {..<n}"
    and "set (keep_rows F fs) \<inter> cf_row_index ` set fs = {}"
  using assms by (auto simp: keep_rows_def stage_inv_def dest: wf_frame_height)

section \<open>Totality: a validated mapping never raises on a string chunk\<close>

text \<open>
  The zone names a mapping declares are known to polars, and a format with \<open>%z\<close> parses to aware
  datetimes. Both are properties of the time zone database and of polars, not of the sources.
\<close>

definition spec_zone_known :: "polars \<Rightarrow> transform_spec \<Rightarrow> bool" where
  "spec_zone_known pl spec \<longleftrightarrow>
     (ts_op spec = ''parse_datetime'' \<longrightarrow>
       (case arg (ts_args spec) ''timezone'' of JStr tz \<Rightarrow> pl_zone_known pl (Some tz) | _ \<Rightarrow> True))"

definition zones_known :: "polars \<Rightarrow> source_mapping \<Rightarrow> bool" where
  "zones_known pl m \<longleftrightarrow>
     list_all (\<lambda>(c, specs). list_all (spec_zone_known pl) specs) (sm_normalize m @ sm_derive m)"

definition offset_formats_aware :: "polars \<Rightarrow> bool" where
  "offset_formats_aware pl \<longleftrightarrow> (\<forall>fmt. sublist ''%z'' fmt \<longrightarrow> pl_format_aware pl fmt)"

definition string_chunk :: "source_mapping \<Rightarrow> frame \<Rightarrow> bool" where
  "string_chunk m chunk \<longleftrightarrow>
     list_all (\<lambda>src. case map_of chunk src of Some (StrSeries _) \<Rightarrow> True | _ \<Rightarrow> False) (keys (sm_rename m))"

lemma validated_parse_datetime:
  assumes v: "validate_parse_datetime column args = Inr u" and off: "offset_formats_aware pl"
    and z: "spec_zone_known pl \<lparr>ts_op = ''parse_datetime'', ts_args = args\<rparr>"
  shows "\<exists>out. parse_datetime pl column' s args = Inr out"
proof -
  from v obtain fmt where fmt: "require_str ''parse_datetime'' column args ''format'' = Inr fmt"
    and tz: "(case arg args ''timezone'' of
         JNull \<Rightarrow> raise_if (\<not> sublist ''%z'' fmt) (TimezoneNullWithoutOffset column fmt)
       | JStr tz \<Rightarrow>
           if tz = [] then Inl (TimezoneNotString column)
           else raise_if (sublist ''%z'' fmt) (TimezoneConflictsWithOffset column tz fmt)
       | _ \<Rightarrow> Inl (TimezoneNotString column)) = Inr u"
    by (auto simp: validate_parse_datetime_def res_simps)
  from fmt have f: "json_str (arg args ''format'') = fmt"
    by (auto simp: require_str_def split: json.splits if_splits)
  show ?thesis
    using tz z off
    by (cases "arg args ''timezone''")
      (auto simp: parse_datetime_def Let_def f offset_formats_aware_def spec_zone_known_def split: if_splits)
qed

lemma validated_normalize_impl:
  assumes "validate_normalize_args upper spec column = Inr u" and "offset_formats_aware pl"
    and "spec_zone_known pl spec"
  shows "\<exists>out. normalize_impl pl (ts_op spec) column' s (ts_args spec) = Inr out"
proof (cases "ts_op spec = ''parse_datetime''")
  case True
  then have "validate_parse_datetime column (ts_args spec) = Inr u"
    using assms(1) by (simp add: validate_normalize_args_def)
  from validated_parse_datetime [OF this assms(2)] True assms(3) show ?thesis
    by (simp add: normalize_impl_def spec_zone_known_def)
next
  case False
  with assms(1) show ?thesis
    by (auto simp: normalize_impl_def validate_normalize_args_def Let_def split: if_splits)
qed

lemma validated_transform_list:
  assumes "\<forall>spec \<in> set specs. validate_normalize_args upper spec column = Inr () \<and> spec_zone_known pl spec"
    and off: "offset_formats_aware pl"
  shows "\<exists>st. apply_transform_list pl cells column specs sc stage k fs = Inr st"
proof -
  have "\<exists>st. fold_res (transform_step pl column sc stage) (enumerate_from k specs) (cells, fs) = Inr st \<and> True"
  proof (rule fold_res_ok [where I = "\<lambda>_. True"])
    fix x and s :: "string option list \<times> cell_failure list"
    assume m: "x \<in> set (enumerate_from k specs)"
    obtain i spec where x: "x = (i, spec)" by fastforce
    with m have "spec \<in> set specs"
      by (auto simp: enumerate_from_conv dest: set_zip_rightD)
    then obtain out where "normalize_impl pl (ts_op spec) column (fst s) (ts_args spec) = Inr out"
      using assms validated_normalize_impl by blast
    then show "\<exists>t. transform_step pl column sc stage x s = Inr t \<and> True"
      by (cases s) (simp add: transform_step_def x)
  qed simp
  then show ?thesis by (simp add: apply_transform_list_def)
qed

definition all_strings :: "frame \<Rightarrow> bool" where
  "all_strings F \<longleftrightarrow> (\<forall>c s. map_of F c = Some s \<longrightarrow> (\<exists>cells. s = StrSeries cells))"

lemma run_rename_ok:
  assumes "string_chunk m chunk"
  shows "\<exists>F. run_rename chunk (sm_rename m) = Inr F \<and> all_strings F"
proof -
  have str: "\<exists>cells. map_of chunk src = Some (StrSeries cells)" if "src \<in> set (keys (sm_rename m))" for src
    using assms that
    by (cases "map_of chunk src"; cases "the (map_of chunk src)") (auto simp: string_chunk_def list_all_iff)
  have "\<forall>k \<in> set (keys (sm_rename m)). has_key chunk k"
    using str by (auto simp: has_key_def dest: map_of_Some_keys)
  then have r: "run_rename chunk (sm_rename m) =
      Inr (map (\<lambda>(source, canonical). (canonical, the (map_of chunk source))) (sm_rename m))"
    by (auto simp: run_rename_def filter_empty_conv)
  have "all_strings (map (\<lambda>(source, canonical). (canonical, the (map_of chunk source))) (sm_rename m))"
    unfolding all_strings_def
  proof (intro allI impI)
    fix c s
    assume "map_of (map (\<lambda>(source, canonical). (canonical, the (map_of chunk source))) (sm_rename m)) c = Some s"
    then obtain src where "(src, c) \<in> set (sm_rename m)" and s: "s = the (map_of chunk src)"
      by (auto dest!: map_of_SomeD)
    then have "src \<in> set (keys (sm_rename m))" by (force simp: keys_def)
    with str [of src] s show "\<exists>cells. s = StrSeries cells" by auto
  qed
  with r show ?thesis by blast
qed

lemma run_normalize_ok:
  assumes "all_strings F" and "set (keys rules) \<subseteq> set (keys F)" and off: "offset_formats_aware pl"
    and v: "\<forall>(c, specs) \<in> set rules. \<forall>spec \<in> set specs.
           validate_normalize_args upper spec c = Inr () \<and> spec_zone_known pl spec"
  shows "\<exists>st. fold_res (normalize_column pl ri) rules (F, fs) = Inr st \<and> all_strings (fst st)"
proof -
  let ?I = "\<lambda>st :: frame \<times> cell_failure list. all_strings (fst st) \<and> set (keys rules) \<subseteq> set (keys (fst st))"
  have "\<exists>st. fold_res (normalize_column pl ri) rules (F, fs) = Inr st \<and> ?I st"
  proof (rule fold_res_ok [where I = ?I])
    show "?I (F, fs)" using assms(1,2) by simp
  next
    fix x and s :: "frame \<times> cell_failure list"
    assume x: "x \<in> set rules" and I: "?I s"
    obtain c specs where cs: "x = (c, specs)" by fastforce
    obtain G gs where s: "s = (G, gs)" by fastforce
    have "c \<in> set (keys G)" using x I by (force simp: cs s keys_def)
    then obtain cells where c: "map_of G c = Some (StrSeries cells)"
      using I keys_map_of by (fastforce simp: all_strings_def s)
    have "\<forall>spec \<in> set specs. validate_normalize_args upper spec c = Inr () \<and> spec_zone_known pl spec"
      using v x by (auto simp: cs)
    from validated_transform_list [OF this off] obtain cells' gs' where
      a: "apply_transform_list pl cells c specs (map_of ri c) StNormalize 0 gs = Inr (cells', gs')"
      by fastforce
    have "normalize_column pl ri x s = Inr (AList.update c (StrSeries cells') G, gs')"
      by (simp add: normalize_column_def cs s c a)
    moreover have "?I (AList.update c (StrSeries cells') G, gs')"
      using I by (auto simp: all_strings_def s map_of_update set_keys_update)
    ultimately show "\<exists>t. normalize_column pl ri x s = Inr t \<and> ?I t" by blast
  qed
  then show ?thesis by blast
qed

text \<open>The cast stage gives every cast column its declared dtype and leaves the others alone.\<close>

definition well_typed :: "frame \<Rightarrow> bool" where
  "well_typed F \<longleftrightarrow> (\<forall>c s. map_of F c = Some s \<longrightarrow> series_dtype s = DString \<longrightarrow> (\<exists>cells. s = StrSeries cells))"

lemma all_strings_well_typed: "all_strings F \<Longrightarrow> well_typed F"
  by (auto simp: all_strings_def well_typed_def)

lemma series_dtype_cast_series [simp]: "series_dtype (cast_series pl s spec) = target_dtype spec"
  by (cases s) (auto simp: cast_series_def cast_string_series_def cast_typed_series_def target_dtype_def)

lemma cast_series_str: "series_dtype (cast_series pl s spec) = DString \<Longrightarrow> \<exists>cells. cast_series pl s spec = StrSeries cells"
  by (cases s; cases "cs_type spec")
    (auto simp: cast_series_def cast_string_series_def cast_typed_series_def target_dtype_def)

lemma cast_column_ok:
  assumes "c \<in> set (keys F)" and "well_typed F"
  shows "\<exists>s fs'. cast_column pl ri (c, spec) (F, fs) = Inr (AList.update c s F, fs') \<and>
     series_dtype s = target_dtype spec \<and> well_typed (AList.update c s F)"
proof -
  obtain s where s: "map_of F c = Some s" using assms(1) keys_map_of by fast
  show ?thesis
  proof (cases "series_dtype s = target_dtype spec")
    case True
    then show ?thesis using s assms(2)
      by (intro exI [of _ s]) (auto simp: cast_column_def update_same)
  next
    case False
    have "well_typed (AList.update c (cast_series pl s spec) F)"
      using assms(2) cast_series_str [of pl s spec] by (auto simp: well_typed_def map_of_update)
    with False s show ?thesis
      by (intro exI [of _ "cast_series pl s spec"]) (auto simp: cast_column_def Let_def)
  qed
qed

lemma run_cast_ok:
  assumes "well_typed F" and "set (keys rules) \<subseteq> set (keys F)" and "distinct (keys rules)"
  shows "\<exists>F' fs'. fold_res (cast_column pl ri) rules (F, fs) = Inr (F', fs') \<and> well_typed F' \<and>
     (\<forall>c. case map_of rules c of
            None \<Rightarrow> map_of F' c = map_of F c
          | Some spec \<Rightarrow> \<exists>s. map_of F' c = Some s \<and> series_dtype s = target_dtype spec)"
  using assms
proof (induction rules arbitrary: F fs)
  case Nil
  then show ?case by simp
next
  case (Cons rule rules)
  obtain c spec where rule: "rule = (c, spec)" by fastforce
  obtain s fs1 where step: "cast_column pl ri (c, spec) (F, fs) = Inr (AList.update c s F, fs1)"
    and dt: "series_dtype s = target_dtype spec" and wt: "well_typed (AList.update c s F)"
    using cast_column_ok [of c F pl ri spec fs] Cons.prems(1,2) by (auto simp: rule)
  have "set (keys rules) \<subseteq> set (keys (AList.update c s F))"
    using Cons.prems(2) by (auto simp: rule set_keys_update)
  moreover have "distinct (keys rules)" using Cons.prems(3) by simp
  ultimately obtain F' fs' where
    rest: "fold_res (cast_column pl ri) rules (AList.update c s F, fs1) = Inr (F', fs')" "well_typed F'"
      "\<forall>d. case map_of rules d of
            None \<Rightarrow> map_of F' d = map_of (AList.update c s F) d
          | Some spec \<Rightarrow> \<exists>s. map_of F' d = Some s \<and> series_dtype s = target_dtype spec"
    using Cons.IH [OF wt, of fs1] by blast
  have "map_of rules c = None"
    using Cons.prems(3) by (simp add: rule map_of_None_iff_keys)
  with rest(3) [rule_format, of c] have cc: "map_of F' c = Some s" by (simp add: map_of_update)
  have "case map_of (rule # rules) d of
            None \<Rightarrow> map_of F' d = map_of F d
          | Some spec \<Rightarrow> \<exists>s. map_of F' d = Some s \<and> series_dtype s = target_dtype spec" for d
    using rest(3) [rule_format, of d] cc dt
    by (auto simp: rule map_of_update split: option.splits if_splits)
  with rest(1,2) step show ?case by (auto simp: rule)
qed

text \<open>What a derive list that passed validation needs of the frame it runs on.\<close>

definition derive_ready :: "source_mapping \<Rightarrow> frame \<Rightarrow> bool" where
  "derive_ready m F \<longleftrightarrow> well_typed F \<and> set (map snd (sm_rename m)) \<subseteq> set (keys F) \<and>
     (\<forall>c \<in> set (map snd (sm_rename m)). \<forall>s. map_of F c = Some s \<longrightarrow>
        (case map_of (sm_cast m) c of
           None \<Rightarrow> series_dtype s = DString
         | Some spec \<Rightarrow> series_dtype s = target_dtype spec))"

lemma derive_ready_update:
  "derive_ready m F \<Longrightarrow> c \<notin> set (map snd (sm_rename m)) \<Longrightarrow>
     (series_dtype s = DString \<Longrightarrow> \<exists>cells. s = StrSeries cells) \<Longrightarrow> derive_ready m (AList.update c s F)"
  by (auto simp: derive_ready_def well_typed_def map_of_update set_keys_update)

lemma constant_series_str: "series_dtype (constant_series v n) = DString \<Longrightarrow> \<exists>cells. constant_series v n = StrSeries cells"
  by (cases v) auto

lemma generate_ok:
  assumes v: "validate_derive_generator_args g c = Inr ()"
    and src: "validate_derive_source m c g (map snd (sm_rename m)) = Inr ()"
    and F: "derive_ready m F"
  shows "\<exists>s. generate F g = Inr s \<and> (series_dtype s = DString \<longrightarrow> (\<exists>cells. s = StrSeries cells)) \<and>
     (validate_derive_composition m c g = Inr () \<longrightarrow> series_dtype s = DString)"
proof -
  let ?src = "json_str (arg (ts_args g) ''source_column'')"
  consider "ts_op g = ''constant''" | "ts_op g = ''copy''" | "ts_op g = ''date_from_datetime''"
    using v by (auto simp: validate_derive_generator_args_def Let_def split: if_splits)
  then show ?thesis
  proof cases
    case 1
    then show ?thesis using constant_series_str
      by (cases "arg (ts_args g) ''value''")
        (auto simp: generate_def Let_def validate_derive_composition_def)
  next
    case 2
    then have in_targets: "?src \<in> set (map snd (sm_rename m))"
      using src by (simp add: validate_derive_source_def Let_def res_simps)
    then obtain s where s: "map_of F ?src = Some s"
      using F keys_map_of [of ?src F] by (auto simp: derive_ready_def)
    have "generate F g = Inr s" using 2 s by (simp add: generate_def)
    moreover have "series_dtype s = DString" if "validate_derive_composition m c g = Inr ()"
      using that 2 F in_targets s
      by (fastforce simp: validate_derive_composition_def derive_ready_def target_dtype_def split: option.splits)
    ultimately show ?thesis using F s by (auto simp: derive_ready_def well_typed_def)
  next
    case 3
    then have in_targets: "?src \<in> set (map snd (sm_rename m))" and
      "\<exists>spec. map_of (sm_cast m) ?src = Some spec \<and> cs_type spec = CDatetime"
      using src by (auto simp: validate_derive_source_def Let_def res_simps split: option.splits)
    then obtain s spec where s: "map_of F ?src = Some s" "map_of (sm_cast m) ?src = Some spec"
      "cs_type spec = CDatetime"
      using F keys_map_of [of ?src F] by (auto simp: derive_ready_def)
    have "series_dtype s = DDatetimeUTC"
      using F in_targets s by (fastforce simp: derive_ready_def target_dtype_def)
    then obtain cells where "s = TypedSeries DDatetimeUTC cells" by (cases s) auto
    with 3 s(1) show ?thesis
      by (auto simp: generate_def Let_def validate_derive_composition_def)
  qed
qed

lemma validate_derive_listE:
  assumes "validate_derive_list upper m c specs T = Inr ()"
  obtains g rest where "specs = g # rest" "validate_derive_generator_args g c = Inr ()"
    "validate_derive_source m c g T = Inr ()"
    "\<forall>spec \<in> set rest. validate_normalize_args upper spec c = Inr ()"
    "rest \<noteq> [] \<longrightarrow> validate_derive_composition m c g = Inr ()"
proof -
  from assms obtain g rest where specs: "specs = g # rest"
    by (cases specs) (auto simp: validate_derive_list_def)
  with assms have "validate_derive_rest upper c rest = Inr ()"
    by (auto simp: validate_derive_list_def res_simps)
  then have "\<forall>(i, spec) \<in> set (enumerate_from 1 rest). validate_normalize_args upper spec c = Inr ()"
    by (auto simp: validate_derive_rest_def res_simps)
  moreover have "spec \<in> set rest \<Longrightarrow> \<exists>i. (i, spec) \<in> set (enumerate_from 1 rest)" for spec
    by (fastforce simp: in_set_conv_nth in_enumerate_from enumerate_from_conv set_zip)
  ultimately have "\<forall>spec \<in> set rest. validate_normalize_args upper spec c = Inr ()" by blast
  with specs assms show ?thesis
    by (intro that [of g rest]) (auto simp: validate_derive_list_def res_simps split: if_splits)
qed

lemma run_derive_ok:
  assumes F: "derive_ready m F" and off: "offset_formats_aware pl"
    and disj: "set (keys rules) \<inter> set (map snd (sm_rename m)) = {}"
    and v: "\<forall>(c, specs) \<in> set rules. validate_derive_list upper m c specs (map snd (sm_rename m)) = Inr () \<and>
              (\<forall>spec \<in> set specs. spec_zone_known pl spec)"
  shows "\<exists>st. fold_res (derive_column pl) rules (F, fs) = Inr st \<and> derive_ready m (fst st)"
proof (rule fold_res_ok [where I = "\<lambda>st. derive_ready m (fst st)"])
  show "derive_ready m (fst (F, fs))" using F by simp
next
  fix x and st :: "frame \<times> cell_failure list"
  assume x: "x \<in> set rules" and I: "derive_ready m (fst st)"
  obtain c specs where xx: "x = (c, specs)" by fastforce
  obtain G gs where st: "st = (G, gs)" by fastforce
  have c: "c \<notin> set (map snd (sm_rename m))" using x disj by (force simp: xx keys_def)
  have vl: "validate_derive_list upper m c specs (map snd (sm_rename m)) = Inr ()"
    and zk: "\<forall>spec \<in> set specs. spec_zone_known pl spec" using v x by (auto simp: xx)
  from vl obtain g rest where specs: "specs = g # rest" and vg: "validate_derive_generator_args g c = Inr ()"
    and vs: "validate_derive_source m c g (map snd (sm_rename m)) = Inr ()"
    and vr: "\<forall>spec \<in> set rest. validate_normalize_args upper spec c = Inr ()"
    and vc: "rest \<noteq> [] \<longrightarrow> validate_derive_composition m c g = Inr ()"
    by (rule validate_derive_listE)
  from generate_ok [OF vg vs] I obtain s where s: "generate G g = Inr s"
    "series_dtype s = DString \<longrightarrow> (\<exists>cells. s = StrSeries cells)"
    "validate_derive_composition m c g = Inr () \<longrightarrow> series_dtype s = DString"
    by (auto simp: st)
  show "\<exists>t. derive_column pl x st = Inr t \<and> derive_ready m (fst t)"
  proof (cases "rest = []")
    case True
    then have "derive_column pl x st = Inr (AList.update c s G, gs)"
      by (simp add: derive_column_def xx st specs s(1))
    moreover have "derive_ready m (AList.update c s G)"
      using derive_ready_update [OF _ c, of G s] I s(2) by (simp add: st)
    ultimately show ?thesis by auto
  next
    case False
    with vc s obtain cells where cells: "s = StrSeries cells" by blast
    have ok: "\<forall>spec \<in> set rest. validate_normalize_args upper spec c = Inr () \<and> spec_zone_known pl spec"
      using vr zk by (simp add: specs)
    obtain cells' gs' where a: "apply_transform_list pl cells c rest
        (json_str_opt (arg (ts_args g) ''source_column'')) StDerive 1 gs = Inr (cells', gs')"
      using validated_transform_list [OF ok off] by fastforce
    then have "derive_column pl x st = Inr (AList.update c (StrSeries cells') G, gs')"
      using False by (simp add: derive_column_def xx st specs s(1) cells)
    moreover have "derive_ready m (AList.update c (StrSeries cells') G)"
      using derive_ready_update [OF _ c, of G "StrSeries cells'"] I by (simp add: st)
    ultimately show ?thesis by auto
  qed
qed

lemma validate_rules_lists:
  assumes "validate_rules upper m = Inr ()"
  shows "\<forall>(c, specs) \<in> set (sm_normalize m). \<forall>spec \<in> set specs. validate_normalize_args upper spec c = Inr ()"
    and "\<forall>(c, specs) \<in> set (sm_derive m). validate_derive_list upper m c specs (map snd (sm_rename m)) = Inr ()"
  using assms by (auto simp: validate_rules_def Let_def res_simps)

lemma run_stages_ok:
  assumes v: "validate_rules upper m = Inr ()" and wf: "mapping_wf m"
    and str: "string_chunk m chunk" and zk: "zones_known pl m" and off: "offset_formats_aware pl"
    and wfc: "wf_frame (height chunk) chunk"
  shows "\<exists>st. run_stages pl m chunk = Inr st"
proof -
  let ?T = "map snd (sm_rename m)" and ?ri = "rename_inverse m"
  have shape: "mapping_shape m" using v wf by (rule validate_rules_mapping_shape)
  obtain F1 where F1: "run_rename chunk (sm_rename m) = Inr F1" and a1: "all_strings F1"
    using run_rename_ok [OF str] by blast
  have k1: "set (keys F1) = set ?T" and w1: "stage_inv (rename_rows m chunk) (F1, [])"
    using run_rename_wf [OF F1 wfc] shape by (simp_all add: mapping_shape_def stage_inv_def)
  have nv: "\<forall>(c, specs) \<in> set (sm_normalize m). \<forall>spec \<in> set specs.
      validate_normalize_args upper spec c = Inr () \<and> spec_zone_known pl spec"
    using validate_rules_lists(1) [OF v] zk by (fastforce simp: zones_known_def list_all_iff)
  obtain F2 fs2 where F2: "fold_res (normalize_column pl ?ri) (sm_normalize m) (F1, []) = Inr (F2, fs2)"
    and a2: "all_strings F2"
    using run_normalize_ok [OF a1 _ off nv, of ?ri "[]"] shape by (auto simp: k1 mapping_shape_def)
  have k2: "set (keys F2) = set ?T"
    using norm_stage.fold_step_inv [OF F2 w1] k1 shape by (auto simp: mapping_shape_def mapping_wf_def)
  obtain F3 fs3 where F3: "fold_res (cast_column pl ?ri) (sm_cast m) (F2, fs2) = Inr (F3, fs3)"
    and w3: "well_typed F3" and c3: "\<forall>c. case map_of (sm_cast m) c of
            None \<Rightarrow> map_of F3 c = map_of F2 c
          | Some spec \<Rightarrow> \<exists>s. map_of F3 c = Some s \<and> series_dtype s = target_dtype spec"
    using run_cast_ok [OF all_strings_well_typed [OF a2], of "sm_cast m" pl ?ri fs2] shape
    by (auto simp: k2 mapping_shape_def mapping_wf_def)
  have "derive_ready m F3"
    unfolding derive_ready_def
  proof (intro conjI ballI allI impI w3)
    show "set ?T \<subseteq> set (keys F3)"
    proof
      fix c assume "c \<in> set ?T"
      then show "c \<in> set (keys F3)"
        using c3 [rule_format, of c] k2 keys_map_of [of c F2]
        by (auto split: option.splits dest!: map_of_Some_keys)
    qed
  next
    fix c s assume "c \<in> set ?T" and "map_of F3 c = Some s"
    then show "case map_of (sm_cast m) c of None \<Rightarrow> series_dtype s = DString
        | Some spec \<Rightarrow> series_dtype s = target_dtype spec"
      using c3 [rule_format, of c] a2 by (fastforce simp: all_strings_def split: option.splits)
  qed
  moreover have "set (keys (sm_derive m)) \<inter> set ?T = {}"
    using shape by (simp add: mapping_shape_def)
  moreover have "\<forall>(c, specs) \<in> set (sm_derive m). validate_derive_list upper m c specs ?T = Inr () \<and>
      (\<forall>spec \<in> set specs. spec_zone_known pl spec)"
    using validate_rules_lists(2) [OF v] zk unfolding zones_known_def list_all_iff by fastforce
  ultimately obtain st where "fold_res (derive_column pl) (sm_derive m) (F3, fs3) = Inr st"
    using run_derive_ok [OF _ off] by blast
  then show ?thesis
    by (simp add: run_stages_def run_normalize_def run_cast_def run_derive_def F1 F2 F3)
qed

lemma select_rows_ok: "set cols \<subseteq> set (keys F) \<Longrightarrow> \<exists>C. select_rows F cols ix = Inr C"
proof (induction cols)
  case (Cons c cols)
  then obtain s where "map_of F c = Some s" using keys_map_of [of c F] by auto
  with Cons show ?case by (auto simp: select_rows_def)
qed (simp add: select_rows_def)

text \<open>
  A concrete instance of the polars parameter, for the witnesses: ASCII case mapping, a dotted
  decimal reader, no date parsing.
\<close>

definition replace_char :: "string \<Rightarrow> string \<Rightarrow> string \<Rightarrow> string" where
  "replace_char pat r s = concat (map (\<lambda>x. if [x] = pat then r else [x]) s)"

fun int_of_digits :: "int \<Rightarrow> string \<Rightarrow> int option" where
  "int_of_digits acc [] = Some acc"
| "int_of_digits acc (c # cs) =
     (if c \<in> set ''0123456789'' then int_of_digits (10 * acc + (of_char c - 48)) cs else None)"

definition polars_demo :: polars where
  "polars_demo =
     \<lparr>pl_contains = (\<lambda>p s. case p of Anchored r \<Rightarrow> rx_match r s | AtEnd r \<Rightarrow> False),
      pl_replace = (\<lambda>p r s. s),
      pl_replace_all_literal = replace_char,
      pl_collapse_whitespace = (\<lambda>s. s),
      pl_strip_chars = (\<lambda>s. s),
      pl_upper = (\<lambda>s. s),
      pl_lower = (\<lambda>s. s),
      pl_strptime_date = (\<lambda>f s. None),
      pl_strftime_date = (\<lambda>d. []),
      pl_strptime_datetime = (\<lambda>f s. None),
      pl_format_aware = sublist ''%z'',
      pl_zone_known = (\<lambda>z. z = Some ''UTC''),
      pl_replace_time_zone = (\<lambda>z t. Some t),
      pl_strftime_datetime = (\<lambda>t. []),
      pl_decimal18_div100 = (\<lambda>s. if length s \<le> 20 then Some s else None),
      pl_str_to_int = (\<lambda>s. if s = [] then None else int_of_digits 0 s),
      pl_str_to_decimal = (\<lambda>p sc s. None),
      pl_str_to_date = (\<lambda>s. None),
      pl_str_to_datetime = (\<lambda>s. if s = [] then None else int_of_digits 0 s),
      pl_cast_value = (\<lambda>d v. None),
      pl_cast_to_string = (\<lambda>v. None),
      pl_value_str = (\<lambda>v. [])\<rparr>"

text \<open>
  The running example of the witnesses: a quantity with thousands separators, an event time and
  the event date derived from it; the second row's quantity is malformed.
\<close>

definition demo_mapping :: source_mapping where
  "demo_mapping =
     \<lparr>sm_version = 1, sm_rename = [(''Qty'', ''quantity''), (''At'', ''event_at'')],
      sm_normalize = [(''quantity'', [\<lparr>ts_op = ''parse_integer'',
                         ts_args = [(''thousands_separator'', JStr '','')]\<rparr>])],
      sm_cast = [(''quantity'', \<lparr>cs_type = CInteger, cs_precision = None, cs_scale = None\<rparr>),
                 (''event_at'', \<lparr>cs_type = CDatetime, cs_precision = None, cs_scale = None\<rparr>)],
      sm_derive = [(''event_date'', [\<lparr>ts_op = ''date_from_datetime'',
                         ts_args = [(''source_column'', JStr ''event_at'')]\<rparr>])]\<rparr>"

definition demo_chunk :: frame where
  "demo_chunk =
     [(''Qty'', StrSeries [Some ''1,299'', Some ''12,9'', None]),
      (''At'', StrSeries [Some ''86400000001'', Some ''0'', Some ''5'']),
      (''Ignored'', StrSeries [None, None, None])]"

lemma demo_valid: "validate_rules (\<lambda>s. s) demo_mapping = Inr ()"
  by code_simp

lemma demo_wf: "mapping_wf demo_mapping" "wf_frame (height demo_chunk) demo_chunk"
  "string_chunk demo_mapping demo_chunk" "zones_known polars_demo demo_mapping"
  by (simp_all add: mapping_wf_def demo_mapping_def wf_frame_def demo_chunk_def string_chunk_def
      zones_known_def spec_zone_known_def)

lemma demo_offset: "offset_formats_aware polars_demo"
  by (simp add: offset_formats_aware_def polars_demo_def)

lemma demo_run:
  "case apply_mapping polars_demo demo_mapping demo_chunk of
     Inl e \<Rightarrow> False
   | Inr r \<Rightarrow> mr_source_row_indices r = [0, 2] \<and> map cf_row_index (mr_failures r) = [1] \<and>
     mr_contribution r =
       [(''quantity'', TypedSeries DInt64 [Some (VInt 1299), None]),
        (''event_at'', TypedSeries DDatetimeUTC [Some (VDatetime 86400000001), Some (VDatetime 5)]),
        (''event_date'', TypedSeries DDate [Some (VDate 1), Some (VDate 0)])]"
  by code_simp

end
