(* ===== verification/Mapping_Properties.thy ===== *)
theory Mapping_Properties
  imports Mapping_Correct
begin

text \<open>
  The properties of the mapping engine: totality on validated mappings, the partition of the rows
  into contributed and failed ones, at most one report per cell, the shape of the contribution,
  which ops can null a cell silently, the locale discipline of the numeric ops, and the derived
  event date.
\<close>

section \<open>No silent nulls\<close>

definition quiet_ops :: "string list" where
  "quiet_ops = [''null_tokens'', ''parse_percent'']"

lemma loud_outcome:
  assumes "normalize_impl pl op column s args = Inr out" and "op \<notin> set quiet_ops"
    and "i < length s" and "s ! i \<noteq> None" and "\<not> oo_failed out ! i"
  shows "oo_values out ! i \<noteq> None"
  using assms
  by (auto simp: normalize_impl_def quiet_ops_def op_defs parse_datetime_def Let_def res_simps
      strip_separators_def split: if_splits option.splits list.splits)

definition null_reported :: "frame \<times> cell_failure list \<Rightarrow> string \<Rightarrow> nat \<Rightarrow> bool" where
  "null_reported st c i \<longleftrightarrow>
     (null_at (fst st) c i \<longrightarrow> (\<exists>f \<in> set (snd st). cf_row_index f = i \<and> cf_column f = c))"

lemma null_reported_other:
  "null_reported (F, fs) c i \<Longrightarrow> d \<noteq> c \<Longrightarrow> set fs \<subseteq> set fs' \<Longrightarrow> null_reported (AList.update d s F, fs') c i"
  by (auto simp: null_reported_def null_at_update)

lemma transform_list_null_reported:
  assumes run: "apply_transform_list pl cells c specs sc stage k fs = Inr (cells', fs')"
    and loud: "\<forall>spec \<in> set specs. ts_op spec \<notin> set quiet_ops" and i: "i < length cells"
    and start: "cells ! i = None \<longrightarrow> (\<exists>f \<in> set fs. cf_row_index f = i \<and> cf_column f = c)"
  shows "cells' ! i = None \<longrightarrow> (\<exists>f \<in> set fs'. cf_row_index f = i \<and> cf_column f = c)"
proof -
  let ?Q = "\<lambda>st :: string option list \<times> cell_failure list. length (fst st) = length cells \<and>
    (fst st ! i = None \<longrightarrow> (\<exists>f \<in> set (snd st). cf_row_index f = i \<and> cf_column f = c))"
  have "?Q (cells', fs')"
  proof (rule fold_res_invariant [where I = ?Q, OF run [unfolded apply_transform_list_def]])
    show "?Q (cells, fs)" using start by simp
  next
    fix x and s t :: "string option list \<times> cell_failure list"
    assume x: "x \<in> set (enumerate_from k specs)" and Q: "?Q s"
      and step: "transform_step pl c sc stage x s = Inr t"
    obtain ix spec where xx: "x = (ix, spec)" by fastforce
    obtain cur gs where s: "s = (cur, gs)" by fastforce
    have spec: "ts_op spec \<notin> set quiet_ops"
      using x loud by (auto simp: xx enumerate_from_conv dest: set_zip_rightD)
    from step obtain out where impl: "normalize_impl pl (ts_op spec) c cur (ts_args spec) = Inr out"
      and t: "t = (null_where (oo_values out) (oo_failed out),
                gs @ step_failures c sc stage ix (ts_op spec) cur out)"
      by (auto simp: transform_step_def xx s res_simps)
    have ok: "outcome_ok cur out" using impl by (rule normalize_impl_outcome_ok)
    have len: "length cur = length cells" using Q by (simp add: s)
    show "?Q t"
    proof (cases "oo_failed out ! i")
      case True
      then have "i \<in> set (arg_true (oo_failed out))"
        using ok len i by (simp add: set_arg_true outcome_ok_def)
      then have "\<exists>f \<in> set (step_failures c sc stage ix (ts_op spec) cur out). cf_row_index f = i \<and> cf_column f = c"
        by (auto simp: step_failures_def)
      then show ?thesis using ok len by (auto simp: t outcome_ok_def)
    next
      case False
      with loud_outcome [OF impl spec, of i] len i have "cur ! i \<noteq> None \<longrightarrow> oo_values out ! i \<noteq> None" by auto
      with False Q ok len i show ?thesis by (auto simp: t s outcome_ok_def)
    qed
  qed
  then show ?thesis by simp
qed

lemma normalize_column_null_reported:
  assumes step: "normalize_column pl ri (d, specs) (F, fs) = Inr (F', fs')" and wf: "wf_frame n F"
    and loud: "d = c \<longrightarrow> (\<forall>spec \<in> set specs. ts_op spec \<notin> set quiet_ops)" and i: "i < n"
    and Q: "null_reported (F, fs) c i"
  shows "null_reported (F', fs') c i"
proof -
  from step obtain cells cells' where d: "map_of F d = Some (StrSeries cells)"
    and a: "apply_transform_list pl cells d specs (map_of ri d) StNormalize 0 fs = Inr (cells', fs')"
    and F': "F' = AList.update d (StrSeries cells') F"
    by (auto simp: normalize_column_def res_simps split: option.splits series.splits)
  have len: "length cells = n" "length cells' = length cells"
    using d wf apply_transform_list_inv [OF a] by (auto simp: list_inv_def dest: wf_frame_lookup)
  show ?thesis
  proof (cases "d = c")
    case True
    with transform_list_null_reported [OF a, of i] loud Q i len d show ?thesis
      by (auto simp: null_reported_def null_at_def F' map_of_update)
  next
    case False
    moreover have "set fs \<subseteq> set fs'" using apply_transform_list_inv [OF a] by (auto simp: list_inv_def)
    ultimately show ?thesis using Q by (simp add: F' null_reported_other)
  qed
qed

lemma cast_column_new:
  assumes "cast_column pl ri (d, spec) (F, fs) = Inr (F', fs')" and "map_of F d = Some s"
    and "series_dtype s \<noteq> target_dtype spec"
  obtains new where "F' = AList.update d (cast_series pl s spec) F" and "fs' = fs @ new"
    and "map cf_row_index new =
       arg_true (map2 (\<lambda>a b. a \<and> \<not> b) (is_null_mask (cast_series pl s spec)) (is_null_mask s))"
    and "\<forall>f \<in> set new. cf_column f = d"
proof -
  let ?failed = "map2 (\<lambda>a b. a \<and> \<not> b) (is_null_mask (cast_series pl s spec)) (is_null_mask s)"
  let ?new = "map (\<lambda>row. \<lparr>cf_row_index = row, cf_column = d, cf_source_column = map_of ri d,
      cf_value = cell_str pl s row, cf_op = ''cast'', cf_transform_index = 0,
      cf_expected_format = ExpCast spec, cf_stage = StCast\<rparr>) (arg_true ?failed)"
  have "F' = AList.update d (cast_series pl s spec) F" "fs' = fs @ ?new"
    using assms by (simp_all add: cast_column_def Let_def)
  moreover have "map cf_row_index ?new = arg_true ?failed" by (simp add: comp_def)
  ultimately show thesis by (intro that [of ?new]) auto
qed

lemma cast_column_null_reported:
  assumes step: "cast_column pl ri (d, spec) (F, fs) = Inr (F', fs')" and wf: "wf_frame n F"
    and i: "i < n" and Q: "null_reported (F, fs) c i"
  shows "null_reported (F', fs') c i"
proof -
  from step obtain s where s: "map_of F d = Some s"
    by (auto simp: cast_column_def split: option.splits)
  have len: "series_len s = n" using wf s by (rule wf_frame_lookup)
  show ?thesis
  proof (cases "series_dtype s = target_dtype spec")
    case True
    then show ?thesis using step s Q by (simp add: cast_column_def)
  next
    case False
    let ?t = "cast_series pl s spec"
    obtain new where F': "F' = AList.update d ?t F" and fs': "fs' = fs @ new"
      and rows: "map cf_row_index new =
         arg_true (map2 (\<lambda>a b. a \<and> \<not> b) (is_null_mask ?t) (is_null_mask s))"
      and col: "\<forall>f \<in> set new. cf_column f = d"
      using cast_column_new [OF step s False] .
    show ?thesis
    proof (cases "d = c")
      case d: True
      have "\<exists>f \<in> set new. cf_row_index f = i \<and> cf_column f = c"
        if "is_null_mask ?t ! i" "\<not> is_null_mask s ! i"
      proof -
        have "i \<in> set (arg_true (map2 (\<lambda>a b. a \<and> \<not> b) (is_null_mask ?t) (is_null_mask s)))"
          using that i len by (simp add: set_arg_true)
        then have "i \<in> set (map cf_row_index new)" by (simp only: rows)
        then show ?thesis using col d by auto
      qed
      with Q s d show ?thesis
        by (auto simp: null_reported_def F' fs' null_at_update null_at_def map_of_update)
    next
      case False
      then show ?thesis using Q by (simp add: F' fs' null_reported_other)
    qed
  qed
qed

lemma derive_column_other:
  assumes "derive_column pl (d, specs) (F, fs) = Inr (F', fs')"
  shows "\<exists>s. F' = AList.update d s F \<and> set fs \<subseteq> set fs'"
proof -
  from assms obtain g rest where specs: "specs = g # rest"
    by (cases specs) (auto simp: derive_column_def)
  from assms obtain s where s: "generate F g = Inr s"
    by (auto simp: derive_column_def specs res_simps)
  show ?thesis
  proof (cases "rest = []")
    case True
    then show ?thesis using assms s by (auto simp: derive_column_def specs)
  next
    case False
    with assms s obtain cells cells' sc where
      a: "apply_transform_list pl cells d rest sc StDerive 1 fs = Inr (cells', fs')"
      and F': "F' = AList.update d (StrSeries cells') F"
      by (auto simp: derive_column_def specs res_simps split: series.splits)
    then show ?thesis using apply_transform_list_inv [OF a] by (auto simp: list_inv_def)
  qed
qed

text \<open>The whole run reports every cell of a rename column it nulls, when the column's ops are loud.\<close>

lemma run_stages_null_reported:
  assumes run: "run_stages pl m chunk = Inr (F, fs)" and wf: "wf_frame (height chunk) chunk"
    and shape: "mapping_shape m" and src: "(src, c) \<in> set (sm_rename m)"
    and loud: "\<forall>(d, specs) \<in> set (sm_normalize m). d = c \<longrightarrow> (\<forall>spec \<in> set specs. ts_op spec \<notin> set quiet_ops)"
    and i: "i < height chunk" and nn: "\<not> null_at chunk src i"
  shows "null_reported (F, fs) c i"
proof -
  let ?n = "rename_rows m chunk" and ?ri = "rename_inverse m"
  let ?I = "\<lambda>st. stage_inv ?n st \<and> null_reported st c i"
  have n: "i < ?n" using i src by (auto simp: rename_rows_def)
  obtain F1 st2 st3 where r: "run_rename chunk (sm_rename m) = Inr F1"
    and s2: "fold_res (normalize_column pl ?ri) (sm_normalize m) (F1, []) = Inr st2"
    and s3: "fold_res (cast_column pl ?ri) (sm_cast m) st2 = Inr st3"
    and s4: "fold_res (derive_column pl) (sm_derive m) st3 = Inr (F, fs)"
    using run by (auto simp: run_stages_def run_normalize_def run_cast_def run_derive_def
        elim!: bind_res_InrE)
  have dist: "distinct (map snd (sm_rename m))" using shape by (simp add: mapping_shape_def)
  have F1: "F1 = map (\<lambda>(source, canonical). (canonical, the (map_of chunk source))) (sm_rename m)"
    and "src \<in> set (keys chunk)"
    using r src by (force simp: run_rename_def Let_def has_key_def filter_empty_conv keys_def split: if_splits)+
  then obtain s where s: "map_of chunk src = Some s" using keys_map_of by fast
  have "map_of F1 c = Some s"
  proof (rule map_of_is_SomeI)
    show "distinct (map fst F1)" using dist by (simp add: F1 comp_def case_prod_beta)
    show "(c, s) \<in> set F1" using src s by (force simp: F1)
  qed
  then have "null_reported (F1, []) c i" using nn s by (auto simp: null_reported_def null_at_def)
  moreover have "stage_inv ?n (F1, [])" using run_rename_wf [OF r wf dist] by (simp add: stage_inv_def)
  ultimately have "?I (F1, [])" by simp
  then have "?I st2"
  proof (rule fold_res_invariant [where I = ?I, OF s2])
    fix x s t assume x: "x \<in> set (sm_normalize m)" "?I s" "normalize_column pl ?ri x s = Inr t"
    obtain d specs G gs G' gs' where xx: "x = (d, specs)" "s = (G, gs)" "t = (G', gs')"
      by (metis surj_pair)
    with x loud have l: "d = c \<longrightarrow> (\<forall>spec \<in> set specs. ts_op spec \<notin> set quiet_ops)" by auto
    have inv: "stage_inv ?n (G, gs)" and Q: "null_reported (G, gs) c i"
      and step: "normalize_column pl ?ri (d, specs) (G, gs) = Inr (G', gs')"
      using x(2,3) by (simp_all only: xx)
    from inv have "wf_frame ?n G" by (simp add: stage_inv_def)
    from norm_stage.step_inv [OF inv TrueI step] normalize_column_null_reported [OF step this l n Q]
    show "?I t" by (simp only: xx)
  qed
  then have "?I st3"
  proof (rule fold_res_invariant [where I = ?I, OF s3])
    fix x s t assume x: "x \<in> set (sm_cast m)" "?I s" "cast_column pl ?ri x s = Inr t"
    obtain d spec G gs G' gs' where xx: "x = (d, spec)" "s = (G, gs)" "t = (G', gs')"
      by (metis surj_pair)
    have inv: "stage_inv ?n (G, gs)" and Q: "null_reported (G, gs) c i"
      and step: "cast_column pl ?ri (d, spec) (G, gs) = Inr (G', gs')"
      using x(2,3) by (simp_all only: xx)
    from inv have "wf_frame ?n G" by (simp add: stage_inv_def)
    from cast_stage.step_inv [OF inv TrueI step] cast_column_null_reported [OF step this n Q]
    show "?I t" by (simp only: xx)
  qed
  then have "null_reported st3 c i" by simp
  then show ?thesis
  proof (rule fold_res_invariant [where I = "\<lambda>st. null_reported st c i", OF s4])
    fix x s t assume x: "x \<in> set (sm_derive m)" "null_reported s c i" "derive_column pl x s = Inr t"
    obtain d specs G gs G' gs' where xx: "x = (d, specs)" "s = (G, gs)" "t = (G', gs')"
      by (metis surj_pair)
    have "d \<in> set (keys (sm_derive m))" "c \<in> set (map snd (sm_rename m))"
      using x(1) src by (force simp: xx keys_def)+
    then have "d \<noteq> c" using shape by (auto simp: mapping_shape_def)
    with derive_column_other [of pl d specs G gs G' gs'] x(2,3) show "null_reported t c i"
      by (auto simp: xx null_reported_other)
  qed
qed

section \<open>Numbers in the declared locale\<close>

text \<open>
  The documented meaning of the two polars primitives the numeric ops rest on: an anchored
  pattern search decides membership in the pattern's language, and a literal one-character
  \<open>replace_all\<close> substitutes every occurrence.
\<close>

definition regex_search_ok :: "polars \<Rightarrow> bool" where
  "regex_search_ok pl \<longleftrightarrow> (\<forall>r s. pl_contains pl (Anchored r) s \<longleftrightarrow> s \<in> rx_lang r)"

definition subst_char :: "char \<Rightarrow> string \<Rightarrow> string \<Rightarrow> string" where
  "subst_char c r s = concat (map (\<lambda>x. if x = c then r else [x]) s)"

definition literal_replace_ok :: "polars \<Rightarrow> bool" where
  "literal_replace_ok pl \<longleftrightarrow> (\<forall>c r s. pl_replace_all_literal pl [c] r s = subst_char c r s)"

definition digits :: "char set" where
  "digits = set ''0123456789''"

definition locale_groups :: "char option \<Rightarrow> string list \<Rightarrow> bool" where
  "locale_groups thou gs \<longleftrightarrow>
     (\<forall>g \<in> set gs. g \<noteq> [] \<and> set g \<subseteq> digits) \<and>
     (case gs of [] \<Rightarrow> False | [g] \<Rightarrow> True
      | g # rest \<Rightarrow> thou \<noteq> None \<and> length g \<le> 3 \<and> (\<forall>h \<in> set rest. length h = 3))"

fun group_text :: "char option \<Rightarrow> string list \<Rightarrow> string" where
  "group_text thou [] = []"
| "group_text thou (g # rest) = g @ concat (map (\<lambda>h. case thou of None \<Rightarrow> h | Some c \<Rightarrow> c # h) rest)"

text \<open>A number written in the locale (\<open>dec\<close>, \<open>thou\<close>), and its canonical spelling.\<close>

definition locale_text :: "char \<Rightarrow> char option \<Rightarrow> string \<Rightarrow> string list \<Rightarrow> string \<Rightarrow> string" where
  "locale_text dec thou sg gs fr = sg @ group_text thou gs @ (if fr = [] then [] else dec # fr)"

definition canonical_text :: "string \<Rightarrow> string list \<Rightarrow> string \<Rightarrow> string" where
  "canonical_text sg gs fr = sg @ concat gs @ (if fr = [] then [] else CHR ''.'' # fr)"

definition locale_number :: "char option \<Rightarrow> string \<Rightarrow> string list \<Rightarrow> string \<Rightarrow> bool" where
  "locale_number thou sg gs fr \<longleftrightarrow>
     sg \<in> {[], ''+'', ''-''} \<and> locale_groups thou gs \<and> set fr \<subseteq> digits"

lemma star_lang_concat: "star_lang A = {concat us | us. set us \<subseteq> A}"
proof (intro set_eqI iffI)
  fix s assume "s \<in> star_lang A"
  then show "s \<in> {concat us | us. set us \<subseteq> A}"
  proof (induction rule: star_lang.induct)
    case star_Nil
    show ?case by (intro CollectI exI [of _ "[]"]) simp
  next
    case (star_append u v)
    then obtain us where "v = concat us" "set us \<subseteq> A" by blast
    with star_append(1) show ?case by (intro CollectI exI [of _ "u # us"]) simp
  qed
next
  fix s assume "s \<in> {concat us | us. set us \<subseteq> A}"
  then obtain us where "s = concat us" "set us \<subseteq> A" by blast
  then show "s \<in> star_lang A" by (induction us arbitrary: s) auto
qed

lemma lang_digit_plus: "rx_lang (rx_plus digit) = {g. g \<noteq> [] \<and> set g \<subseteq> digits}"
  by (simp add: digit_def rx_lang_plus_Atom digits_def)

lemma lang_fraction: "rx_lang (fraction_pattern [d]) = {if fr = [] then [] else d # fr | fr. set fr \<subseteq> digits}"
proof -
  have "rx_lang (fraction_pattern [d]) = insert [] {[d] @ g | g. g \<noteq> [] \<and> set g \<subseteq> digits}"
    unfolding fraction_pattern_def rx_lang_opt rx_lang.simps(5) rx_lang_literal lang_digit_plus by auto
  also have "\<dots> = {if fr = [] then [] else d # fr | fr. set fr \<subseteq> digits}"
    by (auto intro: exI [of _ "[]"])
  finally show ?thesis .
qed

lemma lang_tail_groups:
  "rx_lang (rx_plus (Seq (rx_literal [c]) (rx_times 3 digit))) =
     {concat (map (\<lambda>h. c # h) hs) | hs. hs \<noteq> [] \<and> (\<forall>h \<in> set hs. length h = 3 \<and> set h \<subseteq> digits)}"
proof -
  let ?A = "{c # h | h. length h = 3 \<and> set h \<subseteq> digits}"
  have A: "rx_lang (Seq (rx_literal [c]) (rx_times 3 digit)) = ?A"
    unfolding rx_lang.simps(5) rx_lang_literal digit_def rx_lang_times_Atom digits_def by auto
  have image: "\<exists>hs. us = map (\<lambda>h. c # h) hs \<and> (\<forall>h \<in> set hs. length h = 3 \<and> set h \<subseteq> digits)"
    if "set us \<subseteq> ?A" for us
    using that
  proof (induction us)
    case Nil
    then show ?case by simp
  next
    case (Cons u us)
    then obtain h hs where "u = c # h" "length h = 3" "set h \<subseteq> digits"
      "us = map (\<lambda>h. c # h) hs" "\<forall>h \<in> set hs. length h = 3 \<and> set h \<subseteq> digits" by auto
    then show ?case by (intro exI [of _ "h # hs"]) simp
  qed
  show ?thesis
  proof (intro set_eqI iffI)
    fix s assume "s \<in> rx_lang (rx_plus (Seq (rx_literal [c]) (rx_times 3 digit)))"
    then obtain u us where s: "s = u @ concat us" and u: "u \<in> ?A" and us: "set us \<subseteq> ?A"
      unfolding rx_plus_def rx_lang.simps(5) [of "Seq (rx_literal [c]) (rx_times 3 digit)"] rx_lang.simps(6) A
        star_lang_concat by blast
    have "set (u # us) \<subseteq> ?A" using u us by simp
    from image [OF this] obtain hs where "u # us = map (\<lambda>h. c # h) hs"
      "\<forall>h \<in> set hs. length h = 3 \<and> set h \<subseteq> digits" by (elim exE conjE) (rule that)
    with s show "s \<in> {concat (map (\<lambda>h. c # h) hs) | hs. hs \<noteq> [] \<and> (\<forall>h \<in> set hs. length h = 3 \<and> set h \<subseteq> digits)}"
      by (intro CollectI exI [of _ hs]) (auto simp flip: concat.simps(2))
  next
    fix s assume "s \<in> {concat (map (\<lambda>h. c # h) hs) | hs. hs \<noteq> [] \<and> (\<forall>h \<in> set hs. length h = 3 \<and> set h \<subseteq> digits)}"
    then obtain h hs where s: "s = (c # h) @ concat (map (\<lambda>h. c # h) hs)"
      and hs: "length h = 3" "set h \<subseteq> digits" "\<forall>h \<in> set hs. length h = 3 \<and> set h \<subseteq> digits"
      by (auto simp: neq_Nil_conv)
    have "c # h \<in> ?A" "concat (map (\<lambda>h. c # h) hs) \<in> star_lang ?A"
      using hs by (auto simp: star_lang_concat intro!: exI [of _ "map (\<lambda>h. c # h) hs"])
    then show "s \<in> rx_lang (rx_plus (Seq (rx_literal [c]) (rx_times 3 digit)))"
      unfolding rx_plus_def rx_lang.simps(5) [of "Seq (rx_literal [c]) (rx_times 3 digit)"] rx_lang.simps(6) A s
      by blast
  qed
qed

lemma lang_body:
  "rx_lang (numeric_body_pattern (map_option (\<lambda>c. [c]) thou)) = {group_text thou gs | gs. locale_groups thou gs}"
proof (cases thou)
  case None
  have e: "locale_groups None gs \<longleftrightarrow> (\<exists>g. gs = [g] \<and> g \<noteq> [] \<and> set g \<subseteq> digits)" for gs
    by (auto simp: locale_groups_def split: list.splits)
  have "{group_text None gs | gs. locale_groups None gs} =
      {group_text None [g] | g. g \<noteq> [] \<and> set g \<subseteq> digits}" unfolding e by blast
  then show ?thesis by (simp add: None numeric_body_pattern_def lang_digit_plus)
next
  case (Some c)
  have one: "locale_groups (Some c) [g] \<longleftrightarrow> g \<noteq> [] \<and> set g \<subseteq> digits" for g
    by (auto simp: locale_groups_def)
  have many: "locale_groups (Some c) (g # h # hs) \<longleftrightarrow>
      1 \<le> length g \<and> length g \<le> 3 \<and> set g \<subseteq> digits \<and> (\<forall>x \<in> set (h # hs). length x = 3 \<and> set x \<subseteq> digits)" for g h hs
  proof -
    have "x \<noteq> [] \<and> set x \<subseteq> digits \<and> length x = 3 \<longleftrightarrow> length x = 3 \<and> set x \<subseteq> digits" for x by auto
    then show ?thesis by (cases g) (simp_all add: locale_groups_def, blast)
  qed
  have rep: "rx_lang (rx_rep 1 3 digit) = {g. 1 \<le> length g \<and> length g \<le> 3 \<and> set g \<subseteq> digits}"
    unfolding digit_def digits_def by (rule rx_lang_rep_Atom) simp
  have pat: "numeric_body_pattern (map_option (\<lambda>c. [c]) thou) =
      Alt (rx_plus digit) (Seq (rx_rep 1 3 digit) (rx_plus (Seq (rx_literal [c]) (rx_times 3 digit))))"
    by (simp add: Some numeric_body_pattern_def)
  show ?thesis
  proof (intro set_eqI iffI)
    fix s assume "s \<in> rx_lang (numeric_body_pattern (map_option (\<lambda>c. [c]) thou))"
    then consider "s \<noteq> []" "set s \<subseteq> digits"
      | g hs where "s = g @ concat (map (\<lambda>h. c # h) hs)" "1 \<le> length g" "length g \<le> 3" "set g \<subseteq> digits"
          "hs \<noteq> []" "\<forall>h \<in> set hs. length h = 3 \<and> set h \<subseteq> digits"
      unfolding pat rx_lang.simps(4) rx_lang.simps(5) [of "rx_rep 1 3 digit"] lang_digit_plus rep lang_tail_groups
      by blast
    then show "s \<in> {group_text thou gs | gs. locale_groups thou gs}"
    proof cases
      case 1
      then show ?thesis using one by (intro CollectI exI [of _ "[s]"]) (simp add: Some)
    next
      case 2
      then obtain h rest where "hs = h # rest" by (cases hs) auto
      with 2 show ?thesis using many [of g h rest]
        by (intro CollectI exI [of _ "g # hs"]) (simp add: Some)
    qed
  next
    fix s assume "s \<in> {group_text thou gs | gs. locale_groups thou gs}"
    then obtain gs where s: "s = group_text thou gs" and gs: "locale_groups thou gs" by blast
    then obtain g hs where ghs: "gs = g # hs" by (cases gs) (auto simp: locale_groups_def)
    show "s \<in> rx_lang (numeric_body_pattern (map_option (\<lambda>c. [c]) thou))"
    proof (cases hs)
      case Nil
      then have "s \<noteq> [] \<and> set s \<subseteq> digits" using gs s one by (simp add: Some ghs)
      then show ?thesis unfolding pat rx_lang.simps(4) lang_digit_plus by blast
    next
      case (Cons h rest)
      then have "g \<in> rx_lang (rx_rep 1 3 digit)"
        and "concat (map (\<lambda>h. c # h) hs) \<in> rx_lang (rx_plus (Seq (rx_literal [c]) (rx_times 3 digit)))"
        using gs many [of g h rest] unfolding rep lang_tail_groups
        by (simp_all add: Some ghs, intro exI [of _ "h # rest"]) simp
      moreover have "s = g @ concat (map (\<lambda>h. c # h) hs)" by (simp add: s Some ghs)
      ultimately show ?thesis
        unfolding pat rx_lang.simps(4) rx_lang.simps(5) [of "rx_rep 1 3 digit"] by blast
    qed
  qed
qed

lemma lang_decimal:
  "rx_lang (decimal_pattern [d] (map_option (\<lambda>c. [c]) thou)) =
     {locale_text d thou sg gs fr | sg gs fr. locale_number thou sg gs fr}"
proof -
  have sign: "rx_lang sign_pattern = {[], ''+'', ''-''}"
    by (auto simp: sign_pattern_def rx_lang_opt)
  show ?thesis
    unfolding decimal_pattern_def rx_lang.simps(5) lang_body lang_fraction sign locale_text_def locale_number_def
    by blast
qed

section \<open>Stripping separators\<close>

lemma subst_char_append [simp]: "subst_char c r (s @ t) = subst_char c r s @ subst_char c r t"
  by (simp add: subst_char_def)

lemma subst_char_Nil [simp]: "subst_char c r [] = []"
  by (simp add: subst_char_def)

lemma subst_char_Cons: "subst_char c r (x # s) = (if x = c then r else [x]) @ subst_char c r s"
  by (simp add: subst_char_def)

lemma subst_char_absent: "c \<notin> set s \<Longrightarrow> subst_char c r s = s"
  by (induction s) (auto simp: subst_char_Cons)

lemma subst_char_groups:
  "(\<forall>h \<in> set hs. c \<notin> set h) \<Longrightarrow> subst_char c [] (concat (map (\<lambda>h. c # h) hs)) = concat hs"
  by (induction hs) (auto simp: subst_char_Cons subst_char_absent)

definition plain_separator :: "char \<Rightarrow> bool" where
  "plain_separator c \<longleftrightarrow> c \<notin> digits \<and> c \<noteq> CHR ''+'' \<and> c \<noteq> CHR ''-''"

lemma strip_locale_text:
  assumes num: "locale_number thou sg gs fr" and d: "plain_separator d"
    and t: "\<forall>c. thou = Some c \<longrightarrow> plain_separator c \<and> c \<noteq> d" and lit: "literal_replace_ok pl"
  shows "strip_separators pl [Some (locale_text d thou sg gs fr)] (Some [d]) (map_option (\<lambda>c. [c]) thou) =
    [Some (canonical_text sg gs fr)]"
proof -
  have sg: "c \<notin> set sg" and fr: "c \<notin> set fr" and gs: "\<forall>g \<in> set gs. c \<notin> set g" if "plain_separator c" for c
    using num that by (auto simp: locale_number_def locale_groups_def plain_separator_def)
  let ?tail = "if fr = [] then [] else d # fr"
  let ?clean = "case thou of None \<Rightarrow> locale_text d thou sg gs fr | Some c \<Rightarrow> subst_char c [] (locale_text d thou sg gs fr)"
  have clean: "?clean = sg @ concat gs @ ?tail"
  proof (cases thou)
    case None
    then show ?thesis
      using num by (auto simp: locale_text_def locale_number_def locale_groups_def split: list.splits)
  next
    case (Some c)
    then have c: "plain_separator c" "c \<noteq> d" using t by auto
    obtain g hs where ghs: "gs = g # hs"
      using num by (cases gs) (auto simp: locale_number_def locale_groups_def)
    have "subst_char c [] (group_text thou gs) = concat gs"
      using gs [OF c(1)] by (simp add: Some ghs subst_char_groups subst_char_absent)
    then show ?thesis
      using sg [OF c(1)] fr [OF c(1)] c(2) by (simp add: Some locale_text_def subst_char_absent subst_char_Cons)
  qed
  have "subst_char d ''.'' ?clean = canonical_text sg gs fr"
    unfolding clean using sg [OF d] fr [OF d] gs [OF d]
    by (auto simp: canonical_text_def subst_char_absent subst_char_Cons)
  then show ?thesis
    using lit clean by (auto simp: strip_separators_def Let_def literal_replace_ok_def canonical_text_def split: option.splits)
qed

section \<open>Properties\<close>



text \<open>
  C2 (functional). The contributed rows and the failed rows partition the chunk: the
  \<open>source_row_indices\<close> are strictly increasing, are exactly the rows without a failure, and
  together with \<open>failed_row_indices\<close> cover every row once.
\<close>

theorem apply_mapping_partition:
  assumes "apply_mapping pl m chunk = Inr r" and "validate_rules upper m = Inr ()" and "mapping_wf m"
    and "wf_frame (height chunk) chunk"
  shows "sorted_wrt (<) (mr_source_row_indices r) \<and>
    set (mr_source_row_indices r) \<union> set (failed_row_indices r) = {..<rename_rows m chunk} \<and>
    set (mr_source_row_indices r) \<inter> set (failed_row_indices r) = {}"
proof -
  from assms(1) obtain F where run: "run_stages pl m chunk = Inr (F, mr_failures r)"
    and keep: "mr_source_row_indices r = keep_rows F (mr_failures r)" by (rule apply_mappingE)
  have "stage_inv (rename_rows m chunk) (F, mr_failures r)"
    using run_stages_inv(1) [OF run assms(4) validate_rules_mapping_shape [OF assms(2,3)]] .
  from keep_rows_partition [OF this] show ?thesis
    by (simp add: keep failed_row_indices_def keep_rows_def sorted_wrt_filter)
qed

theorem apply_mapping_partition_witness:
  "\<exists>r. apply_mapping polars_demo demo_mapping demo_chunk = Inr r \<and>
     set (mr_source_row_indices r) \<union> set (failed_row_indices r) = {..<3} \<and>
     mr_source_row_indices r = [0, 2]"
proof -
  obtain r where r: "apply_mapping polars_demo demo_mapping demo_chunk = Inr r"
    and k: "mr_source_row_indices r = [0, 2]"
    using demo_run by (auto split: sum.splits)
  have "rename_rows demo_mapping demo_chunk = 3"
    by (simp add: rename_rows_def demo_mapping_def demo_chunk_def)
  with apply_mapping_partition [OF r demo_valid demo_wf(1,2)] r k show ?thesis by auto
qed

text \<open>
  C3 (invariant). Every failure names a target column of the mapping and a row of the chunk, and
  a cell is reported at most once: what one op nulled is not reported again by a later op or by
  the cast.
\<close>

theorem apply_mapping_reports_once:
  assumes "apply_mapping pl m chunk = Inr r" and "validate_rules upper m = Inr ()" and "mapping_wf m"
    and "wf_frame (height chunk) chunk"
  shows "distinct (map (\<lambda>f. (cf_row_index f, cf_column f)) (mr_failures r)) \<and>
    (\<forall>f \<in> set (mr_failures r). cf_row_index f < rename_rows m chunk \<and> cf_column f \<in> set (target_columns m))"
proof -
  from assms(1) obtain F where run: "run_stages pl m chunk = Inr (F, mr_failures r)"
    by (rule apply_mappingE)
  note inv = run_stages_inv [OF run assms(4) validate_rules_mapping_shape [OF assms(2,3)]]
  from inv(1,3) show ?thesis by (auto simp: stage_inv_def image_subset_iff)
qed

theorem apply_mapping_reports_once_witness:
  "\<exists>r. apply_mapping polars_demo demo_mapping demo_chunk = Inr r \<and>
     map cf_row_index (mr_failures r) = [1] \<and> (\<forall>f \<in> set (mr_failures r). cf_row_index f < 3)"
proof -
  obtain r where r: "apply_mapping polars_demo demo_mapping demo_chunk = Inr r"
    and k: "map cf_row_index (mr_failures r) = [1]"
    using demo_run by (auto split: sum.splits)
  have "rename_rows demo_mapping demo_chunk = 3"
    by (simp add: rename_rows_def demo_mapping_def demo_chunk_def)
  with apply_mapping_reports_once [OF r demo_valid demo_wf(1,2)] r k show ?thesis by auto
qed

text \<open>
  C4 (type). The contribution has exactly the mapping's target columns (rename targets, then
  derive targets, in declaration order) and every column has one cell per contributed row: no
  consumer-injected column can appear.
\<close>

theorem apply_mapping_contribution_shape:
  assumes "apply_mapping pl m chunk = Inr r"
  shows "keys (mr_contribution r) = map snd (sm_rename m) @ keys (sm_derive m) \<and>
    (\<forall>(c, s) \<in> set (mr_contribution r). series_len s = length (mr_source_row_indices r))"
proof -
  from assms obtain F where keep: "mr_source_row_indices r = keep_rows F (mr_failures r)"
    and sel: "select_rows F (target_columns m) (keep_rows F (mr_failures r)) = Inr (mr_contribution r)"
    by (rule apply_mappingE)
  from select_rows_Inr [OF sel] show ?thesis by (fastforce simp: keep target_columns_def)
qed

theorem apply_mapping_contribution_shape_witness:
  "\<exists>r. apply_mapping polars_demo demo_mapping demo_chunk = Inr r \<and>
     keys (mr_contribution r) = [''quantity'', ''event_at'', ''event_date'']"
proof -
  obtain r where r: "apply_mapping polars_demo demo_mapping demo_chunk = Inr r"
    using demo_run by (auto split: sum.splits)
  from apply_mapping_contribution_shape [OF r] r show ?thesis by (simp add: demo_mapping_def)
qed

lemma is_null_take_rows: "k < length ix \<Longrightarrow> ix ! k < series_len s \<Longrightarrow> is_null_mask (take_rows ix s) ! k = is_null_mask s ! (ix ! k)"
  by (cases s) simp_all

text \<open>
  C5 (safety). No nulled-cell pass-through: a contributed row never shows a null where the source
  had a value, as long as the column's ops are not \<open>null_tokens\<close> (whose purpose is to null) or
  \<open>parse_percent\<close> (see the next property). Cells are dropped with their row or kept with a value.
\<close>

theorem apply_mapping_no_silent_null:
  assumes ok: "apply_mapping pl m chunk = Inr r" and v: "validate_rules upper m = Inr ()"
    and wf: "mapping_wf m" and wfc: "wf_frame (height chunk) chunk"
    and src: "(src, c) \<in> set (sm_rename m)"
    and loud: "\<forall>(d, specs) \<in> set (sm_normalize m). d = c \<longrightarrow>
       (\<forall>spec \<in> set specs. ts_op spec \<notin> {''null_tokens'', ''parse_percent''})"
    and k: "k < length (mr_source_row_indices r)"
    and nn: "\<not> null_at chunk src (mr_source_row_indices r ! k)"
  shows "\<exists>s. map_of (mr_contribution r) c = Some s \<and> \<not> is_null_mask s ! k"
proof -
  from ok obtain F where run: "run_stages pl m chunk = Inr (F, mr_failures r)"
    and keep: "mr_source_row_indices r = keep_rows F (mr_failures r)"
    and sel: "select_rows F (target_columns m) (keep_rows F (mr_failures r)) = Inr (mr_contribution r)"
    by (rule apply_mappingE)
  let ?i = "mr_source_row_indices r ! k"
  have shape: "mapping_shape m" using v wf by (rule validate_rules_mapping_shape)
  have inv: "stage_inv (rename_rows m chunk) (F, mr_failures r)"
    using run_stages_inv(1) [OF run wfc shape] .
  have i: "?i \<in> set (keep_rows F (mr_failures r))" using k by (simp add: keep)
  then have ih: "?i < height chunk" and unreported: "?i \<notin> cf_row_index ` set (mr_failures r)"
    using keep_rows_partition [OF inv] src by (auto simp: rename_rows_def split: if_splits)
  have "null_reported (F, mr_failures r) c ?i"
    using run_stages_null_reported [OF run wfc shape src _ ih nn] loud by (simp add: quiet_ops_def)
  then have nonnull: "\<not> null_at F c ?i" using unreported by (force simp: null_reported_def)
  have "c \<in> set (target_columns m)" using src by (force simp: target_columns_def)
  then obtain s where s: "map_of (mr_contribution r) c = Some s"
    using select_rows_Inr(1) [OF sel] keys_map_of by metis
  then obtain s0 where s0: "map_of F c = Some s0" "s = take_rows (keep_rows F (mr_failures r)) s0"
    using select_rows_Inr(2) [OF sel] map_of_SomeD by metis
  have wfF: "wf_frame (rename_rows m chunk) F" using inv by (simp add: stage_inv_def)
  have "?i < series_len s0"
    using i wf_frame_height [OF wfF] wf_frame_lookup [OF wfF s0(1)] by (simp add: keep_rows_def)
  with nonnull s0 k have "\<not> is_null_mask s ! k"
    by (auto simp: null_at_def keep is_null_take_rows)
  with s show ?thesis by blast
qed

theorem apply_mapping_no_silent_null_witness:
  "\<exists>r s. apply_mapping polars_demo demo_mapping demo_chunk = Inr r \<and>
     map_of (mr_contribution r) ''quantity'' = Some s \<and> \<not> is_null_mask s ! 0"
proof -
  obtain r where r: "apply_mapping polars_demo demo_mapping demo_chunk = Inr r"
    and k: "mr_source_row_indices r = [0, 2]"
    using demo_run by (auto split: sum.splits)
  have src: "(''Qty'', ''quantity'') \<in> set (sm_rename demo_mapping)" by (simp add: demo_mapping_def)
  have loud: "\<forall>(d, specs) \<in> set (sm_normalize demo_mapping). d = ''quantity'' \<longrightarrow>
       (\<forall>spec \<in> set specs. ts_op spec \<notin> {''null_tokens'', ''parse_percent''})"
    by (simp add: demo_mapping_def)
  have pos: "0 < length (mr_source_row_indices r)"
    and nn: "\<not> null_at demo_chunk ''Qty'' (mr_source_row_indices r ! 0)"
    by (simp_all add: k null_at_def demo_chunk_def)
  from apply_mapping_no_silent_null [OF r demo_valid demo_wf(1,2) src loud pos nn] r
  show ?thesis by blast
qed

text \<open>
  \<open>parse_percent\<close> can null a cell without reporting it: when the text matches the
  declared locale but its value does not fit the 18-digit decimal the division goes through, the
  cell becomes null and the failure mask stays false, so the row passes with a null.
\<close>

theorem parse_percent_silent_null:
  assumes "pl_contains pl (Anchored (percent_pattern dec thou)) x"
    and "strip_separators pl [Some (pl_replace pl (AtEnd (Atom ''%'')) [] x)] (Some dec) thou = [Some y]"
    and "pl_decimal18_div100 pl y = None"
    and "arg args ''decimal_separator'' = JStr dec"
    and "json_str_opt (arg args ''thousands_separator'') = thou"
  shows "oo_values (parse_percent pl [Some x] args) = [None] \<and> oo_failed (parse_percent pl [Some x] args) = [False]"
  using assms by (simp add: parse_percent_def Let_def not_matching_def null_where_def)

theorem parse_percent_silent_null_witness:
  "let x = ''123456789012345678901'';
       args = [(''decimal_separator'', JStr ''.''), (''thousands_separator'', JNull)]
   in oo_values (parse_percent polars_demo [Some x] args) = [None] \<and>
      oo_failed (parse_percent polars_demo [Some x] args) = [False]"
proof -
  let ?x = "''123456789012345678901''"
  let ?args = "[(''decimal_separator'', JStr ''.''), (''thousands_separator'', JNull)]"
  have m: "pl_contains polars_demo (Anchored (percent_pattern ''.'' None)) ?x" by code_simp
  have "strip_separators polars_demo [Some (pl_replace polars_demo (AtEnd (Atom ''%'')) [] ?x)]
      (Some ''.'') None = [Some ?x]" by code_simp
  moreover have "pl_decimal18_div100 polars_demo ?x = None" by code_simp
  moreover have "arg ?args ''decimal_separator'' = JStr ''.''" by code_simp
  moreover have "json_str_opt (arg ?args ''thousands_separator'') = None" by code_simp
  ultimately show ?thesis using parse_percent_silent_null [OF m] by (simp add: Let_def)
qed

text \<open>
  C6 (roundtrip). \<open>parse_decimal\<close> under a declared locale: every number written in that locale
  (sign, 3-digit groups, fraction) is accepted and becomes its canonical dotted spelling, and
  every other text is refused and nulled, so a value of another locale is never misread.
\<close>

theorem parse_decimal_locale:
  assumes "regex_search_ok pl" and "literal_replace_ok pl" and "plain_separator d"
    and "\<forall>c. thou = Some c \<longrightarrow> plain_separator c \<and> c \<noteq> d"
    and "arg args ''decimal_separator'' = JStr [d]"
    and "arg args ''thousands_separator'' = (case thou of None \<Rightarrow> JNull | Some c \<Rightarrow> JStr [c])"
  shows "(locale_number thou sg gs fr \<longrightarrow>
      oo_values (parse_decimal pl [Some (locale_text d thou sg gs fr)] args) = [Some (canonical_text sg gs fr)] \<and>
      oo_failed (parse_decimal pl [Some (locale_text d thou sg gs fr)] args) = [False]) \<and>
    ((\<nexists>sg gs fr. locale_number thou sg gs fr \<and> x = locale_text d thou sg gs fr) \<longrightarrow>
      oo_values (parse_decimal pl [Some x] args) = [None] \<and> oo_failed (parse_decimal pl [Some x] args) = [True])"
proof -
  have t: "json_str_opt (arg args ''thousands_separator'') = map_option (\<lambda>c. [c]) thou"
    using assms(6) by (simp split: option.splits)
  have mem: "pl_contains pl (Anchored (decimal_pattern [d] (map_option (\<lambda>c. [c]) thou))) y \<longleftrightarrow>
      (\<exists>sg gs fr. locale_number thou sg gs fr \<and> y = locale_text d thou sg gs fr)" for y
    using assms(1) by (auto simp: regex_search_ok_def lang_decimal)
  show ?thesis
  proof (intro conjI impI)
    assume n: "locale_number thou sg gs fr"
    note strip = strip_locale_text [OF n assms(3,4,2)]
    show "oo_values (parse_decimal pl [Some (locale_text d thou sg gs fr)] args) = [Some (canonical_text sg gs fr)]"
      and "oo_failed (parse_decimal pl [Some (locale_text d thou sg gs fr)] args) = [False]"
      using n mem by (auto simp: parse_decimal_def Let_def assms(5) t strip not_matching_def null_where_def)
  next
    assume "\<nexists>sg gs fr. locale_number thou sg gs fr \<and> x = locale_text d thou sg gs fr"
    then show "oo_values (parse_decimal pl [Some x] args) = [None]"
      and "oo_failed (parse_decimal pl [Some x] args) = [True]"
      using mem by (simp_all add: parse_decimal_def Let_def assms(5) t not_matching_def null_where_def
          strip_separators_def split: option.splits list.splits)
  qed
qed

lemma demo_regex: "regex_search_ok polars_demo"
  by (simp add: regex_search_ok_def polars_demo_def rx_match_iff)

lemma demo_replace: "literal_replace_ok polars_demo"
  by (simp add: literal_replace_ok_def polars_demo_def replace_char_def subst_char_def)

theorem parse_decimal_locale_witness:
  "oo_values (parse_decimal polars_demo [Some ''-1.299,50'']
     [(''decimal_separator'', JStr '',''), (''thousands_separator'', JStr ''.'')]) = [Some ''-1299.50'']"
proof -
  let ?args = "[(''decimal_separator'', JStr '',''), (''thousands_separator'', JStr ''.'')]"
  have n: "locale_number (Some CHR ''.'') ''-'' [''1'', ''299''] ''50''"
    by (simp add: locale_number_def locale_groups_def digits_def)
  have t: "locale_text CHR '','' (Some CHR ''.'') ''-'' [''1'', ''299''] ''50'' = ''-1.299,50''"
    and c: "canonical_text ''-'' [''1'', ''299''] ''50'' = ''-1299.50''"
    by (simp_all add: locale_text_def canonical_text_def)
  have a: "arg ?args ''decimal_separator'' = JStr [CHR '','']"
    "arg ?args ''thousands_separator'' = (case Some CHR ''.'' of None \<Rightarrow> JNull | Some c \<Rightarrow> JStr [c])"
    by (simp_all add: arg_def)
  have p: "plain_separator CHR '',''" "\<forall>c. Some CHR ''.'' = Some c \<longrightarrow> plain_separator c \<and> c \<noteq> CHR '',''"
    by (simp_all add: plain_separator_def digits_def)
  from parse_decimal_locale [OF demo_regex demo_replace p a, of "''-''" "[''1'', ''299'']" "''50''"] n
  show ?thesis by (simp add: t c)
qed

end
