(* ===== verification/Effects.thy ===== *)
theory Effects
  imports Thalamus_Prelude
begin

text \<open>
  Code with effects: a computation takes the state of the world and returns a value or the
  exception that leaves it, together with the world as it is then (an exception does not undo
  earlier effects). \<open>triple P m Q E\<close> is the usual partial-correctness statement with a
  postcondition for each way out; computations are total functions, so it is total correctness.
\<close>

type_synonym ('e, 's, 'a) eff = "'s \<Rightarrow> ('e + 'a) \<times> 's"

definition ret :: "'a \<Rightarrow> ('e, 's, 'a) eff" where
  "ret x s = (Inr x, s)"

definition throw :: "'e \<Rightarrow> ('e, 's, 'a) eff" where
  "throw e s = (Inl e, s)"

definition bind_eff :: "('e, 's, 'a) eff \<Rightarrow> ('a \<Rightarrow> ('e, 's, 'b) eff) \<Rightarrow> ('e, 's, 'b) eff" where
  "bind_eff m f s = (case m s of (Inl e, t) \<Rightarrow> (Inl e, t) | (Inr x, t) \<Rightarrow> f x t)"

text \<open>\<open>try: m except: h\<close>\<close>

definition catch_eff :: "('e, 's, 'a) eff \<Rightarrow> ('e \<Rightarrow> ('e, 's, 'a) eff) \<Rightarrow> ('e, 's, 'a) eff" where
  "catch_eff m h s = (case m s of (Inl e, t) \<Rightarrow> h e t | (Inr x, t) \<Rightarrow> (Inr x, t))"

text \<open>A pure computation that may raise.\<close>

definition lift_res :: "'e + 'a \<Rightarrow> ('e, 's, 'a) eff" where
  "lift_res r s = (r, s)"

definition triple ::
  "('s \<Rightarrow> bool) \<Rightarrow> ('e, 's, 'a) eff \<Rightarrow> ('a \<Rightarrow> 's \<Rightarrow> bool) \<Rightarrow> ('e \<Rightarrow> 's \<Rightarrow> bool) \<Rightarrow> bool" where
  "triple P m Q E \<longleftrightarrow>
     (\<forall>s. P s \<longrightarrow> (case m s of (Inl e, t) \<Rightarrow> E e t | (Inr x, t) \<Rightarrow> Q x t))"

text \<open>
  The fate of a call that leaves the process: it works, it raises without or after taking effect,
  or the process dies before or after the effect.
\<close>

datatype fault = Fine | Lost | Late | Crash | LateCrash

section \<open>Equations\<close>

lemma eff_simps [simp]:
  "ret x s = (Inr x, s)"
  "throw e s = (Inl e, s)"
  "lift_res r s = (r, s)"
  by (simp_all add: ret_def throw_def lift_res_def)

lemma bind_eff_cases:
  "m s = (Inr x, t) \<Longrightarrow> bind_eff m f s = f x t"
  "m s = (Inl e, t) \<Longrightarrow> bind_eff m f s = (Inl e, t)"
  by (simp_all add: bind_eff_def)

lemma bind_ret [simp]: "bind_eff (ret x) f = f x"
  by (rule ext) (simp add: bind_eff_def)

section \<open>Proof rules\<close>

named_theorems vcg \<open>rules of the triple calculus\<close>

lemma tripleI:
  assumes "\<And>s e t. P s \<Longrightarrow> m s = (Inl e, t) \<Longrightarrow> E e t"
    and "\<And>s x t. P s \<Longrightarrow> m s = (Inr x, t) \<Longrightarrow> Q x t"
  shows "triple P m Q E"
  using assms by (auto simp: triple_def split: sum.splits prod.splits)

lemma triple_Inr: "triple P m Q E \<Longrightarrow> P s \<Longrightarrow> m s = (Inr x, t) \<Longrightarrow> Q x t"
  by (fastforce simp: triple_def)

lemma triple_Inl: "triple P m Q E \<Longrightarrow> P s \<Longrightarrow> m s = (Inl e, t) \<Longrightarrow> E e t"
  by (fastforce simp: triple_def)

lemma triple_ret [vcg]: "(\<And>s. P s \<Longrightarrow> Q x s) \<Longrightarrow> triple P (ret x) Q E"
  by (simp add: triple_def)

lemma triple_throw [vcg]: "(\<And>s. P s \<Longrightarrow> E e s) \<Longrightarrow> triple P (throw e) Q E"
  by (simp add: triple_def)

lemma triple_bind [vcg]:
  assumes "triple P m R E" and "\<And>x. triple (R x) (f x) Q E"
  shows "triple P (bind_eff m f) Q E"
proof (rule tripleI)
  fix s e t
  assume P: "P s" and run: "bind_eff m f s = (Inl e, t)"
  obtain r u where mr: "m s = (r, u)" by (cases "m s")
  show "E e t"
  proof (cases r)
    case (Inl e')
    then show ?thesis using mr run triple_Inl [OF assms(1) P] by (simp add: bind_eff_def)
  next
    case (Inr x)
    then have "R x u" and "f x u = (Inl e, t)"
      using mr run triple_Inr [OF assms(1) P] by (simp_all add: bind_eff_def)
    then show ?thesis using triple_Inl [OF assms(2)] by blast
  qed
next
  fix s y t
  assume P: "P s" and run: "bind_eff m f s = (Inr y, t)"
  then obtain x u where "m s = (Inr x, u)" and "f x u = (Inr y, t)"
    by (auto simp: bind_eff_def split: sum.splits prod.splits)
  then show "Q y t" using triple_Inr [OF assms(1) P] triple_Inr [OF assms(2)] by blast
qed

lemma triple_conseq:
  assumes "triple P' m Q' E'"
    and "\<And>s. P s \<Longrightarrow> P' s" and "\<And>x s. Q' x s \<Longrightarrow> Q x s" and "\<And>e s. E' e s \<Longrightarrow> E e s"
  shows "triple P m Q E"
proof (rule tripleI)
  show "E e t" if "P s" "m s = (Inl e, t)" for s e t
    using triple_Inl [OF assms(1)] assms(2,4) that by blast
  show "Q x t" if "P s" "m s = (Inr x, t)" for s x t
    using triple_Inr [OF assms(1)] assms(2,3) that by blast
qed

lemma triple_pre: "triple P' m Q E \<Longrightarrow> (\<And>s. P s \<Longrightarrow> P' s) \<Longrightarrow> triple P m Q E"
  by (auto simp: triple_def)

lemma triple_conj_pure: "(C \<Longrightarrow> triple P m Q E) \<Longrightarrow> triple (\<lambda>s. C \<and> P s) m Q E"
  by (auto simp: triple_def)

lemma triple_lift [vcg]:
  assumes "\<And>x s. r = Inr x \<Longrightarrow> P s \<Longrightarrow> Q x s" and "\<And>e s. r = Inl e \<Longrightarrow> P s \<Longrightarrow> E e s"
  shows "triple P (lift_res r) Q E"
  using assms by (auto simp: triple_def split: sum.splits)

lemma triple_if [vcg]:
  "(b \<Longrightarrow> triple P m Q E) \<Longrightarrow> (\<not> b \<Longrightarrow> triple P m' Q E) \<Longrightarrow> triple P (if b then m else m') Q E"
  by simp

lemma triple_catch:
  assumes "triple P m Q R" and "\<And>e. triple (R e) (h e) Q E"
  shows "triple P (catch_eff m h) Q E"
proof -
  have "case catch_eff m h s of (Inl e, t) \<Rightarrow> E e t | (Inr x, t) \<Rightarrow> Q x t" if P: "P s" for s
  proof (cases "m s")
    case (Pair r t)
    show ?thesis
    proof (cases r)
      case (Inl e)
      then have "R e t" using Pair triple_Inl [OF assms(1) P] by simp
      then show ?thesis using assms(2) [of e] Pair Inl by (simp add: catch_eff_def triple_def)
    next
      case (Inr x)
      then show ?thesis using Pair triple_Inr [OF assms(1) P] by (simp add: catch_eff_def)
    qed
  qed
  then show ?thesis by (simp add: triple_def)
qed

text \<open>An invariant that every way out of a computation keeps.\<close>

abbreviation keeps :: "('s \<Rightarrow> bool) \<Rightarrow> ('e, 's, 'a) eff \<Rightarrow> bool" where
  "keeps I m \<equiv> triple I m (\<lambda>_. I) (\<lambda>_. I)"

lemma triple_snd: "triple P m (\<lambda>_. Q) (\<lambda>_. Q) \<longleftrightarrow> (\<forall>s. P s \<longrightarrow> Q (snd (m s)))"
proof -
  have "(case m s of (Inl e, t) \<Rightarrow> Q t | (Inr x, t) \<Rightarrow> Q t) = Q (snd (m s))" for s
    by (cases "m s"; cases "fst (m s)") auto
  then show ?thesis by (simp add: triple_def)
qed

lemma keeps_snd: "keeps I m \<Longrightarrow> I s \<Longrightarrow> I (snd (m s))"
  by (cases "m s"; cases "fst (m s)") (auto dest: triple_Inl triple_Inr)

end
