(* ===== verification/Py_Text.thy ===== *)
theory Py_Text
  imports Thalamus_Prelude "HOL-Library.Word"
begin

text \<open>
  The string methods, the \<open>uuid.UUID\<close> text form and the \<open>datetime\<close> operations of Python that
  the sources use. Text is a list of 8-bit characters; \<open>str.strip\<close> removes the characters below
  256 for which \<open>str.isspace\<close> holds. A UUID is its 128-bit integer.
\<close>

section \<open>String methods\<close>

definition py_isspace :: "char \<Rightarrow> bool" where
  "py_isspace c \<longleftrightarrow> (of_char c :: nat) \<in> set [9, 10, 11, 12, 13, 28, 29, 30, 31, 32, 133, 160]"

definition py_strip_chars :: "(char \<Rightarrow> bool) \<Rightarrow> string \<Rightarrow> string" where
  "py_strip_chars p s = rev (dropWhile p (rev (dropWhile p s)))"

definition py_strip :: "string \<Rightarrow> string" where
  "py_strip s = py_strip_chars py_isspace s"

text \<open>\<open>s.split(c)\<close> for a one-character separator\<close>

fun py_split :: "char \<Rightarrow> string \<Rightarrow> string list" where
  "py_split c [] = [[]]"
| "py_split c (x # xs) =
     (if x = c then [] # py_split c xs
      else case py_split c xs of [] \<Rightarrow> [[x]] | p # ps \<Rightarrow> (x # p) # ps)"

text \<open>\<open>s.rpartition(c)\<close>: \<open>None\<close> when the separator does not occur\<close>

definition py_rpartition :: "char \<Rightarrow> string \<Rightarrow> (string \<times> string) option" where
  "py_rpartition c s =
     (if c \<in> set s
      then Some (rev (tl (dropWhile (\<lambda>x. x \<noteq> c) (rev s))), rev (takeWhile (\<lambda>x. x \<noteq> c) (rev s)))
      else None)"

text \<open>\<open>s.replace(old, '')\<close> for a non-empty \<open>old\<close>\<close>

fun py_remove :: "string \<Rightarrow> string \<Rightarrow> string" where
  "py_remove old [] = []"
| "py_remove old (x # xs) =
     (if old \<noteq> [] \<and> prefix old (x # xs) then py_remove old (drop (length old) (x # xs))
      else x # py_remove old xs)"

definition lower_char :: "char \<Rightarrow> char" where
  "lower_char c =
     (let n = of_char c :: nat in
      if (65 \<le> n \<and> n \<le> 90) \<or> (192 \<le> n \<and> n \<le> 222 \<and> n \<noteq> 215) then char_of (n + 32) else c)"

definition py_lower :: "string \<Rightarrow> string" where
  "py_lower s = map lower_char s"

lemma py_strip_chars_id:
  assumes "s = [] \<or> \<not> p (hd s) \<and> \<not> p (last s)"
  shows "py_strip_chars p s = s"
proof (cases "s = []")
  case False
  then have "dropWhile p s = s" using assms by (cases s) simp_all
  moreover have "dropWhile p (rev s) = rev s"
    using False assms by (cases s rule: rev_cases) simp_all
  ultimately show ?thesis by (simp add: py_strip_chars_def)
qed (simp add: py_strip_chars_def)

lemma py_strip_chars_none: "\<forall>c \<in> set s. \<not> p c \<Longrightarrow> py_strip_chars p s = s"
  by (rule py_strip_chars_id) (cases s; simp)

lemma py_strip_last: "py_strip s \<noteq> [] \<Longrightarrow> \<not> py_isspace (last (py_strip s))"
  using hd_dropWhile [of py_isspace "rev (dropWhile py_isspace s)"]
  by (simp add: py_strip_def py_strip_chars_def last_rev)

lemma py_strip_chars_subset: "set (py_strip_chars p s) \<subseteq> set s"
  using set_dropWhileD [of _ p "rev (dropWhile p s)"] set_dropWhileD [of _ p s]
  by (fastforce simp: py_strip_chars_def)

lemma py_split_not_Nil [simp]: "py_split c s \<noteq> []"
  by (cases s) (auto split: list.splits)

lemma py_split_single: "c \<notin> set s \<Longrightarrow> py_split c s = [s]"
  by (induction s) auto

lemma py_split_append: "c \<notin> set s \<Longrightarrow> py_split c (s @ c # t) = s # py_split c t"
  by (induction s) auto

text \<open>\<open>c.join(s.split(c)) == s\<close>\<close>

primrec py_join :: "char \<Rightarrow> string list \<Rightarrow> string" where
  "py_join c [] = []"
| "py_join c (p # ps) = (if ps = [] then p else p @ c # py_join c ps)"

lemma py_join_split [simp]: "py_join c (py_split c s) = s"
proof (induction s)
  case (Cons x xs)
  then show ?case
    using py_split_not_Nil [of c xs] by (cases "py_split c xs") auto
qed simp

lemma py_split_parts: "p \<in> set (py_split c s) \<Longrightarrow> c \<notin> set p"
proof (induction s arbitrary: p)
  case (Cons x xs)
  then show ?case by (cases "py_split c xs") (auto split: if_splits)
qed simp

lemma py_split_eq_iff:
  assumes "ps \<noteq> []" and "\<forall>p \<in> set ps. c \<notin> set p"
  shows "py_split c s = ps \<longleftrightarrow> s = py_join c ps"
proof
  assume "py_split c s = ps"
  then show "s = py_join c ps" using py_join_split [of c s] by simp
next
  have "py_split c (py_join c ps) = ps"
    using assms
  proof (induction ps)
    case (Cons p ps)
    then show ?case by (cases ps) (simp_all add: py_split_single py_split_append)
  qed simp
  then show "s = py_join c ps \<Longrightarrow> py_split c s = ps" by simp
qed

lemma py_rpartition_append:
  assumes "c \<notin> set t"
  shows "py_rpartition c (s @ c # t) = Some (s, t)"
proof -
  have t: "x \<noteq> c" if "x \<in> set (rev t)" for x using that assms by auto
  have "dropWhile (\<lambda>x. x \<noteq> c) (rev t @ c # rev s) = c # rev s"
    and "takeWhile (\<lambda>x. x \<noteq> c) (rev t @ c # rev s) = rev t"
    using dropWhile_append2 [of "rev t" "\<lambda>x. x \<noteq> c" "c # rev s", OF t]
      takeWhile_append2 [of "rev t" "\<lambda>x. x \<noteq> c" "c # rev s", OF t] by simp_all
  then show ?thesis by (simp add: py_rpartition_def)
qed

lemma py_rpartition_parts:
  assumes "py_rpartition c s = Some (a, b)"
  shows "s = a @ [c] @ b"
proof -
  from assms have c: "c \<in> set s"
    and ab: "a = rev (tl (dropWhile (\<lambda>x. x \<noteq> c) (rev s)))" "b = rev (takeWhile (\<lambda>x. x \<noteq> c) (rev s))"
    by (auto simp: py_rpartition_def split: if_splits)
  have ne: "dropWhile (\<lambda>x. x \<noteq> c) (rev s) \<noteq> []" using c by (auto simp: dropWhile_eq_Nil_conv)
  then have "hd (dropWhile (\<lambda>x. x \<noteq> c) (rev s)) = c"
    using hd_dropWhile [of "\<lambda>x. x \<noteq> c" "rev s"] by simp
  with ne have "dropWhile (\<lambda>x. x \<noteq> c) (rev s) = c # rev a"
    unfolding ab by (metis list.collapse rev_rev_ident)
  moreover have "takeWhile (\<lambda>x. x \<noteq> c) (rev s) = rev b" by (simp add: ab)
  ultimately have "rev s = rev b @ c # rev a"
    by (metis takeWhile_dropWhile_id)
  then show ?thesis by (metis append.assoc append_Cons append_Nil rev_append rev_rev_ident rev.simps)
qed

lemma py_remove_absent:
  assumes "old \<noteq> []" and "hd old \<notin> set s"
  shows "py_remove old s = s"
  using assms(2)
proof (induction s)
  case (Cons x xs)
  moreover have "\<not> prefix old (x # xs)" using assms(1) Cons.prems by (cases old) auto
  ultimately show ?case by simp
qed simp

lemma py_remove_char: "py_remove [c] s = filter (\<lambda>x. x \<noteq> c) s"
  by (induction s) auto

section \<open>Digits\<close>

definition dec_digit :: "nat \<Rightarrow> char" where
  "dec_digit n = char_of (48 + n)"

text \<open>The last \<open>k\<close> digits of a number in base \<open>b\<close>, most significant first.\<close>

primrec digits :: "nat \<Rightarrow> nat \<Rightarrow> nat \<Rightarrow> nat list" where
  "digits b 0 n = []"
| "digits b (Suc k) n = digits b k (n div b) @ [n mod b]"

definition from_digits :: "nat \<Rightarrow> nat list \<Rightarrow> nat" where
  "from_digits b ds = foldl (\<lambda>n d. n * b + d) 0 ds"

lemma length_digits [simp]: "length (digits b k n) = k"
  by (induction k arbitrary: n) simp_all

lemma digits_bound: "0 < b \<Longrightarrow> d \<in> set (digits b k n) \<Longrightarrow> d < b"
  by (induction k arbitrary: n) auto

lemma from_digits_digits: "n < b ^ k \<Longrightarrow> from_digits b (digits b k n) = n"
proof (induction k arbitrary: n)
  case (Suc k)
  have "n div b < b ^ k"
    using Suc.prems by (simp add: less_mult_imp_div_less mult.commute)
  from Suc.IH [OF this] show ?case by (simp add: from_digits_def)
qed (simp add: from_digits_def)

lemma digits_from_digits_both:
  "\<forall>d \<in> set ds. d < b \<Longrightarrow>
   digits b (length ds) (from_digits b ds) = ds \<and> from_digits b ds < b ^ length ds"
proof (induction ds rule: rev_induct)
  case (snoc d ds)
  then have IH: "digits b (length ds) (from_digits b ds) = ds" "from_digits b ds < b ^ length ds"
    and d: "d < b" by simp_all
  have step: "from_digits b (ds @ [d]) = from_digits b ds * b + d" by (simp add: from_digits_def)
  have "from_digits b ds * b + d < (from_digits b ds + 1) * b" using d by simp
  also have "\<dots> \<le> b ^ length ds * b" using IH(2) by (intro mult_right_mono) simp_all
  finally show ?case using IH(1) d by (simp add: step mult.commute)
qed (simp add: from_digits_def)

lemmas digits_from_digits = conjunct1 [OF digits_from_digits_both] conjunct2 [OF digits_from_digits_both]

text \<open>\<open>f"{n:0kd}"\<close> of a non-negative number with at most \<open>k\<close> digits, and \<open>int\<close> of its text\<close>

definition dec_pad :: "nat \<Rightarrow> nat \<Rightarrow> string" where
  "dec_pad k n = map dec_digit (digits 10 k n)"

text \<open>\<open>str(n)\<close>: a number has fewer digits than its successor, so the fuel suffices.\<close>

primrec str_nat_fuel :: "nat \<Rightarrow> nat \<Rightarrow> string" where
  "str_nat_fuel 0 n = []"
| "str_nat_fuel (Suc k) n =
     (if n < 10 then [dec_digit n] else str_nat_fuel k (n div 10) @ [dec_digit (n mod 10)])"

definition py_str_nat :: "nat \<Rightarrow> string" where
  "py_str_nat n = str_nat_fuel (Suc n) n"

definition is_dec :: "char \<Rightarrow> bool" where
  "is_dec c \<longleftrightarrow> (let n = of_char c :: nat in 48 \<le> n \<and> n \<le> 57)"

definition dec_val :: "char \<Rightarrow> nat" where
  "dec_val c = of_char c - 48"

definition dec_int :: "string \<Rightarrow> nat" where
  "dec_int s = from_digits 10 (map dec_val s)"

lemma dec_digit_props:
  assumes "d < 10"
  shows "is_dec (dec_digit d)" and "dec_val (dec_digit d) = d"
proof -
  have "48 + d < (256 :: nat)" using assms by simp
  then have "(of_char (dec_digit d) :: nat) = 48 + d"
    by (simp add: dec_digit_def)
  then show "is_dec (dec_digit d)" "dec_val (dec_digit d) = d"
    using assms by (simp_all add: is_dec_def dec_val_def)
qed

lemma length_dec_pad [simp]: "length (dec_pad k n) = k"
  by (simp add: dec_pad_def)

lemma dec_pad_is_dec: "c \<in> set (dec_pad k n) \<Longrightarrow> is_dec c"
  using digits_bound [of 10] dec_digit_props(1) by (auto simp: dec_pad_def)

lemma dec_int_pad: "n < 10 ^ k \<Longrightarrow> dec_int (dec_pad k n) = n"
proof -
  assume n: "n < 10 ^ k"
  have "map dec_val (map dec_digit (digits 10 k n)) = digits 10 k n"
    using digits_bound [of 10] dec_digit_props(2) by (simp add: map_idI)
  then show ?thesis using n by (simp add: dec_int_def dec_pad_def from_digits_digits)
qed

lemma dec_pad_int:
  assumes "list_all is_dec s"
  shows "dec_pad (length s) (dec_int s) = s" and "dec_int s < 10 ^ length s"
proof -
  have d: "dec_val c < 10 \<and> dec_digit (dec_val c) = c" if "c \<in> set s" for c
    using that assms by (auto simp: list_all_iff is_dec_def dec_val_def dec_digit_def Let_def)
  have "digits 10 (length s) (dec_int s) = map dec_val s"
    using digits_from_digits(1) [of "map dec_val s" 10] d by (simp add: dec_int_def)
  then show "dec_pad (length s) (dec_int s) = s" using d by (simp add: dec_pad_def map_idI)
  show "dec_int s < 10 ^ length s"
    using digits_from_digits(2) [of "map dec_val s" 10] d by (simp add: dec_int_def)
qed

lemma str_nat_fuel_enough: "n < k \<Longrightarrow> dec_int (str_nat_fuel k n) = n \<and> list_all is_dec (str_nat_fuel k n)"
proof (induction k arbitrary: n)
  case (Suc k)
  show ?case
  proof (cases "n < 10")
    case True
    then show ?thesis using dec_digit_props [of n] by (simp add: dec_int_def from_digits_def)
  next
    case False
    then have "n div 10 < k" using Suc.prems by linarith
    from Suc.IH [OF this] show ?thesis
      using False dec_digit_props [of "n mod 10"] by (simp add: dec_int_def from_digits_def)
  qed
qed simp

lemma dec_int_str: "dec_int (py_str_nat n) = n"
  using str_nat_fuel_enough [of n "Suc n"] unfolding py_str_nat_def by blast

section \<open>UUIDs\<close>

type_synonym uuid = "128 word"

definition hex_digit :: "nat \<Rightarrow> char" where
  "hex_digit n = ''0123456789abcdef'' ! n"

definition hex_value :: "char \<Rightarrow> nat option" where
  "hex_value c =
     (let n = of_char c :: nat in
      if 48 \<le> n \<and> n \<le> 57 then Some (n - 48)
      else if 97 \<le> n \<and> n \<le> 102 then Some (n - 87)
      else if 65 \<le> n \<and> n \<le> 70 then Some (n - 55)
      else None)"

text \<open>\<open>'%032x' % uuid.int\<close> and \<open>str(uuid)\<close>\<close>

definition uuid_hex :: "uuid \<Rightarrow> string" where
  "uuid_hex u = map hex_digit (digits 16 32 (unat u))"

definition hyphenate :: "string \<Rightarrow> string" where
  "hyphenate h = take 8 h @ ''-'' @ take 4 (drop 8 h) @ ''-'' @ take 4 (drop 12 h) @ ''-'' @
     take 4 (drop 16 h) @ ''-'' @ drop 20 h"

definition uuid_str :: "uuid \<Rightarrow> string" where
  "uuid_str u = hyphenate (uuid_hex u)"

text \<open>
  \<open>int(s, 16)\<close>: surrounding white space, a sign and the prefix \<open>0x\<close> are accepted, and single
  underscores between digits (and after the prefix).
\<close>

fun hex_groups :: "string \<Rightarrow> nat list option" where
  "hex_groups [] = None"
| "hex_groups [c] = map_option (\<lambda>d. [d]) (hex_value c)"
| "hex_groups (c # x # xs) =
     (case hex_value c of
        None \<Rightarrow> None
      | Some d \<Rightarrow> map_option (\<lambda>ds. d # ds) (if x = CHR ''_'' then hex_groups xs else hex_groups (x # xs)))"

definition drop_hex_prefix :: "string \<Rightarrow> string" where
  "drop_hex_prefix s =
     (if prefix ''0x'' s \<or> prefix ''0X'' s
      then (let r = drop 2 s in if prefix ''_'' r then tl r else r)
      else s)"

definition py_int_16 :: "string \<Rightarrow> int option" where
  "py_int_16 s =
     (let b = py_strip s;
          negative = prefix ''-'' b;
          u = (if negative \<or> prefix ''+'' b then tl b else b)
      in map_option (\<lambda>ds. (if negative then -1 else 1) * int (from_digits 16 ds))
           (hex_groups (drop_hex_prefix u)))"

text \<open>\<open>UUID(hex)\<close>; \<open>None\<close> is \<open>ValueError\<close>\<close>

definition uuid_parse :: "string \<Rightarrow> uuid option" where
  "uuid_parse s =
     (let h = py_remove ''-'' (py_strip_chars (\<lambda>c. c = CHR ''{'' \<or> c = CHR ''}'')
                (py_remove ''uuid:'' (py_remove ''urn:'' s)))
      in if length h \<noteq> 32 then None
         else case py_int_16 h of
             None \<Rightarrow> None
           | Some n \<Rightarrow> if 0 \<le> n \<and> n < 2 ^ 128 then Some (of_int n) else None)"

lemma hex_digit_cases:
  assumes "d < 16"
  shows "hex_digit d \<in> set ''0123456789abcdef''" and "hex_value (hex_digit d) = Some d"
proof -
  have "d \<in> set [0, 1, 2, 3, 4, 5, 6, 7, 8, 9, 10, 11, 12, 13, 14, 15]"
    using assms by (simp only: list.set insert_iff empty_iff) presburger
  then have "hex_digit d \<in> set ''0123456789abcdef'' \<and> hex_value (hex_digit d) = Some d"
    by (simp only: list.set insert_iff empty_iff) (elim disjE; simp add: hex_digit_def hex_value_def)
  then show "hex_digit d \<in> set ''0123456789abcdef''" "hex_value (hex_digit d) = Some d" by blast+
qed

lemma uuid_hex_chars: "set (uuid_hex u) \<subseteq> set ''0123456789abcdef''"
  using hex_digit_cases(1) digits_bound [of 16 _ 32 "unat u"] by (auto simp: uuid_hex_def simp del: digits.simps)

lemma length_uuid_hex [simp]: "length (uuid_hex u) = 32"
  by (simp add: uuid_hex_def del: digits.simps)

lemma hyphenate_chars: "set (hyphenate h) \<subseteq> insert CHR ''-'' (set h)"
  by (auto simp: hyphenate_def dest: in_set_takeD in_set_dropD)

lemma hyphenate_filter:
  assumes "CHR ''-'' \<notin> set h"
  shows "filter (\<lambda>x. x \<noteq> CHR ''-'') (hyphenate h) = h"
proof -
  have keep: "filter (\<lambda>x. x \<noteq> CHR ''-'') s = s" if "set s \<subseteq> set h" for s
    using that assms by (auto intro: filter_True)
  have parts: "set (take n h) \<subseteq> set h" "set (take n (drop m h)) \<subseteq> set h" "set (drop m h) \<subseteq> set h" for n m
    by (auto dest: in_set_takeD in_set_dropD)
  have "filter (\<lambda>x. x \<noteq> CHR ''-'') (hyphenate h) =
      take 8 h @ take 4 (drop 8 h) @ take 4 (drop 12 h) @ take 4 (drop 16 h) @ drop 20 h"
    by (simp add: hyphenate_def keep parts)
  also have "\<dots> = take 8 h @ take 4 (drop 8 h) @ take 4 (drop 12 h) @ drop 16 h"
    using append_take_drop_id [of 4 "drop 16 h"] by (simp del: append_take_drop_id)
  also have "\<dots> = take 8 h @ take 4 (drop 8 h) @ drop 12 h"
    using append_take_drop_id [of 4 "drop 12 h"] by (simp del: append_take_drop_id)
  also have "\<dots> = take 8 h @ drop 8 h"
    using append_take_drop_id [of 4 "drop 8 h"] by (simp del: append_take_drop_id)
  finally show ?thesis by simp
qed

lemma hex_groups_digits:
  assumes "ds \<noteq> []" and "\<forall>d \<in> set ds. d < 16"
  shows "hex_groups (map hex_digit ds) = Some ds"
  using assms
proof (induction ds)
  case (Cons d ds)
  show ?case
  proof (cases ds)
    case Nil
    then show ?thesis using Cons.prems hex_digit_cases(2) by simp
  next
    case (Cons e es)
    have "hex_digit e \<noteq> CHR ''_''" using hex_digit_cases(1) [of e] Cons.prems Cons by auto
    then show ?thesis using Cons Cons.prems Cons.IH hex_digit_cases(2) by simp
  qed
qed simp

lemma hex_text_plain:
  assumes "set s \<subseteq> set ''0123456789abcdef''"
  shows "py_strip s = s" and "drop_hex_prefix s = s"
    and "\<not> prefix ''-'' s" and "\<not> prefix ''+'' s"
proof -
  have "\<forall>c \<in> set s. \<not> py_isspace c"
  proof
    fix c assume "c \<in> set s"
    then have "c \<in> set ''0123456789abcdef''" using assms by blast
    then show "\<not> py_isspace c"
      by (simp only: list.set insert_iff empty_iff) (elim disjE; simp add: py_isspace_def)
  qed
  then show "py_strip s = s" by (simp add: py_strip_def py_strip_chars_none)
  show "drop_hex_prefix s = s" "\<not> prefix ''-'' s" "\<not> prefix ''+'' s"
    using assms by (auto simp: drop_hex_prefix_def prefix_def)
qed

text \<open>\<open>UUID(str(u)) == u\<close>\<close>

lemma uuid_parse_str [simp]: "uuid_parse (uuid_str u) = Some u"
proof -
  let ?h = "uuid_hex u"
  have chars: "set (uuid_str u) \<subseteq> insert CHR ''-'' (set ''0123456789abcdef'')"
    using hyphenate_chars uuid_hex_chars unfolding uuid_str_def by blast
  have "py_remove ''urn:'' (uuid_str u) = uuid_str u"
    and "py_remove ''uuid:'' (uuid_str u) = uuid_str u"
    using chars by (auto intro!: py_remove_absent)
  moreover have "py_strip_chars (\<lambda>c. c = CHR ''{'' \<or> c = CHR ''}'') (uuid_str u) = uuid_str u"
    using chars by (auto intro!: py_strip_chars_none)
  moreover have "CHR ''-'' \<notin> set ?h" using uuid_hex_chars [of u] by auto
  then have "py_remove ''-'' (uuid_str u) = ?h"
    by (simp add: py_remove_char uuid_str_def hyphenate_filter)
  moreover have "py_int_16 ?h = Some (uint u)"
  proof -
    let ?ds = "digits 16 32 (unat u)"
    have bound: "\<forall>d \<in> set ?ds. d < 16" using digits_bound [of 16] by auto
    have "length ?ds = 32" by (rule length_digits)
    then have "?ds \<noteq> []" by (metis list.size(3) zero_neq_numeral)
    from hex_groups_digits [OF this bound] have "hex_groups ?h = Some ?ds"
      by (simp add: uuid_hex_def del: digits.simps)
    moreover have "unat u < 16 ^ 32" using unsigned_less [of u] by simp
    ultimately show ?thesis
      using hex_text_plain [OF uuid_hex_chars, of u] from_digits_digits [of "unat u" 16 32]
      by (simp add: py_int_16_def del: digits.simps)
  qed
  moreover have "uint u < 2 ^ 128" using uint_lt2p [of u] by simp
  ultimately show ?thesis by (simp add: uuid_parse_def)
qed

lemma uuid_str_inject: "uuid_str u = uuid_str v \<longleftrightarrow> u = v"
  by (metis option.inject uuid_parse_str)

section \<open>Datetimes\<close>

text \<open>
  A \<open>datetime\<close>: its wall-clock date, the microseconds since its midnight and its UTC offset in
  microseconds (\<open>None\<close> for a naive value). \<open>astimezone(UTC)\<close> subtracts the offset, which moves
  the date by at most one day; it raises \<open>OverflowError\<close> outside the years 1 to 9999.
\<close>

record datetime =
  dt_year :: nat
  dt_month :: nat
  dt_day :: nat
  dt_usec :: int
  dt_utcoffset :: "int option"

datatype datetime_error = NaiveDatetimeError | DateOverflow

definition day_usec :: int where
  "day_usec = 86400000000"

definition is_leap :: "nat \<Rightarrow> bool" where
  "is_leap y \<longleftrightarrow> y mod 4 = 0 \<and> (y mod 100 \<noteq> 0 \<or> y mod 400 = 0)"

definition days_in_month :: "nat \<Rightarrow> nat \<Rightarrow> nat" where
  "days_in_month y m =
     (if m = 2 then (if is_leap y then 29 else 28)
      else if m = 4 \<or> m = 6 \<or> m = 9 \<or> m = 11 then 30 else 31)"

definition wf_datetime :: "datetime \<Rightarrow> bool" where
  "wf_datetime dt \<longleftrightarrow>
     1 \<le> dt_year dt \<and> dt_year dt \<le> 9999 \<and> 1 \<le> dt_month dt \<and> dt_month dt \<le> 12 \<and>
     1 \<le> dt_day dt \<and> dt_day dt \<le> days_in_month (dt_year dt) (dt_month dt) \<and>
     0 \<le> dt_usec dt \<and> dt_usec dt < day_usec \<and>
     (case dt_utcoffset dt of None \<Rightarrow> True | Some off \<Rightarrow> - day_usec < off \<and> off < day_usec)"

definition next_day :: "datetime \<Rightarrow> datetime" where
  "next_day dt =
     (if dt_day dt < days_in_month (dt_year dt) (dt_month dt) then dt\<lparr>dt_day := dt_day dt + 1\<rparr>
      else if dt_month dt < 12 then dt\<lparr>dt_month := dt_month dt + 1, dt_day := 1\<rparr>
      else dt\<lparr>dt_year := dt_year dt + 1, dt_month := 1, dt_day := 1\<rparr>)"

definition prev_day :: "datetime \<Rightarrow> datetime" where
  "prev_day dt =
     (if 1 < dt_day dt then dt\<lparr>dt_day := dt_day dt - 1\<rparr>
      else if 1 < dt_month dt
      then dt\<lparr>dt_month := dt_month dt - 1, dt_day := days_in_month (dt_year dt) (dt_month dt - 1)\<rparr>
      else dt\<lparr>dt_year := dt_year dt - 1, dt_month := 12, dt_day := 31\<rparr>)"

definition ensure_utc :: "datetime \<Rightarrow> datetime_error + datetime" where
  "ensure_utc dt =
     (case dt_utcoffset dt of
        None \<Rightarrow> Inl NaiveDatetimeError
      | Some off \<Rightarrow>
          (let u = dt_usec dt - off;
               d = (if u < 0 then (prev_day dt)\<lparr>dt_usec := u + day_usec\<rparr>
                    else if u \<ge> day_usec then (next_day dt)\<lparr>dt_usec := u - day_usec\<rparr>
                    else dt\<lparr>dt_usec := u\<rparr>)
           in if dt_year d < 1 \<or> 9999 < dt_year d then Inl DateOverflow
              else Inr (d\<lparr>dt_utcoffset := Some 0\<rparr>)))"

lemma days_in_month_bounds: "28 \<le> days_in_month y m" "days_in_month y m \<le> 31"
  by (simp_all add: days_in_month_def)

lemma next_day_wf:
  assumes "wf_datetime dt" and "dt_year (next_day dt) \<le> 9999"
  shows "wf_datetime (next_day dt)" and "dt_utcoffset (next_day dt) = dt_utcoffset dt"
  using assms order_trans [OF _ days_in_month_bounds(1), of 1]
  by (auto simp: wf_datetime_def next_day_def Suc_le_eq)

lemma prev_day_wf:
  assumes "wf_datetime dt" and "1 \<le> dt_year (prev_day dt)"
  shows "wf_datetime (prev_day dt)" and "dt_utcoffset (prev_day dt) = dt_utcoffset dt"
proof -
  have "days_in_month y 12 = 31" for y by (simp add: days_in_month_def)
  then show "wf_datetime (prev_day dt)" "dt_utcoffset (prev_day dt) = dt_utcoffset dt"
    using assms order_trans [OF _ days_in_month_bounds(1), of 1]
    by (auto simp: wf_datetime_def prev_day_def Suc_le_eq)
qed

lemma wf_datetime_usec:
  "wf_datetime dt \<Longrightarrow> 0 \<le> v \<Longrightarrow> v < day_usec \<Longrightarrow> wf_datetime (dt\<lparr>dt_usec := v, dt_utcoffset := Some 0\<rparr>)"
  by (simp add: wf_datetime_def day_usec_def)

lemma ensure_utc_wf:
  assumes "wf_datetime dt" and "ensure_utc dt = Inr u"
  shows "wf_datetime u" and "dt_utcoffset u = Some 0"
proof -
  obtain off where off: "dt_utcoffset dt = Some off"
    using assms(2) by (cases "dt_utcoffset dt") (auto simp: ensure_utc_def)
  define v where "v = dt_usec dt - off"
  have v: "- day_usec < v" "v < 2 * day_usec"
    using assms(1) off by (auto simp: wf_datetime_def v_def)
  show "wf_datetime u"
  proof (cases "v < 0")
    case True
    then have "u = (prev_day dt)\<lparr>dt_usec := v + day_usec, dt_utcoffset := Some 0\<rparr>"
      and "1 \<le> dt_year (prev_day dt)"
      using assms(2) off by (auto simp: ensure_utc_def Let_def v_def split: if_splits)
    then show ?thesis using wf_datetime_usec prev_day_wf(1) [OF assms(1)] True v by simp
  next
    case False
    show ?thesis
    proof (cases "day_usec \<le> v")
      case True
      then have "u = (next_day dt)\<lparr>dt_usec := v - day_usec, dt_utcoffset := Some 0\<rparr>"
        and "dt_year (next_day dt) \<le> 9999"
        using assms(2) off False by (auto simp: ensure_utc_def Let_def v_def split: if_splits)
      then show ?thesis using wf_datetime_usec next_day_wf(1) [OF assms(1)] True v by simp
    next
      case below: False
      then have "u = dt\<lparr>dt_usec := v, dt_utcoffset := Some 0\<rparr>"
        using assms(2) off False by (auto simp: ensure_utc_def Let_def v_def split: if_splits)
      then show ?thesis using wf_datetime_usec [OF assms(1)] False below by simp
    qed
  qed
  show "dt_utcoffset u = Some 0"
    using assms(2) off by (auto simp: ensure_utc_def Let_def split: if_splits)
qed

lemma ensure_utc_utc:
  assumes "wf_datetime dt" and "dt_utcoffset dt = Some 0"
  shows "ensure_utc dt = Inr dt"
  using assms by (simp add: ensure_utc_def wf_datetime_def Let_def)

section \<open>Dates and instants as text\<close>

text \<open>\<open>date.isoformat\<close>: the year by the cycles of 400, 100, 4 and 1 years, then the month.\<close>

fun month_of_day :: "nat \<Rightarrow> nat list \<Rightarrow> nat \<Rightarrow> nat \<times> nat" where
  "month_of_day y [] d = (12, d + 1)"
| "month_of_day y (m # ms) d = (if d < days_in_month y m then (m, d + 1) else month_of_day y ms (d - days_in_month y m))"

definition iso_date :: "int \<Rightarrow> string" where
  "iso_date ordinal =
     (let n = nat (ordinal - 1);
          n400 = n div 146097; r400 = n mod 146097;
          n100 = r400 div 36524; r100 = r400 mod 36524;
          n4 = r100 div 1461; r4 = r100 mod 1461;
          n1 = r4 div 365; r1 = r4 mod 365;
          year = n400 * 400 + n100 * 100 + n4 * 4 + n1 + 1;
          (y, m, d) = (if n1 = 4 \<or> n100 = 4 then (year - 1, 12, 31)
                       else case month_of_day year [1, 2, 3, 4, 5, 6, 7, 8, 9, 10, 11, 12] r1 of (m, d) \<Rightarrow> (year, m, d))
      in dec_pad 4 y @ ''-'' @ dec_pad 2 m @ ''-'' @ dec_pad 2 d)"

text \<open>
  \<open>datetime.isoformat\<close> of a UTC instant, given in microseconds since the epoch: the microseconds
  are left out when they are zero.
\<close>

definition epoch_ordinal :: int where
  "epoch_ordinal = 719163"

definition iso_instant :: "int \<Rightarrow> string" where
  "iso_instant t =
     (let us = nat (t mod 86400000000); sec = us div 1000000; frac = us mod 1000000
      in iso_date (epoch_ordinal + t div 86400000000) @ ''T'' @ dec_pad 2 (sec div 3600) @ '':'' @
         dec_pad 2 (sec div 60 mod 60) @ '':'' @ dec_pad 2 (sec mod 60) @
         (if frac = 0 then [] else ''.'' @ dec_pad 6 frac) @ ''+00:00'')"

end
