(* ===== verification/Bronze_Store.thy ===== *)
theory Bronze_Store
  imports Py_Text
begin

text \<open>
  The bronze ledger \<open>bronze.data_ingress_events\<close> as
  \<open>dis/services/csv-ingest-worker/src/csv_ingest_worker/bronze.py\<close> uses it: the dedup lookup,
  the metadata-only insert and the publish mark, each under the row-level-security session of
  one tenant (\<open>dis/libs/dis-rls/src/dis_rls/session.py\<close>). A timestamp is a number of
  microseconds. The locale \<open>dedup_ledger\<close> is the contract of a ledger with a windowed dedup
  key; the bronze table is interpreted as one at the end of the theory.
\<close>

type_synonym timestamp = int

section \<open>Rows\<close>

text \<open>\<open>processing_status\<close>; the downstream states are written by later pipeline stages.\<close>

datatype processing_status = RECEIVED | FAILED | PUBLISHED | PROCESSED | QUARANTINED

definition DIS_CHANNEL :: string where
  "DIS_CHANNEL = ''csv_upload''"

definition CONTENT_TYPE :: string where
  "CONTENT_TYPE = ''text/csv''"

definition DEDUP_WINDOW_HOURS :: int where
  "DEDUP_WINDOW_HOURS = 24"

definition dedup_window :: int where
  "dedup_window = DEDUP_WINDOW_HOURS * 3600000000"

text \<open>
  A table row: the fields of \<open>BronzeRow\<close>, and the columns \<open>content_type\<close> and \<open>published_at\<close>.
  \<open>source_payload_id\<close> and \<open>payload_sha256\<close> are nullable in the table (legacy rows).
\<close>

record bronze_row =
  br_id :: uuid
  br_tenant_id :: uuid
  br_store_id :: "uuid option"
  br_source_id :: string
  br_trace_id :: uuid
  br_gcs_uri :: string
  br_payload_size_bytes :: nat
  br_payload_sha256 :: "string option"
  br_row_count :: "nat option"
  br_source_payload_id :: "string option"
  br_template_id :: "uuid option"
  br_original_filename :: "string option"
  br_received_at :: timestamp
  br_processing_status :: processing_status
  br_dis_channel :: string
  br_content_type :: string
  br_published_at :: "timestamp option"

record prior_ingest =
  pi_bronze_id :: uuid
  pi_trace_id :: uuid
  pi_store_id :: "uuid option"
  pi_source_id :: string
  pi_gcs_uri :: string
  pi_received_at :: timestamp
  pi_published_at :: "timestamp option"
  pi_processing_status :: processing_status

definition prior_of_row :: "bronze_row \<Rightarrow> prior_ingest" where
  "prior_of_row r =
     \<lparr>pi_bronze_id = br_id r, pi_trace_id = br_trace_id r, pi_store_id = br_store_id r,
      pi_source_id = br_source_id r, pi_gcs_uri = br_gcs_uri r, pi_received_at = br_received_at r,
      pi_published_at = br_published_at r, pi_processing_status = br_processing_status r\<rparr>"

definition is_published :: "prior_ingest \<Rightarrow> bool" where
  "is_published p \<longleftrightarrow> pi_published_at p \<noteq> None \<or> pi_processing_status p = PUBLISHED"

section \<open>Row-level security (dis-rls)\<close>

definition EXPECTED_DATABASE :: string where
  "EXPECTED_DATABASE = ''ithina_dis_db''"

datatype rls_error = WrongDatabase string string | RoleBypassesRls string string

definition check_posture :: "string \<Rightarrow> string \<Rightarrow> bool \<Rightarrow> bool \<Rightarrow> rls_error + unit" where
  "check_posture database role rolsuper rolbypassrls =
     bind_res (raise_if (database \<noteq> EXPECTED_DATABASE) (WrongDatabase database role)) (\<lambda>_.
     raise_if (rolsuper \<or> rolbypassrls) (RoleBypassesRls database role))"

text \<open>
  The \<open>tenant_isolation\<close> policy under \<open>rls_session(engine, tenant)\<close>: USING filters what is read
  and updated, WITH CHECK rejects a row of another tenant.
\<close>

definition rls_view :: "uuid \<Rightarrow> bronze_row list \<Rightarrow> bronze_row list" where
  "rls_view tenant rows = filter (\<lambda>r. br_tenant_id r = tenant) rows"

section \<open>The three statements of bronze.py\<close>

definition require_key_component :: "string \<Rightarrow> string \<Rightarrow> string + unit" where
  "require_key_component name v = raise_if (v = [] \<or> py_strip v = []) name"

text \<open>
  The SELECT: same key and channel, \<open>received_at\<close> not before the cutoff, most recent first,
  one row (of rows received at the same instant, the first inserted).
\<close>

definition key_match :: "string \<Rightarrow> string \<Rightarrow> string \<Rightarrow> timestamp \<Rightarrow> bronze_row \<Rightarrow> bool" where
  "key_match spid sha channel cutoff r \<longleftrightarrow>
     br_source_payload_id r = Some spid \<and> br_payload_sha256 r = Some sha \<and>
     br_dis_channel r = channel \<and> br_received_at r \<ge> cutoff"

fun most_recent :: "bronze_row list \<Rightarrow> bronze_row option" where
  "most_recent [] = None"
| "most_recent (r # rs) =
     (case most_recent rs of
        None \<Rightarrow> Some r
      | Some s \<Rightarrow> if br_received_at r \<ge> br_received_at s then Some r else Some s)"

definition select_prior :: "uuid \<Rightarrow> string \<Rightarrow> string \<Rightarrow> string \<Rightarrow> timestamp \<Rightarrow> bronze_row list \<Rightarrow> bronze_row option" where
  "select_prior tenant spid sha channel now rows =
     most_recent (filter (key_match spid sha channel (now - dedup_window)) (rls_view tenant rows))"

definition find_prior ::
  "uuid \<Rightarrow> string \<Rightarrow> string \<Rightarrow> string \<Rightarrow> timestamp \<Rightarrow> bronze_row list \<Rightarrow> string + prior_ingest option" where
  "find_prior tenant upload_session_id payload_sha256 channel now rows =
     bind_res (require_key_component ''upload_session_id'' upload_session_id) (\<lambda>_.
     bind_res (require_key_component ''payload_sha256'' payload_sha256) (\<lambda>_.
     Inr (map_option prior_of_row
            (select_prior tenant upload_session_id payload_sha256 channel now rows))))"

text \<open>\<open>None\<close>: the WITH CHECK policy or the primary key refuses the row.\<close>

definition insert_row :: "uuid \<Rightarrow> bronze_row \<Rightarrow> bronze_row list \<Rightarrow> bronze_row list option" where
  "insert_row tenant row rows =
     (if br_tenant_id row = tenant \<and> br_id row \<notin> set (map br_id rows) then Some (rows @ [row]) else None)"

definition mark_published :: "uuid \<Rightarrow> uuid \<Rightarrow> timestamp \<Rightarrow> bronze_row list \<Rightarrow> bronze_row list" where
  "mark_published tenant bronze_id published_at rows =
     map (\<lambda>r. if br_tenant_id r = tenant \<and> br_id r = bronze_id
              then r\<lparr>br_published_at := Some published_at, br_processing_status := PUBLISHED\<rparr> else r) rows"

section \<open>The contract of a windowed dedup ledger\<close>

text \<open>
  \<open>separated\<close>: two rows of the same key are further apart than the window. A client that looks
  up the key before every insert, and whose clock does not run backwards between the lookup and
  the new row's timestamp, keeps it.
\<close>

locale dedup_ledger =
  fixes key :: "'row \<Rightarrow> 'k option" and at :: "'row \<Rightarrow> int" and window :: int
    and lookup :: "'k \<Rightarrow> int \<Rightarrow> 'row list \<Rightarrow> 'row option"
    and mark :: "'m \<Rightarrow> 'row list \<Rightarrow> 'row list"
  assumes lookup_None:
      "lookup k now rows = None \<Longrightarrow> r \<in> set rows \<Longrightarrow> key r = Some k \<Longrightarrow> at r < now - window"
    and lookup_Some:
      "lookup k now rows = Some r \<Longrightarrow> r \<in> set rows \<and> key r = Some k \<and> now - window \<le> at r"
    and mark_key: "map key (mark m rows) = map key rows"
    and mark_at: "map at (mark m rows) = map at rows"
begin

definition separated :: "'row list \<Rightarrow> bool" where
  "separated rows \<longleftrightarrow>
     (\<forall>i j k. i < j \<longrightarrow> j < length rows \<longrightarrow> key (rows ! i) = Some k \<longrightarrow> key (rows ! j) = Some k \<longrightarrow>
        at (rows ! i) + window < at (rows ! j))"

lemma separated_Nil: "separated []"
  by (simp add: separated_def)

lemma separated_insert:
  assumes "separated rows" and "lookup k now rows = None" and "key r = Some k" and "now \<le> at r"
  shows "separated (rows @ [r])"
  unfolding separated_def
proof (intro allI impI)
  fix i j k'
  assume ij: "i < j" "j < length (rows @ [r])" "key ((rows @ [r]) ! i) = Some k'"
    "key ((rows @ [r]) ! j) = Some k'"
  show "at ((rows @ [r]) ! i) + window < at ((rows @ [r]) ! j)"
  proof (cases "j < length rows")
    case True
    then show ?thesis using ij assms(1) by (auto simp: separated_def nth_append)
  next
    case False
    then have j: "j = length rows" using ij(2) by simp
    then have "rows ! i \<in> set rows" and "key (rows ! i) = Some k"
      using ij assms(3) by (simp_all add: nth_append)
    from lookup_None [OF assms(2) this] show ?thesis using j ij(1) assms(4) by (simp add: nth_append)
  qed
qed

lemma length_mark: "length (mark m rows) = length rows"
  using mark_key [of m rows] map_eq_imp_length_eq by blast

lemma separated_mark:
  assumes "separated rows"
  shows "separated (mark m rows)"
proof -
  have n: "key (mark m rows ! i) = key (rows ! i)" "at (mark m rows ! i) = at (rows ! i)"
    if "i < length rows" for i
    using mark_key [of m rows] mark_at [of m rows] that length_mark [of m rows]
    by (metis nth_map)+
  have "at (mark m rows ! i) + window < at (mark m rows ! j)"
    if "i < j" "j < length (mark m rows)" "key (mark m rows ! i) = Some k"
      "key (mark m rows ! j) = Some k" for i j k
  proof -
    have "i < length rows" "j < length rows" using that length_mark by simp_all
    then show ?thesis using assms that n unfolding separated_def by metis
  qed
  then show ?thesis by (simp add: separated_def)
qed

text \<open>Among the rows received up to now, the window holds at most one row of a key.\<close>

lemma window_unique:
  assumes "separated rows" and "r \<in> set rows" and "key r = Some k" and "now - window \<le> at r" and "at r \<le> now"
    and "s \<in> set rows" and "key s = Some k" and "now - window \<le> at s" and "at s \<le> now"
  shows "s = r"
proof -
  obtain i where i: "i < length rows" "rows ! i = r" using assms(2) by (auto simp: in_set_conv_nth)
  obtain j where j: "j < length rows" "rows ! j = s" using assms(6) by (auto simp: in_set_conv_nth)
  consider "i = j" | "i < j" | "j < i" by linarith
  then show ?thesis
  proof cases
    case 1
    then show ?thesis using i j by simp
  next
    case 2
    then have "at r + window < at s" using assms(1,3,7) i j unfolding separated_def by metis
    then show ?thesis using assms by simp
  next
    case 3
    then have "at s + window < at r" using assms(1,3,7) i j unfolding separated_def by metis
    then show ?thesis using assms by simp
  qed
qed

end

section \<open>The bronze table is such a ledger\<close>

type_synonym dedup_key = "uuid \<times> string \<times> string \<times> string"

text \<open>A legacy row with a NULL key component has no key and matches no lookup.\<close>

definition row_key :: "bronze_row \<Rightarrow> dedup_key option" where
  "row_key r =
     (case (br_source_payload_id r, br_payload_sha256 r) of
        (Some spid, Some sha) \<Rightarrow> Some (br_tenant_id r, spid, sha, br_dis_channel r)
      | _ \<Rightarrow> None)"

definition lookup_key :: "dedup_key \<Rightarrow> timestamp \<Rightarrow> bronze_row list \<Rightarrow> bronze_row option" where
  "lookup_key k now rows =
     (case k of (tenant, spid, sha, channel) \<Rightarrow> select_prior tenant spid sha channel now rows)"

definition mark_row :: "uuid \<times> uuid \<times> timestamp \<Rightarrow> bronze_row list \<Rightarrow> bronze_row list" where
  "mark_row m rows = (case m of (tenant, bronze_id, t) \<Rightarrow> mark_published tenant bronze_id t rows)"

lemma row_key_Some:
  "row_key r = Some (tenant, spid, sha, channel) \<longleftrightarrow>
     br_tenant_id r = tenant \<and> br_source_payload_id r = Some spid \<and> br_payload_sha256 r = Some sha \<and>
     br_dis_channel r = channel"
  by (auto simp: row_key_def split: option.splits)

lemma most_recent_None: "most_recent rows = None \<longleftrightarrow> rows = []"
  by (cases rows) (auto split: option.splits)

lemma most_recent_Some:
  "most_recent rows = Some r \<Longrightarrow>
   r \<in> set rows \<and> (\<forall>s \<in> set rows. br_received_at s \<le> br_received_at r)"
  by (induction rows arbitrary: r) (fastforce simp: most_recent_None split: option.splits if_splits)+

lemma lookup_key_eq:
  "lookup_key k now rows =
     most_recent (filter (\<lambda>r. row_key r = Some k \<and> br_received_at r \<ge> now - dedup_window) rows)"
proof -
  obtain t s h c where k: "k = (t, s, h, c)" by (cases k)
  show ?thesis
    unfolding k row_key_Some
    by (auto simp: lookup_key_def select_prior_def rls_view_def key_match_def
        intro!: arg_cong [where f = most_recent] filter_cong)
qed

interpretation bronze: dedup_ledger row_key br_received_at dedup_window lookup_key mark_row
proof
  show "br_received_at r < now - dedup_window"
    if "lookup_key k now rows = None" "r \<in> set rows" "row_key r = Some k" for k now rows r
    using that by (fastforce simp: lookup_key_eq most_recent_None filter_empty_conv)
  show "r \<in> set rows \<and> row_key r = Some k \<and> now - dedup_window \<le> br_received_at r"
    if "lookup_key k now rows = Some r" for k now rows r
    using most_recent_Some that unfolding lookup_key_eq by fastforce
  show "map row_key (mark_row m rows) = map row_key rows" for m rows
    by (cases m) (auto simp: mark_row_def mark_published_def row_key_def split: option.splits)
  show "map br_received_at (mark_row m rows) = map br_received_at rows" for m rows
    by (cases m) (simp add: mark_row_def mark_published_def)
qed

lemma select_prior_lookup:
  "select_prior tenant spid sha channel now rows = lookup_key (tenant, spid, sha, channel) now rows"
  by (simp add: lookup_key_def)

lemma mark_published_row: "mark_published tenant bronze_id t rows = mark_row (tenant, bronze_id, t) rows"
  by (simp add: mark_row_def)

end
