(* ===== verification/Object_Path.thy ===== *)
theory Object_Path
  imports Py_Text Regex_Model
begin

text \<open>
  The object-path scheme of \<open>dis/libs/dis-storage/src/dis_storage/paths.py\<close>:
  \<open>tenant/{uuid}/source/{source}/yyyy=Y/mm=M/dd=D/{trace}.{ext}\<close>, built, parsed and split off a
  \<open>gs://\<close> URI in this one module. A \<open>StorageError\<close> is one constructor per \<open>raise\<close>.
\<close>

datatype storage_error =
    EmptyRequiredFields "string list"
  | TenantNotUuid string
  | BadTimestamp datetime_error
  | PathIsUri
  | PathNotCanonical string
  | FilenameNotTraceExt string
  | NotGsUri string
  | UuidValueError string   \<comment> \<open>the \<open>ValueError\<close> of \<open>UUID(match["tenant"])\<close>\<close>

record parsed_object_path =
  pp_tenant_id :: uuid
  pp_source_id :: string
  pp_year :: nat
  pp_month :: nat
  pp_day :: nat
  pp_trace_id :: string
  pp_ext :: string

section \<open>Building\<close>

definition coerce_tenant_uuid :: "string \<Rightarrow> storage_error + string" where
  "coerce_tenant_uuid raw =
     (case uuid_parse raw of None \<Rightarrow> Inl (TenantNotUuid raw) | Some u \<Rightarrow> Inr (uuid_str u))"

definition build_object_path ::
  "string \<Rightarrow> string \<Rightarrow> string \<Rightarrow> datetime \<Rightarrow> string \<Rightarrow> storage_error + string" where
  "build_object_path tenant_id source_id trace_id event_ts ext =
     (let tid_raw = py_strip tenant_id;
          sid = py_strip source_id;
          trace = py_strip trace_id;
          extension = dropWhile (\<lambda>c. c = CHR ''.'') (py_strip ext);
          missing = map fst (filter (\<lambda>(name, v). v = [])
            [(''tenant_id'', tid_raw), (''source_id'', sid), (''trace_id'', trace), (''ext'', extension)])
      in if missing \<noteq> [] then Inl (EmptyRequiredFields missing)
         else bind_res (coerce_tenant_uuid tid_raw) (\<lambda>tid.
           case ensure_utc event_ts of
             Inl e \<Rightarrow> Inl (BadTimestamp e)
           | Inr ts \<Rightarrow>
               Inr (''tenant/'' @ tid @ ''/source/'' @ sid @ ''/yyyy='' @ dec_pad 4 (dt_year ts) @
                    ''/mm='' @ dec_pad 2 (dt_month ts) @ ''/dd='' @ dec_pad 2 (dt_day ts) @ ''/'' @
                    trace @ ''.'' @ extension)))"

section \<open>Parsing\<close>

text \<open>
  The groups of \<open>_PATH_RE\<close>. No segment of the pattern contains a slash, so the segments between
  slashes are the groups; \<open>path_re\<close> below is the pattern itself, and \<open>path_groups_iff_path_re\<close>
  shows that the two accept the same strings.
\<close>

definition is_lower_hex :: "char \<Rightarrow> bool" where
  "is_lower_hex c \<longleftrightarrow> c \<in> set ''0123456789abcdef''"

definition is_uuid_text :: "string \<Rightarrow> bool" where
  "is_uuid_text s \<longleftrightarrow> length s = 36 \<and>
     (let h = filter (\<lambda>c. c \<noteq> CHR ''-'') s in
      length h = 32 \<and> list_all is_lower_hex h \<and> hyphenate h = s)"

definition dec_group :: "string \<Rightarrow> nat \<Rightarrow> string \<Rightarrow> string option" where
  "dec_group label n s =
     (if prefix label s \<and> length s = length label + n \<and> list_all is_dec (drop (length label) s)
      then Some (drop (length label) s) else None)"

definition path_groups :: "string \<Rightarrow> (string \<times> string \<times> string \<times> string \<times> string \<times> string) option" where
  "path_groups candidate =
     (case py_split CHR ''/'' candidate of
        [a, tenant, b, source, y, m, d, filename] \<Rightarrow>
          (case (dec_group ''yyyy='' 4 y, dec_group ''mm='' 2 m, dec_group ''dd='' 2 d) of
             (Some yyyy, Some mm, Some dd) \<Rightarrow>
               if a = ''tenant'' \<and> b = ''source'' \<and> is_uuid_text tenant \<and> source \<noteq> [] \<and> filename \<noteq> []
               then Some (tenant, source, yyyy, mm, dd, filename) else None
           | _ \<Rightarrow> None)
      | _ \<Rightarrow> None)"

definition parse_object_path :: "string \<Rightarrow> storage_error + parsed_object_path" where
  "parse_object_path path =
     (let candidate = py_strip path in
      if prefix ''gs://'' candidate then Inl PathIsUri
      else case path_groups candidate of
          None \<Rightarrow> Inl (PathNotCanonical candidate)
        | Some (tenant, source, yyyy, mm, dd, filename) \<Rightarrow>
            (case py_rpartition CHR ''.'' filename of
               None \<Rightarrow> Inl (FilenameNotTraceExt filename)
             | Some (trace, extension) \<Rightarrow>
                 if trace = [] \<or> extension = [] then Inl (FilenameNotTraceExt filename)
                 else case uuid_parse tenant of
                     None \<Rightarrow> Inl (UuidValueError tenant)
                   | Some u \<Rightarrow>
                       Inr \<lparr>pp_tenant_id = u, pp_source_id = source, pp_year = dec_int yyyy,
                            pp_month = dec_int mm, pp_day = dec_int dd, pp_trace_id = trace,
                            pp_ext = extension\<rparr>))"

text \<open>
  \<open>_URI_RE\<close>: the bucket is a non-empty run of \<open>[a-z0-9-]\<close> up to the first slash after the
  scheme, and the key is the non-empty rest, which the dot of the pattern keeps free of newlines.
\<close>

definition is_bucket_char :: "char \<Rightarrow> bool" where
  "is_bucket_char c \<longleftrightarrow>
     (let n = of_char c :: nat in (97 \<le> n \<and> n \<le> 122) \<or> (48 \<le> n \<and> n \<le> 57) \<or> n = 45)"

definition split_object_uri :: "string \<Rightarrow> storage_error + string \<times> string" where
  "split_object_uri uri =
     (let candidate = py_strip uri;
          rest = drop 5 candidate;
          bucket = takeWhile is_bucket_char rest;
          key = drop (Suc (length bucket)) rest
      in if prefix ''gs://'' candidate \<and> bucket \<noteq> [] \<and>
            prefix ''/'' (drop (length bucket) rest) \<and> key \<noteq> [] \<and> CHR 0x0A \<notin> set key
         then Inr (bucket, key)
         else Inl (NotGsUri candidate))"

section \<open>The regular expression\<close>

definition nonslash :: rx where
  "nonslash = Atom (filter (\<lambda>c. c \<noteq> CHR ''/'') (map char_of [0..<256]))"

definition hex_class :: rx where
  "hex_class = Atom ''0123456789abcdef''"

definition dec_class :: rx where
  "dec_class = Atom ''0123456789''"

fun rx_seq :: "rx list \<Rightarrow> rx" where
  "rx_seq [] = One"
| "rx_seq [r] = r"
| "rx_seq (r # rs) = Seq r (rx_seq rs)"

definition path_re :: rx where
  "path_re = rx_seq
     [rx_literal ''tenant/'', rx_times 8 hex_class, rx_literal ''-'', rx_times 4 hex_class,
      rx_literal ''-'', rx_times 4 hex_class, rx_literal ''-'', rx_times 4 hex_class, rx_literal ''-'',
      rx_times 12 hex_class, rx_literal ''/source/'', rx_plus nonslash,
      rx_literal ''/yyyy='', rx_times 4 dec_class, rx_literal ''/mm='', rx_times 2 dec_class,
      rx_literal ''/dd='', rx_times 2 dec_class, rx_literal ''/'', rx_plus nonslash]"

lemma set_nonslash: "rx_lang (rx_plus nonslash) = {s. s \<noteq> [] \<and> CHR ''/'' \<notin> set s}"
proof -
  have "c \<in> set (map char_of [0..<256 :: nat])" for c :: char
  proof -
    have "c = char_of (of_char c :: nat)" and "(of_char c :: nat) < 256"
      using nat_of_char_less_256 [of c] by simp_all
    then show ?thesis by (metis atLeastLessThan_iff image_eqI le0 set_map set_upt)
  qed
  then have "set s \<subseteq> set (filter (\<lambda>c. c \<noteq> CHR ''/'') (map char_of [0..<256 :: nat])) \<longleftrightarrow>
      CHR ''/'' \<notin> set s" for s :: string
    by auto
  then show ?thesis by (simp only: nonslash_def rx_lang_plus_Atom)
qed

lemma not_lower_hex: "\<not> is_lower_hex CHR ''-''" "\<not> is_lower_hex CHR ''/''"
  by (simp_all add: is_lower_hex_def)

lemma lower_hex_uuid: "list_all is_lower_hex (uuid_hex u)"
  using uuid_hex_chars [of u] unfolding list_all_iff is_lower_hex_def by blast

lemma is_uuid_text_iff:
  "is_uuid_text t \<longleftrightarrow>
     (\<exists>a b c d e. t = a @ ''-'' @ b @ ''-'' @ c @ ''-'' @ d @ ''-'' @ e \<and>
        length a = 8 \<and> length b = 4 \<and> length c = 4 \<and> length d = 4 \<and> length e = 12 \<and>
        list_all is_lower_hex (a @ b @ c @ d @ e))"
    (is "_ \<longleftrightarrow> ?rhs")
proof
  assume t: "is_uuid_text t"
  define h where "h = filter (\<lambda>c. c \<noteq> CHR ''-'') t"
  have h: "length h = 32" "list_all is_lower_hex h" "hyphenate h = t"
    using t by (simp_all add: is_uuid_text_def h_def Let_def)
  have parts: "list_all is_lower_hex (take n h)" "list_all is_lower_hex (take n (drop m h))"
      "list_all is_lower_hex (drop m h)" for n m
    using h(2) by (auto simp: list_all_iff dest: in_set_takeD in_set_dropD)
  show ?rhs
    by (rule exI [of _ "take 8 h"], rule exI [of _ "take 4 (drop 8 h)"],
        rule exI [of _ "take 4 (drop 12 h)"], rule exI [of _ "take 4 (drop 16 h)"],
        rule exI [of _ "drop 20 h"])
      (use h parts in \<open>simp add: hyphenate_def\<close>)
next
  assume ?rhs
  then obtain a b c d e where t: "t = a @ ''-'' @ b @ ''-'' @ c @ ''-'' @ d @ ''-'' @ e"
    and l: "length a = 8" "length b = 4" "length c = 4" "length d = 4" "length e = 12"
    and hex: "list_all is_lower_hex (a @ b @ c @ d @ e)" by blast
  let ?h = "a @ b @ c @ d @ e"
  have dash: "CHR ''-'' \<notin> set ?h" using hex not_lower_hex(1) by (auto simp: list_all_iff)
  have "hyphenate ?h = t" using l by (simp add: hyphenate_def t)
  with hyphenate_filter [OF dash] have "filter (\<lambda>c. c \<noteq> CHR ''-'') t = ?h" by simp
  then show "is_uuid_text t"
    using hex l \<open>hyphenate ?h = t\<close> unfolding is_uuid_text_def Let_def
    by (simp add: t)
qed

lemma is_uuid_text_no_slash: "is_uuid_text t \<Longrightarrow> CHR ''/'' \<notin> set t"
  using not_lower_hex(2) by (auto simp: is_uuid_text_iff list_all_iff)

lemma is_uuid_text_str: "is_uuid_text (uuid_str u)"
proof -
  have "CHR ''-'' \<notin> set (uuid_hex u)"
    using lower_hex_uuid [of u] not_lower_hex(1) by (auto simp: list_all_iff)
  moreover have "length (uuid_str u) = 36" by (simp add: uuid_str_def hyphenate_def)
  ultimately show ?thesis
    by (simp add: is_uuid_text_def uuid_str_def hyphenate_filter lower_hex_uuid Let_def)
qed

definition path_shape :: "string \<Rightarrow> string \<Rightarrow> string \<Rightarrow> string \<Rightarrow> string \<Rightarrow> string \<Rightarrow> bool" where
  "path_shape t s y m d f \<longleftrightarrow>
     is_uuid_text t \<and> s \<noteq> [] \<and> CHR ''/'' \<notin> set s \<and> length y = 4 \<and> list_all is_dec y \<and>
     length m = 2 \<and> list_all is_dec m \<and> length d = 2 \<and> list_all is_dec d \<and>
     f \<noteq> [] \<and> CHR ''/'' \<notin> set f"

definition path_text :: "string \<Rightarrow> string \<Rightarrow> string \<Rightarrow> string \<Rightarrow> string \<Rightarrow> string \<Rightarrow> string" where
  "path_text t s y m d f =
     ''tenant/'' @ t @ ''/source/'' @ s @ ''/yyyy='' @ y @ ''/mm='' @ m @ ''/dd='' @ d @ ''/'' @ f"

lemma dec_group_Some: "dec_group label n s = Some g \<longleftrightarrow> s = label @ g \<and> length g = n \<and> list_all is_dec g"
  by (auto simp: dec_group_def prefix_def)

lemma list_all_is_dec_no_slash: "list_all is_dec s \<Longrightarrow> CHR ''/'' \<notin> set s"
  by (auto simp: list_all_iff is_dec_def)

lemma path_groups_Some:
  "path_groups c = Some (t, s, y, m, d, f) \<longleftrightarrow> path_shape t s y m d f \<and> c = path_text t s y m d f"
proof
  assume c: "path_groups c = Some (t, s, y, m, d, f)"
  then obtain y' m' d' where split: "py_split CHR ''/'' c = [''tenant'', t, ''source'', s, y', m', d', f]"
    and g: "dec_group ''yyyy='' 4 y' = Some y" "dec_group ''mm='' 2 m' = Some m"
      "dec_group ''dd='' 2 d' = Some d"
    and r: "is_uuid_text t" "s \<noteq> []" "f \<noteq> []"
    by (auto simp: path_groups_def split: list.splits option.splits if_splits)
  have "CHR ''/'' \<notin> set p" if "p \<in> {s, f}" for p
    using py_split_parts [of p "CHR ''/''" c] split that by auto
  then have shape: "path_shape t s y m d f" using g r by (auto simp: path_shape_def dec_group_Some)
  moreover have "c = path_text t s y m d f"
    using py_join_split [of "CHR ''/''" c] g unfolding split
    by (simp add: path_text_def dec_group_Some)
  ultimately show "path_shape t s y m d f \<and> c = path_text t s y m d f" by blast
next
  assume c: "path_shape t s y m d f \<and> c = path_text t s y m d f"
  let ?ps = "[''tenant'', t, ''source'', s, ''yyyy='' @ y, ''mm='' @ m, ''dd='' @ d, f]"
  have "c = py_join CHR ''/'' ?ps" using c by (simp add: path_text_def)
  moreover have "\<forall>p \<in> set ?ps. CHR ''/'' \<notin> set p"
    using c by (auto simp: path_shape_def dest: is_uuid_text_no_slash list_all_is_dec_no_slash)
  ultimately have "py_split CHR ''/'' c = ?ps" using py_split_eq_iff [of ?ps] by blast
  moreover have "dec_group ''yyyy='' 4 (''yyyy='' @ y) = Some y"
      "dec_group ''mm='' 2 (''mm='' @ m) = Some m" "dec_group ''dd='' 2 (''dd='' @ d) = Some d"
    using c unfolding dec_group_Some by (simp_all add: path_shape_def)
  ultimately show "path_groups c = Some (t, s, y, m, d, f)"
    using c by (simp add: path_groups_def path_shape_def)
qed

text \<open>Membership in the languages of the parts of \<open>_PATH_RE\<close>.\<close>

lemma seq_literal_iff: "s \<in> rx_lang (Seq (rx_literal l) r) \<longleftrightarrow> (\<exists>v. s = l @ v \<and> v \<in> rx_lang r)"
  by (simp add: rx_lang_literal)

lemma is_dec_class: "set s \<subseteq> set ''0123456789'' \<longleftrightarrow> list_all is_dec s"
proof -
  have "is_dec c" if "c \<in> set ''0123456789''" for c
    using that by (simp only: list.set insert_iff empty_iff) (elim disjE; simp add: is_dec_def)
  moreover have "c \<in> set ''0123456789''" if "is_dec c" for c
  proof -
    have "(of_char c :: nat) \<in> set [48, 49, 50, 51, 52, 53, 54, 55, 56, 57]"
      using that by (simp only: is_dec_def Let_def list.set insert_iff empty_iff) presburger
    then have "(of_char c :: nat) \<in> of_char ` set ''0123456789''" by simp
    then show ?thesis by (rule imageE) (simp only: of_char_eq_iff)
  qed
  ultimately show ?thesis unfolding list_all_iff subset_iff by blast
qed

lemma seq_times_hex_iff:
  "s \<in> rx_lang (Seq (rx_times n hex_class) r) \<longleftrightarrow>
     (\<exists>g v. s = g @ v \<and> length g = n \<and> list_all is_lower_hex g \<and> v \<in> rx_lang r)"
proof -
  have "set g \<subseteq> set ''0123456789abcdef'' \<longleftrightarrow> list_all is_lower_hex g" for g
    unfolding list_all_iff is_lower_hex_def by blast
  then show ?thesis by (simp only: rx_lang.simps hex_class_def rx_lang_times_Atom mem_Collect_eq) blast
qed

lemma seq_times_dec_iff:
  "s \<in> rx_lang (Seq (rx_times n dec_class) r) \<longleftrightarrow>
     (\<exists>g v. s = g @ v \<and> length g = n \<and> list_all is_dec g \<and> v \<in> rx_lang r)"
  by (simp only: rx_lang.simps dec_class_def rx_lang_times_Atom mem_Collect_eq is_dec_class) blast

lemma seq_nonslash_iff:
  "s \<in> rx_lang (Seq (rx_plus nonslash) r) \<longleftrightarrow>
     (\<exists>g v. s = g @ v \<and> g \<noteq> [] \<and> CHR ''/'' \<notin> set g \<and> v \<in> rx_lang r)"
  by (simp only: rx_lang.simps set_nonslash mem_Collect_eq) blast

lemmas path_re_parts = seq_literal_iff seq_times_hex_iff seq_times_dec_iff seq_nonslash_iff

lemma path_re_iff:
  "c \<in> rx_lang path_re \<longleftrightarrow> (\<exists>t s y m d f. path_shape t s y m d f \<and> c = path_text t s y m d f)"
proof
  assume "c \<in> rx_lang path_re"
  then obtain a1 a2 a3 a4 a5 s y m d f where
    c: "c = ''tenant/'' @ a1 @ ''-'' @ a2 @ ''-'' @ a3 @ ''-'' @ a4 @ ''-'' @ a5 @ ''/source/'' @ s @
          ''/yyyy='' @ y @ ''/mm='' @ m @ ''/dd='' @ d @ ''/'' @ f"
    and h: "length a1 = 8" "length a2 = 4" "length a3 = 4" "length a4 = 4" "length a5 = 12"
      "list_all is_lower_hex a1" "list_all is_lower_hex a2" "list_all is_lower_hex a3"
      "list_all is_lower_hex a4" "list_all is_lower_hex a5"
    and r: "s \<noteq> []" "CHR ''/'' \<notin> set s" "length y = 4" "list_all is_dec y" "length m = 2"
      "list_all is_dec m" "length d = 2" "list_all is_dec d" "f \<noteq> []" "CHR ''/'' \<notin> set f"
    unfolding path_re_def rx_seq.simps path_re_parts set_nonslash mem_Collect_eq
    by (elim exE conjE) (rule that, hypsubst, rule refl, assumption+)
  let ?t = "a1 @ ''-'' @ a2 @ ''-'' @ a3 @ ''-'' @ a4 @ ''-'' @ a5"
  have "is_uuid_text ?t" using h unfolding is_uuid_text_iff list_all_append by blast
  then have "path_shape ?t s y m d f" using r by (simp add: path_shape_def)
  moreover have "c = path_text ?t s y m d f" by (simp add: c path_text_def)
  ultimately show "\<exists>t s y m d f. path_shape t s y m d f \<and> c = path_text t s y m d f" by blast
next
  assume "\<exists>t s y m d f. path_shape t s y m d f \<and> c = path_text t s y m d f"
  then obtain t s y m d f where shape: "path_shape t s y m d f" and c: "c = path_text t s y m d f"
    by blast
  from shape obtain a1 a2 a3 a4 a5 where
    t: "t = a1 @ ''-'' @ a2 @ ''-'' @ a3 @ ''-'' @ a4 @ ''-'' @ a5"
    and h: "length a1 = 8" "length a2 = 4" "length a3 = 4" "length a4 = 4" "length a5 = 12"
      "list_all is_lower_hex a1" "list_all is_lower_hex a2" "list_all is_lower_hex a3"
      "list_all is_lower_hex a4" "list_all is_lower_hex a5"
    unfolding path_shape_def is_uuid_text_iff list_all_append by blast
  show "c \<in> rx_lang path_re"
    using h shape
    unfolding path_re_def rx_seq.simps path_re_parts set_nonslash mem_Collect_eq c path_text_def t
      append_assoc path_shape_def
    by (elim conjE, intro exI conjI) (rule refl | assumption)+
qed

section \<open>Building and parsing are inverse\<close>

lemma is_lower_hex_digit: "is_lower_hex c \<Longrightarrow> \<exists>d < 16. c = hex_digit d"
  unfolding is_lower_hex_def in_set_conv_nth hex_digit_def by (elim exE conjE) (rule exI, auto)

lemma is_uuid_text_uuid:
  assumes "is_uuid_text t"
  obtains u where "t = uuid_str u"
proof -
  define h where "h = filter (\<lambda>c. c \<noteq> CHR ''-'') t"
  have h: "length h = 32" "list_all is_lower_hex h" "hyphenate h = t"
    using assms by (simp_all add: is_uuid_text_def h_def Let_def)
  have "\<forall>c \<in> set h. \<exists>d. d < 16 \<and> c = hex_digit d"
    using h(2) is_lower_hex_digit by (auto simp: list_all_iff)
  then obtain val where val: "\<forall>c \<in> set h. val c < 16 \<and> c = hex_digit (val c)" by metis
  define ds where "ds = map val h"
  have ds: "\<forall>d \<in> set ds. d < 16" "length ds = 32" "map hex_digit ds = h"
    using val h(1) by (auto simp: ds_def intro!: map_idI)
  let ?u = "of_nat (from_digits 16 ds) :: uuid"
  have "from_digits 16 ds < 2 ^ 128" using digits_from_digits(2) [OF ds(1)] ds(2) by simp
  then have "unat ?u = from_digits 16 ds" by (simp add: unat_of_nat take_bit_nat_eq_self)
  then have "uuid_hex ?u = h"
    using digits_from_digits(1) [OF ds(1)] ds(2,3) by (simp add: uuid_hex_def del: digits.simps)
  then show ?thesis using that [of ?u] h(3) by (simp add: uuid_str_def)
qed

lemma py_strip_path:
  assumes "f \<noteq> []" and "\<not> py_isspace (last f)"
  shows "py_strip (path_text t s y m d f) = path_text t s y m d f"
proof -
  have "last (path_text t s y m d f) = last f" using assms(1) by (simp add: path_text_def)
  moreover have "\<not> py_isspace CHR ''t''" by (simp add: py_isspace_def)
  ultimately show ?thesis
    unfolding py_strip_def using assms(2) by (intro py_strip_chars_id) (simp add: path_text_def)
qed

text \<open>
  C13 (roundtrip). A path that \<open>build_object_path\<close> returns is parsed back by \<open>parse_object_path\<close>
  to exactly the tenant UUID, source, UTC date, trace and extension it was built from, when the
  source, trace and extension contain no slash and the extension no inner dot.
\<close>

theorem object_path_roundtrip:
  assumes "build_object_path tenant source trace ts ext = Inr path" and "wf_datetime ts"
    and "CHR ''/'' \<notin> set source" and "CHR ''/'' \<notin> set trace" and "CHR ''/'' \<notin> set ext"
    and "CHR ''.'' \<notin> set (dropWhile (\<lambda>c. c = CHR ''.'') (py_strip ext))"
  shows "\<exists>u utc. uuid_parse (py_strip tenant) = Some u \<and> ensure_utc ts = Inr utc \<and>
     parse_object_path path =
       Inr \<lparr>pp_tenant_id = u, pp_source_id = py_strip source, pp_year = dt_year utc,
            pp_month = dt_month utc, pp_day = dt_day utc, pp_trace_id = py_strip trace,
            pp_ext = dropWhile (\<lambda>c. c = CHR ''.'') (py_strip ext)\<rparr>"
proof -
  let ?ext = "dropWhile (\<lambda>c. c = CHR ''.'') (py_strip ext)"
  from assms(1) obtain u utc where u: "uuid_parse (py_strip tenant) = Some u"
    and utc: "ensure_utc ts = Inr utc"
    and ne: "py_strip source \<noteq> []" "py_strip trace \<noteq> []" "?ext \<noteq> []"
    and path: "path = path_text (uuid_str u) (py_strip source) (dec_pad 4 (dt_year utc))
       (dec_pad 2 (dt_month utc)) (dec_pad 2 (dt_day utc)) (py_strip trace @ ''.'' @ ?ext)"
    by (auto simp: build_object_path_def coerce_tenant_uuid_def Let_def path_text_def bind_res_Inr_iff
        split: if_splits option.splits sum.splits)
  have "py_strip ext \<noteq> []" using ne(3) by auto
  moreover have "last ?ext = last (py_strip ext)"
    using ne(3) by (metis dropWhile_eq_drop last_drop length_drop length_greater_0_conv zero_less_diff)
  ultimately have space: "\<not> py_isspace (last ?ext)" using py_strip_last by metis
  have no_slash: "CHR ''/'' \<notin> set (py_strip source)" "CHR ''/'' \<notin> set (py_strip trace)"
      "CHR ''/'' \<notin> set ?ext"
    using assms(3-5) py_strip_chars_subset unfolding py_strip_def by (blast dest: set_dropWhileD)+
  have bounds: "dt_year utc < 10 ^ 4" "dt_month utc < 10 ^ 2" "dt_day utc < 10 ^ 2"
    using ensure_utc_wf(1) [OF assms(2) utc] days_in_month_bounds(2) [of "dt_year utc" "dt_month utc"]
    by (auto simp: wf_datetime_def)
  have "path_shape (uuid_str u) (py_strip source) (dec_pad 4 (dt_year utc))
       (dec_pad 2 (dt_month utc)) (dec_pad 2 (dt_day utc)) (py_strip trace @ ''.'' @ ?ext)"
    using ne no_slash
    by (auto simp: path_shape_def is_uuid_text_str list_all_iff dest: dec_pad_is_dec)
  then have "path_groups path = Some (uuid_str u, py_strip source, dec_pad 4 (dt_year utc),
      dec_pad 2 (dt_month utc), dec_pad 2 (dt_day utc), py_strip trace @ ''.'' @ ?ext)"
    unfolding path_groups_Some using path by (rule conjI)
  moreover have "\<not> prefix ''gs://'' path" by (simp add: path path_text_def)
  moreover have "py_strip path = path"
    unfolding path using ne(3) space by (intro py_strip_path) (auto simp del: dropWhile_eq_Nil_conv)
  moreover have "py_rpartition CHR ''.'' (py_strip trace @ ''.'' @ ?ext) = Some (py_strip trace, ?ext)"
    using py_rpartition_append assms(6) by simp
  ultimately show ?thesis
    using u utc ne bounds
    by (simp add: parse_object_path_def dec_int_pad del: dropWhile_eq_Nil_conv)
qed

theorem object_path_roundtrip_witness:
  "\<exists>u utc. uuid_parse (py_strip (uuid_str 7)) = Some u \<and>
     ensure_utc \<lparr>dt_year = 2026, dt_month = 1, dt_day = 1, dt_usec = 0, dt_utcoffset = Some 3600000000\<rparr> = Inr utc \<and>
     parse_object_path
       ''tenant/00000000-0000-0000-0000-000000000007/source/pos_a/yyyy=2025/mm=12/dd=31/tr-1.csv'' =
       Inr \<lparr>pp_tenant_id = u, pp_source_id = py_strip ''pos_a'', pp_year = dt_year utc,
            pp_month = dt_month utc, pp_day = dt_day utc, pp_trace_id = py_strip ''tr-1'',
            pp_ext = dropWhile (\<lambda>c. c = CHR ''.'') (py_strip ''.csv'')\<rparr>"
proof (rule object_path_roundtrip)
  show "build_object_path (uuid_str 7) ''pos_a'' ''tr-1''
     \<lparr>dt_year = 2026, dt_month = 1, dt_day = 1, dt_usec = 0, dt_utcoffset = Some 3600000000\<rparr> ''.csv'' =
     Inr ''tenant/00000000-0000-0000-0000-000000000007/source/pos_a/yyyy=2025/mm=12/dd=31/tr-1.csv''"
    by code_simp
qed code_simp+

text \<open>
  The parser's decomposition accepts exactly the strings of the regular
  expression \<open>_PATH_RE\<close>, which is also the \<open>gcs_uri\<close> pattern of the published contracts.
\<close>

theorem path_groups_iff_path_re: "(\<exists>g. path_groups c = Some g) \<longleftrightarrow> rx_match path_re c"
proof -
  have "(\<exists>g. path_groups c = Some g) \<longleftrightarrow> (\<exists>t s y m d f. path_groups c = Some (t, s, y, m, d, f))"
    by (metis prod_cases6)
  then show ?thesis by (simp only: path_groups_Some rx_match_iff path_re_iff)
qed

text \<open>
  Parsing loses nothing: every key that parses is, up to surrounding white space,
  the canonical spelling of the components returned, so its tenant prefix is the UUID text of the
  tenant it is attributed to and two keys with the same components are the same key.
\<close>

theorem parse_object_path_canonical:
  assumes "parse_object_path path = Inr r"
  shows "py_strip path =
     path_text (uuid_str (pp_tenant_id r)) (pp_source_id r) (dec_pad 4 (pp_year r))
       (dec_pad 2 (pp_month r)) (dec_pad 2 (pp_day r)) (pp_trace_id r @ ''.'' @ pp_ext r)"
proof -
  from assms obtain t s y m d f trace ext u where
    g: "path_groups (py_strip path) = Some (t, s, y, m, d, f)"
    and f: "py_rpartition CHR ''.'' f = Some (trace, ext)" and u: "uuid_parse t = Some u"
    and r: "r = \<lparr>pp_tenant_id = u, pp_source_id = s, pp_year = dec_int y, pp_month = dec_int m,
       pp_day = dec_int d, pp_trace_id = trace, pp_ext = ext\<rparr>"
    by (auto simp: parse_object_path_def Let_def split: if_splits option.splits)
  from g have shape: "path_shape t s y m d f" and spelled: "py_strip path = path_text t s y m d f"
    by (simp_all add: path_groups_Some)
  from shape obtain v where "t = uuid_str v" by (auto simp: path_shape_def elim: is_uuid_text_uuid)
  with u have "t = uuid_str u" by simp
  moreover have "dec_pad 4 (dec_int y) = y" "dec_pad 2 (dec_int m) = m" "dec_pad 2 (dec_int d) = d"
    using shape dec_pad_int(1) [of y] dec_pad_int(1) [of m] dec_pad_int(1) [of d]
    by (simp_all add: path_shape_def)
  moreover have "f = trace @ ''.'' @ ext" by (rule py_rpartition_parts [OF f])
  ultimately show ?thesis by (simp add: spelled r)
qed

theorem parse_object_path_canonical_witness:
  "\<exists>r. parse_object_path
      '' tenant/00000000-0000-0000-0000-000000000007/source/pos_a/yyyy=2025/mm=12/dd=31/tr-1.csv'' = Inr r \<and>
    ''tenant/00000000-0000-0000-0000-000000000007/source/pos_a/yyyy=2025/mm=12/dd=31/tr-1.csv'' =
     path_text (uuid_str (pp_tenant_id r)) (pp_source_id r) (dec_pad 4 (pp_year r))
       (dec_pad 2 (pp_month r)) (dec_pad 2 (pp_day r)) (pp_trace_id r @ ''.'' @ pp_ext r)"
proof -
  let ?p = "'' tenant/00000000-0000-0000-0000-000000000007/source/pos_a/yyyy=2025/mm=12/dd=31/tr-1.csv''"
  have "is_ok (parse_object_path ?p)" by code_simp
  then obtain r where r: "parse_object_path ?p = Inr r" by (auto simp: is_ok_iff)
  moreover have "py_strip ?p = tl ?p" by code_simp
  ultimately show ?thesis using parse_object_path_canonical [OF r] by auto
qed

end
