(* ===== verification/Pii_Gate.thy ===== *)
theory Pii_Gate
  imports Py_Text Mapping_Rules
begin

text \<open>
  The PII name heuristic and the fail-loud gate: \<open>dis/libs/dis-pii/src/dis_pii/detectors.py\<close> and
  \<open>gate.py\<close>, and the CSV header wiring of
  \<open>dis/services/csv-ingest-worker/src/csv_ingest_worker/pii_gate.py\<close>. A backend is only tested
  for presence, so it is a flag here.
\<close>

section \<open>Detection (detectors.py)\<close>

text \<open>\<open>re.search\<close> of a literal, and the alternatives of \<open>_PII_NAME_PATTERN\<close>\<close>

fun contains_text :: "string \<Rightarrow> string \<Rightarrow> bool" where
  "contains_text pat [] = (pat = [])"
| "contains_text pat (x # xs) = (prefix pat (x # xs) \<or> contains_text pat xs)"

definition PII_NAME_PATTERN :: "string list" where
  "PII_NAME_PATTERN =
     [''email'', ''phone'', ''mobile'', ''msisdn'', ''loyalty'', ''aadhaar'', ''aadhar'']"

definition PII_EXACT_TOKENS :: "string list" where
  "PII_EXACT_TOKENS = [''pan'', ''ssn'', ''aadhaar'', ''aadhar'']"

text \<open>\<open>[t for t in _TOKEN_SPLIT.split(s) if t]\<close>: the maximal runs of \<open>[a-z0-9]\<close>\<close>

definition is_token_char :: "char \<Rightarrow> bool" where
  "is_token_char c \<longleftrightarrow> (let n = of_char c :: nat in (97 \<le> n \<and> n \<le> 122) \<or> (48 \<le> n \<and> n \<le> 57))"

fun tokens_acc :: "string \<Rightarrow> string \<Rightarrow> string list" where
  "tokens_acc cur [] = (if cur = [] then [] else [rev cur])"
| "tokens_acc cur (x # xs) =
     (if is_token_char x then tokens_acc (x # cur) xs
      else (if cur = [] then [] else [rev cur]) @ tokens_acc [] xs)"

definition tokens :: "string \<Rightarrow> string list" where
  "tokens s = tokens_acc [] s"

definition is_pii_column :: "string \<Rightarrow> bool" where
  "is_pii_column name =
     (let normalised = py_lower (py_strip name) in
      if normalised = [] then False
      else if list_ex (\<lambda>pat. contains_text pat normalised) PII_NAME_PATTERN then True
      else list_ex (\<lambda>t. t \<in> set PII_EXACT_TOKENS) (tokens normalised))"

text \<open>The values \<open>str(v)\<close> of JSON keys and targets; \<open>None\<close> when the shape is not a mapping.\<close>

definition as_mapping :: "json \<Rightarrow> json dict option" where
  "as_mapping j = (case j of JDict d \<Rightarrow> Some d | _ \<Rightarrow> None)"

definition section_columns :: "json dict \<Rightarrow> string \<Rightarrow> string list" where
  "section_columns rules section =
     (case map_of rules section of
        Some (JDict block) \<Rightarrow> keys block
      | _ \<Rightarrow> [])"

definition iter_mapping_columns :: "(json \<Rightarrow> string) \<Rightarrow> json dict \<Rightarrow> string list" where
  "iter_mapping_columns str mapping =
     (case (case map_of mapping ''mapping_rules'' of None \<Rightarrow> Some mapping | Some j \<Rightarrow> as_mapping j) of
        None \<Rightarrow> []
      | Some rules \<Rightarrow>
          (case map_of rules ''rename'' of
             Some (JDict rename) \<Rightarrow> concat (map (\<lambda>(source, canonical). [source, str canonical]) rename)
           | _ \<Rightarrow> []) @
          concat (map (section_columns rules) [''normalize'', ''cast'', ''derive'']))"

definition detect_pii_columns :: "(json \<Rightarrow> string) \<Rightarrow> json dict \<Rightarrow> string list" where
  "detect_pii_columns str mapping =
     remdups (filter is_pii_column (iter_mapping_columns str mapping))"

section \<open>The gate (gate.py, pii_gate.py)\<close>

datatype pii_error = PiiBackendNotConfigured "string list"   \<comment> \<open>the sorted column names\<close>

definition assert_pii_handled :: "(json \<Rightarrow> string) \<Rightarrow> json dict \<Rightarrow> bool \<Rightarrow> pii_error + unit" where
  "assert_pii_handled str mapping has_backend =
     (let columns = detect_pii_columns str mapping in
      raise_if (columns \<noteq> [] \<and> \<not> has_backend) (PiiBackendNotConfigured (sort columns)))"

text \<open>\<open>{name: name for name in columns}\<close>: a repeated header keeps its first position.\<close>

definition synthetic_mapping :: "string list \<Rightarrow> json dict" where
  "synthetic_mapping columns =
     [(''rename'', JDict (fold (\<lambda>name d. AList.update name (JStr name) d) columns []))]"

text \<open>\<open>str(v)\<close> of a JSON string is the string; the other cases do not occur in a header.\<close>

definition coerced_text :: "json \<Rightarrow> string" where
  "coerced_text j = (case j of JStr s \<Rightarrow> s | _ \<Rightarrow> [])"

definition gate_csv_headers :: "string list \<Rightarrow> bool \<Rightarrow> pii_error + string list" where
  "gate_csv_headers columns has_backend =
     (let mapping = synthetic_mapping columns in
      bind_res (assert_pii_handled coerced_text mapping has_backend)
        (\<lambda>_. Inr (detect_pii_columns coerced_text mapping)))"

section \<open>What the gate guarantees\<close>

lemma synthetic_rename:
  "fold (\<lambda>name d. AList.update name (JStr name) d) columns d = d' \<Longrightarrow>
   \<forall>(k, v) \<in> set d. v = JStr k \<Longrightarrow>
   (\<forall>(k, v) \<in> set d'. v = JStr k) \<and> set (keys d') = set (keys d) \<union> set columns"
proof (induction columns arbitrary: d)
  case (Cons c cs)
  have "(\<forall>(k, v) \<in> set (AList.update c (JStr c) d). v = JStr k)"
    using Cons.prems(2) by (induction d) (auto split: if_splits)
  then show ?case using Cons.IH [of "AList.update c (JStr c) d"] Cons.prems(1)
    by (simp add: set_keys_update)
qed auto

lemma iter_synthetic_columns:
  "set (iter_mapping_columns coerced_text (synthetic_mapping columns)) = set columns"
proof -
  define d where "d = fold (\<lambda>name d. AList.update name (JStr name) d) columns []"
  have d: "\<forall>(k, v) \<in> set d. v = JStr k" "set (keys d) = set columns"
    using synthetic_rename [of columns "[]" d] by (simp_all add: d_def)
  have "set (concat (map (\<lambda>(source, canonical). [source, coerced_text canonical]) d)) = set (keys d)"
    using d(1) by (force simp: keys_def coerced_text_def)
  then show ?thesis
    using d(2) by (simp add: iter_mapping_columns_def synthetic_mapping_def section_columns_def
        d_def [symmetric])
qed

lemma detect_synthetic:
  "set (detect_pii_columns coerced_text (synthetic_mapping columns)) = {c \<in> set columns. is_pii_column c}"
  by (auto simp: detect_pii_columns_def iter_synthetic_columns)

lemma gate_headers_eq:
  "gate_csv_headers columns has_backend =
     (if has_backend \<or> \<not> list_ex is_pii_column columns
      then Inr (detect_pii_columns coerced_text (synthetic_mapping columns))
      else Inl (PiiBackendNotConfigured (sort (detect_pii_columns coerced_text (synthetic_mapping columns)))))"
proof -
  have "detect_pii_columns coerced_text (synthetic_mapping columns) = [] \<longleftrightarrow> \<not> list_ex is_pii_column columns"
    using detect_synthetic [of columns] by (auto simp: list_ex_iff set_empty [symmetric] simp del: set_empty)
  then show ?thesis
    by (auto simp: gate_csv_headers_def assert_pii_handled_def raise_if_def Let_def)
qed

text \<open>
  The header gate passes exactly when a backend is configured or no header name
  matches the heuristic; it then returns the header names that match, and when it refuses, the
  error names those columns and nothing else.
\<close>

theorem gate_csv_headers_decides:
  "gate_csv_headers columns has_backend =
     (if list_ex is_pii_column columns \<and> \<not> has_backend
      then Inl (PiiBackendNotConfigured (sort (detect_pii_columns coerced_text (synthetic_mapping columns))))
      else Inr (detect_pii_columns coerced_text (synthetic_mapping columns))) \<and>
   set (detect_pii_columns coerced_text (synthetic_mapping columns)) = {c \<in> set columns. is_pii_column c}"
  using gate_headers_eq [of columns has_backend] detect_synthetic by (cases has_backend) auto

text \<open>The short identifiers are matched as whole tokens only.\<close>

lemma short_token_examples:
  "is_pii_column ''customer_pan''" "\<not> is_pii_column ''company''" "\<not> is_pii_column ''japan''"
  "is_pii_column '' Email Address ''" "is_pii_column ''AADHAR-no''"
  by code_simp+

end
