(* ===== verification/Csv_Ingest.thy ===== *)
theory Csv_Ingest
  imports Effects Bronze_Store Object_Path Pii_Gate
begin

text \<open>
  The csv-ingest worker (\<open>dis/services/csv-ingest-worker/src/csv_ingest_worker\<close>): the inbound
  envelope (\<open>envelope.py\<close>), the structural preflight (\<open>preflight.py\<close>), the outbound envelope
  (\<open>publisher.py\<close>), audit and connector-health emission (\<open>audit.py\<close>, \<open>connector_health.py\<close>), the
  per-event pipeline (\<open>pipeline.py\<close>) and the message routing of the pull loop (\<open>subscriber.py\<close>).

  The world is what outlives a message: the bronze table, the \<open>ingress.ready\<close> topic, the audit
  and health tables. Everything the worker cannot control is the environment \<open>env\<close>: the clock,
  the identifiers that \<open>new_uuid7\<close> mints, the object store, the digest, DuckDB's view of an
  object, pydantic's field parsers, and a fault for every call that leaves the process. A call
  may be \<open>Lost\<close> (it raises, nothing happened) or \<open>Late\<close> (it took effect and then raised), and
  the process may die before or after any call. Durations, log lines and failure messages are
  not modelled.
\<close>

section \<open>Environment and world\<close>

type_synonym bytes = string

datatype duckdb_result =
    DuckdbError string                                          \<comment> \<open>the exception's class\<close>
  | SniffEmpty
  | Sniffed string bool "(string \<times> string) list" nat             \<comment> \<open>delimiter, header, columns, rows\<close>

record env =
  e_time :: "nat \<Rightarrow> timestamp"         \<comment> \<open>the clock's n-th reading\<close>
  e_uuid :: "nat \<Rightarrow> uuid"              \<comment> \<open>the n-th identifier minted\<close>
  e_fault :: "nat \<Rightarrow> fault"            \<comment> \<open>the fate of the n-th external call\<close>
  e_bucket :: string
  e_objects :: "string \<Rightarrow> bytes option"
  e_sha256 :: "bytes \<Rightarrow> string"
  e_duckdb :: "bytes \<Rightarrow> duckdb_result"
  e_backend :: bool
  e_json :: "bytes \<Rightarrow> json option"
  e_uuid_field :: "json \<Rightarrow> uuid option"
  e_datetime_field :: "json \<Rightarrow> datetime option"

datatype stage =
    SReceived | SPiiTokenized | SBronzeWritten | SIngressPublished | SMappingLookedUp
  | SIdentityValidated | SPreMappingValidated | SMappingExecuted | SPostMappingValidated
  | SCanonicalWritten | SQuarantined | SSignalComputed

datatype outcome = Success | Failure | Skipped | Retried | DuplicateNoop | DuplicateOverwritten

datatype failure_code =
    UPLOAD_REQUEST_MALFORMED | UPLOAD_TOO_LARGE | UPLOAD_EMPTY_FILE | UPLOAD_NOT_UTF8 | UPLOAD_NOT_CSV
  | UPLOAD_BELOW_MIN_ROWS | TEMPLATE_NOT_FOUND | TEMPLATE_NOT_ACTIVE | STORE_NOT_FOUND
  | STORE_NOT_ACTIVE | GCS_WRITE_FAILED | PUBLISH_FAILED
  | PATH_MISMATCH | PREFLIGHT_NOT_CSV | PREFLIGHT_NO_COLUMNS | PREFLIGHT_NO_HEADER
  | PREFLIGHT_NO_DATA_ROWS | PII_BACKEND_NOT_CONFIGURED
  | CONTRACT_VIOLATION | MAPPING_CONFIG_INVALID | SUITE_REF_UNSUPPORTED | PRE_VALIDATION_FAILED
  | MAPPING_EXECUTION_FAILED | POST_VALIDATION_FAILED | VALIDATION_ROW_FAILED | HOT_POSITION_MISSING
  | INFRA_FAILURE

record audit_event =
  ae_event_timestamp :: timestamp
  ae_stage :: stage
  ae_outcome :: outcome
  ae_tenant_id :: uuid
  ae_trace_id :: uuid
  ae_bronze_id :: "uuid option"
  ae_prior_trace_id :: "uuid option"
  ae_row_count :: "nat option"
  ae_failure_code :: "failure_code option"
  ae_event_data :: "json dict"

record ingress_ready =
  ir_trace_id :: uuid
  ir_tenant_id :: uuid
  ir_store_id :: uuid
  ir_source_id :: string
  ir_template_id :: uuid
  ir_bronze_ref :: uuid
  ir_gcs_uri :: string
  ir_received_ts :: timestamp
  ir_delimiter :: string
  ir_tenant_display_code :: "string option"
  ir_store_code :: "string option"
  ir_replay :: bool
  ir_parent_trace_id :: "uuid option"

datatype health_status = Healthy | Stale

record health_row =
  hr_tenant_id :: uuid
  hr_source_id :: string
  hr_last_seen_at :: "timestamp option"
  hr_last_error_at :: "timestamp option"
  hr_last_error_detail :: "string option"
  hr_status :: health_status
  hr_updated_at :: timestamp

record world =
  w_calls :: nat
  w_readings :: nat
  w_minted :: nat
  w_bronze :: "bronze_row list"
  w_ready :: "ingress_ready list"
  w_audit :: "audit_event list"
  w_health :: "health_row list"
  w_acked :: "string list"      \<comment> \<open>the delivery ids acknowledged, in order\<close>
  w_nacked :: "string list"

text \<open>The exceptions that can leave \<open>process\<close>; \<open>Crashed\<close> is the death of the process.\<close>

datatype ingest_error =
    EventContractError string
  | EventPathMismatchError string string string   \<comment> \<open>field, event value, path value\<close>
  | PiiBackendNotConfiguredError "string list"
  | PreflightFailedError string "string option"   \<comment> \<open>reason, detail\<close>
  | StorageError storage_error
  | DownloadError
  | DatabaseError
  | PublishError
  | EnvelopeValidationError
  | Crashed

type_synonym 'a io = "(ingest_error, world, 'a) eff"

section \<open>External calls\<close>

definition now_utc :: "env \<Rightarrow> timestamp io" where
  "now_utc env w = (Inr (e_time env (w_readings w)), w\<lparr>w_readings := Suc (w_readings w)\<rparr>)"

definition new_uuid7 :: "env \<Rightarrow> uuid io" where
  "new_uuid7 env w = (Inr (e_uuid env (w_minted w)), w\<lparr>w_minted := Suc (w_minted w)\<rparr>)"

text \<open>A call with effect \<open>f\<close> that raises \<open>err\<close> when it fails.\<close>

definition call :: "env \<Rightarrow> ingest_error \<Rightarrow> (world \<Rightarrow> world) \<Rightarrow> unit io" where
  "call env err f w =
     (let w1 = w\<lparr>w_calls := Suc (w_calls w)\<rparr> in
      case e_fault env (w_calls w) of
        Fine \<Rightarrow> (Inr (), f w1)
      | Lost \<Rightarrow> (Inl err, w1)
      | Late \<Rightarrow> (Inl err, f w1)
      | Crash \<Rightarrow> (Inl Crashed, w1)
      | LateCrash \<Rightarrow> (Inl Crashed, f w1))"

text \<open>\<open>try: m except Exception: pass\<close>; the death of the process is not an exception.\<close>

definition swallow :: "unit io \<Rightarrow> unit io" where
  "swallow m = catch_eff m (\<lambda>e. if e = Crashed then throw Crashed else ret ())"

section \<open>Audit and connector health (audit.py, connector_health.py)\<close>

definition emit :: "env \<Rightarrow> audit_event \<Rightarrow> unit io" where
  "emit env event =
     bind_eff (now_utc env) (\<lambda>t.
     swallow (call env DatabaseError
       (\<lambda>w. w\<lparr>w_audit := w_audit w @ [event\<lparr>ae_event_timestamp := t\<rparr>]\<rparr>)))"

definition upsert_health ::
  "uuid \<Rightarrow> string \<Rightarrow> (health_row \<Rightarrow> health_row) \<Rightarrow> health_row list \<Rightarrow> health_row list" where
  "upsert_health tenant source stamp rows =
     (if \<exists>r \<in> set rows. hr_tenant_id r = tenant \<and> hr_source_id r = source
      then map (\<lambda>r. if hr_tenant_id r = tenant \<and> hr_source_id r = source then stamp r else r) rows
      else rows @ [stamp \<lparr>hr_tenant_id = tenant, hr_source_id = source, hr_last_seen_at = None,
                     hr_last_error_at = None, hr_last_error_detail = None, hr_status = Healthy,
                     hr_updated_at = 0\<rparr>])"

definition upsert_health_seen :: "uuid \<Rightarrow> string \<Rightarrow> timestamp \<Rightarrow> health_row list \<Rightarrow> health_row list" where
  "upsert_health_seen tenant source now rows =
     upsert_health tenant source
       (\<lambda>r. r\<lparr>hr_last_seen_at := Some now, hr_status := Healthy, hr_updated_at := now\<rparr>) rows"

definition upsert_health_error ::
  "uuid \<Rightarrow> string \<Rightarrow> string \<Rightarrow> timestamp \<Rightarrow> health_row list \<Rightarrow> health_row list" where
  "upsert_health_error tenant source detail now rows =
     upsert_health tenant source
       (\<lambda>r. r\<lparr>hr_last_error_at := Some now, hr_last_error_detail := Some detail,
             hr_status := Stale, hr_updated_at := now\<rparr>) rows"

section \<open>The inbound envelope (envelope.py)\<close>

record csv_received =
  ev_trace_id :: uuid
  ev_tenant_id :: uuid
  ev_store_id :: uuid
  ev_source_id :: string
  ev_template_id :: uuid
  ev_upload_session_id :: string
  ev_gcs_uri :: string
  ev_received_ts :: datetime
  ev_delimiter :: string
  ev_tenant_display_code :: "string option"
  ev_store_code :: "string option"
  ev_file_name :: "string option"

definition CSV_RECEIVED_FIELDS :: "string list" where
  "CSV_RECEIVED_FIELDS =
     [''schema_version'', ''trace_id'', ''tenant_id'', ''store_id'', ''source_id'', ''template_id'',
      ''upload_session_id'', ''gcs_uri'', ''received_ts'', ''delimiter'', ''tenant_display_code'',
      ''store_code'', ''file_name'']"

text \<open>
  \<open>^us_[a-z0-9]{12}$\<close>; pydantic matches in its Rust engine, where the anchor is the end of the
  text.
\<close>

definition is_upload_session :: "string \<Rightarrow> bool" where
  "is_upload_session s \<longleftrightarrow>
     prefix ''us_'' s \<and> length s = 15 \<and> list_all is_token_char (drop 3 s)"

definition field_with :: "json dict \<Rightarrow> string \<Rightarrow> (json \<Rightarrow> 'a option) \<Rightarrow> 'a option" where
  "field_with raw name parse = Option.bind (map_of raw name) parse"

definition str_where :: "(string \<Rightarrow> bool) \<Rightarrow> json \<Rightarrow> string option" where
  "str_where ok j = (case j of JStr s \<Rightarrow> if ok s then Some s else None | _ \<Rightarrow> None)"

text \<open>An optional field with a default, and an optional nullable string.\<close>

definition field_default :: "json dict \<Rightarrow> string \<Rightarrow> (json \<Rightarrow> 'a option) \<Rightarrow> 'a \<Rightarrow> 'a option" where
  "field_default raw name parse d = (case map_of raw name of None \<Rightarrow> Some d | Some j \<Rightarrow> parse j)"

definition nullable_str :: "(string \<Rightarrow> bool) \<Rightarrow> json \<Rightarrow> string option option" where
  "nullable_str ok j = (case j of JNull \<Rightarrow> Some None | _ \<Rightarrow> map_option Some (str_where ok j))"

definition utc_field :: "env \<Rightarrow> json \<Rightarrow> datetime option" where
  "utc_field env j =
     Option.bind (e_datetime_field env j)
       (\<lambda>dt. case ensure_utc dt of Inl _ \<Rightarrow> None | Inr u \<Rightarrow> Some u)"

definition is_literal_one :: "json \<Rightarrow> unit option" where
  "is_literal_one j = (if j = JInt 1 then Some () else None)"

definition model_validate :: "env \<Rightarrow> json dict \<Rightarrow> csv_received option" where
  "model_validate env raw =
     (if \<not> set (keys raw) \<subseteq> set CSV_RECEIVED_FIELDS then None
      else
       Option.bind (field_with raw ''schema_version'' is_literal_one) (\<lambda>_.
       Option.bind (field_with raw ''trace_id'' (e_uuid_field env)) (\<lambda>trace_id.
       Option.bind (field_with raw ''tenant_id'' (e_uuid_field env)) (\<lambda>tenant_id.
       Option.bind (field_with raw ''store_id'' (e_uuid_field env)) (\<lambda>store_id.
       Option.bind (field_with raw ''source_id'' (str_where (\<lambda>s. s \<noteq> []))) (\<lambda>source_id.
       Option.bind (field_with raw ''template_id'' (e_uuid_field env)) (\<lambda>template_id.
       Option.bind (field_with raw ''upload_session_id'' (str_where is_upload_session)) (\<lambda>session.
       Option.bind (field_with raw ''gcs_uri'' (str_where (\<lambda>s. s \<noteq> []))) (\<lambda>gcs_uri.
       Option.bind (field_with raw ''received_ts'' (utc_field env)) (\<lambda>received_ts.
       Option.bind (field_default raw ''delimiter'' (str_where (\<lambda>s. length s = 1)) '','') (\<lambda>delimiter.
       Option.bind (field_default raw ''tenant_display_code'' (nullable_str (\<lambda>_. True)) None) (\<lambda>code.
       Option.bind (field_default raw ''store_code'' (nullable_str (\<lambda>_. True)) None) (\<lambda>store_code.
       Option.bind (field_default raw ''file_name'' (nullable_str (\<lambda>s. length s \<le> 512)) None) (\<lambda>file_name.
       Some \<lparr>ev_trace_id = trace_id, ev_tenant_id = tenant_id, ev_store_id = store_id,
             ev_source_id = source_id, ev_template_id = template_id, ev_upload_session_id = session,
             ev_gcs_uri = gcs_uri, ev_received_ts = received_ts, ev_delimiter = delimiter,
             ev_tenant_display_code = code, ev_store_code = store_code,
             ev_file_name = file_name\<rparr>))))))))))))))"

definition parse_csv_received :: "env \<Rightarrow> bytes \<Rightarrow> ingest_error + csv_received" where
  "parse_csv_received env data =
     (case e_json env data of
        None \<Rightarrow> Inl (EventContractError ''not valid JSON'')
      | Some (JDict raw) \<Rightarrow>
          (case model_validate env raw of
             None \<Rightarrow> Inl (EventContractError ''bad field'')
           | Some event \<Rightarrow> Inr event)
      | Some _ \<Rightarrow> Inl (EventContractError ''not a JSON object''))"

section \<open>The structural preflight (preflight.py)\<close>

record preflight_result =
  pf_columns :: "string list"
  pf_column_types :: "string list"
  pf_row_count :: nat
  pf_size_bytes :: nat
  pf_delimiter :: string

text \<open>\<open>bytes.strip()\<close> removes ASCII white space.\<close>

definition is_bytes_space :: "char \<Rightarrow> bool" where
  "is_bytes_space c \<longleftrightarrow> (of_char c :: nat) \<in> set [9, 10, 11, 12, 13, 32]"

definition run_preflight :: "env \<Rightarrow> bytes \<Rightarrow> ingest_error + preflight_result" where
  "run_preflight env data =
     (if list_all is_bytes_space data
      then Inl (PreflightFailedError ''not_csv'' (Some ''empty object''))
      else case e_duckdb env data of
          DuckdbError cls \<Rightarrow> Inl (PreflightFailedError ''not_csv'' (Some cls))
        | SniffEmpty \<Rightarrow> Inl (PreflightFailedError ''not_csv'' None)
        | Sniffed delimiter has_header columns row_count \<Rightarrow>
            if columns = [] then Inl (PreflightFailedError ''no_columns'' None)
            else if \<not> has_header
            then Inl (PreflightFailedError ''no_header'' (Some (''columns='' @ py_str_nat (length columns))))
            else if row_count < 1
            then Inl (PreflightFailedError ''no_data_rows'' (Some (''columns='' @ py_str_nat (length columns))))
            else Inr \<lparr>pf_columns = map fst columns, pf_column_types = map snd columns,
                      pf_row_count = row_count, pf_size_bytes = length data,
                      pf_delimiter = delimiter\<rparr>)"

definition PREFLIGHT_CODES :: "failure_code dict" where
  "PREFLIGHT_CODES =
     [(''not_csv'', PREFLIGHT_NOT_CSV), (''no_columns'', PREFLIGHT_NO_COLUMNS),
      (''no_header'', PREFLIGHT_NO_HEADER), (''no_data_rows'', PREFLIGHT_NO_DATA_ROWS)]"

section \<open>The outbound envelope (publisher.py)\<close>

text \<open>The constraints of the model: non-empty strings and a one-character delimiter.\<close>

definition build_ingress_ready ::
  "csv_received \<Rightarrow> uuid \<Rightarrow> uuid \<Rightarrow> timestamp \<Rightarrow> string \<Rightarrow> ingest_error + ingress_ready" where
  "build_ingress_ready event trace_id bronze_ref received_at delimiter =
     (if ev_source_id event = [] \<or> ev_gcs_uri event = [] \<or> length delimiter \<noteq> 1
      then Inl EnvelopeValidationError
      else Inr \<lparr>ir_trace_id = trace_id, ir_tenant_id = ev_tenant_id event,
         ir_store_id = ev_store_id event, ir_source_id = ev_source_id event,
         ir_template_id = ev_template_id event, ir_bronze_ref = bronze_ref,
         ir_gcs_uri = ev_gcs_uri event, ir_received_ts = received_at, ir_delimiter = delimiter,
         ir_tenant_display_code = ev_tenant_display_code event, ir_store_code = ev_store_code event,
         ir_replay = False, ir_parent_trace_id = None\<rparr>)"

definition publish :: "env \<Rightarrow> ingress_ready \<Rightarrow> unit io" where
  "publish env msg = call env PublishError (\<lambda>w. w\<lparr>w_ready := w_ready w @ [msg]\<rparr>)"

section \<open>The pipeline (pipeline.py)\<close>

datatype disposition = Ingested | DuplicateNoopD | DuplicateResumed | PreflightFailed

record ingest_outcome =
  io_disposition :: disposition
  io_trace_id :: uuid
  io_bronze_id :: "uuid option"

definition INGRESS_READY_TOPIC :: string where
  "INGRESS_READY_TOPIC = ''ingress.ready''"

text \<open>The keyword arguments of \<open>audit.emit\<close> that every call gives; the others are set by update.\<close>

definition event_audit :: "stage \<Rightarrow> outcome \<Rightarrow> csv_received \<Rightarrow> uuid \<Rightarrow> audit_event" where
  "event_audit stage outcome event trace_id =
     \<lparr>ae_event_timestamp = 0, ae_stage = stage, ae_outcome = outcome,
      ae_tenant_id = ev_tenant_id event, ae_trace_id = trace_id, ae_bronze_id = None,
      ae_prior_trace_id = None, ae_row_count = None, ae_failure_code = None, ae_event_data = []\<rparr>"

text \<open>The registry of \<open>failure_code_for\<close>, on the exceptions that occur in this service.\<close>

definition failure_code_for :: "ingest_error \<Rightarrow> failure_code" where
  "failure_code_for exc =
     (case exc of
        EventPathMismatchError _ _ _ \<Rightarrow> PATH_MISMATCH
      | EventContractError _ \<Rightarrow> CONTRACT_VIOLATION
      | PiiBackendNotConfiguredError _ \<Rightarrow> PII_BACKEND_NOT_CONFIGURED
      | _ \<Rightarrow> INFRA_FAILURE)"

definition emit_health_seen :: "env \<Rightarrow> csv_received \<Rightarrow> unit io" where
  "emit_health_seen env event =
     bind_eff (now_utc env) (\<lambda>t.
     swallow (call env DatabaseError
       (\<lambda>w. w\<lparr>w_health := upsert_health_seen (ev_tenant_id event) (ev_source_id event) t (w_health w)\<rparr>)))"

definition emit_health_error :: "env \<Rightarrow> csv_received \<Rightarrow> string \<Rightarrow> unit io" where
  "emit_health_error env event detail =
     bind_eff (now_utc env) (\<lambda>t.
     swallow (call env DatabaseError
       (\<lambda>w. w\<lparr>w_health := upsert_health_error (ev_tenant_id event) (ev_source_id event) detail t (w_health w)\<rparr>)))"

text \<open>\<open>checks\<close>: field name, value of the path, value of the event, in the order tested.\<close>

definition path_checks :: "env \<Rightarrow> csv_received \<Rightarrow> string \<Rightarrow> parsed_object_path \<Rightarrow> (string \<times> string \<times> string) list" where
  "path_checks env event bucket parsed =
     [(''bucket'', bucket, e_bucket env),
      (''tenant_id'', uuid_str (pp_tenant_id parsed), uuid_str (ev_tenant_id event)),
      (''source_id'', pp_source_id parsed, ev_source_id event),
      (''trace_id'', pp_trace_id parsed, uuid_str (ev_trace_id event)),
      (''ext'', pp_ext parsed, ''csv'')]"

definition first_mismatch :: "(string \<times> string \<times> string) list \<Rightarrow> (string \<times> string \<times> string) option" where
  "first_mismatch checks = find (\<lambda>(_, path_value, event_value). path_value \<noteq> event_value) checks"

definition cross_check_path :: "env \<Rightarrow> csv_received \<Rightarrow> string io" where
  "cross_check_path env event =
     (case split_object_uri (ev_gcs_uri event) of
        Inl e \<Rightarrow> throw (StorageError e)
      | Inr (bucket, object_key) \<Rightarrow>
          (case parse_object_path object_key of
             Inl e \<Rightarrow> throw (StorageError e)
           | Inr parsed \<Rightarrow>
               (case first_mismatch (path_checks env event bucket parsed) of
                  None \<Rightarrow> ret object_key
                | Some (field, path_value, event_value) \<Rightarrow>
                    bind_eff (emit env ((event_audit SReceived Failure event (ev_trace_id event))
                       \<lparr>ae_failure_code := Some PATH_MISMATCH,
                        ae_event_data := [(''field'', JStr field), (''event_value'', JStr event_value),
                                          (''path_value'', JStr path_value)]\<rparr>))
                      (\<lambda>_. throw (EventPathMismatchError field event_value path_value)))))"

definition status_text :: "processing_status \<Rightarrow> string" where
  "status_text s =
     (case s of RECEIVED \<Rightarrow> ''RECEIVED'' | FAILED \<Rightarrow> ''FAILED'' | PUBLISHED \<Rightarrow> ''PUBLISHED''
      | PROCESSED \<Rightarrow> ''PROCESSED'' | QUARANTINED \<Rightarrow> ''QUARANTINED'')"

definition download_bytes :: "env \<Rightarrow> string \<Rightarrow> bytes io" where
  "download_bytes env object_key =
     bind_eff (call env DownloadError id) (\<lambda>_.
     case e_objects env object_key of None \<Rightarrow> throw DownloadError | Some data \<Rightarrow> ret data)"

text \<open>\<open>async with rls_session(...)\<close> around each bronze statement.\<close>

definition find_prior_session :: "env \<Rightarrow> csv_received \<Rightarrow> string \<Rightarrow> prior_ingest option io" where
  "find_prior_session env event payload_sha256 =
     bind_eff (call env DatabaseError id) (\<lambda>_.
     bind_eff (now_utc env) (\<lambda>now w.
     case find_prior (ev_tenant_id event) (ev_upload_session_id event) payload_sha256 DIS_CHANNEL now (w_bronze w) of
       Inl field \<Rightarrow> (Inl (EventContractError field), w)
     | Inr prior \<Rightarrow> (Inr prior, w)))"

definition insert_row_session :: "env \<Rightarrow> uuid \<Rightarrow> bronze_row \<Rightarrow> unit io" where
  "insert_row_session env tenant row w =
     (case insert_row tenant row (w_bronze w) of
        None \<Rightarrow> (Inl DatabaseError, w)
      | Some _ \<Rightarrow> call env DatabaseError (\<lambda>w. w\<lparr>w_bronze := w_bronze w @ [row]\<rparr>) w)"

definition mark_published_session :: "env \<Rightarrow> uuid \<Rightarrow> uuid \<Rightarrow> unit io" where
  "mark_published_session env tenant bronze_id =
     bind_eff (now_utc env) (\<lambda>t.
     call env DatabaseError (\<lambda>w. w\<lparr>w_bronze := mark_published tenant bronze_id t (w_bronze w)\<rparr>))"

definition handle_duplicate :: "env \<Rightarrow> csv_received \<Rightarrow> prior_ingest \<Rightarrow> bytes \<Rightarrow> ingest_outcome io" where
  "handle_duplicate env event prior data =
     (if pi_processing_status prior = FAILED \<or> is_published prior
      then
        bind_eff (emit env ((event_audit SReceived DuplicateNoop event (ev_trace_id event))
           \<lparr>ae_prior_trace_id := Some (pi_trace_id prior), ae_bronze_id := Some (pi_bronze_id prior),
            ae_event_data := [(''prior_status'', JStr (status_text (pi_processing_status prior)))]\<rparr>)) (\<lambda>_.
        bind_eff (emit_health_seen env event) (\<lambda>_.
        ret \<lparr>io_disposition = DuplicateNoopD, io_trace_id = pi_trace_id prior,
             io_bronze_id = Some (pi_bronze_id prior)\<rparr>))
      else
        bind_eff (lift_res (run_preflight env data)) (\<lambda>preflight.
        bind_eff (lift_res (build_ingress_ready event (pi_trace_id prior) (pi_bronze_id prior)
                    (pi_received_at prior) (pf_delimiter preflight))) (\<lambda>envelope.
        bind_eff (publish env envelope) (\<lambda>_.
        bind_eff (mark_published_session env (ev_tenant_id event) (pi_bronze_id prior)) (\<lambda>_.
        bind_eff (emit env ((event_audit SIngressPublished Retried event (pi_trace_id prior))
           \<lparr>ae_bronze_id := Some (pi_bronze_id prior),
            ae_event_data := [(''resumed'', JBool True), (''topic'', JStr INGRESS_READY_TOPIC)]\<rparr>)) (\<lambda>_.
        bind_eff (emit_health_seen env event) (\<lambda>_.
        ret \<lparr>io_disposition = DuplicateResumed, io_trace_id = pi_trace_id prior,
             io_bronze_id = Some (pi_bronze_id prior)\<rparr>)))))))"

text \<open>The \<open>BronzeRow\<close> of both write paths.\<close>

definition bronze_row_for ::
  "csv_received \<Rightarrow> uuid \<Rightarrow> nat \<Rightarrow> string \<Rightarrow> nat option \<Rightarrow> timestamp \<Rightarrow> processing_status \<Rightarrow> bronze_row" where
  "bronze_row_for event bronze_id size_bytes payload_sha256 row_count received_at status =
     \<lparr>br_id = bronze_id, br_tenant_id = ev_tenant_id event, br_store_id = Some (ev_store_id event),
      br_source_id = ev_source_id event, br_trace_id = ev_trace_id event,
      br_gcs_uri = ev_gcs_uri event, br_payload_size_bytes = size_bytes,
      br_payload_sha256 = Some payload_sha256, br_row_count = row_count,
      br_source_payload_id = Some (ev_upload_session_id event),
      br_template_id = Some (ev_template_id event), br_original_filename = ev_file_name event,
      br_received_at = received_at, br_processing_status = status, br_dis_channel = DIS_CHANNEL,
      br_content_type = CONTENT_TYPE, br_published_at = None\<rparr>"

definition handle_preflight_failure ::
  "env \<Rightarrow> csv_received \<Rightarrow> string \<Rightarrow> nat \<Rightarrow> string \<Rightarrow> string option \<Rightarrow> ingest_outcome io" where
  "handle_preflight_failure env event payload_sha256 size_bytes reason detail =
     bind_eff (new_uuid7 env) (\<lambda>bronze_id.
     bind_eff (now_utc env) (\<lambda>received_at.
     bind_eff (insert_row_session env (ev_tenant_id event)
                 (bronze_row_for event bronze_id size_bytes payload_sha256 None received_at FAILED)) (\<lambda>_.
     bind_eff (emit env ((event_audit SReceived Failure event (ev_trace_id event))
        \<lparr>ae_bronze_id := Some bronze_id,
         ae_failure_code := Some (case map_of PREFLIGHT_CODES reason of None \<Rightarrow> INFRA_FAILURE | Some c \<Rightarrow> c),
         ae_event_data := [(''preflight_failed'', JBool True), (''reason'', JStr reason),
                           (''detail'', case detail of None \<Rightarrow> JNull | Some d \<Rightarrow> JStr d)]\<rparr>)) (\<lambda>_.
     bind_eff (emit_health_error env event (if reason = [] then ''preflight_failed'' else reason)) (\<lambda>_.
     ret \<lparr>io_disposition = PreflightFailed, io_trace_id = ev_trace_id event,
          io_bronze_id = Some bronze_id\<rparr>)))))"

definition gate_pii :: "env \<Rightarrow> csv_received \<Rightarrow> preflight_result \<Rightarrow> string list io" where
  "gate_pii env event preflight =
     (case gate_csv_headers (pf_columns preflight) (e_backend env) of
        Inl (PiiBackendNotConfigured columns) \<Rightarrow>
          bind_eff (emit env ((event_audit SPiiTokenized Failure event (ev_trace_id event))
             \<lparr>ae_failure_code := Some (failure_code_for (PiiBackendNotConfiguredError columns)),
              ae_event_data := [(''exception_class'', JStr ''PiiBackendNotConfiguredError''),
                                (''pii_columns_detected'', JInt (int (length columns)))]\<rparr>))
            (\<lambda>_. throw (PiiBackendNotConfiguredError columns))
      | Inr detected \<Rightarrow>
          bind_eff (emit env ((event_audit SPiiTokenized Success event (ev_trace_id event))
             \<lparr>ae_event_data := [(''pii_columns_detected'', JInt (int (length detected))),
                                (''backend_configured'', JBool (e_backend env))]\<rparr>))
            (\<lambda>_. ret detected))"

text \<open>Steps 5 to 7 of \<open>process\<close>, after a successful preflight.\<close>

definition ingest_fresh ::
  "env \<Rightarrow> csv_received \<Rightarrow> string \<Rightarrow> preflight_result \<Rightarrow> ingest_outcome io" where
  "ingest_fresh env event payload_sha256 preflight =
     bind_eff (gate_pii env event preflight) (\<lambda>detected.
     bind_eff (new_uuid7 env) (\<lambda>bronze_id.
     bind_eff (now_utc env) (\<lambda>received_at.
     bind_eff (insert_row_session env (ev_tenant_id event)
        (bronze_row_for event bronze_id (pf_size_bytes preflight) payload_sha256
           (Some (pf_row_count preflight)) received_at RECEIVED)) (\<lambda>_.
     bind_eff (emit env ((event_audit SBronzeWritten Success event (ev_trace_id event))
        \<lparr>ae_bronze_id := Some bronze_id, ae_row_count := Some (pf_row_count preflight),
         ae_event_data := [(''pii_columns_detected'', JInt (int (length detected)))]\<rparr>)) (\<lambda>_.
     bind_eff (lift_res (build_ingress_ready event (ev_trace_id event) bronze_id received_at
                 (pf_delimiter preflight))) (\<lambda>envelope.
     bind_eff (publish env envelope) (\<lambda>_.
     bind_eff (mark_published_session env (ev_tenant_id event) bronze_id) (\<lambda>_.
     bind_eff (emit env ((event_audit SIngressPublished Success event (ev_trace_id event))
        \<lparr>ae_bronze_id := Some bronze_id, ae_event_data := [(''topic'', JStr INGRESS_READY_TOPIC)]\<rparr>)) (\<lambda>_.
     bind_eff (emit_health_seen env event) (\<lambda>_.
     ret \<lparr>io_disposition = Ingested, io_trace_id = ev_trace_id event,
          io_bronze_id = Some bronze_id\<rparr>))))))))))"

definition process :: "env \<Rightarrow> csv_received \<Rightarrow> ingest_outcome io" where
  "process env event =
     bind_eff (cross_check_path env event) (\<lambda>object_key.
     bind_eff (download_bytes env object_key) (\<lambda>data.
     let payload_sha256 = e_sha256 env data in
     bind_eff (find_prior_session env event payload_sha256) (\<lambda>prior.
     case prior of
       Some prior \<Rightarrow> handle_duplicate env event prior data
     | None \<Rightarrow>
         (case run_preflight env data of
            Inl (PreflightFailedError reason detail) \<Rightarrow>
              handle_preflight_failure env event payload_sha256 (length data) reason detail
          | Inl e \<Rightarrow> throw e
          | Inr preflight \<Rightarrow>
              bind_eff (emit env ((event_audit SReceived Success event (ev_trace_id event))
                 \<lparr>ae_row_count := Some (pf_row_count preflight),
                  ae_event_data :=
                    [(''preflight'', JDict [(''columns'', JInt (int (length (pf_columns preflight)))),
                                          (''row_count'', JInt (int (pf_row_count preflight))),
                                          (''size_bytes'', JInt (int (pf_size_bytes preflight)))]),
                     (''upload_session_id'', JStr (ev_upload_session_id event))]\<rparr>)) (\<lambda>_.
              ingest_fresh env event payload_sha256 preflight)))))"

section \<open>Message routing (subscriber.py)\<close>

datatype decision = Ack | Nack

definition terminal :: "ingest_error \<Rightarrow> bool" where
  "terminal e =
     (case e of EventContractError _ \<Rightarrow> True | EventPathMismatchError _ _ _ \<Rightarrow> True
      | PiiBackendNotConfiguredError _ \<Rightarrow> True | _ \<Rightarrow> False)"

text \<open>When the process dies there is no decision: \<open>Crashed\<close> leaves \<open>process_message\<close>.\<close>

definition process_message :: "env \<Rightarrow> bytes \<Rightarrow> decision io" where
  "process_message env data =
     (case parse_csv_received env data of
        Inl _ \<Rightarrow> ret Ack
      | Inr event \<Rightarrow>
          catch_eff (bind_eff (process env event) (\<lambda>_. ret Ack))
            (\<lambda>e. if e = Crashed then throw Crashed else if terminal e then ret Ack else ret Nack))"

primrec route_messages ::
  "env \<Rightarrow> (string \<times> bytes) list \<Rightarrow> string list \<times> string list \<Rightarrow> (string list \<times> string list) io" where
  "route_messages env [] ids = ret ids"
| "route_messages env (m # ms) ids =
     bind_eff (process_message env (snd m)) (\<lambda>decision.
     route_messages env ms
       (if decision = Ack then (fst ids @ [fst m], snd ids) else (fst ids, snd ids @ [fst m])))"

definition poll_once :: "env \<Rightarrow> (string \<times> bytes) list \<Rightarrow> nat io" where
  "poll_once env received =
     bind_eff (route_messages env received ([], [])) (\<lambda>(ack_ids, nack_ids).
     bind_eff (if ack_ids \<noteq> []
               then call env PublishError (\<lambda>w. w\<lparr>w_acked := w_acked w @ ack_ids\<rparr>) else ret ()) (\<lambda>_.
     bind_eff (if nack_ids \<noteq> []
               then call env PublishError (\<lambda>w. w\<lparr>w_nacked := w_nacked w @ nack_ids\<rparr>) else ret ()) (\<lambda>_.
     ret (length received))))"

text \<open>
  One worker instance: passes of \<open>run_forever\<close> over whatever the subscription delivers, in any
  order and any number of times. An exception of a pass is logged and the loop goes on; after
  the death of the process a new one continues on the same world.
\<close>

inductive worker_reachable :: "env \<Rightarrow> world \<Rightarrow> world \<Rightarrow> bool" for env where
  worker_start: "worker_reachable env w w"
| worker_pass: "worker_reachable env w v \<Longrightarrow> poll_once env received v = (r, v') \<Longrightarrow> worker_reachable env w v'"

end
