(* ===== verification/Csv_Ingest_Correct.thy ===== *)
theory Csv_Ingest_Correct
  imports Csv_Ingest
begin

text \<open>
  The invariant of the csv-ingest worker and its proof: every step of the pipeline keeps it under
  every schedule of faults and crashes, and a pass without faults concludes. One triple per
  operation shows both: the switch \<open>C\<close> stands for ``the calls from here on do not fail and the
  event is a good one''; an operation can only leave by an exception when \<open>C\<close> does not hold.
\<close>

section \<open>Steps that do not touch the ledger\<close>

definition calm :: "env \<Rightarrow> world \<Rightarrow> bool" where
  "calm env w \<longleftrightarrow> (\<forall>n \<ge> w_calls w. e_fault env n = Fine)"

definition quiet_step :: "world \<Rightarrow> world \<Rightarrow> bool" where
  "quiet_step w v \<longleftrightarrow>
     w_bronze v = w_bronze w \<and> w_ready v = w_ready w \<and> w_minted v = w_minted w \<and>
     w_readings w \<le> w_readings v \<and> w_calls w \<le> w_calls v"

definition quiet :: "env \<Rightarrow> 'a io \<Rightarrow> bool" where
  "quiet env m \<longleftrightarrow> (\<forall>w r v. m w = (r, v) \<longrightarrow> quiet_step w v \<and> (calm env w \<longrightarrow> is_ok r))"

definition stable :: "(world \<Rightarrow> bool) \<Rightarrow> bool" where
  "stable P \<longleftrightarrow> (\<forall>w v. quiet_step w v \<longrightarrow> P w \<longrightarrow> P v)"

lemma stableD: "stable P \<Longrightarrow> quiet_step w v \<Longrightarrow> P w \<Longrightarrow> P v"
  by (auto simp: stable_def)

lemma stable_conj: "stable P \<Longrightarrow> stable Q \<Longrightarrow> stable (\<lambda>w. P w \<and> Q w)"
  by (auto simp: stable_def)

lemma stable_calm: "stable (\<lambda>w. C \<longrightarrow> calm env w)"
  by (auto simp: stable_def calm_def quiet_step_def)

lemma quiet_step_trans: "quiet_step u v \<Longrightarrow> quiet_step v w \<Longrightarrow> quiet_step u w"
  by (auto simp: quiet_step_def)

lemma quiet_step_calm: "quiet_step w v \<Longrightarrow> calm env w \<Longrightarrow> calm env v"
  by (auto simp: calm_def quiet_step_def)

lemma quiet_bind:
  assumes "quiet env m" and "\<And>x. quiet env (f x)"
  shows "quiet env (bind_eff m f)"
  unfolding quiet_def
proof (intro allI impI)
  fix w r v
  assume run: "bind_eff m f w = (r, v)"
  obtain q u where m: "m w = (q, u)" by (cases "m w")
  have q: "quiet_step w u" "calm env w \<longrightarrow> is_ok q" using assms(1) m by (auto simp: quiet_def)
  show "quiet_step w v \<and> (calm env w \<longrightarrow> is_ok r)"
  proof (cases q)
    case (Inl e)
    then show ?thesis using run m q by (auto simp: bind_eff_def)
  next
    case (Inr x)
    then have "f x u = (r, v)" using run m by (simp add: bind_eff_def)
    then have "quiet_step u v" "calm env u \<longrightarrow> is_ok r" using assms(2) by (auto simp: quiet_def)
    then show ?thesis using q(1) quiet_step_trans quiet_step_calm by blast
  qed
qed

lemma quiet_ret: "quiet env (ret x)"
  by (auto simp: quiet_def quiet_step_def)

lemma quiet_now_utc: "quiet env (now_utc env)"
  by (auto simp: quiet_def quiet_step_def now_utc_def)

lemma quiet_call: "(\<And>w. quiet_step w (f w)) \<Longrightarrow> quiet env (call env err f)"
proof -
  assume f: "\<And>w. quiet_step w (f w)"
  have b: "quiet_step w (w\<lparr>w_calls := Suc (w_calls w)\<rparr>)" for w by (simp add: quiet_step_def)
  have "quiet_step w (f (w\<lparr>w_calls := Suc (w_calls w)\<rparr>))" for w by (rule quiet_step_trans [OF b f])
  with b show ?thesis
    unfolding quiet_def call_def Let_def by (auto simp: calm_def split: fault.splits)
qed

lemma quiet_swallow: "quiet env m \<Longrightarrow> quiet env (swallow m)"
  unfolding quiet_def swallow_def catch_eff_def
  by (fastforce split: prod.splits sum.splits if_splits)

lemma quiet_emit: "quiet env (emit env event)"
  unfolding emit_def by (intro quiet_bind quiet_now_utc quiet_swallow quiet_call) (simp add: quiet_step_def)

lemma quiet_health_seen: "quiet env (emit_health_seen env event)"
  unfolding emit_health_seen_def
  by (intro quiet_bind quiet_now_utc quiet_swallow quiet_call) (simp add: quiet_step_def)

lemma quiet_health_error: "quiet env (emit_health_error env event detail)"
  unfolding emit_health_error_def
  by (intro quiet_bind quiet_now_utc quiet_swallow quiet_call) (simp add: quiet_step_def)

lemmas quiet_steps = quiet_emit quiet_health_seen quiet_health_error quiet_now_utc quiet_ret

text \<open>The frame rule: a quiet step keeps a stable assertion and fails only without calm.\<close>

lemma triple_quiet:
  assumes "quiet env m" and "stable P" and "\<And>w. P w \<Longrightarrow> C \<Longrightarrow> calm env w" and "\<And>w. P w \<Longrightarrow> J w"
  shows "triple P m (\<lambda>_. P) (\<lambda>_ w. J w \<and> \<not> C)"
proof (rule tripleI)
  fix s e t
  assume P: "P s" and run: "m s = (Inl e, t)"
  then have "quiet_step s t" and "\<not> calm env s" using assms(1) by (fastforce simp: quiet_def)+
  then show "J t \<and> \<not> C" using stableD [OF assms(2)] P assms(3,4) by blast
next
  fix s x t
  assume P: "P s" and run: "m s = (Inr x, t)"
  then have "quiet_step s t" using assms(1) by (fastforce simp: quiet_def)
  then show "P t" using stableD [OF assms(2)] P by blast
qed

abbreviation bump :: "world \<Rightarrow> world" where
  "bump w \<equiv> w\<lparr>w_calls := Suc (w_calls w)\<rparr>"

lemma triple_call:
  assumes "\<And>w. P w \<Longrightarrow> Q (f (bump w))" and "\<And>w. P w \<Longrightarrow> J (bump w)" and "\<And>w. P w \<Longrightarrow> J (f (bump w))"
    and "\<And>w. P w \<Longrightarrow> C \<Longrightarrow> calm env w"
  shows "triple P (call env err f) (\<lambda>_. Q) (\<lambda>_ w. J w \<and> \<not> C)"
  unfolding triple_def call_def Let_def
  using assms by (auto simp: calm_def split: fault.splits)

section \<open>The invariant\<close>

definition row_published :: "bronze_row \<Rightarrow> bool" where
  "row_published r \<longleftrightarrow> br_processing_status r = PUBLISHED \<and> br_published_at r \<noteq> None"

text \<open>A message describes a row: same id, tenant, trace and acceptance time.\<close>

definition describes :: "ingress_ready \<Rightarrow> bronze_row \<Rightarrow> bool" where
  "describes m r \<longleftrightarrow>
     ir_bronze_ref m = br_id r \<and> ir_tenant_id m = br_tenant_id r \<and> ir_trace_id m = br_trace_id r \<and>
     ir_received_ts m = br_received_at r"

text \<open>What the content of a row's object is known to be, by its status.\<close>

definition content_ok :: "env \<Rightarrow> bronze_row \<Rightarrow> bool" where
  "content_ok env r \<longleftrightarrow>
     (\<exists>data. br_payload_sha256 r = Some (e_sha256 env data) \<and>
        (if br_processing_status r = FAILED then \<exists>e. run_preflight env data = Inl e
         else \<exists>pf. run_preflight env data = Inr pf \<and>
                (e_backend env \<or> \<not> list_ex is_pii_column (pf_columns pf))))"

definition row_ok :: "env \<Rightarrow> world \<Rightarrow> bronze_row \<Rightarrow> bool" where
  "row_ok env w r \<longleftrightarrow>
     (br_processing_status r = RECEIVED \<and> br_published_at r = None \<or>
      br_processing_status r = FAILED \<and> br_published_at r = None \<or>
      row_published r \<and> (\<exists>m \<in> set (w_ready w). describes m r)) \<and>
     content_ok env r \<and>
     (\<exists>n < w_readings w. br_received_at r = e_time env n)"

definition message_ok :: "world \<Rightarrow> ingress_ready \<Rightarrow> bool" where
  "message_ok w m \<longleftrightarrow>
     (\<exists>r \<in> set (w_bronze w). describes m r \<and> br_processing_status r \<noteq> FAILED)"

definition ingest_inv :: "env \<Rightarrow> world \<Rightarrow> bool" where
  "ingest_inv env w \<longleftrightarrow>
     (\<forall>r \<in> set (w_bronze w). row_ok env w r) \<and> (\<forall>m \<in> set (w_ready w). message_ok w m) \<and>
     distinct (map br_id (w_bronze w)) \<and> bronze.separated (w_bronze w)"

lemma stable_inv: "stable (ingest_inv env)"
  unfolding stable_def
proof (intro allI impI)
  fix w v assume q: "quiet_step w v" and inv: "ingest_inv env w"
  have "row_ok env v r" if "row_ok env w r" for r
    using that q unfolding row_ok_def quiet_step_def by (auto dest: less_le_trans)
  then show "ingest_inv env v" using q inv by (simp add: ingest_inv_def quiet_step_def message_ok_def)
qed

text \<open>Assertions of the pipeline: the key was just looked up in vain; an identifier is new.\<close>

definition fresh_key :: "env \<Rightarrow> dedup_key \<Rightarrow> world \<Rightarrow> bool" where
  "fresh_key env k w \<longleftrightarrow> (\<exists>n < w_readings w. lookup_key k (e_time env n) (w_bronze w) = None)"

definition new_id :: "bool \<Rightarrow> uuid \<Rightarrow> world \<Rightarrow> bool" where
  "new_id C b w \<longleftrightarrow> (C \<longrightarrow> b \<notin> set (map br_id (w_bronze w)))"

lemma stable_fresh_key: "stable (fresh_key env k)"
  by (auto simp: stable_def fresh_key_def quiet_step_def dest: less_le_trans)

lemma stable_new_id: "stable (new_id C b)"
  by (simp add: stable_def new_id_def quiet_step_def)

lemma stable_bronze: "stable (\<lambda>w. Q (w_bronze w) (w_ready w))"
  by (auto simp: stable_def quiet_step_def)

text \<open>The environment's documented behaviour: the clock does not run back.\<close>

definition env_ok :: "env \<Rightarrow> bool" where
  "env_ok env \<longleftrightarrow> mono (e_time env)"

section \<open>The statements on the ledger\<close>

definition base :: "env \<Rightarrow> bool \<Rightarrow> world \<Rightarrow> bool" where
  "base env C w \<longleftrightarrow> ingest_inv env w \<and> (C \<longrightarrow> calm env w)"

lemma stable_base: "stable (base env C)"
  unfolding base_def by (intro stable_conj stable_inv stable_calm)

text \<open>Before an identifier is minted: the next one is not in the table.\<close>

definition base0 :: "env \<Rightarrow> bool \<Rightarrow> world \<Rightarrow> bool" where
  "base0 env C w \<longleftrightarrow> base env C w \<and> new_id C (e_uuid env (w_minted w)) w"

lemma stable_base0: "stable (base0 env C)"
  using stable_base [of env C] by (auto simp: stable_def base0_def new_id_def quiet_step_def)

lemma base0_base: "base0 env C w \<Longrightarrow> base env C w"
  by (simp add: base0_def)

lemma base_calm: "base env C w \<Longrightarrow> C \<Longrightarrow> calm env w"
  by (simp add: base_def)

lemma base_inv: "base env C w \<Longrightarrow> ingest_inv env w"
  by (simp add: base_def)

text \<open>Quiet steps in front of a computation whose precondition is stable.\<close>

lemma triple_quiet_bind:
  assumes "quiet env m" and "stable P" and "\<And>w. P w \<Longrightarrow> base env C w"
    and "\<And>x. triple P (f x) Q (\<lambda>_ w. ingest_inv env w \<and> \<not> C)"
  shows "triple P (bind_eff m f) Q (\<lambda>_ w. ingest_inv env w \<and> \<not> C)"
  by (rule triple_bind [OF triple_quiet [OF assms(1,2)] assms(4)])
    (auto dest!: assms(3) simp: base_def)

lemma bump_inv: "ingest_inv env w \<Longrightarrow> ingest_inv env (bump w)"
  by (rule stableD [OF stable_inv]) (simp_all add: quiet_step_def)

lemma bump_calm: "(C \<longrightarrow> calm env w) \<Longrightarrow> (C \<longrightarrow> calm env (bump w))"
  by (auto simp: calm_def)

text \<open>A call whose effect keeps the invariant.\<close>

lemma triple_call_base:
  assumes "stable P" and "\<And>w. ingest_inv env w \<Longrightarrow> P w \<Longrightarrow> ingest_inv env (f w)"
    and "\<And>w. ingest_inv env w \<Longrightarrow> P w \<Longrightarrow> Q (f w)" and "\<And>w. w_calls (f w) = w_calls w"
  shows "triple (\<lambda>w. base env C w \<and> P w) (call env err f) (\<lambda>_ w. base env C w \<and> Q w)
     (\<lambda>_ w. ingest_inv env w \<and> \<not> C)"
proof (rule triple_call)
  fix w
  assume w: "base env C w \<and> P w"
  have q: "quiet_step w (bump w)" by (simp add: quiet_step_def)
  have b: "ingest_inv env (bump w)" "P (bump w)"
    using w stableD [OF stable_inv q] stableD [OF assms(1) q] by (auto simp: base_def)
  have "calm env (f (bump w))" if C using w that assms(4) by (auto simp: base_def calm_def)
  with b assms(2,3) show "base env C (f (bump w)) \<and> Q (f (bump w))" by (simp add: base_def)
  show "ingest_inv env (bump w)" "ingest_inv env (f (bump w))" using b assms(2) by simp_all
  show "calm env w" if C using w that by (simp add: base_def)
qed

definition fresh_at :: "env \<Rightarrow> dedup_key \<Rightarrow> timestamp \<Rightarrow> world \<Rightarrow> bool" where
  "fresh_at env k t w \<longleftrightarrow>
     (\<exists>n m. n \<le> m \<and> m < w_readings w \<and> t = e_time env m \<and> lookup_key k (e_time env n) (w_bronze w) = None)"

lemma stable_fresh_at: "stable (fresh_at env k t)"
  unfolding stable_def fresh_at_def quiet_step_def by (metis less_le_trans)

lemma inv_insert:
  assumes inv: "ingest_inv env w" and env: "env_ok env" and key: "row_key row = Some k"
    and fresh: "fresh_at env k (br_received_at row) w" and new: "br_id row \<notin> set (map br_id (w_bronze w))"
    and content: "content_ok env row" and unpublished: "br_published_at row = None"
    and status: "br_processing_status row \<in> {RECEIVED, FAILED}"
  shows "ingest_inv env (w\<lparr>w_bronze := w_bronze w @ [row]\<rparr>)"
proof -
  let ?v = "w\<lparr>w_bronze := w_bronze w @ [row]\<rparr>"
  from fresh obtain n m where nm: "n \<le> m" "m < w_readings w" "br_received_at row = e_time env m"
    and none: "lookup_key k (e_time env n) (w_bronze w) = None" by (auto simp: fresh_at_def)
  have "e_time env n \<le> br_received_at row" using env nm by (simp add: env_ok_def monoD)
  then have "bronze.separated (w_bronze ?v)"
    using bronze.separated_insert [OF _ none key] inv by (simp add: ingest_inv_def)
  moreover have "row_ok env ?v row"
    using content unpublished status nm by (auto simp: row_ok_def)
  moreover have "row_ok env ?v r" if "row_ok env w r" for r using that by (simp add: row_ok_def)
  moreover have "message_ok ?v m" if "message_ok w m" for m using that by (auto simp: message_ok_def)
  moreover have "distinct (map br_id (w_bronze ?v))"
    using inv new by (simp add: ingest_inv_def)
  ultimately show ?thesis using inv by (simp add: ingest_inv_def)
qed

lemma insert_row_triple:
  assumes "env_ok env" and "row_key row = Some k" and "br_tenant_id row = tenant"
    and "content_ok env row" and "br_published_at row = None"
    and "br_processing_status row \<in> {RECEIVED, FAILED}"
  shows "triple (\<lambda>w. base env C w \<and> fresh_at env k (br_received_at row) w \<and> new_id C (br_id row) w)
     (insert_row_session env tenant row)
     (\<lambda>_ w. base env C w \<and> row \<in> set (w_bronze w)) (\<lambda>_ w. ingest_inv env w \<and> \<not> C)"
    (is "triple ?P _ ?Q ?E")
proof -
  let ?call = "call env DatabaseError (\<lambda>w. w\<lparr>w_bronze := w_bronze w @ [row]\<rparr>)"
  let ?free = "\<lambda>w. fresh_at env k (br_received_at row) w \<and> br_id row \<notin> set (map br_id (w_bronze w))"
  have "stable ?free" by (intro stable_conj stable_fresh_at) (simp add: stable_def quiet_step_def)
  then have ins: "triple (\<lambda>w. base env C w \<and> ?free w) ?call ?Q ?E"
    by (rule triple_call_base) (use inv_insert [OF _ assms(1,2) _ _ assms(4-6)] in auto)
  have eq: "insert_row_session env tenant row w =
      (if br_id row \<notin> set (map br_id (w_bronze w)) then ?call w else (Inl DatabaseError, w))" for w
    by (simp add: insert_row_session_def insert_row_def assms(3))
  show ?thesis
  proof (rule tripleI)
    fix s e t
    assume s: "?P s" and run: "insert_row_session env tenant row s = (Inl e, t)"
    show "?E e t"
    proof (cases "br_id row \<notin> set (map br_id (w_bronze s))")
      case True
      then have "?call s = (Inl e, t)" using run unfolding eq [of s] by (simp only: if_True not_False_eq_True)
      then show ?thesis using triple_Inl [OF ins] s True by blast
    next
      case False
      then have "t = s" using run eq [of s] by auto
      then show ?thesis using s False by (auto simp: new_id_def base_def)
    qed
  next
    fix s x t
    assume s: "?P s" and run: "insert_row_session env tenant row s = (Inr x, t)"
    then have "br_id row \<notin> set (map br_id (w_bronze s))" using eq [of s] by (auto split: if_splits)
    moreover from this have "?call s = (Inr x, t)" using run unfolding eq [of s] by (simp only: if_True not_False_eq_True)
    ultimately show "?Q x t" using triple_Inr [OF ins] s by blast
  qed
qed

lemma inv_publish:
  assumes "ingest_inv env w" and "row \<in> set (w_bronze w)" and "describes msg row"
    and "br_processing_status row \<noteq> FAILED"
  shows "ingest_inv env (w\<lparr>w_ready := w_ready w @ [msg]\<rparr>)"
proof -
  let ?v = "w\<lparr>w_ready := w_ready w @ [msg]\<rparr>"
  have "message_ok ?v msg" using assms by (auto simp: message_ok_def)
  moreover have "row_ok env ?v r" if "row_ok env w r" for r using that by (auto simp: row_ok_def)
  moreover have "message_ok ?v m" if "message_ok w m" for m using that by (auto simp: message_ok_def)
  ultimately show ?thesis using assms(1) by (auto simp: ingest_inv_def)
qed

lemma publish_triple:
  assumes "describes msg row" and "br_processing_status row \<noteq> FAILED"
  shows "triple (\<lambda>w. base env C w \<and> row \<in> set (w_bronze w)) (publish env msg)
     (\<lambda>_ w. base env C w \<and> row \<in> set (w_bronze w) \<and> msg \<in> set (w_ready w))
     (\<lambda>_ w. ingest_inv env w \<and> \<not> C)"
  unfolding publish_def
  by (rule triple_call_base) (use inv_publish assms stable_bronze in auto)

text \<open>The mark changes one row, whose publication it records.\<close>

definition marked :: "timestamp \<Rightarrow> bronze_row \<Rightarrow> bronze_row" where
  "marked t r = r\<lparr>br_published_at := Some t, br_processing_status := PUBLISHED\<rparr>"

lemma marked_simps [simp]:
  "br_id (marked t r) = br_id r" "br_tenant_id (marked t r) = br_tenant_id r"
  "br_trace_id (marked t r) = br_trace_id r" "row_key (marked t r) = row_key r"
  "br_received_at (marked t r) = br_received_at r" "describes m (marked t r) \<longleftrightarrow> describes m r"
  "row_published (marked t r)" "br_processing_status (marked t r) = PUBLISHED"
  by (auto simp: marked_def describes_def row_published_def row_key_def split: option.splits)

lemma mark_published_marked:
  "mark_published tenant b t rows =
     map (\<lambda>r. if br_tenant_id r = tenant \<and> br_id r = b then marked t r else r) rows"
  by (simp add: mark_published_def marked_def)

lemma content_marked: "content_ok env r \<Longrightarrow> br_processing_status r \<noteq> FAILED \<Longrightarrow> content_ok env (marked t r)"
  by (auto simp: content_ok_def marked_def)

lemma distinct_ids: "ingest_inv env w \<Longrightarrow> r \<in> set (w_bronze w) \<Longrightarrow> s \<in> set (w_bronze w) \<Longrightarrow>
    br_id r = br_id s \<Longrightarrow> r = s"
  by (auto simp: ingest_inv_def distinct_map dest: inj_onD)

lemma inv_mark:
  assumes inv: "ingest_inv env w" and row: "row \<in> set (w_bronze w)" and msg: "msg \<in> set (w_ready w)"
    and d: "describes msg row" and status: "br_processing_status row \<noteq> FAILED"
  shows "ingest_inv env (w\<lparr>w_bronze := mark_published tenant (br_id row) t (w_bronze w)\<rparr>)"
proof -
  let ?g = "\<lambda>r. if br_tenant_id r = tenant \<and> br_id r = br_id row then marked t r else r"
  let ?v = "w\<lparr>w_bronze := mark_published tenant (br_id row) t (w_bronze w)\<rparr>"
  have rows: "w_bronze ?v = map ?g (w_bronze w)" by (simp add: mark_published_marked)
  have "row_ok env ?v (?g r)" if r: "r \<in> set (w_bronze w)" for r
  proof (cases "br_tenant_id r = tenant \<and> br_id r = br_id row")
    case True
    then have "r = row" using distinct_ids [OF inv r row] by simp
    moreover have "row_ok env w row" using inv row by (simp add: ingest_inv_def)
    ultimately show ?thesis using True msg d status content_marked by (auto simp: row_ok_def)
  next
    case False
    moreover have "row_ok env w r" using inv r by (simp add: ingest_inv_def)
    ultimately show ?thesis by (auto simp: row_ok_def)
  qed
  then have "\<forall>s \<in> set (w_bronze ?v). row_ok env ?v s" unfolding rows set_map by blast
  moreover have "message_ok ?v m" if m: "message_ok w m" for m
  proof -
    from m obtain r where r: "r \<in> set (w_bronze w)" "describes m r" "br_processing_status r \<noteq> FAILED"
      by (auto simp: message_ok_def)
    then have "?g r \<in> set (w_bronze ?v)" and "describes m (?g r)" and "br_processing_status (?g r) \<noteq> FAILED"
      by (auto simp: rows)
    then show ?thesis unfolding message_ok_def by blast
  qed
  moreover have "map br_id (w_bronze ?v) = map br_id (w_bronze w)" by (simp add: rows)
  moreover have "bronze.separated (w_bronze ?v)"
    using inv bronze.separated_mark by (simp add: ingest_inv_def mark_published_row)
  moreover have "w_ready ?v = w_ready w" by simp
  ultimately show ?thesis using inv unfolding ingest_inv_def by metis
qed

text \<open>The key is concluded by a row that an outcome names.\<close>

definition concluded :: "dedup_key \<Rightarrow> ingest_outcome \<Rightarrow> world \<Rightarrow> bool" where
  "concluded k out w \<longleftrightarrow>
     (\<exists>r \<in> set (w_bronze w). row_key r = Some k \<and> io_bronze_id out = Some (br_id r) \<and>
        io_trace_id out = br_trace_id r \<and> (br_processing_status r = FAILED \<or> row_published r))"

lemma mark_published_triple:
  assumes "br_tenant_id row = tenant" and "row_key row = Some k" and "describes msg row"
    and "br_processing_status row \<noteq> FAILED"
    and "io_bronze_id out = Some (br_id row)" and "io_trace_id out = br_trace_id row"
  shows "triple (\<lambda>w. base env C w \<and> row \<in> set (w_bronze w) \<and> msg \<in> set (w_ready w))
     (mark_published_session env tenant (br_id row))
     (\<lambda>_ w. base env C w \<and> concluded k out w) (\<lambda>_ w. ingest_inv env w \<and> \<not> C)"
  unfolding mark_published_session_def
proof (rule triple_quiet_bind [OF quiet_now_utc])
  show "stable (\<lambda>w. base env C w \<and> row \<in> set (w_bronze w) \<and> msg \<in> set (w_ready w))"
    by (intro stable_conj stable_base stable_bronze)
  fix t
  have "concluded k out (w\<lparr>w_bronze := mark_published tenant (br_id row) t (w_bronze w)\<rparr>)"
    if "row \<in> set (w_bronze w)" for w
  proof -
    have "marked t row \<in> set (mark_published tenant (br_id row) t (w_bronze w))"
      using that assms(1) by (force simp: mark_published_marked)
    then show ?thesis using assms(2,5,6) by (auto simp: concluded_def intro!: bexI [of _ "marked t row"])
  qed
  then show "triple (\<lambda>w. base env C w \<and> row \<in> set (w_bronze w) \<and> msg \<in> set (w_ready w))
     (call env DatabaseError (\<lambda>w. w\<lparr>w_bronze := mark_published tenant (br_id row) t (w_bronze w)\<rparr>))
     (\<lambda>_ w. base env C w \<and> concluded k out w) (\<lambda>_ w. ingest_inv env w \<and> \<not> C)"
    by (intro triple_call_base) (use inv_mark assms(3,4) stable_bronze in auto)
qed simp

section \<open>The stages\<close>

definition event_key :: "env \<Rightarrow> csv_received \<Rightarrow> bytes \<Rightarrow> dedup_key" where
  "event_key env event data =
     (ev_tenant_id event, ev_upload_session_id event, e_sha256 env data, DIS_CHANNEL)"

text \<open>The object that an event names, when its path agrees with the event.\<close>

definition event_path :: "env \<Rightarrow> csv_received \<Rightarrow> string option" where
  "event_path env event =
     (case split_object_uri (ev_gcs_uri event) of
        Inl _ \<Rightarrow> None
      | Inr (bucket, object_key) \<Rightarrow>
          (case parse_object_path object_key of
             Inl _ \<Rightarrow> None
           | Inr parsed \<Rightarrow>
               if first_mismatch (path_checks env event bucket parsed) = None then Some object_key else None))"

definition key_ok :: "env \<Rightarrow> csv_received \<Rightarrow> bytes \<Rightarrow> bool" where
  "key_ok env event data \<longleftrightarrow> py_strip (ev_upload_session_id event) \<noteq> [] \<and> py_strip (e_sha256 env data) \<noteq> []"

definition sendable :: "env \<Rightarrow> csv_received \<Rightarrow> bytes \<Rightarrow> bool" where
  "sendable env event data \<longleftrightarrow>
     ev_source_id event \<noteq> [] \<and> ev_gcs_uri event \<noteq> [] \<and>
     (\<exists>pf. run_preflight env data = Inr pf \<and> length (pf_delimiter pf) = 1 \<and>
        (e_backend env \<or> \<not> list_ex is_pii_column (pf_columns pf)))"

lemma stable_concluded: "stable (concluded k out)"
  unfolding stable_def concluded_def by (simp add: quiet_step_def)

lemma build_describes:
  "build_ingress_ready event trace b t d = Inr msg \<Longrightarrow>
   br_id row = b \<Longrightarrow> br_tenant_id row = ev_tenant_id event \<Longrightarrow> br_trace_id row = trace \<Longrightarrow>
   br_received_at row = t \<Longrightarrow> describes msg row"
  by (auto simp: build_ingress_ready_def describes_def split: if_splits)

lemma py_strip_Nil [simp]: "py_strip [] = []"
  by (simp add: py_strip_def py_strip_chars_def)

lemma find_prior_triple:
  assumes "C \<longrightarrow> key_ok env event data"
  shows "triple (base0 env C) (find_prior_session env event (e_sha256 env data))
     (\<lambda>prior w. base0 env C w \<and>
        (case prior of
           None \<Rightarrow> fresh_key env (event_key env event data) w
         | Some p \<Rightarrow> \<exists>row \<in> set (w_bronze w). row_key row = Some (event_key env event data) \<and> p = prior_of_row row))
     (\<lambda>_ w. ingest_inv env w \<and> \<not> C)"
  unfolding find_prior_session_def
proof (rule triple_quiet_bind [OF quiet_call stable_base0])
  fix u :: unit
  let ?k = "event_key env event data"
  let ?read = "\<lambda>now w. case find_prior (ev_tenant_id event) (ev_upload_session_id event)
      (e_sha256 env data) DIS_CHANNEL now (w_bronze w) of
        Inl field \<Rightarrow> (Inl (EventContractError field), w) | Inr prior \<Rightarrow> (Inr prior, w)"
  let ?Q = "\<lambda>prior w. base0 env C w \<and>
        (case prior of None \<Rightarrow> fresh_key env ?k w
         | Some p \<Rightarrow> \<exists>row \<in> set (w_bronze w). row_key row = Some ?k \<and> p = prior_of_row row)"
  show "triple (base0 env C) (bind_eff (now_utc env) ?read) ?Q (\<lambda>_ w. ingest_inv env w \<and> \<not> C)"
  proof (rule triple_bind)
    show "triple (base0 env C) (now_utc env)
        (\<lambda>now w. base0 env C w \<and> (\<exists>n < w_readings w. now = e_time env n)) (\<lambda>_ w. ingest_inv env w \<and> \<not> C)"
    proof (rule tripleI)
      fix s x t
      assume s: "base0 env C s" and run: "now_utc env s = (Inr x, t)"
      then have "quiet_step s t" and "t = s\<lparr>w_readings := Suc (w_readings s)\<rparr>" and "x = e_time env (w_readings s)"
        by (auto simp: now_utc_def quiet_step_def)
      then show "base0 env C t \<and> (\<exists>n < w_readings t. x = e_time env n)"
        using stableD [OF stable_base0] s by auto
    qed (simp add: now_utc_def)
    show "triple (\<lambda>w. base0 env C w \<and> (\<exists>n < w_readings w. now = e_time env n)) (?read now) ?Q
        (\<lambda>_ w. ingest_inv env w \<and> \<not> C)" for now
    proof (rule tripleI)
      fix s e t
      assume s: "base0 env C s \<and> (\<exists>n < w_readings s. now = e_time env n)" and run: "?read now s = (Inl e, t)"
      then have "t = s" and "\<not> key_ok env event data"
        by (auto simp: find_prior_def require_key_component_def key_ok_def raise_if_def
            split: sum.splits if_splits)
      then show "ingest_inv env t \<and> \<not> C" using s assms by (auto simp: base0_def base_def)
    next
      fix s prior t
      assume s: "base0 env C s \<and> (\<exists>n < w_readings s. now = e_time env n)" and run: "?read now s = (Inr prior, t)"
      then have t: "t = s" and p: "prior = map_option prior_of_row (lookup_key ?k now (w_bronze s))"
        by (auto simp: find_prior_def bind_res_Inr_iff event_key_def select_prior_lookup split: sum.splits)
      show "?Q prior t"
      proof (cases "lookup_key ?k now (w_bronze s)")
        case None
        then show ?thesis using s t p by (auto simp: fresh_key_def)
      next
        case (Some row)
        then show ?thesis using s t p bronze.lookup_Some [OF Some] by auto
      qed
    qed
  qed
qed (simp_all add: quiet_step_def base0_def)

lemma prior_status:
  assumes "ingest_inv env w" and "row \<in> set (w_bronze w)"
  shows "br_processing_status row = FAILED \<or> is_published (prior_of_row row) \<longleftrightarrow>
     br_processing_status row = FAILED \<or> row_published row"
proof -
  have "row_ok env w row" using assms by (simp add: ingest_inv_def)
  then show ?thesis by (auto simp: row_ok_def is_published_def prior_of_row_def row_published_def)
qed

text \<open>Publish, then stamp: the common end of the fresh and the resumed ingest.\<close>

lemma publish_then_mark:
  assumes "describes msg row" and "br_processing_status row \<noteq> FAILED" and "br_tenant_id row = tenant"
    and "row_key row = Some k" and "io_bronze_id out = Some (br_id row)" and "io_trace_id out = br_trace_id row"
    and "triple (\<lambda>w. base env C w \<and> concluded k out w) rest Q (\<lambda>_ w. ingest_inv env w \<and> \<not> C)"
  shows "triple (\<lambda>w. base env C w \<and> row \<in> set (w_bronze w))
     (bind_eff (publish env msg) (\<lambda>_. bind_eff (mark_published_session env tenant (br_id row)) (\<lambda>_. rest)))
     Q (\<lambda>_ w. ingest_inv env w \<and> \<not> C)"
  by (rule triple_bind [OF publish_triple [OF assms(1,2)]])
    (rule triple_bind [OF mark_published_triple [OF assms(3,4,1,2,5,6)] assms(7)])

text \<open>The audit and health emissions that end an ingest.\<close>

lemma emit_then_seen:
  assumes "stable P" and "\<And>w. P w \<Longrightarrow> base env C w"
  shows "triple P (bind_eff (emit env a) (\<lambda>_. bind_eff (emit_health_seen env event) (\<lambda>_. ret out)))
     (\<lambda>x w. x = out \<and> P w) (\<lambda>_ w. ingest_inv env w \<and> \<not> C)"
  by (intro triple_quiet_bind [OF quiet_emit assms(1)] triple_quiet_bind [OF quiet_health_seen assms(1)]
      triple_ret) (use assms(2) in simp_all)

lemma handle_duplicate_triple:
  assumes key: "row_key row = Some (event_key env event data)" and C: "C \<longrightarrow> sendable env event data"
  shows "triple (\<lambda>w. base env C w \<and> row \<in> set (w_bronze w))
     (handle_duplicate env event (prior_of_row row) data)
     (\<lambda>out w. base env C w \<and> concluded (event_key env event data) out w) (\<lambda>_ w. ingest_inv env w \<and> \<not> C)"
proof -
  let ?p = "prior_of_row row" let ?k = "event_key env event data"
  let ?P = "\<lambda>w. base env C w \<and> row \<in> set (w_bronze w)"
  let ?E = "\<lambda>(_ :: ingest_error) w. ingest_inv env w \<and> \<not> C"
  have tenant: "br_tenant_id row = ev_tenant_id event"
    using key by (auto simp: event_key_def row_key_def split: option.splits)
  have stP: "stable ?P" by (intro stable_conj stable_base stable_bronze)
  show ?thesis
  proof (cases "br_processing_status row = FAILED \<or> is_published ?p")
    case True
    then have True': "pi_processing_status ?p = FAILED \<or> is_published ?p" by (simp add: prior_of_row_def)
    have fin: "concluded ?k \<lparr>io_disposition = DuplicateNoopD, io_trace_id = pi_trace_id ?p,
         io_bronze_id = Some (pi_bronze_id ?p)\<rparr> w" if "?P w" for w
      using True key prior_status [of env w row] that
      by (auto simp: concluded_def prior_of_row_def base_def)
    show ?thesis
      unfolding handle_duplicate_def if_P [OF True']
      by (rule triple_conseq [OF emit_then_seen [OF stP]]) (use fin in auto)
  next
    case False
    then have False': "\<not> (pi_processing_status ?p = FAILED \<or> is_published ?p)" by (simp add: prior_of_row_def)
    define out where "out = \<lparr>io_disposition = DuplicateResumed, io_trace_id = pi_trace_id ?p,
         io_bronze_id = Some (pi_bronze_id ?p)\<rparr>"
    have p: "pi_trace_id ?p = br_trace_id row" "pi_bronze_id ?p = br_id row" "pi_received_at ?p = br_received_at row"
      by (simp_all add: prior_of_row_def)
    have status: "br_processing_status row \<noteq> FAILED" using False by simp
    have rest: "triple (\<lambda>w. base env C w \<and> concluded ?k out w)
        (bind_eff (emit env a) (\<lambda>_. bind_eff (emit_health_seen env event) (\<lambda>_. ret out)))
        (\<lambda>x w. base env C w \<and> concluded ?k x w) ?E" for a
      by (rule triple_conseq [OF emit_then_seen [OF stable_conj [OF stable_base stable_concluded]]]) auto
    have send: "triple ?P (bind_eff (publish env msg) (\<lambda>_.
        bind_eff (mark_published_session env (ev_tenant_id event) (br_id row)) (\<lambda>_.
        bind_eff (emit env a) (\<lambda>_. bind_eff (emit_health_seen env event) (\<lambda>_. ret out)))))
        (\<lambda>x w. base env C w \<and> concluded ?k x w) ?E" if "describes msg row" for msg a
      by (rule publish_then_mark [OF that status tenant key _ _ rest]) (simp_all add: out_def p)
    show ?thesis
      unfolding handle_duplicate_def if_not_P [OF False'] out_def [symmetric]
    proof (rule triple_bind)
      show "triple ?P (lift_res (run_preflight env data)) (\<lambda>pf w. run_preflight env data = Inr pf \<and> ?P w) ?E"
        by (rule triple_lift) (use C in \<open>auto simp: base_def sendable_def\<close>)
      show "triple (\<lambda>w. run_preflight env data = Inr pf \<and> ?P w)
          (bind_eff (lift_res (build_ingress_ready event (pi_trace_id ?p) (pi_bronze_id ?p) (pi_received_at ?p)
                      (pf_delimiter pf))) (\<lambda>envelope.
           bind_eff (publish env envelope) (\<lambda>_.
           bind_eff (mark_published_session env (ev_tenant_id event) (pi_bronze_id ?p)) (\<lambda>_.
           bind_eff (emit env ((event_audit SIngressPublished Retried event (pi_trace_id ?p))
             \<lparr>ae_bronze_id := Some (pi_bronze_id ?p),
              ae_event_data := [(''resumed'', JBool True), (''topic'', JStr INGRESS_READY_TOPIC)]\<rparr>)) (\<lambda>_.
           bind_eff (emit_health_seen env event) (\<lambda>_. ret out))))))
          (\<lambda>x w. base env C w \<and> concluded ?k x w) ?E" for pf
      proof (rule triple_conj_pure, rule triple_bind)
        assume pf: "run_preflight env data = Inr pf"
        show "triple ?P (lift_res (build_ingress_ready event (pi_trace_id ?p) (pi_bronze_id ?p) (pi_received_at ?p)
            (pf_delimiter pf))) (\<lambda>msg w. describes msg row \<and> ?P w) ?E"
          by (rule triple_lift)
            (use C pf tenant build_describes [of event] p in
              \<open>auto simp: base_def sendable_def build_ingress_ready_def describes_def split: if_splits\<close>)
        show "triple (\<lambda>w. describes msg row \<and> ?P w) (bind_eff (publish env msg) (\<lambda>_.
           bind_eff (mark_published_session env (ev_tenant_id event) (pi_bronze_id ?p)) (\<lambda>_.
           bind_eff (emit env ((event_audit SIngressPublished Retried event (pi_trace_id ?p))
             \<lparr>ae_bronze_id := Some (pi_bronze_id ?p),
              ae_event_data := [(''resumed'', JBool True), (''topic'', JStr INGRESS_READY_TOPIC)]\<rparr>)) (\<lambda>_.
           bind_eff (emit_health_seen env event) (\<lambda>_. ret out)))))
          (\<lambda>x w. base env C w \<and> concluded ?k x w) ?E" for msg
          unfolding p by (rule triple_conj_pure) (rule send)
      qed
    qed
  qed
qed

text \<open>Minting the id, stamping the time and inserting: the common start of both write paths.\<close>

lemma new_uuid_triple:
  "triple (\<lambda>w. base0 env C w \<and> fresh_key env k w) (new_uuid7 env)
     (\<lambda>b w. base env C w \<and> fresh_key env k w \<and> new_id C b w) (\<lambda>_ w. ingest_inv env w \<and> \<not> C)"
proof (rule tripleI)
  fix s b t
  assume s: "base0 env C s \<and> fresh_key env k s" and run: "new_uuid7 env s = (Inr b, t)"
  then have b: "b = e_uuid env (w_minted s)" and t: "t = s\<lparr>w_minted := Suc (w_minted s)\<rparr>"
    by (auto simp: new_uuid7_def)
  have "row_ok env t r \<longleftrightarrow> row_ok env s r" for r by (simp add: t row_ok_def)
  then have "base env C t" using s t by (simp add: base0_def base_def ingest_inv_def message_ok_def calm_def)
  then show "base env C t \<and> fresh_key env k t \<and> new_id C b t"
    using s b t by (simp add: fresh_key_def base0_def new_id_def)
qed (simp add: new_uuid7_def)

lemma now_fresh_triple:
  "triple (\<lambda>w. base env C w \<and> fresh_key env k w \<and> new_id C b w) (now_utc env)
     (\<lambda>t w. base env C w \<and> fresh_at env k t w \<and> new_id C b w) (\<lambda>_ w. ingest_inv env w \<and> \<not> C)"
proof (rule tripleI)
  fix s x t
  assume s: "base env C s \<and> fresh_key env k s \<and> new_id C b s" and run: "now_utc env s = (Inr x, t)"
  then have x: "x = e_time env (w_readings s)" and t: "t = s\<lparr>w_readings := Suc (w_readings s)\<rparr>"
    by (auto simp: now_utc_def)
  then have q: "quiet_step s t" by (simp add: quiet_step_def)
  from s obtain n where "n < w_readings s" "lookup_key k (e_time env n) (w_bronze s) = None"
    by (auto simp: fresh_key_def)
  then have "fresh_at env k x t"
    unfolding fresh_at_def using x t by (intro exI [of _ n] exI [of _ "w_readings s"]) simp
  then show "base env C t \<and> fresh_at env k x t \<and> new_id C b t"
    using s stableD [OF stable_base q] stableD [OF stable_new_id q] by blast
qed (simp add: now_utc_def)

lemma mint_and_insert:
  assumes "env_ok env"
    and "\<And>b t. row_key (mk b t) = Some k" and "\<And>b t. br_tenant_id (mk b t) = tenant"
    and "\<And>b t. content_ok env (mk b t)" and "\<And>b t. br_published_at (mk b t) = None"
    and "\<And>b t. br_processing_status (mk b t) \<in> {RECEIVED, FAILED}"
    and "\<And>b t. br_id (mk b t) = b" and "\<And>b t. br_received_at (mk b t) = t"
    and "\<And>b t. triple (\<lambda>w. base env C w \<and> mk b t \<in> set (w_bronze w)) (rest b t) Q (\<lambda>_ w. ingest_inv env w \<and> \<not> C)"
  shows "triple (\<lambda>w. base0 env C w \<and> fresh_key env k w)
     (bind_eff (new_uuid7 env) (\<lambda>b. bind_eff (now_utc env) (\<lambda>t.
      bind_eff (insert_row_session env tenant (mk b t)) (\<lambda>_. rest b t))))
     Q (\<lambda>_ w. ingest_inv env w \<and> \<not> C)"
proof (rule triple_bind [OF new_uuid_triple], rule triple_bind [OF now_fresh_triple])
  fix b t
  note ins = insert_row_triple [OF assms(1) assms(2) assms(3) assms(4) assms(5) assms(6),
      of C b t, unfolded assms(7,8)]
  show "triple (\<lambda>w. base env C w \<and> fresh_at env k t w \<and> new_id C b w)
      (bind_eff (insert_row_session env tenant (mk b t)) (\<lambda>_. rest b t)) Q (\<lambda>_ w. ingest_inv env w \<and> \<not> C)"
    by (rule triple_bind [OF ins assms(9)])
qed

lemma bronze_row_for_simps [simp]:
  "br_id (bronze_row_for event b sz sha n t s) = b"
  "br_tenant_id (bronze_row_for event b sz sha n t s) = ev_tenant_id event"
  "br_trace_id (bronze_row_for event b sz sha n t s) = ev_trace_id event"
  "br_received_at (bronze_row_for event b sz sha n t s) = t"
  "br_processing_status (bronze_row_for event b sz sha n t s) = s"
  "br_published_at (bronze_row_for event b sz sha n t s) = None"
  "br_payload_sha256 (bronze_row_for event b sz sha n t s) = Some sha"
  "row_key (bronze_row_for event b sz (e_sha256 env data) n t s) = Some (event_key env event data)"
  by (simp_all add: bronze_row_for_def row_key_def event_key_def)

lemma handle_preflight_failure_triple:
  assumes "env_ok env" and fail: "run_preflight env data = Inl e" and "C \<longrightarrow> sendable env event data"
  shows "triple (\<lambda>w. base0 env C w \<and> fresh_key env (event_key env event data) w)
     (handle_preflight_failure env event (e_sha256 env data) sz reason detail)
     (\<lambda>out w. base env C w \<and> concluded (event_key env event data) out w) (\<lambda>_ w. ingest_inv env w \<and> \<not> C)"
  unfolding handle_preflight_failure_def
proof (rule mint_and_insert [OF assms(1)])
  fix b t
  let ?row = "bronze_row_for event b sz (e_sha256 env data) None t FAILED"
  show "content_ok env ?row" using fail by (auto simp: content_ok_def)
  have st: "stable (\<lambda>w. base env C w \<and> ?row \<in> set (w_bronze w))"
    by (intro stable_conj stable_base stable_bronze)
  show "triple (\<lambda>w. base env C w \<and> ?row \<in> set (w_bronze w))
     (bind_eff (emit env ((event_audit SReceived Failure event (ev_trace_id event))
        \<lparr>ae_bronze_id := Some b,
         ae_failure_code := Some (case map_of PREFLIGHT_CODES reason of None \<Rightarrow> INFRA_FAILURE | Some c \<Rightarrow> c),
         ae_event_data := [(''preflight_failed'', JBool True), (''reason'', JStr reason),
                           (''detail'', case detail of None \<Rightarrow> JNull | Some d \<Rightarrow> JStr d)]\<rparr>)) (\<lambda>_.
      bind_eff (emit_health_error env event (if reason = [] then ''preflight_failed'' else reason)) (\<lambda>_.
      ret \<lparr>io_disposition = PreflightFailed, io_trace_id = ev_trace_id event, io_bronze_id = Some b\<rparr>)))
     (\<lambda>out w. base env C w \<and> concluded (event_key env event data) out w) (\<lambda>_ w. ingest_inv env w \<and> \<not> C)"
    by (intro triple_quiet_bind [OF quiet_emit st] triple_quiet_bind [OF quiet_health_error st] triple_ret)
      (auto simp: concluded_def intro!: bexI [of _ ?row])
qed simp_all

lemma gate_pii_triple:
  assumes "stable P" and "\<And>w. P w \<Longrightarrow> base env C w"
    and "C \<longrightarrow> e_backend env \<or> \<not> list_ex is_pii_column (pf_columns pf)"
  shows "triple P (gate_pii env event pf)
     (\<lambda>_ w. (e_backend env \<or> \<not> list_ex is_pii_column (pf_columns pf)) \<and> P w)
     (\<lambda>_ w. ingest_inv env w \<and> \<not> C)"
proof (cases "e_backend env \<or> \<not> list_ex is_pii_column (pf_columns pf)")
  case True
  then obtain d where "gate_csv_headers (pf_columns pf) (e_backend env) = Inr d"
    by (simp add: gate_headers_eq)
  then show ?thesis
    unfolding gate_pii_def using True
    by (simp, intro triple_quiet_bind [OF quiet_emit assms(1)] triple_ret) (use assms(2) in simp_all)
next
  case False
  then obtain cs where refuse: "gate_csv_headers (pf_columns pf) (e_backend env) = Inl (PiiBackendNotConfigured cs)"
    by (simp add: gate_headers_eq)
  show ?thesis
    unfolding gate_pii_def refuse sum.case pii_error.case
    by (intro triple_quiet_bind [OF quiet_emit assms(1)] triple_throw)
      (use assms(2,3) False in \<open>auto dest: base_inv\<close>)
qed

lemma ingest_fresh_triple:
  assumes env: "env_ok env" and pf: "run_preflight env data = Inr pf" and C: "C \<longrightarrow> sendable env event data"
  shows "triple (\<lambda>w. base0 env C w \<and> fresh_key env (event_key env event data) w)
     (ingest_fresh env event (e_sha256 env data) pf)
     (\<lambda>out w. base env C w \<and> concluded (event_key env event data) out w) (\<lambda>_ w. ingest_inv env w \<and> \<not> C)"
    (is "triple ?P _ ?Q ?E")
  unfolding ingest_fresh_def
proof (rule triple_bind)
  let ?k = "event_key env event data"
  show "triple ?P (gate_pii env event pf)
      (\<lambda>_ w. (e_backend env \<or> \<not> list_ex is_pii_column (pf_columns pf)) \<and> ?P w) ?E"
    by (rule gate_pii_triple)
      (use C pf stable_conj [OF stable_base0 stable_fresh_key] in \<open>auto simp: sendable_def base0_def\<close>)
  fix detected
  let ?audit = "\<lambda>b. (event_audit SBronzeWritten Success event (ev_trace_id event))
        \<lparr>ae_bronze_id := Some b, ae_row_count := Some (pf_row_count pf),
         ae_event_data := [(''pii_columns_detected'', JInt (int (length detected)))]\<rparr>"
  let ?last = "\<lambda>b. bind_eff (emit env ((event_audit SIngressPublished Success event (ev_trace_id event))
        \<lparr>ae_bronze_id := Some b, ae_event_data := [(''topic'', JStr INGRESS_READY_TOPIC)]\<rparr>)) (\<lambda>_.
     bind_eff (emit_health_seen env event) (\<lambda>_.
     ret \<lparr>io_disposition = Ingested, io_trace_id = ev_trace_id event, io_bronze_id = Some b\<rparr>))"
  let ?mk = "\<lambda>b t. bronze_row_for event b (pf_size_bytes pf) (e_sha256 env data) (Some (pf_row_count pf)) t RECEIVED"
  let ?send = "\<lambda>b t. bind_eff (lift_res (build_ingress_ready event (ev_trace_id event) b t (pf_delimiter pf)))
     (\<lambda>msg. bind_eff (publish env msg) (\<lambda>_.
      bind_eff (mark_published_session env (ev_tenant_id event) b) (\<lambda>_. ?last b)))"
  have last: "triple (\<lambda>w. base env C w \<and>
       concluded ?k \<lparr>io_disposition = Ingested, io_trace_id = ev_trace_id event, io_bronze_id = Some b\<rparr> w)
      (?last b) ?Q ?E" for b
    by (rule triple_conseq [OF emit_then_seen [OF stable_conj [OF stable_base stable_concluded]]]) auto
  have send: "triple (\<lambda>w. base env C w \<and> ?mk b t \<in> set (w_bronze w)) (?send b t) ?Q ?E" for b t
  proof (rule triple_bind)
    show "triple (\<lambda>w. base env C w \<and> ?mk b t \<in> set (w_bronze w))
        (lift_res (build_ingress_ready event (ev_trace_id event) b t (pf_delimiter pf)))
        (\<lambda>msg w. describes msg (?mk b t) \<and> base env C w \<and> ?mk b t \<in> set (w_bronze w)) ?E"
      by (rule triple_lift)
        (use C pf in \<open>auto simp: base_def sendable_def build_ingress_ready_def describes_def split: if_splits\<close>)
    show "triple (\<lambda>w. describes msg (?mk b t) \<and> base env C w \<and> ?mk b t \<in> set (w_bronze w))
        (bind_eff (publish env msg) (\<lambda>_.
         bind_eff (mark_published_session env (ev_tenant_id event) b) (\<lambda>_. ?last b))) ?Q ?E" for msg
      by (rule triple_conj_pure, rule publish_then_mark [where row = "?mk b t", simplified, OF _ _ _ _ _ last]) simp_all
  qed
  show "triple (\<lambda>w. (e_backend env \<or> \<not> list_ex is_pii_column (pf_columns pf)) \<and> ?P w)
     (bind_eff (new_uuid7 env) (\<lambda>b. bind_eff (now_utc env) (\<lambda>t.
      bind_eff (insert_row_session env (ev_tenant_id event) (?mk b t)) (\<lambda>_.
      bind_eff (emit env (?audit b)) (\<lambda>_. ?send b t))))) ?Q ?E"
  proof (rule triple_conj_pure, rule mint_and_insert [OF env])
    fix b t
    assume gate: "e_backend env \<or> \<not> list_ex is_pii_column (pf_columns pf)"
    show "content_ok env (?mk b t)" using gate pf by (auto simp: content_ok_def)
    show "triple (\<lambda>w. base env C w \<and> ?mk b t \<in> set (w_bronze w))
        (bind_eff (emit env (?audit b)) (\<lambda>_. ?send b t)) ?Q ?E"
      by (rule triple_quiet_bind [OF quiet_emit stable_conj [OF stable_base stable_bronze] _ send]) simp
  qed simp_all
qed

lemma cross_check_triple:
  assumes "C \<longrightarrow> event_path env event \<noteq> None"
  shows "triple (base0 env C) (cross_check_path env event)
     (\<lambda>key w. event_path env event = Some key \<and> base0 env C w) (\<lambda>_ w. ingest_inv env w \<and> \<not> C)"
proof (cases "event_path env event")
  case (Some key)
  then have "cross_check_path env event = ret key"
    by (auto simp: cross_check_path_def event_path_def split: sum.splits if_splits option.splits)
  then show ?thesis using Some by (simp add: triple_ret)
next
  case None
  then have C: "\<not> C" using assms by simp
  from None consider e where "cross_check_path env event = throw e"
    | a e where "cross_check_path env event = bind_eff (emit env a) (\<lambda>_. throw e)"
    by (fastforce simp: cross_check_path_def event_path_def split: sum.splits if_splits option.splits)
  then show ?thesis
  proof cases
    case 1
    then show ?thesis using C by (auto intro!: triple_throw simp: base0_def base_def)
  next
    case 2
    show ?thesis
      unfolding 2 by (rule triple_quiet_bind [OF quiet_emit stable_base0]) (use C in \<open>auto intro!: triple_throw simp: base0_def base_def\<close>)
  qed
qed

lemma download_triple:
  assumes "C \<longrightarrow> (\<exists>data. e_objects env key = Some data)"
  shows "triple (base0 env C) (download_bytes env key)
     (\<lambda>data w. e_objects env key = Some data \<and> base0 env C w) (\<lambda>_ w. ingest_inv env w \<and> \<not> C)"
  unfolding download_bytes_def
proof (rule triple_quiet_bind [OF quiet_call stable_base0])
  show "triple (base0 env C) (case e_objects env key of None \<Rightarrow> throw DownloadError | Some data \<Rightarrow> ret data)
     (\<lambda>data w. e_objects env key = Some data \<and> base0 env C w) (\<lambda>_ w. ingest_inv env w \<and> \<not> C)"
    using assms by (cases "e_objects env key") (auto intro!: triple_throw triple_ret simp: base0_def base_def)
qed (simp_all add: quiet_step_def base0_def)

text \<open>An event that a pass without faults ingests.\<close>

definition event_ready :: "env \<Rightarrow> csv_received \<Rightarrow> bool" where
  "event_ready env event \<longleftrightarrow>
     (\<exists>key data. event_path env event = Some key \<and> e_objects env key = Some data \<and>
        key_ok env event data \<and> sendable env event data)"

definition event_data :: "env \<Rightarrow> csv_received \<Rightarrow> bytes option" where
  "event_data env event = Option.bind (event_path env event) (e_objects env)"

lemma event_ready_data:
  "event_ready env event \<Longrightarrow> event_data env event = Some data \<Longrightarrow> key_ok env event data \<and> sendable env event data"
  by (auto simp: event_ready_def event_data_def)

lemma run_preflight_Inl: "run_preflight env data = Inl e \<Longrightarrow> \<exists>reason detail. e = PreflightFailedError reason detail"
  by (auto simp: run_preflight_def split: if_splits duckdb_result.splits)

lemma process_triple:
  assumes env: "env_ok env" and C: "C \<longrightarrow> event_ready env event"
  shows "triple (base0 env C) (process env event)
     (\<lambda>out w. base env C w \<and> (\<exists>data. event_data env event = Some data \<and> concluded (event_key env event data) out w))
     (\<lambda>_ w. ingest_inv env w \<and> \<not> C)"
    (is "triple _ _ ?Q ?E")
  unfolding process_def Let_def
proof (rule triple_bind [OF cross_check_triple])
  show "C \<longrightarrow> event_path env event \<noteq> None" using C by (auto simp: event_ready_def)
  fix key
  let ?stage4 = "\<lambda>data preflight. bind_eff (emit env ((event_audit SReceived Success event (ev_trace_id event))
                 \<lparr>ae_row_count := Some (pf_row_count preflight),
                  ae_event_data :=
                    [(''preflight'', JDict [(''columns'', JInt (int (length (pf_columns preflight)))),
                                          (''row_count'', JInt (int (pf_row_count preflight))),
                                          (''size_bytes'', JInt (int (pf_size_bytes preflight)))]),
                     (''upload_session_id'', JStr (ev_upload_session_id event))]\<rparr>)) (\<lambda>_.
              ingest_fresh env event (e_sha256 env data) preflight)"
  let ?branch = "\<lambda>data prior. case prior of
       Some prior \<Rightarrow> handle_duplicate env event prior data
     | None \<Rightarrow>
         (case run_preflight env data of
            Inl (PreflightFailedError reason detail) \<Rightarrow>
              handle_preflight_failure env event (e_sha256 env data) (length data) reason detail
          | Inl e \<Rightarrow> throw e
          | Inr preflight \<Rightarrow> ?stage4 data preflight)"
  have branch: "triple (\<lambda>w. base0 env C w \<and>
        (case prior of
           None \<Rightarrow> fresh_key env (event_key env event data) w
         | Some p \<Rightarrow> \<exists>row \<in> set (w_bronze w). row_key row = Some (event_key env event data) \<and> p = prior_of_row row))
      (?branch data prior) ?Q ?E"
    if data: "event_data env event = Some data" for data prior
  proof -
    have send: "C \<longrightarrow> sendable env event data" using C event_ready_data [OF _ data] by blast
    have lift: "triple P m (\<lambda>out w. base env C w \<and> concluded (event_key env event data) out w) ?E \<Longrightarrow>
        triple P m ?Q ?E" for P m
      by (erule triple_conseq) (use data in auto)
    show ?thesis
    proof (cases prior)
      case None
      let ?P = "\<lambda>w. base0 env C w \<and> fresh_key env (event_key env event data) w"
      show ?thesis
      proof (cases "run_preflight env data")
        case (Inl e)
        then obtain reason detail where "e = PreflightFailedError reason detail" using run_preflight_Inl by blast
        then show ?thesis
          using lift [OF handle_preflight_failure_triple [OF env Inl send]] None Inl by simp
      next
        case (Inr pf)
        have "triple ?P (?stage4 data pf) ?Q ?E"
          by (rule triple_quiet_bind [OF quiet_emit stable_conj [OF stable_base0 stable_fresh_key] _
                lift [OF ingest_fresh_triple [OF env Inr send]]]) (simp add: base0_def)
        then show ?thesis using None Inr by simp
      qed
    next
      case (Some p)
      show ?thesis
      proof (rule tripleI)
        fix s e t
        assume s: "base0 env C s \<and> (case prior of None \<Rightarrow> fresh_key env (event_key env event data) s
           | Some p \<Rightarrow> \<exists>row \<in> set (w_bronze s). row_key row = Some (event_key env event data) \<and> p = prior_of_row row)"
          and run: "?branch data prior s = (Inl e, t)"
        then obtain row where row: "row \<in> set (w_bronze s)" "row_key row = Some (event_key env event data)"
            "p = prior_of_row row" using Some by auto
        show "ingest_inv env t \<and> \<not> C"
          by (rule triple_Inl [OF handle_duplicate_triple [OF row(2) send], of s])
            (use run s row Some in \<open>simp_all add: base0_def\<close>)
      next
        fix s out t
        assume s: "base0 env C s \<and> (case prior of None \<Rightarrow> fresh_key env (event_key env event data) s
           | Some p \<Rightarrow> \<exists>row \<in> set (w_bronze s). row_key row = Some (event_key env event data) \<and> p = prior_of_row row)"
          and run: "?branch data prior s = (Inr out, t)"
        then obtain row where row: "row \<in> set (w_bronze s)" "row_key row = Some (event_key env event data)"
            "p = prior_of_row row" using Some by auto
        show "?Q out t"
          by (rule triple_Inr [OF lift [OF handle_duplicate_triple [OF row(2) send]], of s])
            (use run s row Some in \<open>simp_all add: base0_def\<close>)
      qed
    qed
  qed
  show "triple (\<lambda>w. event_path env event = Some key \<and> base0 env C w)
      (bind_eff (download_bytes env key) (\<lambda>data.
       bind_eff (find_prior_session env event (e_sha256 env data)) (?branch data))) ?Q ?E"
  proof (rule triple_conj_pure, rule triple_bind [OF download_triple])
    assume path: "event_path env event = Some key"
    show "C \<longrightarrow> (\<exists>data. e_objects env key = Some data)" using C path by (auto simp: event_ready_def)
    show "triple (\<lambda>w. e_objects env key = Some data \<and> base0 env C w)
        (bind_eff (find_prior_session env event (e_sha256 env data)) (?branch data)) ?Q ?E" for data
    proof (rule triple_conj_pure)
      assume "e_objects env key = Some data"
      then have data: "event_data env event = Some data" using path by (simp add: event_data_def)
      then have "C \<longrightarrow> key_ok env event data" using C event_ready_data by blast
      then show "triple (base0 env C) (bind_eff (find_prior_session env event (e_sha256 env data)) (?branch data)) ?Q ?E"
        by (rule triple_bind [OF find_prior_triple branch [OF data]])
    qed
  qed
qed

section \<open>The worker\<close>

lemma process_keeps: "env_ok env \<Longrightarrow> keeps (ingest_inv env) (process env event)"
  by (rule triple_conseq [OF process_triple [where C = False]]) (auto simp: base0_def base_def new_id_def)

lemma process_message_keeps:
  assumes "env_ok env"
  shows "keeps (ingest_inv env) (process_message env data)"
proof (cases "parse_csv_received env data")
  case (Inl e)
  then show ?thesis by (simp add: process_message_def triple_ret)
next
  case (Inr event)
  have "keeps (ingest_inv env) (bind_eff (process env event) (\<lambda>_. ret Ack))"
    by (rule triple_bind [OF process_keeps [OF assms] triple_ret])
  then show ?thesis
    unfolding process_message_def Inr sum.case
    by (rule triple_catch) (intro triple_if triple_throw triple_ret)
qed

lemma call_keeps:
  assumes "stable I" and "\<And>w. quiet_step w (f w)"
  shows "keeps I (call env err f)"
  by (rule triple_conseq [OF triple_quiet [OF quiet_call assms(1), where C = False and J = I]])
    (use assms(2) in auto)

lemma route_messages_keeps:
  assumes "env_ok env"
  shows "keeps (ingest_inv env) (route_messages env ms ids)"
proof (induction ms arbitrary: ids)
  case Nil
  show ?case unfolding route_messages.simps by (rule triple_ret)
next
  case (Cons m ms)
  show ?case unfolding route_messages.simps by (rule triple_bind [OF process_message_keeps [OF assms] Cons])
qed

lemma poll_once_keeps:
  assumes "env_ok env"
  shows "keeps (ingest_inv env) (poll_once env received)"
  unfolding poll_once_def
proof (rule triple_bind [OF route_messages_keeps [OF assms]])
  fix ids :: "string list \<times> string list"
  obtain a n where ids: "ids = (a, n)" by (cases ids)
  show "triple (ingest_inv env)
      (case ids of (ack_ids, nack_ids) \<Rightarrow>
       bind_eff (if ack_ids \<noteq> [] then call env PublishError (\<lambda>w. w\<lparr>w_acked := w_acked w @ ack_ids\<rparr>) else ret ()) (\<lambda>_.
       bind_eff (if nack_ids \<noteq> [] then call env PublishError (\<lambda>w. w\<lparr>w_nacked := w_nacked w @ nack_ids\<rparr>) else ret ()) (\<lambda>_.
       ret (length received)))) (\<lambda>_. ingest_inv env) (\<lambda>_. ingest_inv env)"
    unfolding ids prod.case
    by (intro triple_bind [where R = "\<lambda>_. ingest_inv env"] triple_if call_keeps stable_inv triple_ret)
      (simp_all add: quiet_step_def)
qed

definition empty_world :: world where
  "empty_world = \<lparr>w_calls = 0, w_readings = 0, w_minted = 0, w_bronze = [], w_ready = [], w_audit = [],
     w_health = [], w_acked = [], w_nacked = []\<rparr>"

lemma empty_world_inv: "ingest_inv env empty_world"
  by (simp add: ingest_inv_def empty_world_def bronze.separated_Nil)

lemma worker_inv:
  assumes "worker_reachable env w v" and "env_ok env" and "ingest_inv env w"
  shows "ingest_inv env v"
  using assms
proof (induction rule: worker_reachable.induct)
  case (worker_pass w v received r v')
  then show ?case using keeps_snd [OF poll_once_keeps] by (metis snd_conv)
qed

end
