(* ===== verification/Consumer_Fetch.thy ===== *)
theory Consumer_Fetch
  imports Csv_Ingest Mapping_Engine
begin

text \<open>
  The fetch stage of the streaming consumer
  (\<open>dis/services/streaming-consumer/src/streaming_consumer/pipeline/fetch.py\<close>): the consistency
  checks of an \<open>ingress.ready\<close> message against the object path and the bronze row it names, then
  download and parse. \<open>polars.read_csv\<close> is a parameter (\<open>None\<close> when it raises); the message is
  the envelope the worker published.
\<close>

datatype fetch_error =
    FetchStorageError storage_error
  | FetchPathMismatch string
  | FetchContractError string
  | FetchDownloadError

record bronze_meta =
  bm_bronze_id :: uuid
  bm_source_id :: string
  bm_dis_channel :: string
  bm_gcs_uri :: string
  bm_received_at :: timestamp
  bm_row_count :: "nat option"

record fetched_chunk =
  fc_frame :: frame
  fc_bronze :: bronze_meta

definition fetch_cross_check_path :: "string \<Rightarrow> ingress_ready \<Rightarrow> fetch_error + string" where
  "fetch_cross_check_path bronze_bucket event =
     (case split_object_uri (ir_gcs_uri event) of
        Inl e \<Rightarrow> Inl (FetchStorageError e)
      | Inr (bucket, object_key) \<Rightarrow>
          if bucket \<noteq> bronze_bucket then Inl (FetchPathMismatch ''bucket'')
          else case parse_object_path object_key of
              Inl e \<Rightarrow> Inl (FetchStorageError e)
            | Inr parsed \<Rightarrow>
                if pp_tenant_id parsed \<noteq> ir_tenant_id event \<or> pp_source_id parsed \<noteq> ir_source_id event
                then Inl (FetchPathMismatch ''identity'')
                else Inr object_key)"

definition read_bronze_row :: "bronze_row list \<Rightarrow> ingress_ready \<Rightarrow> fetch_error + bronze_meta" where
  "read_bronze_row rows event =
     (case find (\<lambda>r. br_id r = ir_bronze_ref event \<and> br_trace_id r = ir_trace_id event)
             (rls_view (ir_tenant_id event) rows) of
        None \<Rightarrow> Inl (FetchContractError ''bronze_ref'')
      | Some row \<Rightarrow>
          if br_source_id row \<noteq> ir_source_id event \<or> br_gcs_uri row \<noteq> ir_gcs_uri event
          then Inl (FetchContractError ''bronze_ref'')
          else Inr \<lparr>bm_bronze_id = br_id row, bm_source_id = br_source_id row,
                    bm_dis_channel = br_dis_channel row, bm_gcs_uri = br_gcs_uri row,
                    bm_received_at = br_received_at row, bm_row_count = br_row_count row\<rparr>)"

definition parse_chunk :: "(string \<Rightarrow> bytes \<Rightarrow> frame option) \<Rightarrow> bytes \<Rightarrow> string \<Rightarrow> fetch_error + frame" where
  "parse_chunk read_csv data separator =
     (case read_csv separator data of
        None \<Rightarrow> Inl (FetchContractError ''not parseable CSV'')
      | Some frame \<Rightarrow>
          if height frame = 0 then Inl (FetchContractError ''empty chunk'') else Inr frame)"

definition fetch_chunk ::
  "(string \<Rightarrow> bytes \<Rightarrow> frame option) \<Rightarrow> (string \<Rightarrow> bytes option) \<Rightarrow> string \<Rightarrow> bronze_row list \<Rightarrow>
   ingress_ready \<Rightarrow> fetch_error + fetched_chunk" where
  "fetch_chunk read_csv objects bronze_bucket rows event =
     bind_res (fetch_cross_check_path bronze_bucket event) (\<lambda>object_key.
     bind_res (read_bronze_row rows event) (\<lambda>meta.
     bind_res (case objects object_key of None \<Rightarrow> Inl FetchDownloadError | Some data \<Rightarrow> Inr data) (\<lambda>data.
     bind_res (parse_chunk read_csv data (ir_delimiter event)) (\<lambda>frame.
     Inr \<lparr>fc_frame = frame, fc_bronze = meta\<rparr>))))"

section \<open>The upload identity (csv_uploads.py)\<close>

text \<open>
  \<open>derive_upload_session_id\<close> of
  \<open>dis/services/dis-ui-server/src/dis_ui_server/handlers/csv_uploads.py\<close>: the first twelve hex
  digits of a digest of tenant, store, template and content. The trace is not part of it, so a
  client's retry of the same bytes has the same session and another trace and object path.
\<close>

definition derive_upload_session_id ::
  "(bytes \<Rightarrow> string) \<Rightarrow> uuid \<Rightarrow> uuid \<Rightarrow> uuid \<Rightarrow> string \<Rightarrow> string" where
  "derive_upload_session_id sha256_hex tenant_id store_id template_id payload_sha256 =
     ''us_'' @ take 12 (sha256_hex (uuid_str tenant_id @ ''|'' @ uuid_str store_id @ ''|'' @
       uuid_str template_id @ ''|'' @ payload_sha256))"

lemma derive_upload_session_id_pattern:
  assumes "\<And>b. length (sha256_hex b) = 64" and "\<And>b. list_all is_lower_hex (sha256_hex b)"
  shows "is_upload_session (derive_upload_session_id sha256_hex t s m p)"
proof -
  have "is_token_char c" if "is_lower_hex c" for c
    using that unfolding is_lower_hex_def
    by (simp only: list.set insert_iff empty_iff) (elim disjE; simp add: is_token_char_def)
  then have "list_all is_token_char (take 12 (sha256_hex b))" for b
    using assms(2) [of b] by (auto simp: list_all_iff dest: in_set_takeD)
  then show ?thesis using assms(1) by (simp add: is_upload_session_def derive_upload_session_id_def)
qed

end
