(* ===== verification/Ingest_Properties.thy ===== *)
theory Ingest_Properties
  imports Csv_Ingest_Correct Consumer_Fetch
begin

text \<open>
  The properties of the csv-ingest worker and of its hand-over to the streaming consumer, over
  all worlds a single worker instance can reach under any schedule of faults, crashes,
  duplicates and redeliveries. The witnesses run the worker on a small upload.
\<close>

section \<open>A concrete environment\<close>

definition demo_dt :: datetime where
  "demo_dt = \<lparr>dt_year = 2026, dt_month = 5, dt_day = 4, dt_usec = 0, dt_utcoffset = Some 0\<rparr>"

definition demo_uri :: "uuid \<Rightarrow> string" where
  "demo_uri trace =
     ''gs://bronze/tenant/'' @ uuid_str 1 @ ''/source/pos/yyyy=2026/mm=05/dd=04/'' @ uuid_str trace @ ''.csv''"

definition demo_event :: "uuid \<Rightarrow> csv_received" where
  "demo_event trace =
     \<lparr>ev_trace_id = trace, ev_tenant_id = 1, ev_store_id = 2, ev_source_id = ''pos'',
      ev_template_id = 3, ev_upload_session_id = ''us_0123456789ab'', ev_gcs_uri = demo_uri trace,
      ev_received_ts = demo_dt, ev_delimiter = '','', ev_tenant_display_code = None,
      ev_store_code = None, ev_file_name = None\<rparr>"

definition demo_body :: "uuid \<Rightarrow> json" where
  "demo_body trace =
     JDict [(''schema_version'', JInt 1), (''trace_id'', JStr (uuid_str trace)),
       (''tenant_id'', JStr (uuid_str 1)), (''store_id'', JStr (uuid_str 2)),
       (''source_id'', JStr ''pos''), (''template_id'', JStr (uuid_str 3)),
       (''upload_session_id'', JStr ''us_0123456789ab''), (''gcs_uri'', JStr (demo_uri trace)),
       (''received_ts'', JStr ''2026-05-04T00:00:00Z'')]"

text \<open>A body is the name of its trace; the object behind every path has the same content.\<close>

definition demo_env :: "(nat \<Rightarrow> fault) \<Rightarrow> (nat \<Rightarrow> timestamp) \<Rightarrow> env" where
  "demo_env faults time =
     \<lparr>e_time = time, e_uuid = (\<lambda>n. word_of_int (int n)), e_fault = faults, e_bucket = ''bronze'',
      e_objects = (\<lambda>_. Some ''sku\<newline>1''), e_sha256 = (\<lambda>b. ''h'' @ b),
      e_duckdb = (\<lambda>_. Sniffed '','' True [(''sku'', ''VARCHAR'')] 1), e_backend = False,
      e_json = (\<lambda>b. if b = ''a'' then Some (demo_body 10) else if b = ''b'' then Some (demo_body 11) else None),
      e_uuid_field = (\<lambda>j. case j of JStr s \<Rightarrow> uuid_parse s | _ \<Rightarrow> None),
      e_datetime_field = (\<lambda>_. Some demo_dt)\<rparr>"

lemma demo_env_fields [simp]:
  "e_time (demo_env f t) = t" "e_uuid (demo_env f t) n = word_of_int (int n)" "e_fault (demo_env f t) = f"
  "e_objects (demo_env f t) key = Some ''sku\<newline>1''" "e_sha256 (demo_env f t) b = ''h'' @ b"
  "e_backend (demo_env f t) = False" "e_bucket (demo_env f t) = ''bronze''"
  by (simp_all add: demo_env_def)

lemma demo_event_fields [simp]:
  "ev_trace_id (demo_event tr) = tr" "ev_tenant_id (demo_event tr) = 1" "ev_store_id (demo_event tr) = 2"
  "ev_source_id (demo_event tr) = ''pos''" "ev_upload_session_id (demo_event tr) = ''us_0123456789ab''"
  "ev_gcs_uri (demo_event tr) = demo_uri tr" "demo_uri tr \<noteq> []"
  by (simp_all add: demo_event_def demo_uri_def)

definition no_fault :: "nat \<Rightarrow> fault" where
  "no_fault n = Fine"

text \<open>
  Running the worker by rewriting: the continuation of a computation is not looked at before its
  first part has returned.
\<close>

lemma bind_eff_lazy: "m = m' \<Longrightarrow> s = s' \<Longrightarrow> bind_eff m f s = bind_eff m' f s'"
  by simp

lemma catch_eff_lazy: "m = m' \<Longrightarrow> s = s' \<Longrightarrow> catch_eff m f s = catch_eff m' f s'"
  by simp

lemmas run_defs =
  bind_eff_def catch_eff_def ret_def throw_def lift_res_def Let_def emit_def now_utc_def new_uuid7_def
  call_def swallow_def publish_def mark_published_session_def insert_row_session_def
  find_prior_session_def download_bytes_def emit_health_seen_def ingest_fresh_def gate_pii_def
  process_def process_message_def poll_once_def handle_duplicate_def event_audit_def

lemma demo_parse:
  "parse_csv_received (demo_env f t) ''a'' = Inr (demo_event 10)"
  "parse_csv_received (demo_env f t) ''b'' = Inr (demo_event 11)"
  by code_simp+

definition demo_key :: "uuid \<Rightarrow> string" where
  "demo_key trace = drop 12 (demo_uri trace)"

lemma demo_path_parts:
  "split_object_uri (demo_uri 10) = Inr (''bronze'', demo_key 10)"
  "split_object_uri (demo_uri 11) = Inr (''bronze'', demo_key 11)"
  "is_ok (parse_object_path (demo_key 10))" "is_ok (parse_object_path (demo_key 11))"
  "first_mismatch (path_checks (demo_env f t) (demo_event 10) ''bronze'' (projr (parse_object_path (demo_key 10)))) = None"
  "first_mismatch (path_checks (demo_env f t) (demo_event 11) ''bronze'' (projr (parse_object_path (demo_key 11)))) = None"
  by code_simp+

lemma demo_event_path:
  "event_path (demo_env f t) (demo_event 10) = Some (demo_key 10)"
  "event_path (demo_env f t) (demo_event 11) = Some (demo_key 11)"
proof -
  show "event_path (demo_env f t) (demo_event 10) = Some (demo_key 10)"
    using demo_path_parts(3) demo_path_parts(5) [of f t]
    by (auto simp: event_path_def demo_path_parts(1,2) is_ok_iff)
  show "event_path (demo_env f t) (demo_event 11) = Some (demo_key 11)"
    using demo_path_parts(4) demo_path_parts(6) [of f t]
    by (auto simp: event_path_def demo_path_parts(1,2) is_ok_iff)
qed

lemma cross_check_event_path: "event_path env event = Some key \<Longrightarrow> cross_check_path env event = ret key"
  by (auto simp: cross_check_path_def event_path_def split: sum.splits if_splits option.splits)

lemmas demo_cross_check = cross_check_event_path [OF demo_event_path(1)] cross_check_event_path [OF demo_event_path(2)]

lemma demo_event_data:
  "event_data (demo_env f t) (demo_event 10) = Some ''sku\<newline>1''"
  "event_data (demo_env f t) (demo_event 11) = Some ''sku\<newline>1''"
  by (simp_all add: event_data_def demo_event_path)

lemma demo_preflight:
  "run_preflight (demo_env f t) ''sku\<newline>1'' =
     Inr \<lparr>pf_columns = [''sku''], pf_column_types = [''VARCHAR''], pf_row_count = 1, pf_size_bytes = 5,
          pf_delimiter = '',''\<rparr>"
  by code_simp

lemma demo_pure:
  "gate_csv_headers [''sku''] False = Inr []"
  "require_key_component n ''us_0123456789ab'' = Inr ()" "require_key_component n ''hsku\<newline>1'' = Inr ()"
  by code_simp+

lemmas demo_run =
  run_defs demo_parse demo_cross_check demo_preflight demo_pure build_ingress_ready_def insert_row_def bronze_row_for_def
  find_prior_def select_prior_def rls_view_def key_match_def mark_published_def DIS_CHANNEL_def
  DEDUP_WINDOW_HOURS_def dedup_window_def prior_of_row_def is_published_def

text \<open>
  Two deliveries of the same message, the second a day and an hour after the first: the first
  ingest reads the clock eight times.
\<close>

definition demo_clock :: "nat \<Rightarrow> timestamp" where
  "demo_clock n = (if n < 8 then int n else 90000000000 + int n)"

definition demo_two_days :: world where
  "demo_two_days = snd (poll_once (demo_env no_fault demo_clock) [(''1'', ''a''), (''2'', ''a'')] empty_world)"

lemma demo_env_ok: "env_ok (demo_env f demo_clock)"
  by (auto simp: env_ok_def demo_clock_def mono_def)

lemma demo_two_days_reachable: "worker_reachable (demo_env no_fault demo_clock) empty_world demo_two_days"
  by (rule worker_pass [OF worker_start]) (simp add: demo_two_days_def prod_eq_iff)

lemma demo_two_days_run:
  "case poll_once (demo_env no_fault demo_clock) [(''1'', ''a''), (''2'', ''a'')] empty_world of (r, w) \<Rightarrow>
     map (\<lambda>r. (row_key r, br_received_at r, br_processing_status r, br_id r)) (w_bronze w) =
       [(Some (1, ''us_0123456789ab'', ''hsku\<newline>1'', ''csv_upload''), 3, PUBLISHED, 0),
        (Some (1, ''us_0123456789ab'', ''hsku\<newline>1'', ''csv_upload''), 90000000011, PUBLISHED, 1)] \<and>
     map ir_bronze_ref (w_ready w) = [0, 1]"
  by (simp add: demo_run empty_world_def no_fault_def demo_clock_def row_key_def
      cong: bind_eff_lazy catch_eff_lazy)

lemma demo_two_days_world:
  "map row_key (w_bronze demo_two_days) =
     [Some (1, ''us_0123456789ab'', ''hsku\<newline>1'', ''csv_upload''),
      Some (1, ''us_0123456789ab'', ''hsku\<newline>1'', ''csv_upload'')]"
  "map br_processing_status (w_bronze demo_two_days) = [PUBLISHED, PUBLISHED]"
  "map ir_bronze_ref (w_ready demo_two_days) = [0, 1]"
  using demo_two_days_run by (auto simp: demo_two_days_def split: prod.splits)

section \<open>Properties of the worker\<close>

text \<open>
  C7 (invariant). Idempotency: in every world a single worker can reach, whatever is redelivered
  and whatever fails, two bronze rows with the same dedup key (tenant, upload session, content
  hash, channel) were received more than the 24 hour window apart.
\<close>

theorem worker_dedup:
  assumes "env_ok env" and "worker_reachable env empty_world w"
    and "i < j" and "j < length (w_bronze w)"
    and "row_key (w_bronze w ! i) = Some k" and "row_key (w_bronze w ! j) = Some k"
  shows "br_received_at (w_bronze w ! i) + dedup_window < br_received_at (w_bronze w ! j)"
proof -
  have "bronze.separated (w_bronze w)"
    using worker_inv [OF assms(2,1) empty_world_inv] by (simp add: ingest_inv_def)
  then show ?thesis using assms(3-6) unfolding bronze.separated_def by blast
qed

theorem worker_dedup_witness:
  "br_received_at (w_bronze demo_two_days ! 0) + dedup_window < br_received_at (w_bronze demo_two_days ! 1)"
proof -
  have l: "length (w_bronze demo_two_days) = 2" using arg_cong [OF demo_two_days_world(1), of length] by simp
  have "row_key (w_bronze demo_two_days ! i) = map row_key (w_bronze demo_two_days) ! i" if "i < 2" for i
    using that l by simp
  then show ?thesis
    using worker_dedup [OF demo_env_ok demo_two_days_reachable, of 0 1] l
    by (simp add: demo_two_days_world)
qed

text \<open>
  Write then publish: every \<open>ingress.ready\<close> message on the topic names a bronze row
  with the same id, tenant, trace and acceptance time, and that row is not a FAILED one; so an
  upload that failed its preflight is never announced.
\<close>

theorem worker_publishes_written_rows:
  assumes "env_ok env" and "worker_reachable env empty_world w" and "m \<in> set (w_ready w)"
  shows "\<exists>r \<in> set (w_bronze w). describes m r \<and> br_processing_status r \<noteq> FAILED \<and>
     (\<forall>s \<in> set (w_bronze w). br_id s = ir_bronze_ref m \<longrightarrow> s = r)"
proof -
  have inv: "ingest_inv env w" by (rule worker_inv [OF assms(2,1) empty_world_inv])
  then obtain r where r: "r \<in> set (w_bronze w)" "describes m r" "br_processing_status r \<noteq> FAILED"
    using assms(3) by (auto simp: ingest_inv_def message_ok_def)
  moreover have "\<forall>s \<in> set (w_bronze w). br_id s = ir_bronze_ref m \<longrightarrow> s = r"
    using distinct_ids [OF inv _ r(1)] r(2) by (auto simp: describes_def)
  ultimately show ?thesis by blast
qed

theorem worker_publishes_written_rows_witness:
  "w_ready demo_two_days \<noteq> [] \<and>
   (\<exists>r \<in> set (w_bronze demo_two_days). describes (hd (w_ready demo_two_days)) r \<and> br_processing_status r \<noteq> FAILED \<and>
     (\<forall>s \<in> set (w_bronze demo_two_days). br_id s = ir_bronze_ref (hd (w_ready demo_two_days)) \<longrightarrow> s = r))"
proof -
  have "w_ready demo_two_days \<noteq> []" using demo_two_days_world(3) by auto
  then show ?thesis
    using worker_publishes_written_rows [OF demo_env_ok demo_two_days_reachable, of "hd (w_ready demo_two_days)"]
    by simp
qed

text \<open>
  No row claims a publication that did not happen: a row with a \<open>published_at\<close> stamp
  or the status PUBLISHED has both, and a message describing it is on the topic.
\<close>

theorem worker_marks_published_rows:
  assumes "env_ok env" and "worker_reachable env empty_world w" and "r \<in> set (w_bronze w)"
    and "br_published_at r \<noteq> None \<or> br_processing_status r = PUBLISHED"
  shows "row_published r \<and> (\<exists>m \<in> set (w_ready w). describes m r)"
proof -
  have "row_ok env w r"
    using worker_inv [OF assms(2,1) empty_world_inv] assms(3) by (simp add: ingest_inv_def)
  then show ?thesis using assms(4) by (auto simp: row_ok_def row_published_def)
qed

theorem worker_marks_published_rows_witness:
  "w_bronze demo_two_days \<noteq> [] \<and> row_published (hd (w_bronze demo_two_days)) \<and>
   (\<exists>m \<in> set (w_ready demo_two_days). describes m (hd (w_bronze demo_two_days)))"
proof -
  have ne: "w_bronze demo_two_days \<noteq> []" using demo_two_days_world(2) by auto
  moreover have "br_processing_status (hd (w_bronze demo_two_days)) = PUBLISHED"
    using demo_two_days_world(2) ne by (cases "w_bronze demo_two_days") auto
  ultimately show ?thesis
    using worker_marks_published_rows [OF demo_env_ok demo_two_days_reachable, of "hd (w_bronze demo_two_days)"]
    by simp
qed

text \<open>
  C10 (safety). PII never lands: with no PII backend configured, every bronze row that is not a
  FAILED one stands for content whose sniffed header has no column that the PII name heuristic
  recognises.
\<close>

theorem worker_no_pii_in_bronze:
  assumes "env_ok env" and "worker_reachable env empty_world w" and "\<not> e_backend env"
    and "r \<in> set (w_bronze w)" and "br_processing_status r \<noteq> FAILED"
  shows "\<exists>data pf. br_payload_sha256 r = Some (e_sha256 env data) \<and> run_preflight env data = Inr pf \<and>
     \<not> list_ex is_pii_column (pf_columns pf)"
proof -
  have "row_ok env w r"
    using worker_inv [OF assms(2,1) empty_world_inv] assms(4) by (simp add: ingest_inv_def)
  then show ?thesis using assms(3,5) by (auto simp: row_ok_def content_ok_def)
qed

theorem worker_no_pii_in_bronze_witness:
  "w_bronze demo_two_days \<noteq> [] \<and>
   (\<exists>data pf. br_payload_sha256 (hd (w_bronze demo_two_days)) = Some (e_sha256 (demo_env no_fault demo_clock) data) \<and>
     run_preflight (demo_env no_fault demo_clock) data = Inr pf \<and> \<not> list_ex is_pii_column (pf_columns pf))"
proof -
  have ne: "w_bronze demo_two_days \<noteq> []" using demo_two_days_world(2) by auto
  moreover have "br_processing_status (hd (w_bronze demo_two_days)) = PUBLISHED"
    using demo_two_days_world(2) ne by (cases "w_bronze demo_two_days") auto
  ultimately show ?thesis
    using worker_no_pii_in_bronze [OF demo_env_ok demo_two_days_reachable, of "hd (w_bronze demo_two_days)"]
    by simp
qed

end
