(* ===== verification/Ingest_Delivery.thy ===== *)
theory Ingest_Delivery
  imports Ingest_Properties
begin

text \<open>
  Delivery guarantees of the csv-ingest worker: what an acknowledgement means, that redelivery
  converges once the faults stop, that a duplicate changes nothing, and what the streaming
  consumer accepts of what the worker published.
\<close>

section \<open>Acknowledgement and convergence\<close>

lemma process_message_Inr:
  assumes "parse_csv_received env body = Inr event"
  shows "process_message env body w =
     (case process env event w of
        (Inr _, v) \<Rightarrow> (Inr Ack, v)
      | (Inl e, v) \<Rightarrow> if e = Crashed then (Inl Crashed, v) else (Inr (if terminal e then Ack else Nack), v))"
  by (simp add: process_message_def assms catch_eff_def bind_eff_def split: prod.splits sum.splits)

lemma concluded_row:
  assumes "ingest_inv env v" and "concluded k out v"
  obtains r where "r \<in> set (w_bronze v)" and "row_key r = Some k" and "io_bronze_id out = Some (br_id r)"
    and "io_trace_id out = br_trace_id r"
    and "br_processing_status r = FAILED \<or> row_published r \<and> (\<exists>m \<in> set (w_ready v). describes m r)"
proof -
  from assms(2) obtain r where r: "r \<in> set (w_bronze v)" "row_key r = Some k" "io_bronze_id out = Some (br_id r)"
      "io_trace_id out = br_trace_id r" "br_processing_status r = FAILED \<or> row_published r"
    by (auto simp: concluded_def)
  moreover have "row_ok env v r" using assms(1) r(1) by (simp add: ingest_inv_def)
  ultimately show ?thesis by (intro that) (auto simp: row_ok_def row_published_def)
qed

text \<open>
  C9 (safety). Nothing is acknowledged and lost: when a well-formed message is acknowledged, its
  processing either raised a terminal contract or content error, or the key of its content is
  concluded in the ledger, by a FAILED row or by a published row whose message is on the topic.
\<close>

theorem acked_means_concluded:
  assumes "env_ok env" and "worker_reachable env empty_world w"
    and "parse_csv_received env body = Inr event" and "process_message env body w = (Inr Ack, v)"
  shows "(\<exists>e. process env event w = (Inl e, v) \<and> terminal e) \<or>
     (\<exists>data. event_data env event = Some data \<and>
       (\<exists>r \<in> set (w_bronze v). row_key r = Some (event_key env event data) \<and>
          (br_processing_status r = FAILED \<or> row_published r \<and> (\<exists>m \<in> set (w_ready v). describes m r))))"
proof -
  have base: "base0 env False w"
    using worker_inv [OF assms(2,1) empty_world_inv] by (simp add: base0_def base_def new_id_def)
  obtain res u where run: "process env event w = (res, u)" by (cases "process env event w")
  show ?thesis
  proof (cases res)
    case (Inl e)
    then show ?thesis
      using assms(4) run by (auto simp: process_message_Inr [OF assms(3)] split: if_splits)
  next
    case (Inr out)
    then have "u = v" using assms(4) run by (simp add: process_message_Inr [OF assms(3)])
    then obtain data where "ingest_inv env v" "event_data env event = Some data"
        "concluded (event_key env event data) out v"
      using triple_Inr [OF process_triple [OF assms(1), of False event] base] run Inr by (auto simp: base_def)
    then show ?thesis by (blast elim: concluded_row)
  qed
qed

theorem acked_means_concluded_witness:
  "\<exists>v. process_message (demo_env no_fault demo_clock) ''a'' empty_world = (Inr Ack, v) \<and>
     ((\<exists>e. process (demo_env no_fault demo_clock) (demo_event 10) empty_world = (Inl e, v) \<and> terminal e) \<or>
     (\<exists>data. event_data (demo_env no_fault demo_clock) (demo_event 10) = Some data \<and>
       (\<exists>r \<in> set (w_bronze v). row_key r = Some (event_key (demo_env no_fault demo_clock) (demo_event 10) data) \<and>
          (br_processing_status r = FAILED \<or> row_published r \<and> (\<exists>m \<in> set (w_ready v). describes m r)))))"
proof -
  have "fst (process_message (demo_env no_fault demo_clock) ''a'' empty_world) = Inr Ack"
    by (simp add: demo_run empty_world_def no_fault_def demo_clock_def cong: bind_eff_lazy catch_eff_lazy)
  then obtain v where v: "process_message (demo_env no_fault demo_clock) ''a'' empty_world = (Inr Ack, v)"
    by (cases "process_message (demo_env no_fault demo_clock) ''a'' empty_world") simp
  show ?thesis
    using acked_means_concluded [OF demo_env_ok worker_start demo_parse(1) v] v by blast
qed



text \<open>The process dies on the seventh call, after the bronze row and before the publish.\<close>

definition demo_crash :: "nat \<Rightarrow> fault" where
  "demo_crash n = (if n = 6 then Crash else Fine)"

definition demo_crashed :: world where
  "demo_crashed = snd (poll_once (demo_env demo_crash demo_clock) [(''1'', ''a'')] empty_world)"

lemma demo_crashed_reachable: "worker_reachable (demo_env demo_crash demo_clock) empty_world demo_crashed"
  by (rule worker_pass [OF worker_start]) (simp add: demo_crashed_def prod_eq_iff)

lemma demo_crashed_run:
  "case poll_once (demo_env demo_crash demo_clock) [(''1'', ''a'')] empty_world of (r, w) \<Rightarrow>
     r = Inl Crashed \<and> map br_id (w_bronze w) = [0] \<and> map br_processing_status (w_bronze w) = [RECEIVED] \<and>
     map br_received_at (w_bronze w) = [3] \<and> map br_gcs_uri (w_bronze w) = [demo_uri 10] \<and>
     map br_trace_id (w_bronze w) = [10] \<and> map br_published_at (w_bronze w) = [None] \<and>
     map row_key (w_bronze w) = [Some (1, ''us_0123456789ab'', ''hsku\<newline>1'', ''csv_upload'')] \<and>
     w_ready w = [] \<and> w_calls w = 7 \<and> w_minted w = 1 \<and> w_acked w = []"
  by (simp add: demo_run empty_world_def demo_crash_def demo_clock_def row_key_def
      cong: bind_eff_lazy catch_eff_lazy)

lemma demo_crashed_world:
  "map br_id (w_bronze demo_crashed) = [0]" "map br_processing_status (w_bronze demo_crashed) = [RECEIVED]"
  "map br_gcs_uri (w_bronze demo_crashed) = [demo_uri 10]"
  "map row_key (w_bronze demo_crashed) = [Some (1, ''us_0123456789ab'', ''hsku\<newline>1'', ''csv_upload'')]"
  "w_ready demo_crashed = []" "w_calls demo_crashed = 7" "w_minted demo_crashed = 1"
  using demo_crashed_run by (auto simp: demo_crashed_def split: prod.splits)


section \<open>Duplicates\<close>

text \<open>The ledger and the topic are as they were.\<close>

definition ledger_is :: "bronze_row list \<Rightarrow> ingress_ready list \<Rightarrow> world \<Rightarrow> bool" where
  "ledger_is rows msgs w \<longleftrightarrow> w_bronze w = rows \<and> w_ready w = msgs"

lemma quiet_ledger: "quiet env m \<Longrightarrow> triple (ledger_is rows msgs) m (\<lambda>_. ledger_is rows msgs) (\<lambda>_. ledger_is rows msgs)"
  by (rule triple_conseq [OF triple_quiet [where C = False and J = "ledger_is rows msgs"]])
    (auto simp: stable_def ledger_is_def quiet_step_def)

lemma noop_ledger:
  assumes "br_processing_status r = FAILED \<or> row_published r"
  shows "triple (ledger_is rows msgs) (handle_duplicate env event (prior_of_row r) data)
     (\<lambda>out w. out = \<lparr>io_disposition = DuplicateNoopD, io_trace_id = br_trace_id r, io_bronze_id = Some (br_id r)\<rparr> \<and>
        ledger_is rows msgs w) (\<lambda>_. ledger_is rows msgs)"
proof -
  have noop: "pi_processing_status (prior_of_row r) = FAILED \<or> is_published (prior_of_row r)"
    using assms by (auto simp: prior_of_row_def is_published_def row_published_def)
  show ?thesis
    unfolding handle_duplicate_def if_P [OF noop]
    by (intro triple_bind [OF quiet_ledger [OF quiet_emit]] triple_bind [OF quiet_ledger [OF quiet_health_seen]] triple_ret)
      (simp add: prior_of_row_def)
qed

text \<open>The download leaves the clock alone, so the lookup takes the next reading.\<close>

lemma download_run:
  assumes "download_bytes env key w = (r, v)"
  shows "w_bronze v = w_bronze w" "w_ready v = w_ready w" "w_readings v = w_readings w"
    "r = Inr d \<Longrightarrow> e_objects env key = Some d"
  using assms
  by (auto simp: download_bytes_def bind_eff_def call_def Let_def split: fault.splits option.splits)

lemma find_prior_run:
  assumes "find_prior_session env event sha w = (r, v)"
  shows "w_bronze v = w_bronze w \<and> w_ready v = w_ready w \<and>
     (\<forall>p. r = Inr p \<longrightarrow>
        p = map_option prior_of_row (lookup_key (ev_tenant_id event, ev_upload_session_id event, sha, DIS_CHANNEL)
              (e_time env (w_readings w)) (w_bronze w)))"
  using assms
  by (auto simp: find_prior_session_def bind_eff_def call_def now_utc_def Let_def find_prior_def
      bind_res_Inr_iff select_prior_lookup split: fault.splits sum.splits)

lemma times_past:
  assumes "env_ok env" and "ingest_inv env w" and "r \<in> set (w_bronze w)"
  shows "br_received_at r \<le> e_time env (w_readings w)"
proof -
  from assms(2,3) obtain n where "n < w_readings w" "br_received_at r = e_time env n"
    by (auto simp: ingest_inv_def row_ok_def)
  then show ?thesis using assms(1) by (simp add: env_ok_def monoD)
qed

text \<open>
  A duplicate is a no-op: when the ledger already holds a concluded row of the
  event's key inside the window, processing the event again changes neither the bronze table nor
  the topic, whatever fails, and when it returns, it returns the trace and the id of that row.
\<close>

theorem duplicate_changes_nothing:
  assumes env: "env_ok env" and reach: "worker_reachable env empty_world w"
    and data: "event_data env event = Some data" and r: "r \<in> set (w_bronze w)"
    and key: "row_key r = Some (event_key env event data)"
    and fin: "br_processing_status r = FAILED \<or> row_published r"
    and window: "e_time env (w_readings w) - dedup_window \<le> br_received_at r"
    and run: "process env event w = (res, v)"
  shows "w_bronze v = w_bronze w \<and> w_ready v = w_ready w \<and>
     (\<forall>out. res = Inr out \<longrightarrow> io_disposition out = DuplicateNoopD \<and> io_trace_id out = br_trace_id r \<and>
        io_bronze_id out = Some (br_id r))"
proof -
  have inv: "ingest_inv env w" by (rule worker_inv [OF reach env empty_world_inv])
  from data obtain path where path: "event_path env event = Some path" "e_objects env path = Some data"
    by (auto simp: event_data_def bind_eq_Some_conv)
  have found: "lookup_key (event_key env event data) (e_time env (w_readings w)) (w_bronze w) = Some r"
  proof (cases "lookup_key (event_key env event data) (e_time env (w_readings w)) (w_bronze w)")
    case None
    from bronze.lookup_None [OF None r key] show ?thesis using window by simp
  next
    case (Some s)
    from bronze.lookup_Some [OF Some] have s: "s \<in> set (w_bronze w)" "row_key s = Some (event_key env event data)"
      "e_time env (w_readings w) - dedup_window \<le> br_received_at s" by simp_all
    have "bronze.separated (w_bronze w)" using inv by (simp add: ingest_inv_def)
    from bronze.window_unique [OF this r key window times_past [OF env inv r] s times_past [OF env inv s(1)]]
    show ?thesis using Some by simp
  qed
  obtain d w1 where d: "download_bytes env path w = (d, w1)" by (cases "download_bytes env path w")
  obtain g where proc: "process env event w = bind_eff (download_bytes env path) (\<lambda>data.
      bind_eff (find_prior_session env event (e_sha256 env data)) (\<lambda>prior.
        case prior of None \<Rightarrow> g data | Some prior \<Rightarrow> handle_duplicate env event prior data)) w"
    by (rule that) (unfold process_def cross_check_event_path [OF path(1)] bind_ret Let_def, rule refl)
  show ?thesis
  proof (cases d)
    case (Inl e)
    then have "res = Inl e" "v = w1" using run d unfolding proc by (simp_all add: bind_eff_def)
    then show ?thesis using download_run [OF d] by simp
  next
    case (Inr d')
    then have d': "d' = data" using download_run(4) [OF d] path(2) by simp
    obtain p w2 where p: "find_prior_session env event (e_sha256 env data) w1 = (p, w2)"
      by (cases "find_prior_session env event (e_sha256 env data) w1")
    note f = find_prior_run [OF p] and dl = download_run [OF d]
    show ?thesis
    proof (cases p)
      case (Inl e)
      then have "res = Inl e" "v = w2" using run d p Inr d' unfolding proc by (simp_all add: bind_eff_def)
      then show ?thesis using f dl by simp
    next
      case p_ok: (Inr prior)
      then have "prior = Some (prior_of_row r)" using f dl found by (simp add: event_key_def)
      then have run2: "handle_duplicate env event (prior_of_row r) data w2 = (res, v)"
        using run d p Inr d' p_ok unfolding proc by (simp add: bind_eff_def)
      have pre: "ledger_is (w_bronze w) (w_ready w) w2" using f dl by (simp add: ledger_is_def)
      note noop = noop_ledger [OF fin, of "w_bronze w" "w_ready w" env event data]
      show ?thesis
      proof (cases res)
        case (Inl e)
        then show ?thesis using triple_Inl [OF noop pre] run2 by (simp add: ledger_is_def)
      next
        case (Inr out)
        then show ?thesis using triple_Inr [OF noop pre, of out v] run2 by (simp add: ledger_is_def)
      qed
    qed
  qed
qed

definition demo_once :: world where
  "demo_once = snd (poll_once (demo_env no_fault int) [(''1'', ''a'')] empty_world)"

lemma demo_once_run:
  "case poll_once (demo_env no_fault int) [(''1'', ''a'')] empty_world of (r, w) \<Rightarrow>
     map (\<lambda>r. (row_key r, br_received_at r, br_processing_status r, br_published_at r)) (w_bronze w) =
       [(Some (1, ''us_0123456789ab'', ''hsku\<newline>1'', ''csv_upload''), 3, PUBLISHED, Some 5)] \<and>
     w_readings w = 8"
  by (simp add: demo_run empty_world_def no_fault_def row_key_def cong: bind_eff_lazy catch_eff_lazy)

lemma demo_once_world:
  obtains r where "w_bronze demo_once = [r]" "row_key r = Some (1, ''us_0123456789ab'', ''hsku\<newline>1'', ''csv_upload'')"
    "br_received_at r = 3" "row_published r" "w_readings demo_once = 8"
  using demo_once_run by (auto simp: demo_once_def row_published_def split: prod.splits)

theorem duplicate_changes_nothing_witness:
  "\<exists>r. w_bronze demo_once = [r] \<and>
   (case process (demo_env no_fault int) (demo_event 11) demo_once of (res, v) \<Rightarrow>
      w_bronze v = w_bronze demo_once \<and> w_ready v = w_ready demo_once \<and>
      (\<forall>out. res = Inr out \<longrightarrow> io_disposition out = DuplicateNoopD \<and> io_trace_id out = br_trace_id r \<and>
         io_bronze_id out = Some (br_id r)))"
proof -
  let ?env = "demo_env no_fault int"
  obtain r where r: "w_bronze demo_once = [r]" "row_key r = Some (1, ''us_0123456789ab'', ''hsku\<newline>1'', ''csv_upload'')"
    "br_received_at r = 3" "row_published r" "w_readings demo_once = 8" by (rule demo_once_world)
  have reach: "worker_reachable ?env empty_world demo_once"
    by (rule worker_pass [OF worker_start]) (simp add: demo_once_def prod_eq_iff)
  have env: "env_ok ?env" by (simp add: env_ok_def mono_def)
  have key: "row_key r = Some (event_key ?env (demo_event 11) ''sku\<newline>1'')"
    by (simp add: r event_key_def DIS_CHANNEL_def)
  obtain res v where run: "process ?env (demo_event 11) demo_once = (res, v)"
    by (cases "process ?env (demo_event 11) demo_once")
  have "w_bronze v = w_bronze demo_once \<and> w_ready v = w_ready demo_once \<and>
      (\<forall>out. res = Inr out \<longrightarrow> io_disposition out = DuplicateNoopD \<and> io_trace_id out = br_trace_id r \<and>
         io_bronze_id out = Some (br_id r))"
    by (rule duplicate_changes_nothing [OF env reach demo_event_data(2) _ key _ _ run])
      (simp_all add: r dedup_window_def DEDUP_WINDOW_HOURS_def)
  then show ?thesis using r(1) run by simp
qed

section \<open>Unreadable object references\<close>

text \<open>
  An event whose \<open>gcs_uri\<close> is not a \<open>gs://\<close> URI or not a canonical object path is
  refused without a trace: the message is negatively acknowledged, no FAILURE audit is written
  and the world is as it was, so every redelivery repeats it. (A path that parses and disagrees
  with the event is acknowledged, after its audit.)
\<close>

theorem unreadable_uri_nacked:
  assumes "parse_csv_received env body = Inr event"
    and "split_object_uri (ev_gcs_uri event) = Inl e \<or>
      (\<exists>bucket key. split_object_uri (ev_gcs_uri event) = Inr (bucket, key) \<and> parse_object_path key = Inl e)"
  shows "process_message env body w = (Inr Nack, w)"
proof -
  have "cross_check_path env event = throw (StorageError e)"
    using assms(2) by (auto simp: cross_check_path_def)
  then have "process env event w = (Inl (StorageError e), w)" by (simp add: process_def bind_eff_def)
  then show ?thesis by (simp add: process_message_Inr [OF assms(1)] terminal_def)
qed

definition demo_bad_env :: env where
  "demo_bad_env = (demo_env no_fault int)\<lparr>e_json := (\<lambda>_. Some (JDict
     [(''schema_version'', JInt 1), (''trace_id'', JStr (uuid_str 10)),
       (''tenant_id'', JStr (uuid_str 1)), (''store_id'', JStr (uuid_str 2)),
       (''source_id'', JStr ''pos''), (''template_id'', JStr (uuid_str 3)),
       (''upload_session_id'', JStr ''us_0123456789ab''), (''gcs_uri'', JStr ''gs://bronze/upload.csv''),
       (''received_ts'', JStr ''2026-05-04T00:00:00Z'')]))\<rparr>"

theorem unreadable_uri_nacked_witness:
  "process_message demo_bad_env ''x'' empty_world = (Inr Nack, empty_world)"
proof -
  let ?ev = "(demo_event 10)\<lparr>ev_gcs_uri := ''gs://bronze/upload.csv''\<rparr>"
  have "parse_csv_received demo_bad_env ''x'' = Inr ?ev" by code_simp
  moreover have "split_object_uri (ev_gcs_uri ?ev) = Inr (''bronze'', ''upload.csv'')" by code_simp
  moreover have "parse_object_path ''upload.csv'' = Inl (PathNotCanonical ''upload.csv'')" by code_simp
  ultimately show ?thesis
    using unreadable_uri_nacked [of demo_bad_env "''x''" ?ev "PathNotCanonical ''upload.csv''"] by blast
qed

section \<open>The hand-over to the streaming consumer\<close>

lemma find_unique:
  assumes "r \<in> set xs" and "P r" and "\<And>s. s \<in> set xs \<Longrightarrow> P s \<Longrightarrow> s = r"
  shows "find P xs = Some r"
proof (cases "find P xs")
  case None
  then show ?thesis using assms(1,2) by (auto simp: find_None_iff)
next
  case (Some s)
  then have "s \<in> set xs" "P s" by (auto simp: find_Some_iff)
  then show ?thesis using assms(3) Some by simp
qed

lemma read_bronze_row_describes:
  assumes "ingest_inv env w" and "r \<in> set (w_bronze w)" and "describes m r"
  shows "is_ok (read_bronze_row (w_bronze w) m) \<longleftrightarrow>
     br_source_id r = ir_source_id m \<and> br_gcs_uri r = ir_gcs_uri m"
proof -
  have "find (\<lambda>s. br_id s = ir_bronze_ref m \<and> br_trace_id s = ir_trace_id m)
      (rls_view (ir_tenant_id m) (w_bronze w)) = Some r"
    using assms distinct_ids [OF assms(1) _ assms(2)]
    by (intro find_unique) (auto simp: rls_view_def describes_def)
  then show ?thesis by (simp add: read_bronze_row_def)
qed

text \<open>
  C12 (equivalence). The consumer's bronze check accepts a message of the worker exactly when the
  row that the message describes carries the message's source and object URI.
\<close>

theorem consumer_accepts_iff:
  assumes "env_ok env" and "worker_reachable env empty_world w" and "m \<in> set (w_ready w)"
  shows "\<exists>r \<in> set (w_bronze w). describes m r \<and>
     (is_ok (read_bronze_row (w_bronze w) m) \<longleftrightarrow> br_source_id r = ir_source_id m \<and> br_gcs_uri r = ir_gcs_uri m)"
proof -
  have inv: "ingest_inv env w" by (rule worker_inv [OF assms(2,1) empty_world_inv])
  then obtain r where "r \<in> set (w_bronze w)" "describes m r"
    using assms(3) by (auto simp: ingest_inv_def message_ok_def)
  then show ?thesis using read_bronze_row_describes [OF inv] by blast
qed

theorem consumer_accepts_iff_witness:
  "w_ready demo_two_days \<noteq> [] \<and>
   (\<exists>r \<in> set (w_bronze demo_two_days). describes (hd (w_ready demo_two_days)) r \<and>
     (is_ok (read_bronze_row (w_bronze demo_two_days) (hd (w_ready demo_two_days))) \<longleftrightarrow>
        br_source_id r = ir_source_id (hd (w_ready demo_two_days)) \<and>
        br_gcs_uri r = ir_gcs_uri (hd (w_ready demo_two_days))))"
proof -
  have "w_ready demo_two_days \<noteq> []" using demo_two_days_world(3) by auto
  then show ?thesis
    using consumer_accepts_iff [OF demo_env_ok demo_two_days_reachable, of "hd (w_ready demo_two_days)"] by simp
qed

text \<open>What the resumed publish of an event leaves true of a row and of the messages that name it.\<close>

definition row_kept :: "csv_received \<Rightarrow> bronze_row \<Rightarrow> world \<Rightarrow> bool" where
  "row_kept event row w \<longleftrightarrow>
     (\<forall>r \<in> set (w_bronze w). br_id r = br_id row \<longrightarrow> br_gcs_uri r = br_gcs_uri row \<and> br_processing_status r \<noteq> FAILED) \<and>
     (\<forall>m \<in> set (w_ready w). ir_bronze_ref m = br_id row \<longrightarrow> ir_gcs_uri m = ev_gcs_uri event)"

lemma stable_row_kept: "stable (row_kept event row)"
  by (simp add: stable_def row_kept_def quiet_step_def)

lemma quiet_keeps: "quiet env m \<Longrightarrow> stable P \<Longrightarrow> keeps P m"
  by (rule triple_conseq [OF triple_quiet [where C = False and J = P]]) auto

lemma call_keeps_row:
  assumes "\<And>w. P w \<Longrightarrow> P (f w)" and "stable P"
  shows "keeps P (call env err f)"
proof -
  have "P (bump w)" if "P w" for w
    by (rule stableD [OF assms(2) _ that]) (simp add: quiet_step_def)
  then show ?thesis
    by (intro triple_conseq [OF triple_call [where P = P and Q = P and J = P and C = False]])
      (use assms(1) in auto)
qed

lemma resume_keeps_row: "keeps (row_kept event row) (handle_duplicate env event prior data)"
proof -
  let ?I = "row_kept event row"
  have emits: "keeps ?I (emit env a)" "keeps ?I (emit_health_seen env event)" "keeps ?I (now_utc env)" for a
    using quiet_keeps [OF _ stable_row_kept] quiet_emit quiet_health_seen quiet_now_utc by blast+
  have pub: "keeps ?I (publish env msg)" if "ir_gcs_uri msg = ev_gcs_uri event" for msg
    unfolding publish_def
    by (rule call_keeps_row [OF _ stable_row_kept]) (use that in \<open>auto simp: row_kept_def\<close>)
  have mark: "keeps ?I (mark_published_session env tenant b)" for tenant b
    unfolding mark_published_session_def
    by (rule triple_bind [OF emits(3)], rule call_keeps_row [OF _ stable_row_kept])
      (auto simp: row_kept_def mark_published_marked marked_def)
  have build: "triple ?I (lift_res (build_ingress_ready event tr b t d))
      (\<lambda>msg w. ir_gcs_uri msg = ev_gcs_uri event \<and> ?I w) (\<lambda>_. ?I)" for tr b t d
    by (rule triple_lift) (auto simp: build_ingress_ready_def split: if_splits)
  have pre: "keeps ?I (lift_res r)" for r :: "ingest_error + preflight_result" by (rule triple_lift) auto
  show ?thesis
    unfolding handle_duplicate_def
    by (intro triple_if triple_bind [OF emits(1)] triple_bind [OF emits(2)] triple_bind [OF pre]
        triple_bind [OF build] triple_conj_pure triple_bind [OF pub] triple_bind [OF mark] triple_ret)
qed

lemma resume_names_row:
  "triple (\<lambda>_. True) (handle_duplicate env event prior data)
     (\<lambda>out _. io_bronze_id out = Some (pi_bronze_id prior)) (\<lambda>_ _. True)"
proof -
  have any: "triple (\<lambda>_. True) m (\<lambda>_ _. True) (\<lambda>_ _. True)" for m :: "'x io"
    by (simp add: triple_def split: prod.splits sum.splits)
  show ?thesis
    unfolding handle_duplicate_def
    by (intro triple_if triple_bind [OF any] triple_ret) simp_all
qed

text \<open>
  C11 (error). A client's retry can lose an upload. When the bronze row of an upload landed and its
  publish was lost, and the retry of the same bytes (same session and content, so the same dedup
  key, but another trace and hence another \<open>gcs_uri\<close>) is processed first, the worker publishes the
  retry's \<open>gcs_uri\<close> with the row's id and trace and marks the row PUBLISHED. The consumer rejects
  every message that names this row, because the row's \<open>gcs_uri\<close> is the other one, and by
  \<open>duplicate_changes_nothing\<close> no redelivery repairs it inside the window.
\<close>

theorem resumed_retry_unconsumable:
  assumes env: "env_ok env" and reach: "worker_reachable env empty_world w"
    and row: "row \<in> set (w_bronze w)" and key: "row_key row = Some (event_key env event data)"
    and pending: "br_processing_status row = RECEIVED"
    and unsent: "\<forall>m \<in> set (w_ready w). ir_bronze_ref m \<noteq> br_id row"
    and retry: "ev_gcs_uri event \<noteq> br_gcs_uri row"
    and run: "handle_duplicate env event (prior_of_row row) data w = (Inr out, v)"
  shows "(\<exists>r \<in> set (w_bronze v). br_id r = br_id row \<and> row_published r) \<and>
     (\<forall>m \<in> set (w_ready v). ir_bronze_ref m = br_id row \<longrightarrow> \<not> is_ok (read_bronze_row (w_bronze v) m))"
proof -
  have inv: "ingest_inv env w" by (rule worker_inv [OF reach env empty_world_inv])
  have "row_kept event row w"
    unfolding row_kept_def using distinct_ids [OF inv _ row] pending unsent
    by (metis processing_status.distinct(1))
  then have kept: "row_kept event row v" using triple_Inr [OF resume_keeps_row] run by blast
  have v: "ingest_inv env v" "concluded (event_key env event data) out v"
    using triple_Inr [OF handle_duplicate_triple [OF key, of False], of w] run inv row by (auto simp: base_def)
  have out: "io_bronze_id out = Some (br_id row)"
    using triple_Inr [OF resume_names_row] run by (fastforce simp: prior_of_row_def)
  obtain r where "r \<in> set (w_bronze v)" "io_bronze_id out = Some (br_id r)"
      "br_processing_status r = FAILED \<or> row_published r"
    using concluded_row [OF v] by metis
  then have "\<exists>r \<in> set (w_bronze v). br_id r = br_id row \<and> row_published r"
    using out kept by (auto simp: row_kept_def)
  moreover have "\<not> is_ok (read_bronze_row (w_bronze v) m)" if m: "m \<in> set (w_ready v)" "ir_bronze_ref m = br_id row" for m
  proof -
    obtain s where s: "s \<in> set (w_bronze v)" "describes m s"
      using v(1) m(1) by (auto simp: ingest_inv_def message_ok_def)
    then have "br_gcs_uri s \<noteq> ir_gcs_uri m" using kept m retry by (auto simp: row_kept_def describes_def)
    then show ?thesis using read_bronze_row_describes [OF v(1) s] by blast
  qed
  ultimately show ?thesis by blast
qed

theorem resumed_retry_unconsumable_witness:
  "\<exists>row out v. w_bronze demo_crashed = [row] \<and>
     handle_duplicate (demo_env demo_crash demo_clock) (demo_event 11) (prior_of_row row) ''sku\<newline>1'' demo_crashed = (Inr out, v) \<and>
     (\<exists>r \<in> set (w_bronze v). br_id r = br_id row \<and> row_published r) \<and>
     (\<forall>m \<in> set (w_ready v). ir_bronze_ref m = br_id row \<longrightarrow> \<not> is_ok (read_bronze_row (w_bronze v) m))"
proof -
  let ?env = "demo_env demo_crash demo_clock"
  obtain row where row: "w_bronze demo_crashed = [row]" "br_processing_status row = RECEIVED"
      "br_gcs_uri row = demo_uri 10" "row_key row = Some (1, ''us_0123456789ab'', ''hsku\<newline>1'', ''csv_upload'')"
    using demo_crashed_world(1-4) by (cases "w_bronze demo_crashed") auto
  have key: "row_key row = Some (event_key ?env (demo_event 11) ''sku\<newline>1'')"
    by (simp add: row event_key_def DIS_CHANNEL_def)
  have other: "ev_gcs_uri (demo_event 11) \<noteq> br_gcs_uri row"
  proof -
    have "demo_uri 11 \<noteq> demo_uri 10" by code_simp
    then show ?thesis by (simp add: row)
  qed
  have "sendable ?env (demo_event 11) ''sku\<newline>1''"
  proof -
    have "\<not> list_ex is_pii_column [''sku'']" by code_simp
    then show ?thesis by (simp add: sendable_def demo_preflight)
  qed
  moreover have "base ?env True demo_crashed"
    using worker_inv [OF demo_crashed_reachable demo_env_ok empty_world_inv]
    by (simp add: base_def calm_def demo_crashed_world demo_crash_def)
  ultimately obtain out v where run:
    "handle_duplicate ?env (demo_event 11) (prior_of_row row) ''sku\<newline>1'' demo_crashed = (Inr out, v)"
    using triple_Inl [OF handle_duplicate_triple [OF key, of True], of demo_crashed] row(1)
    by (cases "handle_duplicate ?env (demo_event 11) (prior_of_row row) ''sku\<newline>1'' demo_crashed";
        cases "fst (handle_duplicate ?env (demo_event 11) (prior_of_row row) ''sku\<newline>1'' demo_crashed)") auto
  show ?thesis
    using resumed_retry_unconsumable [OF demo_env_ok demo_crashed_reachable _ key row(2) _ other run] run row(1)
    by (simp add: demo_crashed_world)
qed

end
