(* ===== verification/Decimal_Arith.thy ===== *)
theory Decimal_Arith
  imports Complex_Main "HOL-Library.Log_Nat"
begin

text \<open>
  Python's \<open>decimal.Decimal\<close> under the default context, as far as the analyses use it. A
  computed decimal is the rational number it denotes; every arithmetic operation rounds its exact
  result to 28 significant digits, ties to even (\<open>getcontext().prec\<close> and \<open>ROUND_HALF_EVEN\<close>).
  Exponent limits of the context (a million digits either way) are out of reach of the columns the
  operands come from and are not modelled. A column of type \<open>NUMERIC(14, 3)\<close> is the integer number
  of thousandths it holds.
\<close>

section \<open>Rounding to the context precision\<close>

definition dec_prec :: int where
  "dec_prec = 28"

text \<open>The exponent of the leading digit, \<open>Decimal.adjusted()\<close>.\<close>

definition dec_adjusted :: "rat \<Rightarrow> int" where
  "dec_adjusted x =
     (case quotient_of \<bar>x\<bar> of (p, q) \<Rightarrow>
        let e = int (floorlog 10 (nat p)) - int (floorlog 10 (nat q))
        in if 10 powi e \<le> \<bar>x\<bar> then e else e - 1)"

definition round_half_even :: "rat \<Rightarrow> int" where
  "round_half_even x =
     (let f = \<lfloor>x\<rfloor>; d = x - of_int f
      in if d < 1 / 2 then f else if 1 / 2 < d then f + 1 else if even f then f else f + 1)"

definition dec_round :: "rat \<Rightarrow> rat" where
  "dec_round x =
     (if x = 0 then 0
      else let u = 10 powi (dec_adjusted x - (dec_prec - 1)) in of_int (round_half_even (x / u)) * u)"

definition dec_add :: "rat \<Rightarrow> rat \<Rightarrow> rat" where
  "dec_add x y = dec_round (x + y)"

text \<open>\<open>x / y\<close>; a zero divisor raises in Python and never reaches this definition.\<close>

definition dec_div :: "rat \<Rightarrow> rat \<Rightarrow> rat" where
  "dec_div x y = dec_round (x / y)"

text \<open>A \<open>NUMERIC(14, 3)\<close> value, as the driver hands it over.\<close>

type_synonym numeric_14_3 = int

definition dec_of_numeric :: "numeric_14_3 \<Rightarrow> rat" where
  "dec_of_numeric n = of_int n / 1000"

section \<open>Facts\<close>

lemma powi_10_pos [simp]: "0 < (10 :: rat) powi e"
  by (simp add: zero_less_power_int)

lemma powi_10_nonzero [simp]: "(10 :: rat) powi e \<noteq> 0"
  by simp

lemma nat_digits:
  assumes "0 < n"
  shows "10 powi (int (floorlog 10 n) - 1) \<le> (of_nat n :: rat)" "(of_nat n :: rat) < 10 powi int (floorlog 10 n)"
proof -
  have d: "0 < floorlog 10 n" using assms by (simp add: floorlog_def)
  have b: "10 ^ (floorlog 10 n - 1) \<le> n \<and> n < 10 ^ floorlog 10 n"
    using assms by (intro floorlog_bounds) auto
  have "(of_nat (10 ^ (floorlog 10 n - 1)) :: rat) \<le> of_nat n" using b by (simp only: of_nat_le_iff)
  moreover have "(10 :: rat) powi (int (floorlog 10 n) - 1) = 10 ^ (floorlog 10 n - 1)"
    using d by (simp add: of_nat_diff flip: power_int_of_nat)
  ultimately show "10 powi (int (floorlog 10 n) - 1) \<le> (of_nat n :: rat)" by simp
  have "(of_nat n :: rat) < of_nat (10 ^ floorlog 10 n)" using b by (simp only: of_nat_less_iff)
  then show "(of_nat n :: rat) < 10 powi int (floorlog 10 n)" by simp
qed

lemma dec_adjusted_bounds:
  assumes "x \<noteq> 0"
  shows "10 powi dec_adjusted x \<le> \<bar>x\<bar>" "\<bar>x\<bar> < 10 powi (dec_adjusted x + 1)"
proof -
  obtain p q where pq: "quotient_of \<bar>x\<bar> = (p, q)" by (cases "quotient_of \<bar>x\<bar>")
  have q: "0 < q" and x: "\<bar>x\<bar> = of_int p / of_int q"
    using quotient_of_denom_pos [OF pq] quotient_of_div [OF pq] by simp_all
  have "0 < (of_int p / of_int q :: rat)" using assms x by (metis zero_less_abs_iff)
  then have p: "0 < p" using q by (simp add: zero_less_divide_iff)
  let ?dp = "int (floorlog 10 (nat p))" and ?dq = "int (floorlog 10 (nat q))"
  have np: "of_nat (nat p) = (of_int p :: rat)" and nq: "of_nat (nat q) = (of_int q :: rat)"
    using p q by (simp_all add: of_nat_nat)
  note P = nat_digits [of "nat p", unfolded np] and Q = nat_digits [of "nat q", unfolded nq]
  have P1: "10 powi (?dp - 1) \<le> (of_int p :: rat)" and P2: "(of_int p :: rat) < 10 powi ?dp"
    and Q1: "10 powi (?dq - 1) \<le> (of_int q :: rat)" and Q2: "(of_int q :: rat) < 10 powi ?dq"
    using P Q p q by simp_all
  have q': "0 < (of_int q :: rat)" using q by simp
  have "10 powi (?dp - ?dq - 1) * of_int q \<le> 10 powi (?dp - ?dq - 1) * (10 :: rat) powi ?dq"
    using Q2 by (intro mult_left_mono) (simp_all add: less_imp_le)
  also have "\<dots> = 10 powi (?dp - 1)" by (subst power_int_add [symmetric]) simp_all
  finally have low: "10 powi (?dp - ?dq - 1) \<le> \<bar>x\<bar>" using P1 q' by (simp add: x field_simps)
  have "10 powi ?dp = 10 powi (?dp - ?dq + 1) * (10 :: rat) powi (?dq - 1)"
    by (subst power_int_add [symmetric]) simp_all
  also have "\<dots> \<le> 10 powi (?dp - ?dq + 1) * of_int q"
    using Q1 by (intro mult_left_mono) (simp_all add: less_imp_le)
  finally have "of_int p < 10 powi (?dp - ?dq + 1) * (of_int q :: rat)" using P2 by (rule less_le_trans [rotated])
  then have high: "\<bar>x\<bar> < 10 powi (?dp - ?dq + 1)" using q' by (simp only: x pos_divide_less_eq)
  have a: "dec_adjusted x = (if 10 powi (?dp - ?dq) \<le> \<bar>x\<bar> then ?dp - ?dq else ?dp - ?dq - 1)"
    by (simp add: dec_adjusted_def pq Let_def)
  show "10 powi dec_adjusted x \<le> \<bar>x\<bar>" using low by (simp add: a)
  show "\<bar>x\<bar> < 10 powi (dec_adjusted x + 1)" using high by (auto simp: a)
qed

lemma round_half_even_error: "\<bar>of_int (round_half_even x) - x\<bar> \<le> 1 / 2"
proof -
  have "of_int \<lfloor>x\<rfloor> \<le> x" "x < of_int \<lfloor>x\<rfloor> + 1" by linarith+
  then show ?thesis by (auto simp: round_half_even_def Let_def abs_le_iff)
qed

lemma round_half_even_int [simp]: "round_half_even (of_int k) = k"
  by (simp add: round_half_even_def Let_def)

text \<open>The relative error of one operation is at most half a unit of the 28th digit.\<close>

definition dec_eps :: rat where
  "dec_eps = 1 / (2 * 10 ^ 27)"

lemma dec_round_error: "\<bar>dec_round x - x\<bar> \<le> dec_eps * \<bar>x\<bar>"
proof (cases "x = 0")
  case False
  let ?u = "(10 :: rat) powi (dec_adjusted x - 27)"
  have "dec_round x - x = (of_int (round_half_even (x / ?u)) - x / ?u) * ?u"
    using False by (simp add: dec_round_def dec_prec_def Let_def left_diff_distrib)
  then have "\<bar>dec_round x - x\<bar> \<le> 1 / 2 * ?u"
    using round_half_even_error [of "x / ?u"]
    by (simp only: abs_mult) (intro mult_mono, simp_all add: less_imp_le abs_of_pos)
  also have "?u = 10 powi dec_adjusted x / 10 ^ 27" by (simp add: power_int_diff)
  also have "1 / 2 * (10 powi dec_adjusted x / 10 ^ 27) \<le> 1 / 2 * (\<bar>x\<bar> / 10 ^ 27)"
    using dec_adjusted_bounds(1) [OF False] by (intro mult_left_mono divide_right_mono) simp_all
  finally show ?thesis by (simp add: dec_eps_def)
qed (simp add: dec_round_def)

lemma dec_round_sgn: "0 < dec_round x \<longleftrightarrow> 0 < x" "dec_round x < 0 \<longleftrightarrow> x < 0"
proof -
  have e: "\<bar>dec_round x - x\<bar> \<le> \<bar>x\<bar> / 2"
  proof -
    have "dec_eps * \<bar>x\<bar> \<le> 1 / 2 * \<bar>x\<bar>" by (intro mult_right_mono) (simp_all add: dec_eps_def)
    then show ?thesis using dec_round_error [of x] by simp
  qed
  then show "0 < dec_round x \<longleftrightarrow> 0 < x" "dec_round x < 0 \<longleftrightarrow> x < 0"
    using e by (auto simp: abs_if split: if_splits)
qed

lemma dec_round_zero [simp]: "dec_round 0 = 0"
  by (simp add: dec_round_def)

text \<open>A value with \<open>k\<close> decimals and at most 28 digits is not rounded at all.\<close>

lemma dec_round_exact:
  assumes x: "x = of_int n / 10 ^ k" and n: "\<bar>n\<bar> < 10 ^ 28"
  shows "dec_round x = x"
proof (cases "x = 0")
  case False
  let ?a = "dec_adjusted x"
  have "10 powi ?a \<le> \<bar>x\<bar>" by (rule dec_adjusted_bounds(1) [OF False])
  also have "\<bar>x\<bar> < 10 powi (28 - int k)"
  proof -
    have "(of_int \<bar>n\<bar> :: rat) < of_int (10 ^ 28)" using n by (simp only: of_int_less_iff)
    then have "(of_int \<bar>n\<bar> :: rat) < 10 powi 28" by simp
    then show ?thesis by (simp add: x power_int_diff divide_strict_right_mono)
  qed
  finally have "?a < 28 - int k" 
    using power_int_increasing [of "28 - int k" ?a "10 :: rat"] by fastforce
  then have nn: "0 \<le> 27 - int k - ?a" by simp
  let ?u = "(10 :: rat) powi (?a - 27)" and ?m = "n * 10 ^ nat (27 - int k - ?a)"
  have "(of_int ?m :: rat) = of_int n * 10 powi (27 - int k - ?a)"
    using nn by (simp flip: power_int_of_nat)
  also have "\<dots> = x / ?u"
    by (simp add: x power_int_diff power_int_add field_simps)
  finally have q: "x / ?u = of_int ?m" by simp
  have "dec_round x = of_int (round_half_even (x / ?u)) * ?u"
    using False by (simp add: dec_round_def dec_prec_def Let_def)
  also have "\<dots> = x" by (simp only: q round_half_even_int) (simp only: q [symmetric], simp)
  finally show ?thesis .
qed simp

text \<open>Sums of column values are exact as long as they fit in 28 digits.\<close>

primrec dec_sum :: "numeric_14_3 list \<Rightarrow> rat \<Rightarrow> rat" where
  "dec_sum [] acc = acc"
| "dec_sum (n # ns) acc = dec_sum ns (dec_add acc (dec_of_numeric n))"

lemma dec_sum_exact:
  assumes "sum_list (map abs ns) + \<bar>a\<bar> < 10 ^ 28"
  shows "dec_sum ns (dec_of_numeric a) = dec_of_numeric (a + sum_list ns)"
  using assms
proof (induction ns arbitrary: a)
  case (Cons n ns)
  have nn: "0 \<le> sum_list (map abs ns)" by (rule sum_list_nonneg) auto
  have "\<bar>a + n\<bar> < 10 ^ 28" using Cons.prems nn by simp
  then have "dec_add (dec_of_numeric a) (dec_of_numeric n) = dec_of_numeric (a + n)"
    using dec_round_exact [of "dec_of_numeric (a + n)" "a + n" 3]
    by (simp add: dec_add_def dec_of_numeric_def add_divide_distrib)
  moreover have "sum_list (map abs ns) + \<bar>a + n\<bar> < 10 ^ 28" using Cons.prems by simp
  ultimately show ?case using Cons.IH [of "a + n"] by (simp add: add.assoc)
qed simp

section \<open>Evaluating an operation\<close>

lemma dec_adjusted_unique:
  assumes "10 powi a \<le> \<bar>x\<bar>" "\<bar>x\<bar> < 10 powi (a + 1)"
  shows "dec_adjusted x = a"
proof -
  have "x \<noteq> 0" using assms(1) by (metis abs_zero not_less powi_10_pos)
  note b = dec_adjusted_bounds [OF this]
  have "(10 :: rat) powi a < 10 powi (dec_adjusted x + 1)" "(10 :: rat) powi dec_adjusted x < 10 powi (a + 1)"
    using assms b by linarith+
  moreover have "m < n" if "(10 :: rat) powi m < 10 powi n" for m n :: int
    using that power_int_increasing [of n m "10 :: rat"] by fastforce
  ultimately have "a < dec_adjusted x + 1" "dec_adjusted x < a + 1" by blast+
  then show ?thesis by simp
qed

lemma round_half_even_nearest: "\<bar>x - of_int k\<bar> < 1 / 2 \<Longrightarrow> round_half_even x = k"
proof -
  assume near: "\<bar>x - of_int k\<bar> < 1 / 2"
  have "\<bar>of_int (round_half_even x) - of_int k\<bar> < (1 :: rat)"
    using near round_half_even_error [of x] by (simp only: abs_less_iff abs_le_iff) linarith
  then have "of_int \<bar>round_half_even x - k\<bar> < (1 :: rat)" by simp
  then show ?thesis by simp
qed

lemma dec_round_eq:
  assumes "10 powi a \<le> \<bar>x\<bar>" "\<bar>x\<bar> < 10 powi (a + 1)" "\<bar>x / 10 powi (a - 27) - of_int k\<bar> < 1 / 2"
  shows "dec_round x = of_int k * 10 powi (a - 27)"
proof -
  have "x \<noteq> 0" using assms(1) by (metis abs_zero not_less powi_10_pos)
  then show ?thesis
    using dec_adjusted_unique [OF assms(1,2)] round_half_even_nearest [OF assms(3)]
    by (simp add: dec_round_def dec_prec_def Let_def)
qed

text \<open>Two divisions in a row, as the cover computation has them: the error stays below two units
  of the 27th digit.\<close>

lemma dec_div_div_error:
  assumes "0 \<le> s" "0 < t" "0 < w"
  shows "\<bar>dec_div s (dec_div t w) - s * w / t\<bar> \<le> 2 / 10 ^ 27 * (s * w / t)"
proof -
  define r where "r = t / w"
  define r' where "r' = dec_div t w"
  have r: "0 < r" using assms by (simp add: r_def)
  have e1: "\<bar>r' - r\<bar> \<le> dec_eps * r" using dec_round_error [of r] unfolding abs_of_pos [OF r] by (simp add: r'_def r_def dec_div_def)
  have r': "0 < r'" using dec_round_sgn(1) [of r] r by (simp add: r'_def r_def dec_div_def)
  have sr: "0 \<le> s / r" "0 \<le> s / r'" using assms(1) r r' by simp_all
  have lo: "r * (1 - dec_eps) \<le> r'" using e1 by (simp add: abs_le_iff algebra_simps)
  have "s / r' - s / r = s / r * ((r - r') / r')" using r r' by (simp add: field_simps)
  then have "\<bar>s / r' - s / r\<bar> = s / r * (\<bar>r' - r\<bar> / r')"
    using assms(1) r r' by (simp add: abs_mult abs_minus_commute)
  also have "\<dots> \<le> s / r * (dec_eps * r / (r * (1 - dec_eps)))"
    using e1 lo r r' sr(1) by (intro mult_left_mono frac_le) (simp_all add: dec_eps_def)
  also have "\<dots> = s / r * (dec_eps / (1 - dec_eps))" using r by simp
  finally have e2: "\<bar>s / r' - s / r\<bar> \<le> s / r * (dec_eps / (1 - dec_eps))" .
  have "\<bar>dec_div s r' - s / r'\<bar> \<le> dec_eps * (s / r')"
    using dec_round_error [of "s / r'"] unfolding abs_of_nonneg [OF sr(2)] by (simp add: dec_div_def)
  also have "\<dots> \<le> dec_eps * (s / r * (1 + dec_eps / (1 - dec_eps)))"
    using e2 by (intro mult_left_mono) (simp_all add: dec_eps_def abs_le_iff algebra_simps)
  finally have "\<bar>dec_div s r' - s / r\<bar> \<le> s / r * (dec_eps / (1 - dec_eps) + dec_eps * (1 + dec_eps / (1 - dec_eps)))"
    using e2 by (simp add: abs_le_iff algebra_simps)
  also have "\<dots> \<le> s / r * (2 / 10 ^ 27)"
    using sr(1) by (intro mult_left_mono) (simp_all add: dec_eps_def)
  finally show ?thesis by (simp add: r_def r'_def mult.commute)
qed

end
