(* ===== verification/Sha256.thy ===== *)
theory Sha256
  imports Main "HOL-Library.Word"
begin

text \<open>
  SHA-256 (FIPS 180-4) as \<open>hashlib.sha256\<close> computes it, on 32-bit words with wrap-around addition,
  and the UTF-8 encoding that \<open>str.encode\<close> applies first. A byte is an integer from 0 to 255.
  Text is a list of HOL characters, so its code points are below 256 and one or two bytes each.
\<close>

unbundle bit_operations_syntax

section \<open>UTF-8\<close>

definition utf8_char :: "char \<Rightarrow> int list" where
  "utf8_char c =
     (let n = (of_char c :: int)
      in if n < 128 then [n] else [192 + n div 64, 128 + n mod 64])"

definition utf8 :: "string \<Rightarrow> int list" where
  "utf8 s = concat (map utf8_char s)"

section \<open>The compression function\<close>

definition rotr :: "nat \<Rightarrow> 32 word \<Rightarrow> 32 word" where
  "rotr n x = drop_bit n x OR push_bit (32 - n) x"

definition ch :: "32 word \<Rightarrow> 32 word \<Rightarrow> 32 word \<Rightarrow> 32 word" where
  "ch x y z = (x AND y) XOR (NOT x AND z)"

definition maj :: "32 word \<Rightarrow> 32 word \<Rightarrow> 32 word \<Rightarrow> 32 word" where
  "maj x y z = (x AND y) XOR (x AND z) XOR (y AND z)"

definition big_sigma0 :: "32 word \<Rightarrow> 32 word" where
  "big_sigma0 x = rotr 2 x XOR rotr 13 x XOR rotr 22 x"

definition big_sigma1 :: "32 word \<Rightarrow> 32 word" where
  "big_sigma1 x = rotr 6 x XOR rotr 11 x XOR rotr 25 x"

definition small_sigma0 :: "32 word \<Rightarrow> 32 word" where
  "small_sigma0 x = rotr 7 x XOR rotr 18 x XOR drop_bit 3 x"

definition small_sigma1 :: "32 word \<Rightarrow> 32 word" where
  "small_sigma1 x = rotr 17 x XOR rotr 19 x XOR drop_bit 10 x"

definition round_constants :: "32 word list" where
  "round_constants =
    [1116352408, 1899447441, 3049323471, 3921009573, 961987163, 1508970993, 2453635748, 2870763221,
     3624381080, 310598401, 607225278, 1426881987, 1925078388, 2162078206, 2614888103, 3248222580,
     3835390401, 4022224774, 264347078, 604807628, 770255983, 1249150122, 1555081692, 1996064986,
     2554220882, 2821834349, 2952996808, 3210313671, 3336571891, 3584528711, 113926993, 338241895,
     666307205, 773529912, 1294757372, 1396182291, 1695183700, 1986661051, 2177026350, 2456956037,
     2730485921, 2820302411, 3259730800, 3345764771, 3516065817, 3600352804, 4094571909, 275423344,
     430227734, 506948616, 659060556, 883997877, 958139571, 1322822218, 1537002063, 1747873779,
     1955562222, 2024104815, 2227730452, 2361852424, 2428436474, 2756734187, 3204031479, 3329325298]"

text \<open>The message schedule, newest word first.\<close>

primrec schedule :: "nat \<Rightarrow> 32 word list \<Rightarrow> 32 word list" where
  "schedule 0 ws = ws"
| "schedule (Suc n) ws =
     schedule n ((small_sigma1 (ws ! 1) + ws ! 6 + small_sigma0 (ws ! 14) + ws ! 15) # ws)"

type_synonym hash_state = "32 word list"

fun sha_round :: "32 word \<times> 32 word \<Rightarrow> hash_state \<Rightarrow> hash_state" where
  "sha_round (k, w) [a, b, c, d, e, f, g, h] =
     (let t1 = h + big_sigma1 e + ch e f g + k + w;
          t2 = big_sigma0 a + maj a b c
      in [t1 + t2, a, b, c, d + t1, e, f, g])"
| "sha_round _ s = s"

definition be32 :: "int list \<Rightarrow> 32 word" where
  "be32 bs = of_int (foldl (\<lambda>n b. 256 * n + b) 0 bs)"

definition block_words :: "int list \<Rightarrow> 32 word list" where
  "block_words m = map (\<lambda>i. be32 (take 4 (drop (4 * i) m))) [0..<16]"

definition compress :: "hash_state \<Rightarrow> int list \<Rightarrow> hash_state" where
  "compress s block =
     map2 (+) s (fold sha_round (zip round_constants (rev (schedule 48 (rev (block_words block))))) s)"

section \<open>Padding and digest\<close>

definition be_bytes :: "nat \<Rightarrow> int \<Rightarrow> int list" where
  "be_bytes k n = map (\<lambda>i. n div 256 ^ (k - 1 - i) mod 256) [0..<k]"

definition sha_pad :: "int list \<Rightarrow> int list" where
  "sha_pad m = m @ [128] @ replicate ((119 - length m mod 64) mod 64) 0 @ be_bytes 8 (8 * int (length m))"

definition initial_state :: hash_state where
  "initial_state =
     [1779033703, 3144134277, 1013904242, 2773480762, 1359893119, 2600822924, 528734635, 1541459225]"

definition sha256 :: "int list \<Rightarrow> int list" where
  "sha256 m =
     (let p = sha_pad m
      in concat (map (\<lambda>w. be_bytes 4 (uint w))
           (fold (\<lambda>i s. compress s (take 64 (drop (64 * i) p))) [0..<length p div 64] initial_state)))"

text \<open>\<open>int.from_bytes(bs, "big")\<close> and \<open>hexdigest\<close>\<close>

definition int_from_bytes :: "int list \<Rightarrow> int" where
  "int_from_bytes bs = foldl (\<lambda>n b. 256 * n + b) 0 bs"

definition hex_text :: "int list \<Rightarrow> string" where
  "hex_text bs = concat (map (\<lambda>b. [''0123456789abcdef'' ! nat (b div 16), ''0123456789abcdef'' ! nat (b mod 16)]) bs)"

section \<open>Shape of the digest\<close>

lemma be_bytes_props: "length (be_bytes k n) = k" "b \<in> set (be_bytes k n) \<Longrightarrow> 0 \<le> b \<and> b < 256"
  by (auto simp: be_bytes_def)

lemma length_compress: "length (compress s b) \<le> length s"
  by (simp add: compress_def)

lemma sha_round_length: "length (sha_round x s) = length s"
  by (cases "(x, s)" rule: sha_round.cases) (simp_all add: Let_def)

lemma fold_sha_round_length: "length (fold sha_round xs s) = length s"
  by (induction xs arbitrary: s) (simp_all add: sha_round_length)

lemma fold_compress_length:
  "length (fold (\<lambda>i s. compress s (f i)) xs s) = length s"
  by (induction xs arbitrary: s) (simp_all add: compress_def fold_sha_round_length)

lemma length_sha256 [simp]: "length (sha256 m) = 32"
proof -
  have *: "length (concat (map (\<lambda>w. be_bytes 4 (uint w)) ws)) = 4 * length ws" for ws :: "32 word list"
    by (induction ws) (simp_all add: be_bytes_props)
  show ?thesis
    by (simp add: sha256_def Let_def * fold_compress_length initial_state_def)
qed

lemma sha256_bytes: "b \<in> set (sha256 m) \<Longrightarrow> 0 \<le> b \<and> b < 256"
  by (auto simp: sha256_def Let_def dest: be_bytes_props(2))

end
