(* ===== verification/Synapse_Core.thy ===== *)
theory Synapse_Core
  imports Thalamus_Prelude Py_Text Decimal_Arith Sha256
begin

text \<open>
  The vocabulary of the analytics plane (\<open>synapse/src/synapse/core\<close>): dates and slots, the
  refusal vocabulary, the rows the capabilities return, holdout assignment, capability
  descriptors, analysis declarations and actions. Every frozen dataclass with a \<open>__post_init__\<close>
  is a record with a constructor \<open>mk_...\<close> that raises what the check raises. Prose built by
  f-strings is the datatype of its template with the interpolated values as arguments, so no
  distinction the text makes is lost. A \<open>date\<close> is its proleptic Gregorian ordinal, an instant is
  in microseconds since the start of year 1.
\<close>

section \<open>Errors and dates\<close>

datatype synapse_error =
    ValueError string
  | KeyError string
  | OverflowError
  | ProvisionRefusedError string
  | ResultTooLargeError string
  | DatabaseError
  | TypeError string
  | AttributeError string
  | RuntimeError string

type_synonym 'a result = "synapse_error + 'a"
type_synonym date = int

definition max_ordinal :: date where
  "max_ordinal = 3652059"

text \<open>\<open>d + timedelta(days=n)\<close>\<close>

definition date_add :: "date \<Rightarrow> int \<Rightarrow> date result" where
  "date_add d n = (if 1 \<le> d + n \<and> d + n \<le> max_ordinal then Inr (d + n) else Inl OverflowError)"

text \<open>\<open>max\<close> of a non-empty sequence\<close>

definition py_max :: "int list \<Rightarrow> int" where
  "py_max xs = fold max (tl xs) (hd xs)"

section \<open>Slots (slot.py)\<close>

datatype cadence = DAILY

datatype instant = Aware int | Naive int

definition day_us :: int where
  "day_us = 86400000000"

text \<open>
  \<open>zones\<close> is the time zone database: the UTC offset in microseconds of a zone at an instant, or
  \<open>None\<close> where \<open>ZoneInfo\<close> does not resolve the name.
\<close>

type_synonym zone_db = "string \<Rightarrow> (int \<Rightarrow> int) option"

definition slot_for :: "zone_db \<Rightarrow> cadence \<Rightarrow> string \<Rightarrow> instant \<Rightarrow> date result" where
  "slot_for zones c timezone inst =
     (case inst of
        Naive _ \<Rightarrow> Inl (ValueError ''slot_for needs a timezone-aware instant'')
      | Aware us \<Rightarrow>
          (case zones timezone of
             None \<Rightarrow> Inl (ValueError ''not a resolvable IANA timezone'')
           | Some offset \<Rightarrow>
               (let local_us = us + offset us
                in if 0 \<le> local_us \<and> local_us < max_ordinal * day_us
                   then (case c of DAILY \<Rightarrow> Inr (1 + local_us div day_us))
                   else Inl OverflowError)))"

section \<open>Provisions (provision.py)\<close>

datatype rung = SHADOW | SUGGEST

definition rung_rank :: "rung \<Rightarrow> int" where
  "rung_rank r = (case r of SHADOW \<Rightarrow> 0 | SUGGEST \<Rightarrow> 1)"

record provision =
  pv_tenant_id :: uuid
  pv_analysis_id :: string
  pv_cadence :: cadence
  pv_rung :: rung
  pv_timezone :: string
  pv_enabled_at :: instant

definition mk_provision :: "zone_db \<Rightarrow> provision \<Rightarrow> provision result" where
  "mk_provision zones p =
     bind_res (raise_if (pv_analysis_id p = []) (ValueError ''a provision must name an analysis'')) (\<lambda>_.
     bind_res (raise_if (case pv_enabled_at p of Naive _ \<Rightarrow> True | Aware _ \<Rightarrow> False)
                 (ValueError ''naive enabled_at'')) (\<lambda>_.
     bind_res (raise_if (zones (pv_timezone p) = None) (ValueError ''timezone does not resolve'')) (\<lambda>_.
     Inr p)))"

section \<open>Refusals (refusal.py)\<close>

datatype refusal_reason =
    NO_STOCK_QUANTITY
  | NO_OBSERVATIONS_IN_WINDOW
  | SERIES_TOO_STALE
  | TOO_FEW_OBSERVATIONS
  | NO_POSITIVE_DEMAND
  | NO_STOCK_ON_HAND
  | FEED_STALE
  | NO_SALE_HISTORY

text \<open>The stored key of a reason, the member's string value.\<close>

definition reason_value :: "refusal_reason \<Rightarrow> string" where
  "reason_value r =
     (case r of
        NO_STOCK_QUANTITY \<Rightarrow> ''no_stock_quantity''
      | NO_OBSERVATIONS_IN_WINDOW \<Rightarrow> ''no_observations_in_window''
      | SERIES_TOO_STALE \<Rightarrow> ''series_too_stale''
      | TOO_FEW_OBSERVATIONS \<Rightarrow> ''too_few_observations''
      | NO_POSITIVE_DEMAND \<Rightarrow> ''no_positive_demand''
      | NO_STOCK_ON_HAND \<Rightarrow> ''no_stock_on_hand''
      | FEED_STALE \<Rightarrow> ''feed_stale''
      | NO_SALE_HISTORY \<Rightarrow> ''no_sale_history'')"

text \<open>The prose a refusal carries, one constructor per f-string.\<close>

datatype refusal_prose =
    NoSaleEver date
  | NewestSaleTooOld date int date int
  | StockQtyNull
  | StockQtyNothing numeric_14_3
  | NoObservations int date
  | SeriesEnds date int date int
  | TooFew nat int int
  | DemandNotPositive rat

definition counts_by_reason :: "refusal_reason option list \<Rightarrow> (refusal_reason \<times> nat) list" where
  "counts_by_reason reasons =
     fold (\<lambda>r counts. case r of
             None \<Rightarrow> counts
           | Some reason \<Rightarrow>
               AList.update reason
                 (1 + (case map_of counts reason of None \<Rightarrow> 0 | Some n \<Rightarrow> n)) counts) reasons []"

section \<open>Capability rows (current_state.py, last_sale_at.py, daily_series.py)\<close>

record current_state_row =
  cs_tenant_id :: uuid
  cs_store_id :: uuid
  cs_sku_id :: string
  cs_product_name :: string
  cs_product_category :: "string option"
  cs_sku_status :: "string option"
  cs_current_retail_price :: int
  cs_unit_cost :: "int option"
  cs_promo_price :: "int option"
  cs_stock_qty :: "numeric_14_3 option"
  cs_reorder_point :: "numeric_14_3 option"
  cs_currency :: string
  cs_expiry_date :: "date option"
  cs_last_source_event_at :: "int option"
  cs_last_updated_at :: int

record last_sale_at_row =
  ls_tenant_id :: uuid
  ls_store_id :: uuid
  ls_sku_id :: string
  ls_last_sale_date :: date

record daily_series_row =
  ds_tenant_id :: uuid
  ds_store_id :: uuid
  ds_sku_id :: string
  ds_event_date :: date
  ds_net_quantity :: numeric_14_3
  ds_sale_line_count :: nat
  ds_return_line_count :: nat
  ds_void_line_count :: nat

type_synonym position_key = "uuid \<times> uuid \<times> string"

definition cs_key :: "current_state_row \<Rightarrow> position_key" where
  "cs_key r = (cs_tenant_id r, cs_store_id r, cs_sku_id r)"

definition ls_key :: "last_sale_at_row \<Rightarrow> position_key" where
  "ls_key r = (ls_tenant_id r, ls_store_id r, ls_sku_id r)"

definition ds_key :: "daily_series_row \<Rightarrow> position_key" where
  "ds_key r = (ds_tenant_id r, ds_store_id r, ds_sku_id r)"

section \<open>Holdout assignment (holdout.py)\<close>

datatype arm = TREATMENT | HOLDOUT

record holdout =
  ho_unit :: "string list"
  ho_percent :: int
  ho_salt :: string
  ho_fitted :: bool
  ho_stands_in_for :: "string option"

text \<open>\<open>bool(s)\<close> of an optional string\<close>

definition truthy :: "string option \<Rightarrow> bool" where
  "truthy s \<longleftrightarrow> (case s of None \<Rightarrow> False | Some t \<Rightarrow> t \<noteq> [])"

definition mk_holdout :: "holdout \<Rightarrow> holdout result" where
  "mk_holdout h =
     bind_res (raise_if (ho_unit h = []) (ValueError ''no assignment unit'')) (\<lambda>_.
     bind_res (raise_if (\<not> (1 \<le> ho_percent h \<and> ho_percent h \<le> 99)) (ValueError ''holdout_percent must be 1..99'')) (\<lambda>_.
     bind_res (raise_if (ho_salt h = []) (ValueError ''a holdout needs an explicit salt'')) (\<lambda>_.
     bind_res (raise_if (\<not> ho_fitted h \<and> \<not> truthy (ho_stands_in_for h))
                 (ValueError ''an unfitted holdout_percent must name what it stands in for'')) (\<lambda>_.
     bind_res (raise_if (ho_fitted h \<and> truthy (ho_stands_in_for h))
                 (ValueError ''a fitted holdout_percent stands in for nothing'')) (\<lambda>_.
     Inr h)))))"

definition holdout_key :: "holdout \<Rightarrow> string list \<Rightarrow> string" where
  "holdout_key h subject = py_join (CHR 0x1F) (ho_salt h # subject)"

definition arm_of_digest :: "holdout \<Rightarrow> int list \<Rightarrow> arm" where
  "arm_of_digest h digest =
     (let bucket = int_from_bytes (take 8 digest) mod 100
      in if bucket < ho_percent h then HOLDOUT else TREATMENT)"

definition assign :: "holdout \<Rightarrow> string list \<Rightarrow> arm result" where
  "assign h subject =
     bind_res (raise_if (length subject \<noteq> length (ho_unit h))
                 (ValueError ''assignment would be computed over the wrong key'')) (\<lambda>_.
     Inr (arm_of_digest h (sha256 (utf8 (holdout_key h subject)))))"

section \<open>Capability descriptors (capability.py)\<close>

datatype tenancy = TENANT_SCOPED | FLEET
datatype freshness = LAST_WRITE | AS_OF_DATE
datatype gate_kind = MIN_HISTORY_DAYS

record capability_descriptor =
  cd_id :: string
  cd_version :: string
  cd_grain :: "string list"
  cd_tenancy :: tenancy
  cd_freshness :: freshness
  cd_returns :: "string list"
  cd_produces_signals :: "string list"
  cd_gates :: "gate_kind list"

definition CURRENT_STATE :: capability_descriptor where
  "CURRENT_STATE =
     \<lparr>cd_id = ''current_state'', cd_version = ''0.1.0'',
      cd_grain = [''tenant_id'', ''store_id'', ''sku_id''],
      cd_tenancy = TENANT_SCOPED, cd_freshness = LAST_WRITE,
      cd_returns =
        [''tenant_id'', ''store_id'', ''sku_id'', ''product_name'', ''product_category'',
         ''sku_status'', ''current_retail_price'', ''unit_cost'', ''promo_price'', ''stock_qty'',
         ''reorder_point'', ''currency'', ''expiry_date'', ''last_source_event_at'',
         ''last_updated_at''],
      cd_produces_signals = [], cd_gates = []\<rparr>"

definition DAILY_SERIES :: capability_descriptor where
  "DAILY_SERIES =
     \<lparr>cd_id = ''daily_series'', cd_version = ''0.1.0'',
      cd_grain = [''tenant_id'', ''store_id'', ''sku_id'', ''event_date''],
      cd_tenancy = TENANT_SCOPED, cd_freshness = AS_OF_DATE,
      cd_returns =
        [''tenant_id'', ''store_id'', ''sku_id'', ''event_date'', ''net_quantity'',
         ''sale_line_count'', ''return_line_count'', ''void_line_count''],
      cd_produces_signals = [], cd_gates = [MIN_HISTORY_DAYS]\<rparr>"

definition LAST_SALE_AT :: capability_descriptor where
  "LAST_SALE_AT =
     \<lparr>cd_id = ''last_sale_at'', cd_version = ''0.1.0'',
      cd_grain = [''tenant_id'', ''store_id'', ''sku_id''],
      cd_tenancy = TENANT_SCOPED, cd_freshness = LAST_WRITE,
      cd_returns = [''tenant_id'', ''store_id'', ''sku_id'', ''last_sale_date''],
      cd_produces_signals = [], cd_gates = []\<rparr>"

section \<open>Analysis declarations (analysis.py)\<close>

datatype series_policy = ALL_SERIES | ANY_SERIES

record min_history_days =
  mh_days :: int
  mh_policy :: series_policy

definition mk_min_history_days :: "int \<Rightarrow> series_policy \<Rightarrow> min_history_days result" where
  "mk_min_history_days days policy =
     bind_res (raise_if (days < 1) (ValueError ''min_history_days must be at least 1 day'')) (\<lambda>_.
     Inr \<lparr>mh_days = days, mh_policy = policy\<rparr>)"

record threshold =
  th_name :: string
  th_days :: int
  th_fitted :: bool
  th_stands_in_for :: "string option"

definition mk_threshold :: "threshold \<Rightarrow> threshold result" where
  "mk_threshold t =
     bind_res (raise_if (th_days t < 1) (ValueError ''threshold must be at least 1 day'')) (\<lambda>_.
     bind_res (raise_if (\<not> th_fitted t \<and> \<not> truthy (th_stands_in_for t))
                 (ValueError ''a constant threshold must name what it stands in for'')) (\<lambda>_.
     bind_res (raise_if (th_fitted t \<and> truthy (th_stands_in_for t))
                 (ValueError ''a fitted threshold stands in for nothing'')) (\<lambda>_.
     Inr t)))"

record capability_requirement =
  cr_capability_id :: string
  cr_fields :: "string list"
  cr_gates :: "min_history_days list"
  cr_window_from_threshold :: "string option"

text \<open>There is one gate kind, so a second gate of a requirement repeats it.\<close>

definition gate_kind_of :: "min_history_days \<Rightarrow> gate_kind" where
  "gate_kind_of g = MIN_HISTORY_DAYS"

definition mk_requirement :: "capability_requirement \<Rightarrow> capability_requirement result" where
  "mk_requirement r =
     bind_res (raise_if (cr_fields r = []) (ValueError ''requirement names no fields'')) (\<lambda>_.
     bind_res (raise_if (\<not> distinct (map gate_kind_of (cr_gates r)))
                 (ValueError ''requirement binds a gate kind twice'')) (\<lambda>_.
     Inr r))"

record analysis_declaration =
  ad_id :: string
  ad_version :: string
  ad_grain :: "string list"
  ad_requires :: "capability_requirement list"
  ad_holdout :: "holdout option"
  ad_emits :: "string list"
  ad_thresholds :: "threshold list"
  ad_max_rung :: rung

definition mk_declaration :: "analysis_declaration \<Rightarrow> analysis_declaration result" where
  "mk_declaration a =
     bind_res (raise_if (ad_requires a = []) (ValueError ''analysis requires no capability'')) (\<lambda>_.
     bind_res (raise_if (\<not> distinct (map cr_capability_id (ad_requires a)))
                 (ValueError ''analysis requires the same capability twice'')) (\<lambda>_.
     bind_res (raise_if (\<not> distinct (map th_name (ad_thresholds a)))
                 (ValueError ''analysis declares a threshold name more than once'')) (\<lambda>_.
     Inr a)))"

text \<open>\<open>{threshold.name: threshold.days for threshold in declaration.thresholds}\<close>\<close>

definition thresholds_of :: "analysis_declaration \<Rightarrow> int dict" where
  "thresholds_of a = dict_of (map (\<lambda>t. (th_name t, th_days t)) (ad_thresholds a))"

text \<open>
  The two declarations. The \<open>stands_in_for\<close> prose is cut to its first clause; nothing reads more
  of it than whether it is empty.
\<close>

definition DEAD_STOCK :: analysis_declaration where
  "DEAD_STOCK =
     \<lparr>ad_id = ''dead_stock'', ad_version = ''0.1.0'',
      ad_grain = [''tenant_id'', ''store_id'', ''sku_id''],
      ad_requires =
        [\<lparr>cr_capability_id = ''current_state'',
          cr_fields = [''tenant_id'', ''store_id'', ''sku_id'', ''stock_qty'', ''sku_status''],
          cr_gates = [], cr_window_from_threshold = None\<rparr>,
         \<lparr>cr_capability_id = ''last_sale_at'',
          cr_fields = [''tenant_id'', ''store_id'', ''sku_id'', ''last_sale_date''],
          cr_gates = [], cr_window_from_threshold = None\<rparr>],
      ad_holdout =
        Some \<lparr>ho_unit = [''tenant_id'', ''store_id'', ''sku_id''], ho_percent = 20,
              ho_salt = ''dead_stock/2026-08'', ho_fitted = False,
              ho_stands_in_for = Some ''a power calculation''\<rparr>,
      ad_emits =
        [''tenant_id'', ''store_id'', ''sku_id'', ''days_since_last_sale'', ''is_dead_stock'',
         ''refused_because'', ''refusal_reason''],
      ad_thresholds =
        [\<lparr>th_name = ''stale_after_days'', th_days = 90, th_fitted = False,
          th_stands_in_for = Some ''the p90 gap between consecutive sales''\<rparr>,
         \<lparr>th_name = ''expires_after_days'', th_days = 30, th_fitted = False,
          th_stands_in_for = Some ''how long a dead-stock finding stays true''\<rparr>,
         \<lparr>th_name = ''feed_stale_after_days'', th_days = 3, th_fitted = False,
          th_stands_in_for = Some ''nothing measured''\<rparr>],
      ad_max_rung = SHADOW\<rparr>"

definition STOCKOUT_RISK :: analysis_declaration where
  "STOCKOUT_RISK =
     \<lparr>ad_id = ''stockout_risk'', ad_version = ''0.1.0'',
      ad_grain = [''tenant_id'', ''store_id'', ''sku_id''],
      ad_requires =
        [\<lparr>cr_capability_id = ''current_state'',
          cr_fields = [''tenant_id'', ''store_id'', ''sku_id'', ''stock_qty'', ''sku_status''],
          cr_gates = [], cr_window_from_threshold = None\<rparr>,
         \<lparr>cr_capability_id = ''daily_series'',
          cr_fields = [''tenant_id'', ''store_id'', ''sku_id'', ''event_date'', ''net_quantity''],
          cr_gates = [\<lparr>mh_days = 7, mh_policy = ANY_SERIES\<rparr>],
          cr_window_from_threshold = Some ''window_days''\<rparr>],
      ad_holdout =
        Some \<lparr>ho_unit = [''tenant_id'', ''store_id'', ''sku_id''], ho_percent = 20,
              ho_salt = ''stockout_risk/2026-08'', ho_fitted = False,
              ho_stands_in_for = Some ''a power calculation''\<rparr>,
      ad_emits =
        [''tenant_id'', ''store_id'', ''sku_id'', ''days_of_cover'', ''is_at_risk'',
         ''refused_because'', ''refusal_reason''],
      ad_thresholds =
        [\<lparr>th_name = ''window_days'', th_days = 28, th_fitted = False,
          th_stands_in_for = Some ''the window length at which the demand rate is most predictive''\<rparr>,
         \<lparr>th_name = ''at_risk_below_days'', th_days = 14, th_fitted = False,
          th_stands_in_for = Some ''the replenishment LEAD TIME''\<rparr>,
         \<lparr>th_name = ''stale_after_days'', th_days = 3, th_fitted = False,
          th_stands_in_for = Some ''the ingestion cadence of the tenant''\<rparr>,
         \<lparr>th_name = ''expires_after_days'', th_days = 7, th_fitted = False,
          th_stands_in_for = Some ''how long a cover estimate stays true''\<rparr>],
      ad_max_rung = SHADOW\<rparr>"

section \<open>Actions (action.py)\<close>

datatype verb = REVIEW

record provenance =
  pr_declaration_id :: string
  pr_declaration_version :: string
  pr_capability_versions :: "string dict"
  pr_thresholds :: "int dict"
  pr_as_of :: date

definition mk_provenance :: "provenance \<Rightarrow> provenance result" where
  "mk_provenance p =
     bind_res (raise_if (pr_declaration_id p = [] \<or> pr_declaration_version p = [])
                 (ValueError ''provenance needs the declaration it came from, and its version'')) (\<lambda>_.
     bind_res (raise_if (pr_capability_versions p = [])
                 (ValueError ''provenance names no capability versions'')) (\<lambda>_.
     Inr p))"

record action =
  ac_target :: "string dict"
  ac_verb :: verb
  ac_quantity_at_stake :: "numeric_14_3 option"
  ac_expires_on :: date
  ac_arm :: arm
  ac_provenance :: provenance
  ac_days_since_last_sale :: "int option"
  ac_days_of_cover :: "rat option"

definition negative :: "'a :: linordered_idom option \<Rightarrow> bool" where
  "negative q \<longleftrightarrow> (case q of None \<Rightarrow> False | Some n \<Rightarrow> n < 0)"

definition mk_action :: "action \<Rightarrow> action result" where
  "mk_action a =
     bind_res (raise_if (ac_target a = []) (ValueError ''an action with no target is a suggestion'')) (\<lambda>_.
     bind_res (raise_if (negative (ac_quantity_at_stake a)) (ValueError ''negative quantity_at_stake'')) (\<lambda>_.
     bind_res (raise_if (ac_expires_on a < pr_as_of (ac_provenance a))
                 (ValueError ''an action that arrives expired cannot be acted on'')) (\<lambda>_.
     bind_res (raise_if (negative (ac_days_since_last_sale a)) (ValueError ''negative days_since_last_sale'')) (\<lambda>_.
     bind_res (raise_if (negative (ac_days_of_cover a)) (ValueError ''negative days_of_cover'')) (\<lambda>_.
     Inr a)))))"

definition is_actionable :: "action \<Rightarrow> bool" where
  "is_actionable a \<longleftrightarrow> (case ac_quantity_at_stake a of None \<Rightarrow> False | Some n \<Rightarrow> n > 0)"

record action_event =
  ev_event_id :: uuid
  ev_recorded_at :: instant
  ev_action :: action
  ev_supersedes :: "uuid option"

definition mk_action_event :: "action_event \<Rightarrow> action_event result" where
  "mk_action_event e =
     bind_res (raise_if (ev_supersedes e = Some (ev_event_id e)) (ValueError ''event supersedes itself'')) (\<lambda>_.
     Inr e)"

text \<open>What the two proposers share: the target of a finding, and its subject in the declared order.\<close>

definition finding_target :: "position_key \<Rightarrow> string dict" where
  "finding_target k =
     (case k of (tenant, store, sku) \<Rightarrow>
        [(''tenant_id'', uuid_str tenant), (''store_id'', uuid_str store), (''sku_id'', sku)])"

definition dict_item :: "'v dict \<Rightarrow> string \<Rightarrow> 'v result" where
  "dict_item d k = (case map_of d k of None \<Rightarrow> Inl (KeyError k) | Some v \<Rightarrow> Inr v)"

definition subject_of :: "holdout \<Rightarrow> string dict \<Rightarrow> string list result" where
  "subject_of h target = map_res (dict_item target) (ho_unit h)"

text \<open>\<open>stock_by_key\<close>: keyed by the text of the identifiers, the last row of a key winning.\<close>

definition stock_by_key :: "current_state_row list \<Rightarrow> ((string \<times> string \<times> string) \<times> numeric_14_3 option) list" where
  "stock_by_key universe =
     dict_of (map (\<lambda>r. ((uuid_str (cs_tenant_id r), uuid_str (cs_store_id r), cs_sku_id r), cs_stock_qty r)) universe)"

definition stock_lookup :: "((string \<times> string \<times> string) \<times> numeric_14_3 option) list \<Rightarrow> position_key \<Rightarrow> numeric_14_3 option" where
  "stock_lookup d k =
     (case k of (tenant, store, sku) \<Rightarrow>
        (case map_of d (uuid_str tenant, uuid_str store, sku) of None \<Rightarrow> None | Some q \<Rightarrow> q))"

section \<open>Facts\<close>

lemma py_max_eq_Max: "xs \<noteq> [] \<Longrightarrow> py_max xs = Max (set xs)"
  using Max.set_eq_fold [of "hd xs" "tl xs"] by (cases xs) (simp_all add: py_max_def)

lemma mk_action_Inr_iff:
  "mk_action a = Inr b \<longleftrightarrow>
     b = a \<and> ac_target a \<noteq> [] \<and> \<not> negative (ac_quantity_at_stake a) \<and>
     pr_as_of (ac_provenance a) \<le> ac_expires_on a \<and>
     \<not> negative (ac_days_since_last_sale a) \<and> \<not> negative (ac_days_of_cover a)"
  by (auto simp: mk_action_def bind_res_Inr_iff)

lemma finding_target_not_Nil [simp]: "finding_target k \<noteq> []"
  by (simp add: finding_target_def split: prod.split)

lemma finding_target_inject: "finding_target k = finding_target k' \<longleftrightarrow> k = k'"
  by (auto simp: finding_target_def uuid_str_inject split: prod.splits)

lemma assign_ok: "length subject = length (ho_unit h) \<Longrightarrow> \<exists>a. assign h subject = Inr a"
  by (simp add: assign_def raise_if_def)

lemma subject_of_length: "subject_of h target = Inr s \<Longrightarrow> length s = length (ho_unit h)"
proof -
  have "map_res f xs = Inr ys \<Longrightarrow> length ys = length xs" for f :: "string \<Rightarrow> string result" and xs ys
    by (induction xs arbitrary: ys) (auto simp: bind_res_Inr_iff)
  then show "subject_of h target = Inr s \<Longrightarrow> length s = length (ho_unit h)" by (simp add: subject_of_def)
qed

text \<open>The last row of a position key decides the quantity.\<close>

lemma stock_lookup_last:
  "stock_lookup (stock_by_key (us @ [r] @ vs)) (cs_key r) = cs_stock_qty r" if "cs_key r \<notin> cs_key ` set vs"
proof -
  let ?f = "\<lambda>r. ((uuid_str (cs_tenant_id r), uuid_str (cs_store_id r), cs_sku_id r), cs_stock_qty r)"
  have "map_of (rev (map ?f vs)) (uuid_str (cs_tenant_id r), uuid_str (cs_store_id r), cs_sku_id r) = None"
    using that by (auto simp: map_of_eq_None_iff cs_key_def uuid_str_inject image_iff)
  then show ?thesis
    by (simp add: stock_lookup_def stock_by_key_def dict_of_lookup cs_key_def map_add_def)
qed

lemma stock_lookup_distinct:
  assumes "distinct (map cs_key universe)" and "r \<in> set universe"
  shows "stock_lookup (stock_by_key universe) (cs_key r) = cs_stock_qty r"
proof -
  obtain us vs where "universe = us @ r # vs" using assms(2) by (meson split_list)
  then show ?thesis using assms(1) stock_lookup_last [of r vs us] by auto
qed

text \<open>Every finding gets an arm under a unit of grain columns.\<close>

lemma finding_target_item:
  assumes "c \<in> {''tenant_id'', ''store_id'', ''sku_id''}"
  shows "\<exists>v. dict_item (finding_target k) c = Inr v"
proof -
  obtain t st sk where k: "k = (t, st, sk)" by (cases k)
  show ?thesis using assms
  proof (elim insertE)
    assume "c = ''tenant_id''" then show ?thesis by (simp add: k dict_item_def finding_target_def)
  next
    assume "c = ''store_id''" then show ?thesis by (simp add: k dict_item_def finding_target_def)
  next
    assume "c = ''sku_id''" then show ?thesis by (simp add: k dict_item_def finding_target_def)
  qed blast
qed

lemma finding_arm:
  assumes "set (ho_unit h) \<subseteq> {''tenant_id'', ''store_id'', ''sku_id''}" (is "_ \<subseteq> ?grain")
  obtains subject a where "subject_of h (finding_target k) = Inr subject" "assign h subject = Inr a"
proof -
  have "\<exists>s. map_res (dict_item (finding_target k)) cols = Inr s" if "set cols \<subseteq> ?grain" for cols
    using that
  proof (induction cols)
    case (Cons c cols)
    then obtain s where "map_res (dict_item (finding_target k)) cols = Inr s" by (meson set_subset_Cons subset_trans)
    moreover obtain v where "dict_item (finding_target k) c = Inr v"
      using finding_target_item [of c k] Cons.prems by (meson list.set_intros(1) subsetD)
    ultimately show ?case by simp
  qed simp
  then obtain subject where "subject_of h (finding_target k) = Inr subject"
    using assms unfolding subject_of_def by blast
  then show ?thesis using that assign_ok subject_of_length by blast
qed

end
