(* ===== verification/Synapse_Holdout.thy ===== *)
theory Synapse_Holdout
  imports Synapse_Core
begin

text \<open>
  Holdout assignment: the key under the digest identifies the salt and the subject, every subject
  of the declared width gets an arm, and the bias of the reduction to 100 buckets is below one
  part in \<open>10 ^ 17\<close>, the figure the source states.
\<close>

section \<open>Counting 64-bit digests\<close>

definition digest_prefixes :: "int list set" where
  "digest_prefixes = {d. length d = 8 \<and> (\<forall>b \<in> set d. 0 \<le> b \<and> b < 256)}"

lemma int_from_bytes_digits:
  assumes "\<forall>b \<in> set d. 0 \<le> b"
  shows "int_from_bytes d = int (from_digits 256 (map nat d))"
  using assms
proof (induction d rule: rev_induct)
  case (snoc b bs)
  then show ?case by (simp add: int_from_bytes_def from_digits_def)
qed (simp add: int_from_bytes_def from_digits_def)

lemma prefixes_bij: "bij_betw (\<lambda>d. from_digits 256 (map nat d)) digest_prefixes {..< 2 ^ 64}"
proof (rule bij_betw_byWitness [where f' = "\<lambda>n. map int (digits 256 8 n)"])
  have b: "\<forall>x \<in> set (map nat d). x < 256" if "d \<in> digest_prefixes" for d
    using that by (auto simp: digest_prefixes_def nat_less_iff)
  show "\<forall>d \<in> digest_prefixes. map int (digits 256 8 (from_digits 256 (map nat d))) = d"
  proof
    fix d assume d: "d \<in> digest_prefixes"
    have "digits 256 (length (map nat d)) (from_digits 256 (map nat d)) = map nat d"
      by (rule digits_from_digits(1) [OF b [OF d]])
    moreover have "length d = 8" and "map int (map nat d) = d"
      using d by (auto simp: digest_prefixes_def intro!: nth_equalityI)
    ultimately show "map int (digits 256 8 (from_digits 256 (map nat d))) = d" by simp
  qed
  show "\<forall>n \<in> {..< 2 ^ 64}. from_digits 256 (map nat (map int (digits 256 8 n))) = n"
    using from_digits_digits [of _ 256 8] by (simp add: comp_def del: digits.simps)
  show "(\<lambda>d. from_digits 256 (map nat d)) ` digest_prefixes \<subseteq> {..< 2 ^ 64}"
  proof
    fix n assume "n \<in> (\<lambda>d. from_digits 256 (map nat d)) ` digest_prefixes"
    then obtain d where d: "d \<in> digest_prefixes" and n: "n = from_digits 256 (map nat d)" by auto
    have "n < 256 ^ length (map nat d)" unfolding n by (rule digits_from_digits(2) [OF b [OF d]])
    then show "n \<in> {..< 2 ^ 64}" using d by (simp add: digest_prefixes_def)
  qed
  show "(\<lambda>n. map int (digits 256 8 n)) ` {..< 2 ^ 64} \<subseteq> digest_prefixes"
    using digits_bound [of 256] by (fastforce simp: digest_prefixes_def simp del: digits.simps)
qed

text \<open>Residues below \<open>p\<close> among the first \<open>n\<close> numbers.\<close>

definition low_residues :: "nat \<Rightarrow> nat \<Rightarrow> nat" where
  "low_residues p n = card {v. v < n \<and> v mod 100 < p}"

lemma low_residues_sum: "low_residues p n = (\<Sum>v < n. if v mod 100 < p then 1 else 0)"
  by (simp add: low_residues_def sum.If_cases Int_def conj_commute lessThan_def)

lemma low_residues_shift:
  fixes m n p :: nat
  shows "(\<Sum>v = m * 100..< m * 100 + n. if v mod 100 < p then 1 else (0 :: nat)) =
   (\<Sum>v = 0..< n. if v mod 100 < p then 1 else 0)"
  using sum.shift_bounds_nat_ivl [of "\<lambda>v. if v mod 100 < p then 1 else (0 :: nat)" 0 "m * 100" n]
  by (simp add: add.commute mult.commute)

lemma low_residues_block:
  assumes "p \<le> 100"
  shows "(\<Sum>v = m * 100..< m * 100 + 100. if v mod 100 < p then 1 else (0 :: nat)) = p"
proof -
  have "(\<Sum>v = m * 100..< m * 100 + 100. if v mod 100 < p then 1 else (0 :: nat)) =
        (\<Sum>v = 0..< 100. if v < p then 1 else 0)"
    unfolding low_residues_shift by (rule sum.cong) simp_all
  also have "\<dots> = card ({0..<100} \<inter> {v. v < p})" by (simp add: sum.If_cases)
  also have "{0..<100} \<inter> {v. v < p} = {..< p}" using assms by auto
  finally show ?thesis by simp
qed

lemma low_residues_2_64:
  assumes "p \<le> 100"
  shows "low_residues p (2 ^ 64) = 184467440737095516 * p + min p 16"
proof -
  let ?f = "\<lambda>v :: nat. if v mod 100 < p then 1 else (0 :: nat)" and ?q = "184467440737095516 :: nat"
  have split: "{..< (2 :: nat) ^ 64} = {..< ?q * 100} \<union> {?q * 100..< ?q * 100 + 16}"
    by auto
  have "low_residues p (2 ^ 64) = sum ?f {..< ?q * 100} + sum ?f {?q * 100..< ?q * 100 + 16}"
    unfolding low_residues_sum split by (rule sum.union_disjoint) auto
  also have "sum ?f {..< ?q * 100} = (\<Sum>m < ?q. sum ?f {m * 100..< m * 100 + 100})"
    by (rule sum.nat_group [symmetric])
  also have "\<dots> = ?q * p" by (simp only: low_residues_block [OF assms]) simp
  also have "sum ?f {?q * 100..< ?q * 100 + 16} = (\<Sum>v = 0..< 16. ?f v)"
    by (rule low_residues_shift)
  also have "\<dots> = card ({0..<16} \<inter> {v. v < p})" by (simp add: sum.If_cases)
  also have "{0..<16} \<inter> {v. v < p} = {..< min p 16}" by auto
  finally show ?thesis by simp
qed

lemma holdout_prefixes_card:
  assumes "0 \<le> ho_percent h" "ho_percent h \<le> 100"
  shows "card {d \<in> digest_prefixes. arm_of_digest h d = HOLDOUT} = low_residues (nat (ho_percent h)) (2 ^ 64)"
proof -
  have "bij_betw (\<lambda>d. from_digits 256 (map nat d)) {d \<in> digest_prefixes. arm_of_digest h d = HOLDOUT}
          {v \<in> {..< 2 ^ 64}. v mod 100 < nat (ho_percent h)}"
  proof (rule bij_betw_Collect [OF prefixes_bij])
    fix d assume d: "d \<in> digest_prefixes"
    then have "take 8 d = d" and "int_from_bytes d = int (from_digits 256 (map nat d))"
      by (auto simp: digest_prefixes_def int_from_bytes_digits)
    then show "(from_digits 256 (map nat d) mod 100 < nat (ho_percent h)) = (arm_of_digest h d = HOLDOUT)"
      using assms by (simp add: arm_of_digest_def Let_def zless_nat_eq_int_zless zmod_int)
  qed
  then show ?thesis by (simp add: low_residues_def bij_betw_same_card)
qed

section \<open>Properties\<close>

text \<open>
  C18 (bounds). Among the \<open>2 ^ 64\<close> possible digest prefixes, the share that lands in the holdout
  arm of a design that passes its constructor differs from the declared percentage by less than
  \<open>1 / 10 ^ 17\<close>: reducing 64 bits modulo 100 does not skew the experiment.
\<close>

theorem holdout_fraction_unbiased:
  assumes "mk_holdout h = Inr h'"
  shows "\<bar>real (card {d \<in> digest_prefixes. arm_of_digest h d = HOLDOUT}) / 2 ^ 64 - real_of_int (ho_percent h) / 100\<bar>
           < 1 / 10 ^ 17"
proof -
  have p: "1 \<le> ho_percent h" "ho_percent h \<le> 99"
    using assms by (auto simp: mk_holdout_def bind_res_Inr_iff)
  define k where "k = nat (ho_percent h)"
  have k: "ho_percent h = int k" "k \<le> 99" using p by (simp_all add: k_def)
  have "card {d \<in> digest_prefixes. arm_of_digest h d = HOLDOUT} = 184467440737095516 * k + min k 16"
    using holdout_prefixes_card [of h] low_residues_2_64 [of k] p by (simp add: k_def)
  moreover have "\<bar>(184467440737095516 * real k + real (min k 16)) / 2 ^ 64 - real k / 100\<bar> < 1 / 10 ^ 17"
    using k(2) by (auto simp: min_def abs_less_iff field_simps)
  ultimately show ?thesis by (simp add: k(1))
qed

lemma holdout_fraction_unbiased_witness:
  "\<bar>real (card {d \<in> digest_prefixes.
       arm_of_digest \<lparr>ho_unit = [''sku_id''], ho_percent = 20, ho_salt = ''s'', ho_fitted = True, ho_stands_in_for = None\<rparr> d = HOLDOUT})
     / 2 ^ 64 - 20 / 100\<bar> < 1 / 10 ^ 17"
  using holdout_fraction_unbiased
    [of "\<lparr>ho_unit = [''sku_id''], ho_percent = 20, ho_salt = ''s'', ho_fitted = True, ho_stands_in_for = None\<rparr>"
        "\<lparr>ho_unit = [''sku_id''], ho_percent = 20, ho_salt = ''s'', ho_fitted = True, ho_stands_in_for = None\<rparr>"]
  by (simp add: mk_holdout_def truthy_def raise_if_def)

text \<open>
  The string under the digest identifies the salt and the subject, as the
  source claims of its separator: as long as no value contains \<open>\x1f\<close>, two designs and subjects
  share a key only if they are the same.
\<close>

theorem holdout_key_injective:
  assumes "\<forall>v \<in> set (ho_salt h # subject). CHR 0x1F \<notin> set v"
    and "\<forall>v \<in> set (ho_salt h' # subject'). CHR 0x1F \<notin> set v"
  shows "holdout_key h subject = holdout_key h' subject' \<longleftrightarrow> ho_salt h = ho_salt h' \<and> subject = subject'"
proof -
  have "py_split (CHR 0x1F) (holdout_key h subject) = ho_salt h # subject"
    using assms(1) by (subst py_split_eq_iff) (simp_all add: holdout_key_def)
  moreover have "py_split (CHR 0x1F) (holdout_key h' subject') = ho_salt h' # subject'"
    using assms(2) by (subst py_split_eq_iff) (simp_all add: holdout_key_def)
  ultimately show ?thesis by (auto simp: holdout_key_def)
qed

lemma holdout_key_injective_witness:
  "holdout_key \<lparr>ho_unit = [''a'', ''b''], ho_percent = 20, ho_salt = ''s'', ho_fitted = True, ho_stands_in_for = None\<rparr> [''ab'', ''c''] \<noteq>
   holdout_key \<lparr>ho_unit = [''a'', ''b''], ho_percent = 20, ho_salt = ''s'', ho_fitted = True, ho_stands_in_for = None\<rparr> [''a'', ''bc'']"
  using holdout_key_injective
    [of "\<lparr>ho_unit = [''a'', ''b''], ho_percent = 20, ho_salt = ''s'', ho_fitted = True, ho_stands_in_for = None\<rparr>" "[''ab'', ''c'']"
        "\<lparr>ho_unit = [''a'', ''b''], ho_percent = 20, ho_salt = ''s'', ho_fitted = True, ho_stands_in_for = None\<rparr>" "[''a'', ''bc'']"]
  by simp

end
