(* ===== verification/Unique_Ledger.thy ===== *)
theory Unique_Ledger
  imports Main
begin

text \<open>
  The contract of an insert into a table with a uniqueness constraint where a conflict inserts
  nothing: \<open>ON CONFLICT DO NOTHING\<close>, or a unique violation that the caller recovers from. The
  action log, the run table and the delivery ledger each provide it.
\<close>

locale unique_ledger =
  fixes add :: "'row \<Rightarrow> 'row list \<Rightarrow> 'row list" and key :: "'row \<Rightarrow> 'key"
  assumes add_grows: "add r rows = rows \<or> add r rows = rows @ [r]"
    and add_unique: "add r rows = rows @ [r] \<Longrightarrow> key r \<notin> key ` set rows"
begin

lemma add_repeat: "key r \<in> key ` set rows \<Longrightarrow> add r rows = rows"
  using add_grows add_unique by metis

lemma add_prefix: "\<exists>new. add r rows = rows @ new"
  using add_grows [of r rows] by auto

lemma distinct_add: "distinct (map key rows) \<Longrightarrow> distinct (map key (add r rows))"
  using add_grows [of r rows] add_unique [of r rows] by auto

lemma keys_add: "key ` set (add r rows) \<subseteq> insert (key r) (key ` set rows)"
  using add_grows [of r rows] by auto

lemma set_add: "x \<in> set (add r rows) \<Longrightarrow> x = r \<or> x \<in> set rows"
  using add_grows [of r rows] by auto

lemma keys_kept: "key ` set rows \<subseteq> key ` set (add r rows)"
  using add_grows [of r rows] by auto

end

text \<open>A table whose only conflict is the key.\<close>

locale claiming_ledger = unique_ledger +
  assumes add_new: "key r \<notin> key ` set rows \<Longrightarrow> add r rows = rows @ [r]"
begin

lemma key_claimed: "key r \<in> key ` set (add r rows)"
  using add_repeat [of r rows] add_new [of r rows] by (cases "key r \<in> key ` set rows") auto

lemma add_iff: "add r rows = (if key r \<in> key ` set rows then rows else rows @ [r])"
  using add_repeat add_new by auto

end

end
