(* ===== verification/Json_Text.thy ===== *)
theory Json_Text
  imports Mapping_Rules Py_Text Sha256
begin

text \<open>
  The text form of JSON values as \<open>json.dumps(..., separators=(",", ":"), sort_keys=True)\<close> writes
  it and \<open>json.loads\<close> reads it. Text is a list of characters below U+0100: an escape or a UTF-8
  sequence that names a character beyond them is outside the model and reads as \<open>None\<close>, like text
  that is not JSON. A number that is not an integer is kept as its literal.
\<close>

section \<open>Rendering\<close>

text \<open>\<open>json.dumps\<close> of a string with \<open>ensure_ascii\<close>.\<close>

definition json_char :: "char \<Rightarrow> string" where
  "json_char c =
     (if c = CHR 0x22 then [CHR 0x5C, CHR 0x22]
      else if c = CHR 0x5C then [CHR 0x5C, CHR 0x5C]
      else if c = CHR 0x0A then [CHR 0x5C, CHR ''n'']
      else if c = CHR 0x0D then [CHR 0x5C, CHR ''r'']
      else if c = CHR 0x09 then [CHR 0x5C, CHR ''t'']
      else if c = CHR 0x08 then [CHR 0x5C, CHR ''b'']
      else if c = CHR 0x0C then [CHR 0x5C, CHR ''f'']
      else if CHR 0x20 \<le> c \<and> c \<le> CHR 0x7E then [c]
      else [CHR 0x5C] @ ''u00'' @ hex_text [of_char c])"

definition json_string :: "string \<Rightarrow> string" where
  "json_string s = [CHR 0x22] @ concat (map json_char s) @ [CHR 0x22]"

definition py_str_int :: "int \<Rightarrow> string" where
  "py_str_int n = (if n < 0 then ''-'' @ py_str_nat (nat (- n)) else py_str_nat (nat n))"

fun json_join :: "string list \<Rightarrow> string" where
  "json_join [] = []"
| "json_join [s] = s"
| "json_join (s # ss) = s @ '','' @ json_join ss"

definition json_member :: "string \<times> string \<Rightarrow> string" where
  "json_member kv = json_string (fst kv) @ '':'' @ snd kv"

fun json_text :: "(string \<Rightarrow> string) \<Rightarrow> json \<Rightarrow> string" where
  "json_text float_repr JNull = ''null''"
| "json_text float_repr (JBool b) = (if b then ''true'' else ''false'')"
| "json_text float_repr (JInt n) = py_str_int n"
| "json_text float_repr (JFloat t) = float_repr t"
| "json_text float_repr (JStr s) = json_string s"
| "json_text float_repr (JList vs) = ''['' @ json_join (map (json_text float_repr) vs) @ '']''"
| "json_text float_repr (JDict kvs) =
     ''{'' @ json_join (map json_member (sort_key fst (map (\<lambda>(k, v). (k, json_text float_repr v)) kvs))) @ ''}''"

section \<open>Reading\<close>

definition is_json_space :: "char \<Rightarrow> bool" where
  "is_json_space c \<longleftrightarrow> c \<in> {CHR 0x20, CHR 0x09, CHR 0x0A, CHR 0x0D}"

definition skip_ws :: "string \<Rightarrow> string" where
  "skip_ws s = dropWhile is_json_space s"

definition expect :: "char \<Rightarrow> string \<Rightarrow> string option" where
  "expect c s = (case s of [] \<Rightarrow> None | d # r \<Rightarrow> if d = c then Some r else None)"

definition json_escape :: "char \<Rightarrow> char option" where
  "json_escape e =
     (if e = CHR 0x22 \<or> e = CHR 0x5C \<or> e = CHR 0x2F then Some e
      else if e = CHR ''b'' then Some (CHR 0x08) else if e = CHR ''f'' then Some (CHR 0x0C)
      else if e = CHR ''n'' then Some (CHR 0x0A) else if e = CHR ''r'' then Some (CHR 0x0D)
      else if e = CHR ''t'' then Some (CHR 0x09) else None)"

text \<open>Four hexadecimal digits.\<close>

definition json_code_point :: "char \<Rightarrow> char \<Rightarrow> char \<Rightarrow> char \<Rightarrow> char option" where
  "json_code_point a b c d =
     (case (hex_value a, hex_value b, hex_value c, hex_value d) of
        (Some p, Some q, Some r, Some s) \<Rightarrow>
          let n = ((p * 16 + q) * 16 + r) * 16 + s in if n < 256 then Some (char_of n) else None
      | _ \<Rightarrow> None)"

text \<open>A string, after its opening quote.\<close>

fun scan_string :: "string \<Rightarrow> (string \<times> string) option" where
  "scan_string [] = None"
| "scan_string (c # cs) =
     (if c = CHR 0x22 then Some ([], cs)
      else if c = CHR 0x5C then
        (case cs of
           [] \<Rightarrow> None
         | e # r \<Rightarrow>
             if e = CHR ''u'' then
               (case r of
                  h1 # h2 # h3 # h4 # r' \<Rightarrow>
                    (case json_code_point h1 h2 h3 h4 of
                       None \<Rightarrow> None | Some u \<Rightarrow> map_option (apfst ((#) u)) (scan_string r'))
                | _ \<Rightarrow> None)
             else (case json_escape e of
                     None \<Rightarrow> None | Some u \<Rightarrow> map_option (apfst ((#) u)) (scan_string r)))
      else if c < CHR 0x20 then None
      else map_option (apfst ((#) c)) (scan_string cs))"

text \<open>\<open>(-?(?:0|[1-9]\d*))(\.\d+)?([eE][-+]?\d+)?\<close>\<close>

definition scan_fraction :: "string \<Rightarrow> string" where
  "scan_fraction s =
     (case expect (CHR ''.'') s of
        None \<Rightarrow> [] | Some r \<Rightarrow> let ds = takeWhile is_dec r in if ds = [] then [] else ''.'' @ ds)"

definition scan_exponent :: "string \<Rightarrow> string" where
  "scan_exponent s =
     (case s of
        [] \<Rightarrow> []
      | e # r \<Rightarrow>
          if e \<noteq> CHR ''e'' \<and> e \<noteq> CHR ''E'' then []
          else (let sign = (if r \<noteq> [] \<and> hd r \<in> {CHR ''+'', CHR ''-''} then [hd r] else []);
                    ds = takeWhile is_dec (drop (length sign) r)
                in if ds = [] then [] else e # sign @ ds))"

definition json_number :: "string \<Rightarrow> (json \<times> string) option" where
  "json_number s =
     (let sign = (if prefix ''-'' s then ''-'' else []);
          body = drop (length sign) s;
          ds = (if prefix ''0'' body then ''0'' else takeWhile is_dec body);
          r = drop (length ds) body;
          fr = scan_fraction r;
          ex = scan_exponent (drop (length fr) r);
          rest = drop (length ex) (drop (length fr) r)
      in if ds = [] then None
         else if fr = [] \<and> ex = [] then Some (JInt ((if sign = [] then 1 else -1) * int (dec_int ds)), rest)
         else Some (JFloat (sign @ ds @ fr @ ex), rest))"

definition json_constant :: "string \<Rightarrow> (json \<times> string) option" where
  "json_constant s =
     (if prefix ''null'' s then Some (JNull, drop 4 s)
      else if prefix ''true'' s then Some (JBool True, drop 4 s)
      else if prefix ''false'' s then Some (JBool False, drop 5 s)
      else if prefix ''NaN'' s then Some (JFloat ''NaN'', drop 3 s)
      else if prefix ''Infinity'' s then Some (JFloat ''Infinity'', drop 8 s)
      else if prefix ''-Infinity'' s then Some (JFloat ''-Infinity'', drop 9 s)
      else json_number s)"

text \<open>The fuel bounds the nesting; every call consumes a character, so the length of the text is
  enough.\<close>

fun json_value :: "nat \<Rightarrow> string \<Rightarrow> (json \<times> string) option"
and json_items :: "nat \<Rightarrow> string \<Rightarrow> (json list \<times> string) option"
and json_members :: "nat \<Rightarrow> string \<Rightarrow> ((string \<times> json) list \<times> string) option" where
  "json_value 0 s = None"
| "json_value (Suc n) s =
     (case expect (CHR 0x22) s of
        Some r \<Rightarrow> map_option (apfst JStr) (scan_string r)
      | None \<Rightarrow>
     (case expect (CHR ''{'') s of
        Some r \<Rightarrow>
          (case expect (CHR ''}'') (skip_ws r) of
             Some r' \<Rightarrow> Some (JDict [], r')
           | None \<Rightarrow> map_option (apfst (\<lambda>kvs. JDict (dict_of kvs))) (json_members n (skip_ws r)))
      | None \<Rightarrow>
     (case expect (CHR ''['') s of
        Some r \<Rightarrow>
          (case expect (CHR '']'') (skip_ws r) of
             Some r' \<Rightarrow> Some (JList [], r')
           | None \<Rightarrow> map_option (apfst JList) (json_items n (skip_ws r)))
      | None \<Rightarrow> json_constant s)))"
| "json_items 0 s = None"
| "json_items (Suc n) s =
     (case json_value n s of
        None \<Rightarrow> None
      | Some (v, r) \<Rightarrow>
          (case expect (CHR '','') (skip_ws r) of
             Some r' \<Rightarrow> map_option (apfst ((#) v)) (json_items n (skip_ws r'))
           | None \<Rightarrow> map_option (Pair [v]) (expect (CHR '']'') (skip_ws r))))"
| "json_members 0 s = None"
| "json_members (Suc n) s =
     Option.bind (expect (CHR 0x22) s) (\<lambda>q.
     Option.bind (scan_string q) (\<lambda>(k, r1).
     Option.bind (expect (CHR '':'') (skip_ws r1)) (\<lambda>r2.
     Option.bind (json_value n (skip_ws r2)) (\<lambda>(v, r3).
     case expect (CHR '','') (skip_ws r3) of
       Some r4 \<Rightarrow> map_option (apfst ((#) (k, v))) (json_members n (skip_ws r4))
     | None \<Rightarrow> map_option (Pair [(k, v)]) (expect (CHR ''}'') (skip_ws r3))))))"

definition json_loads :: "string \<Rightarrow> json option" where
  "json_loads s =
     (case json_value (Suc (length s)) (skip_ws s) of
        None \<Rightarrow> None | Some (v, r) \<Rightarrow> if skip_ws r = [] then Some v else None)"

section \<open>Reading what was written\<close>

lemma expect_simps [simp]: "expect c [] = None" "expect c (d # r) = (if d = c then Some r else None)"
  by (simp_all add: expect_def)

lemma json_code_point_hex:
  "json_code_point (CHR ''0'') (CHR ''0'') (hex_digit (of_char c div 16)) (hex_digit (of_char c mod 16)) = Some c"
proof -
  have n: "(of_char c :: nat) < 256" by (rule nat_of_char_less_256)
  have "hex_value (hex_digit (of_char c div 16)) = Some (of_char c div 16)"
    "hex_value (hex_digit (of_char c mod 16)) = Some (of_char c mod 16)"
    by (rule hex_digit_cases(2); use n in linarith)+
  moreover have "hex_value (CHR ''0'') = Some 0" by (simp add: hex_value_def)
  moreover have "((0 * 16 + 0) * 16 + (of_char c :: nat) div 16) * 16 + of_char c mod 16 = of_char c" by simp
  ultimately show ?thesis using n unfolding json_code_point_def by (simp only: prod.case option.case Let_def) simp
qed

lemma hex_text_char: "hex_text [of_char c] = [hex_digit (of_char c div 16), hex_digit (of_char c mod 16)]"
proof -
  have i: "(of_char c :: int) = int (of_char c)" by (rule of_nat_of_char [symmetric])
  have "nat (int k div 16) = k div 16" "nat (int k mod 16) = k mod 16" for k
    using zdiv_int [of k 16] zmod_int [of k 16] by (simp_all del: of_nat_div of_nat_mod)
  then show ?thesis unfolding hex_text_def i by (simp only: hex_digit_def list.map concat.simps append_Nil2)
qed

lemma scan_json_char: "scan_string (json_char c @ r) = map_option (apfst ((#) c)) (scan_string r)"
proof (cases "c \<in> {CHR 0x22, CHR 0x5C, CHR 0x0A, CHR 0x0D, CHR 0x09, CHR 0x08, CHR 0x0C}")
  case True
  then show ?thesis by (elim insertE; simp add: json_char_def json_escape_def)
next
  case special: False
  show ?thesis
  proof (cases "CHR 0x20 \<le> c \<and> c \<le> CHR 0x7E")
    case True
    then have "json_char c = [c]" using special by (simp add: json_char_def)
    moreover have "\<not> c < CHR 0x20" using True by (simp only: not_less)
    ultimately show ?thesis using special by simp
  next
    case False
    then have "json_char c = [CHR 0x5C, CHR ''u'', CHR ''0'', CHR ''0'', hex_digit (of_char c div 16), hex_digit (of_char c mod 16)]"
      using special by (simp add: json_char_def hex_text_char)
    then show ?thesis by (simp add: json_code_point_hex)
  qed
qed

lemma scan_json_string: "scan_string (concat (map json_char s) @ CHR 0x22 # rest) = Some (s, rest)"
  by (induction s) (simp_all add: scan_json_char)

text \<open>What may follow a value inside a text.\<close>

definition value_ends :: "string \<Rightarrow> bool" where
  "value_ends rest \<longleftrightarrow> rest = [] \<or> hd rest \<in> {CHR '','', CHR ''}'', CHR '']''}"

lemma str_nat_hd: "n < k \<Longrightarrow> str_nat_fuel k n \<noteq> [] \<and> (hd (str_nat_fuel k n) = CHR ''0'' \<longrightarrow> n = 0)"
proof (induction k arbitrary: n)
  case (Suc k)
  show ?case
  proof (cases "n < 10")
    case True
    then show ?thesis using dec_digit_props(2) [of n] by (auto simp: dec_val_def)
  next
    case False
    then have "n div 10 < k" "n div 10 \<noteq> 0" using Suc.prems by linarith+
    then show ?thesis using Suc.IH [of "n div 10"] False by (simp add: hd_append)
  qed
qed simp

lemma py_str_nat_props:
  "list_all is_dec (py_str_nat n)" "py_str_nat n \<noteq> []" "hd (py_str_nat n) = CHR ''0'' \<Longrightarrow> n = 0"
  using str_nat_fuel_enough [of n "Suc n"] str_nat_hd [of n "Suc n"] by (simp_all add: py_str_nat_def)

lemma py_str_nat_0: "py_str_nat 0 = ''0''"
  by code_simp

lemma value_ends_scans:
  assumes "value_ends rest"
  shows "scan_fraction rest = []" "scan_exponent rest = []" "takeWhile is_dec rest = []"
  using assms by (cases rest; auto simp: value_ends_def scan_fraction_def scan_exponent_def is_dec_def)+

lemma json_number_int:
  assumes "value_ends rest"
  shows "json_number (py_str_int n @ rest) = Some (JInt n, rest)"
proof -
  define ds where "ds = py_str_nat (nat \<bar>n\<bar>)"
  have shape: "py_str_int n = (if n < 0 then ''-'' else []) @ ds" by (simp add: py_str_int_def ds_def)
  obtain d ds' where d: "ds = d # ds'" "is_dec d" using py_str_nat_props(1,2) [of "nat \<bar>n\<bar>"] unfolding ds_def by (cases "py_str_nat (nat \<bar>n\<bar>)") auto
  have minus: "prefix ''-'' (py_str_int n @ rest) \<longleftrightarrow> n < 0" unfolding shape using d by (auto simp: is_dec_def)
  have dec: "takeWhile is_dec (ds @ rest) = ds"
    using py_str_nat_props(1) value_ends_scans(3) [OF assms] by (simp add: ds_def takeWhile_append list_all_iff)
  have zero: "ds = ''0''" if "prefix ''0'' (ds @ rest)"
    using that py_str_nat_props(3) [of "nat \<bar>n\<bar>"] d py_str_nat_0 by (auto simp: ds_def)
  have "dec_int ds = nat \<bar>n\<bar>" by (simp add: ds_def dec_int_str)
  then show ?thesis
    unfolding json_number_def minus Let_def using d(1) dec zero value_ends_scans [OF assms]
    by (auto simp: shape)
qed

fun wire :: "json \<Rightarrow> bool" where
  "wire (JFloat t) = False"
| "wire (JList vs) = (\<forall>v \<in> set vs. wire v)"
| "wire (JDict kvs) = (sorted (map fst kvs) \<and> distinct (map fst kvs) \<and> (\<forall>(k, v) \<in> set kvs. wire v))"
| "wire v = True"

lemma text_start:
  assumes "wire v"
  obtains c t where "json_text fr v = c # t" "\<not> is_json_space c" "c \<noteq> CHR '']''" "c \<noteq> CHR ''}''"
proof -
  have "is_dec c \<Longrightarrow> \<not> is_json_space c \<and> c \<noteq> CHR '']'' \<and> c \<noteq> CHR ''}''" for c
    by (auto simp: is_dec_def is_json_space_def)
  then have "\<exists>c t. json_text fr v = c # t \<and> \<not> is_json_space c \<and> c \<noteq> CHR '']'' \<and> c \<noteq> CHR ''}''"
    using assms py_str_nat_props(1,2)
    by (cases v) (auto simp: json_string_def py_str_int_def is_json_space_def neq_Nil_conv list_all_iff, metis list.set_intros(1))
  then show ?thesis using that by blast
qed

lemma skip_ws_text [simp]: "wire v \<Longrightarrow> skip_ws (json_text fr v @ r) = json_text fr v @ r"
  by (erule text_start [of v fr]) (simp add: skip_ws_def)

lemma skip_ws_marks [simp]:
  "skip_ws (CHR '','' # r) = CHR '','' # r" "skip_ws (CHR '']'' # r) = CHR '']'' # r" "skip_ws (CHR ''}'' # r) = CHR ''}'' # r"
  "skip_ws (CHR '':'' # r) = CHR '':'' # r" "skip_ws (CHR 0x22 # r) = CHR 0x22 # r" "skip_ws [] = []"
  by (simp_all add: skip_ws_def is_json_space_def)

lemma value_ends_marks [simp]:
  "value_ends (CHR '','' # r)" "value_ends (CHR '']'' # r)" "value_ends (CHR ''}'' # r)" "value_ends []"
  by (simp_all add: value_ends_def)

lemma json_items_text:
  assumes "\<And>v m r. v \<in> set vs \<Longrightarrow> length (json_text fr v) < m \<Longrightarrow> value_ends r \<Longrightarrow>
      json_value m (json_text fr v @ r) = Some (v, r)"
    and "vs \<noteq> []" "\<forall>v \<in> set vs. wire v" "length (json_join (map (json_text fr) vs)) + 1 < n"
  shows "json_items n (json_join (map (json_text fr) vs) @ CHR '']'' # rest) = Some (vs, rest)"
  using assms
proof (induction vs arbitrary: n)
  case (Cons v vs)
  obtain m where m: "n = Suc m" using Cons.prems(4) by (cases n) simp_all
  show ?case
  proof (cases vs)
    case Nil
    then show ?thesis using Cons.prems by (simp add: m)
  next
    case (Cons w ws)
    have "json_value m (json_text fr v @ CHR '','' # r) = Some (v, CHR '','' # r)" for r
      using Cons.prems(1) [of v m] Cons.prems(4) Cons by (simp add: m)
    moreover have "json_items m (json_join (map (json_text fr) vs) @ CHR '']'' # rest) = Some (vs, rest)"
      using Cons.IH [of m] Cons.prems Cons by (simp add: m)
    moreover have "skip_ws (json_join (map (json_text fr) vs) @ r) = json_join (map (json_text fr) vs) @ r" for r
      using Cons Cons.prems(3) by (cases ws) simp_all
    ultimately show ?thesis by (simp add: m Cons)
  qed
qed simp

definition member_text :: "(string \<Rightarrow> string) \<Rightarrow> string \<times> json \<Rightarrow> string" where
  "member_text fr kv = json_member (fst kv, json_text fr (snd kv))"

lemma member_text_eq:
  "member_text fr (k, v) = CHR 0x22 # concat (map json_char k) @ CHR 0x22 # CHR '':'' # json_text fr v"
  by (simp add: member_text_def json_member_def json_string_def)

lemma json_members_text:
  assumes "\<And>k v m r. (k, v) \<in> set kvs \<Longrightarrow> length (json_text fr v) < m \<Longrightarrow> value_ends r \<Longrightarrow>
      json_value m (json_text fr v @ r) = Some (v, r)"
    and "kvs \<noteq> []" "\<forall>(k, v) \<in> set kvs. wire v" "length (json_join (map (member_text fr) kvs)) + 1 < n"
  shows "json_members n (json_join (map (member_text fr) kvs) @ CHR ''}'' # rest) = Some (kvs, rest)"
  using assms
proof (induction kvs arbitrary: n)
  case (Cons kv kvs)
  obtain m where m: "n = Suc m" using Cons.prems(4) by (cases n) simp_all
  obtain k v where kv: "kv = (k, v)" by (cases kv)
  have member: "json_members n (member_text fr kv @ r) =
      (case expect (CHR '','') (skip_ws r) of
         Some r4 \<Rightarrow> map_option (apfst ((#) (k, v))) (json_members m (skip_ws r4))
       | None \<Rightarrow> map_option (Pair [(k, v)]) (expect (CHR ''}'') (skip_ws r)))"
    if "value_ends r" for r
  proof -
    have "length (json_text fr v) < m" using Cons.prems(4) by (cases kvs) (simp_all add: m kv member_text_eq)
    then have "json_value m (json_text fr v @ r) = Some (v, r)" using Cons.prems(1) [of k v m r] that by (simp add: kv)
    moreover have "wire v" using Cons.prems(3) by (simp add: kv)
    ultimately show ?thesis by (simp add: m kv member_text_eq scan_json_string [of k])
  qed
  show ?case
  proof (cases kvs)
    case Nil
    then show ?thesis using member [of "CHR ''}'' # rest"] by (simp add: kv)
  next
    case (Cons w ws)
    have "json_members m (json_join (map (member_text fr) kvs) @ CHR ''}'' # rest) = Some (kvs, rest)"
    proof (rule Cons.IH)
      show "json_value j (json_text fr v @ r) = Some (v, r)"
        if "(k, v) \<in> set kvs" "length (json_text fr v) < j" "value_ends r" for k v j r
        using Cons.prems(1) [of k v j r] that by simp
    qed (use Cons.prems Cons in \<open>simp_all add: m\<close>)
    moreover have "skip_ws (json_join (map (member_text fr) kvs) @ r) = json_join (map (member_text fr) kvs) @ r" for r
      using Cons by (cases w; cases ws) (simp_all add: member_text_eq)
    ultimately show ?thesis
      using member [of "CHR '','' # json_join (map (member_text fr) kvs) @ CHR ''}'' # rest"] by (simp add: kv Cons)
  qed
qed simp

lemma sorted_members: "sorted (map fst kvs) \<Longrightarrow>
    map json_member (sort_key fst (map (\<lambda>(k, v). (k, json_text fr v)) kvs)) = map (member_text fr) kvs"
  by (subst sort_key_id_if_sorted) (simp_all add: comp_def case_prod_beta member_text_def)

lemma json_value_text:
  "wire v \<Longrightarrow> length (json_text fr v) < n \<Longrightarrow> value_ends rest \<Longrightarrow> json_value n (json_text fr v @ rest) = Some (v, rest)"
proof (induction fr v arbitrary: n rest rule: json_text.induct)
  case (3 fr i)
  then obtain m where m: "n = Suc m" by (cases n) simp_all
  obtain c t where c: "py_str_int i = c # t" "is_dec c \<or> c = CHR ''-'' \<and> t \<noteq> [] \<and> is_dec (hd t)"
  proof -
    obtain d ds where "py_str_nat (nat \<bar>i\<bar>) = d # ds" "is_dec d"
      using py_str_nat_props(1,2) [of "nat \<bar>i\<bar>"] by (cases "py_str_nat (nat \<bar>i\<bar>)") auto
    then show ?thesis using that by (cases "i < 0") (auto simp: py_str_int_def)
  qed
  have marks: "\<not> is_dec (CHR ''n'')" "\<not> is_dec (CHR ''t'')" "\<not> is_dec (CHR ''f'')" "\<not> is_dec (CHR ''N'')"
    "\<not> is_dec (CHR ''I'')" "\<not> is_dec (CHR 0x22)" "\<not> is_dec (CHR ''{'')" "\<not> is_dec (CHR ''['')"
    by (simp_all add: is_dec_def)
  have ne: "c \<noteq> CHR ''n''" "c \<noteq> CHR ''t''" "c \<noteq> CHR ''f''" "c \<noteq> CHR ''N''" "c \<noteq> CHR ''I''" "c \<noteq> CHR 0x22"
    "c \<noteq> CHR ''{''" "c \<noteq> CHR ''[''"
    using c(2) marks by blast+
  have "\<not> prefix ''-Infinity'' (py_str_int i @ rest)"
  proof
    assume *: "prefix ''-Infinity'' (py_str_int i @ rest)"
    then have "c = CHR ''-''" by (simp add: c(1))
    then have "t \<noteq> []" "is_dec (hd t)" using c(2) by (auto simp: is_dec_def)
    then show False using * marks(5) by (cases t) (simp_all add: c(1))
  qed
  then have plain: "json_constant (py_str_int i @ rest) = json_number (py_str_int i @ rest)"
    using ne by (auto simp: json_constant_def c(1))
  have "expect q (py_str_int i @ rest) = None" if "q \<in> {CHR 0x22, CHR ''{'', CHR ''[''}" for q
    using that ne by (auto simp: c(1))
  then show ?case using plain json_number_int [OF 3(3), of i] by (simp add: m)
next
  case (6 fr vs)
  then obtain m where m: "n = Suc m" by (cases n) simp_all
  show ?case
  proof (cases vs)
    case (Cons w ws)
    have "json_items m (json_join (map (json_text fr) vs) @ CHR '']'' # rest) = Some (vs, rest)"
    proof (rule json_items_text)
      show "json_value j (json_text fr v @ r) = Some (v, r)"
        if "v \<in> set vs" "length (json_text fr v) < j" "value_ends r" for v j r
        using 6(1) [of v j r] 6(2) that by simp
    qed (use 6 Cons in \<open>simp_all add: m\<close>)
    moreover have "skip_ws (json_join (map (json_text fr) vs) @ r) = json_join (map (json_text fr) vs) @ r" for r
      using 6(2) Cons by (cases ws) simp_all
    moreover have "expect (CHR '']'') (json_join (map (json_text fr) vs) @ r) = None" for r
      using 6(2) Cons by (cases ws; auto elim: text_start [of w fr])
    ultimately show ?thesis by (simp add: m)
  qed (simp add: m)
next
  case (7 fr kvs)
  then obtain m where m: "n = Suc m" by (cases n) simp_all
  show ?case
  proof (cases kvs)
    case (Cons w ws)
    have "json_members m (json_join (map (member_text fr) kvs) @ CHR ''}'' # rest) = Some (kvs, rest)"
    proof (rule json_members_text)
      show "json_value j (json_text fr v @ r) = Some (v, r)"
        if "(k, v) \<in> set kvs" "length (json_text fr v) < j" "value_ends r" for k v j r
        using 7(1) [of "(k, v)" k v j r] 7(2) that by auto
      show "length (json_join (map (member_text fr) kvs)) + 1 < m"
        using 7(2,3) sorted_members [of kvs fr] by (simp add: m)
    qed (use 7(2) Cons in simp_all)
    moreover have "skip_ws (json_join (map (member_text fr) kvs) @ r) = json_join (map (member_text fr) kvs) @ r"
      "expect (CHR ''}'') (json_join (map (member_text fr) kvs) @ r) = None" for r
      using Cons by (cases w; cases ws; simp add: member_text_eq)+
    ultimately show ?thesis using 7(2) by (simp add: m sorted_members dict_of_distinct)
  qed (simp add: m)
qed (case_tac n; simp add: json_constant_def json_string_def scan_json_string)+

text \<open>Reading back what was written: for values without floats, keys in order.\<close>

lemma json_loads_text:
  assumes "wire v"
  shows "json_loads (json_text fr v) = Some v"
proof -
  have "skip_ws (json_text fr v) = json_text fr v" using skip_ws_text [OF assms, of fr "[]"] by simp
  then show ?thesis using json_value_text [OF assms, of fr "Suc (length (json_text fr v))" "[]"] by (simp add: json_loads_def)
qed

section \<open>The fuel\<close>

text \<open>A successful call consumes at least as many characters as it needs fuel.\<close>

lemma skip_ws_length: "length (skip_ws s) \<le> length s"
  by (simp add: skip_ws_def length_dropWhile_le)

lemma expect_length: "expect c s = Some r \<Longrightarrow> length s = Suc (length r)"
  by (cases s) (auto split: if_splits)

lemma scan_string_length: "scan_string s = Some (k, r) \<Longrightarrow> length r < length s"
proof (induction s arbitrary: k r rule: scan_string.induct)
  case (2 c cs)
  then show ?case
    by (auto split: if_splits list.splits option.splits simp: less_Suc_eq_le) (fastforce dest: less_imp_le)+
qed simp

lemma json_number_length: "json_number s = Some (v, r) \<Longrightarrow> length r < length s"
proof -
  assume a: "json_number s = Some (v, r)"
  define sign where "sign = (if prefix ''-'' s then ''-'' else [])"
  define body where "body = drop (length sign) s"
  define ds where "ds = (if prefix ''0'' body then ''0'' else takeWhile is_dec body)"
  have ds: "ds \<noteq> []" and r: "length r \<le> length body - length ds"
    using a unfolding json_number_def Let_def sign_def [symmetric] body_def [symmetric] ds_def [symmetric]
    by (auto split: if_splits)
  have "length ds \<le> length body"
    by (auto simp: ds_def length_takeWhile_le prefix_def)
  moreover have "length body \<le> length s" by (simp add: body_def)
  ultimately show ?thesis using ds r by (cases ds) auto
qed

lemma json_constant_length:
  assumes "json_constant s = Some (v, r)"
  shows "length r < length s"
proof -
  have "length (drop k s) < length s" if "prefix p s" "p \<noteq> []" "length p = k" for p k
    using that by (auto simp: prefix_def)
  then show ?thesis
    using assms json_number_length by (auto simp: json_constant_def split: if_splits)
qed

lemma json_fuel:
  "json_value m s = Some (v, r) \<Longrightarrow>
     length r < length s \<and> (\<forall>n. length s \<le> n + length r \<longrightarrow> json_value n s = Some (v, r))"
  "json_items m s = Some (vs, r) \<Longrightarrow>
     length r < length s \<and> (\<forall>n. length s \<le> n + length r \<longrightarrow> json_items n s = Some (vs, r))"
  "json_members m s = Some (kvs, r) \<Longrightarrow>
     length r < length s \<and> (\<forall>n. length s \<le> n + length r \<longrightarrow> json_members n s = Some (kvs, r))"
proof (induction m s and m s and m s arbitrary: v r and vs r and kvs r rule: json_value_json_items_json_members.induct)
  case (2 n s)
  have suc: "\<exists>k. j = Suc k" if "length r < length s" "length s \<le> j + length r" for j
    using that by (cases j) auto
  show ?case
  proof (cases "expect (CHR 0x22) s")
    case (Some q)
    then obtain k where "v = JStr k" "scan_string q = Some (k, r)" using "2.prems" by auto
    then show ?thesis
      using Some expect_length [OF Some] scan_string_length suc by fastforce
  next
    case quote: None
    show ?thesis
    proof (cases "expect (CHR ''{'') s")
      case q: (Some q)
      show ?thesis
      proof (cases "expect (CHR ''}'') (skip_ws q)")
        case (Some r')
        then have "length r < length s" "v = JDict []" "r' = r"
          using "2.prems" quote q expect_length [OF q] expect_length [OF Some] skip_ws_length [of q] by auto
        then show ?thesis using suc quote q Some by fastforce
      next
        case None
        then obtain kvs where v: "v = JDict (dict_of kvs)" and m: "json_members n (skip_ws q) = Some (kvs, r)"
          using "2.prems" quote q by auto
        note ih = "2.IH"(2) [OF quote q None m]
        have len: "length r < length s" using ih skip_ws_length [of q] expect_length [OF q] by simp
        have "json_value j s = Some (v, r)" if le: "length s \<le> j + length r" for j
        proof -
          obtain k where j: "j = Suc k" using suc [OF len le] by blast
          have "json_members k (skip_ws q) = Some (kvs, r)"
            using ih that j skip_ws_length [of q] expect_length [OF q] by simp
          then show ?thesis using quote q None v j by simp
        qed
        then show ?thesis using len by blast
      qed
    next
      case brace: None
      show ?thesis
      proof (cases "expect (CHR ''['') s")
        case q: (Some q)
        show ?thesis
        proof (cases "expect (CHR '']'') (skip_ws q)")
          case (Some r')
          then have "length r < length s" "v = JList []" "r' = r"
            using "2.prems" quote brace q expect_length [OF q] expect_length [OF Some] skip_ws_length [of q] by auto
          then show ?thesis using suc quote brace q Some by fastforce
        next
          case None
          then obtain vs where v: "v = JList vs" and m: "json_items n (skip_ws q) = Some (vs, r)"
            using "2.prems" quote brace q by auto
          note ih = "2.IH"(1) [OF quote brace q None m]
          have len: "length r < length s" using ih skip_ws_length [of q] expect_length [OF q] by simp
          have "json_value j s = Some (v, r)" if le: "length s \<le> j + length r" for j
          proof -
            obtain k where j: "j = Suc k" using suc [OF len le] by blast
            have "json_items k (skip_ws q) = Some (vs, r)"
              using ih that j skip_ws_length [of q] expect_length [OF q] by simp
            then show ?thesis using quote brace q None v j by simp
          qed
          then show ?thesis using len by blast
        qed
      next
        case None
        then have "json_constant s = Some (v, r)" using "2.prems" quote brace by simp
        then show ?thesis using json_constant_length suc quote brace None by fastforce
      qed
    qed
  qed
next
  case (4 n s)
  obtain v r1 where v: "json_value n s = Some (v, r1)" using "4.prems" by (auto split: option.splits)
  note ih1 = "4.IH"(1) [OF v]
  show ?case
  proof (cases "expect (CHR '','') (skip_ws r1)")
    case (Some r2)
    then obtain vs' where vs: "vs = v # vs'" and m: "json_items n (skip_ws r2) = Some (vs', r)" using "4.prems" v by auto
    note ih2 = "4.IH"(2) [OF v refl Some m]
    note len = skip_ws_length [of r1] skip_ws_length [of r2] expect_length [OF Some]
    have "json_items j s = Some (vs, r)" if le: "length s \<le> j + length r" for j
    proof -
      obtain k where j: "j = Suc k" using le ih1 ih2 len by (cases j) auto
      have "json_value k s = Some (v, r1)" "json_items k (skip_ws r2) = Some (vs', r)"
        using le j ih1 ih2 len by simp_all
      then show ?thesis using Some vs j by simp
    qed
    then show ?thesis using ih1 ih2 len by auto
  next
    case None
    then have vs: "vs = [v]" and e: "expect (CHR '']'') (skip_ws r1) = Some r" using "4.prems" v by auto
    note len = skip_ws_length [of r1] expect_length [OF e]
    have "json_items j s = Some (vs, r)" if le: "length s \<le> j + length r" for j
    proof -
      obtain k where j: "j = Suc k" using le ih1 len by (cases j) auto
      have "json_value k s = Some (v, r1)" using le j ih1 len by simp
      then show ?thesis using None e vs j by simp
    qed
    then show ?thesis using ih1 len by auto
  qed
next
  case (6 n s)
  obtain q k r1 r2 v r3 where q: "expect (CHR 0x22) s = Some q" and k: "scan_string q = Some (k, r1)"
    and r2: "expect (CHR '':'') (skip_ws r1) = Some r2" and v: "json_value n (skip_ws r2) = Some (v, r3)"
    using "6.prems" by (auto simp: bind_eq_Some_conv)
  note ih1 = "6.IH"(1) [OF q k refl r2 v]
  note len = expect_length [OF q] scan_string_length [OF k] skip_ws_length [of r1] expect_length [OF r2] skip_ws_length [of r2]
    skip_ws_length [of r3]
  show ?case
  proof (cases "expect (CHR '','') (skip_ws r3)")
    case (Some r4)
    then obtain kvs' where kvs: "kvs = (k, v) # kvs'" and m: "json_members n (skip_ws r4) = Some (kvs', r)"
      using "6.prems" q k r2 v by auto
    note ih2 = "6.IH"(2) [OF q k refl r2 v refl Some m]
    note len' = len expect_length [OF Some] skip_ws_length [of r4]
    have "json_members j s = Some (kvs, r)" if le: "length s \<le> j + length r" for j
    proof -
      obtain i where j: "j = Suc i" using le ih1 ih2 len' by (cases j) auto
      have "json_value i (skip_ws r2) = Some (v, r3)" "json_members i (skip_ws r4) = Some (kvs', r)"
        using le j ih1 ih2 len' by simp_all
      then show ?thesis using q k r2 Some kvs j by simp
    qed
    then show ?thesis using ih1 ih2 len' by auto
  next
    case None
    then have kvs: "kvs = [(k, v)]" and e: "expect (CHR ''}'') (skip_ws r3) = Some r" using "6.prems" q k r2 v by auto
    note len' = len expect_length [OF e]
    have "json_members j s = Some (kvs, r)" if le: "length s \<le> j + length r" for j
    proof -
      obtain i where j: "j = Suc i" using le ih1 len' by (cases j) auto
      have "json_value i (skip_ws r2) = Some (v, r3)" using le j ih1 len' by simp
      then show ?thesis using q k r2 None e kvs j by simp
    qed
    then show ?thesis using ih1 len' by auto
  qed
qed simp_all

text \<open>No fuel reads a text that the length of the text does not.\<close>

lemma json_fuel_enough:
  assumes "json_value m (skip_ws s) = Some p"
  shows "json_value (Suc (length s)) (skip_ws s) = Some p"
proof -
  have "json_value m (skip_ws s) = Some (fst p, snd p)" using assms by simp
  from json_fuel(1) [OF this]
  have "length (skip_ws s) \<le> Suc (length s) + length (snd p) \<longrightarrow> json_value (Suc (length s)) (skip_ws s) = Some (fst p, snd p)" by blast
  then show ?thesis using skip_ws_length [of s] by (simp del: json_value.simps)
qed

end
