(* ===== verification/Synapse_Resolvers.thy ===== *)
theory Synapse_Resolvers
  imports Synapse_Core "HOL-Library.Product_Lexorder" "HOL-Library.Multiset"
begin

text \<open>
  The resolvers (\<open>synapse/src/synapse/resolvers\<close>): the read-time latest-wins collapse over the sale
  events, the daily series with its coverage probe, the last sale per position, and the current
  state of the hot table. A statement is a function of the table as it stands when the statement
  runs; the row-level security of the session keeps the rows of its tenant and is stated together
  with the tenant predicate of the query, which repeats it.
\<close>

section \<open>Sale events and the collapse (\_collapse.py)\<close>

datatype sale_subtype = SALE | RETURN | VOID

record sale_event =
  se_id :: uuid
  se_tenant_id :: uuid
  se_store_id :: uuid
  se_source_id :: string
  se_source_event_id :: string
  se_sku_id :: string
  se_event_date :: date
  se_event_subtype :: sale_subtype
  se_quantity :: numeric_14_3
  se_source_sale_timestamp :: int
  se_last_updated_at :: int

type_synonym dedup_key = "uuid \<times> uuid \<times> string \<times> string"

definition DEDUP_KEY :: "sale_event \<Rightarrow> dedup_key" where
  "DEDUP_KEY e = (se_tenant_id e, se_store_id e, se_source_id e, se_source_event_id e)"

text \<open>The order the survivor of a key is picked by: event time, then write time, then id, all
  descending.\<close>

definition precedence :: "sale_event \<Rightarrow> int \<times> int \<times> uuid" where
  "precedence e = (se_source_sale_timestamp e, se_last_updated_at e, se_id e)"

definition latest_row :: "sale_event list \<Rightarrow> sale_event" where
  "latest_row es = foldl (\<lambda>b e. if precedence b < precedence e then e else b) (hd es) (tl es)"

text \<open>\<open>SELECT DISTINCT ON (key) ... WHERE where ORDER BY key, precedence DESC\<close>. The keys come in
  order of first occurrence: every use aggregates the result and orders it again.\<close>

definition collapse_latest_wins :: "(sale_event \<Rightarrow> bool) \<Rightarrow> sale_event list \<Rightarrow> sale_event list" where
  "collapse_latest_wins cond events =
     (let rows = filter cond events
      in map (\<lambda>k. latest_row (filter (\<lambda>e. DEDUP_KEY e = k) rows)) (remdups (map DEDUP_KEY rows)))"

definition key_scoped_predicate :: "uuid \<Rightarrow> uuid option \<Rightarrow> sale_event \<Rightarrow> bool" where
  "key_scoped_predicate tenant store e \<longleftrightarrow>
     se_tenant_id e = tenant \<and> (case store of None \<Rightarrow> True | Some s \<Rightarrow> se_store_id e = s)"

definition sku_filter :: "string option \<Rightarrow> sale_event \<Rightarrow> bool" where
  "sku_filter sku e \<longleftrightarrow> (case sku of None \<Rightarrow> True | Some s \<Rightarrow> se_sku_id e = s)"

definition series_key :: "sale_event \<Rightarrow> position_key" where
  "series_key e = (se_tenant_id e, se_store_id e, se_sku_id e)"

text \<open>The identity of a series as the probe reports it, and as \<open>only_series\<close> carries it.\<close>

definition series_text :: "position_key \<Rightarrow> string list" where
  "series_text k = (case k of (tenant, store, sku) \<Rightarrow> [uuid_str tenant, uuid_str store, sku])"

section \<open>The daily series (daily\_series.py)\<close>

definition MAX_ROWS :: nat where
  "MAX_ROWS = 20000"

definition MAX_SERIES :: nat where
  "MAX_SERIES = 5000"

definition effective_limit :: "int \<Rightarrow> nat" where
  "effective_limit limit = (if limit < 1 \<or> int MAX_ROWS < limit then MAX_ROWS else nat limit)"

text \<open>Sort keys: a \<open>uuid\<close> column orders by value, a \<open>COLLATE "C"\<close> text column by its bytes.\<close>

definition day_key :: "sale_event \<Rightarrow> uuid \<times> string \<times> date \<times> uuid" where
  "day_key e = (se_store_id e, se_sku_id e, se_event_date e, se_tenant_id e)"

definition count_subtype :: "sale_subtype \<Rightarrow> sale_event list \<Rightarrow> nat" where
  "count_subtype s es = length (filter (\<lambda>e. se_event_subtype e = s) es)"

definition day_row :: "sale_event list \<Rightarrow> daily_series_row" where
  "day_row es =
     \<lparr>ds_tenant_id = se_tenant_id (hd es), ds_store_id = se_store_id (hd es), ds_sku_id = se_sku_id (hd es),
      ds_event_date = se_event_date (hd es), ds_net_quantity = sum_list (map se_quantity es),
      ds_sale_line_count = count_subtype SALE es, ds_return_line_count = count_subtype RETURN es,
      ds_void_line_count = count_subtype VOID es\<rparr>"

text \<open>\<open>GROUP BY\<close> with an \<open>ORDER BY\<close> over the grouping key.\<close>

definition group_by :: "('a \<Rightarrow> 'k :: linorder) \<Rightarrow> 'a list \<Rightarrow> 'a list list" where
  "group_by f xs = map (\<lambda>k. filter (\<lambda>x. f x = k) xs) (sort (remdups (map f xs)))"

text \<open>The arguments are refused before the statement runs.\<close>

definition check_series_arguments :: "date \<Rightarrow> date \<Rightarrow> string list list option \<Rightarrow> unit result" where
  "check_series_arguments date_from date_to only_series =
     bind_res (raise_if (date_from > date_to) (ValueError ''date_from is after date_to'')) (\<lambda>_.
     case only_series of
       None \<Rightarrow> Inr ()
     | Some ks \<Rightarrow>
         bind_res (raise_if (ks = []) (ValueError ''only_series is empty'')) (\<lambda>_.
         raise_if (length ks > MAX_SERIES) (ResultTooLargeError ''only_series'')))"

definition resolve_daily_series ::
  "sale_event list \<Rightarrow> uuid \<Rightarrow> date \<Rightarrow> date \<Rightarrow> uuid option \<Rightarrow> string option \<Rightarrow> string list list option \<Rightarrow> int \<Rightarrow>
   daily_series_row list result" where
  "resolve_daily_series events tenant date_from date_to store sku only_series limit =
     bind_res (check_series_arguments date_from date_to only_series) (\<lambda>_.
     let lim = effective_limit limit;
         collapsed = collapse_latest_wins (key_scoped_predicate tenant store) events;
         survivors = filter (\<lambda>e. date_from \<le> se_event_date e \<and> se_event_date e \<le> date_to \<and> sku_filter sku e \<and>
                              (case only_series of None \<Rightarrow> True | Some ks \<Rightarrow> series_text (series_key e) \<in> set ks))
                       collapsed;
         rows = take (lim + 1) (map day_row (group_by day_key survivors))
     in bind_res (raise_if (length rows > lim) (ResultTooLargeError ''daily_series'')) (\<lambda>_. Inr rows))"

subsection \<open>The coverage probe\<close>

record observation =
  ob_pairs_measured :: nat
  ob_pairs_qualifying :: nat
  ob_measured_at :: int
  ob_qualifying :: "string list list option"

definition mk_observation :: "observation \<Rightarrow> observation result" where
  "mk_observation o1 =
     bind_res (raise_if (case ob_qualifying o1 of None \<Rightarrow> False | Some q \<Rightarrow> length q \<noteq> ob_pairs_qualifying o1)
                 (ValueError ''the count and the identities must agree'')) (\<lambda>_. Inr o1)"

text \<open>\<open>per_series\<close>: each series in scope with its number of distinct dates, ordered by the grain.\<close>

definition per_series :: "sale_event list \<Rightarrow> uuid \<Rightarrow> uuid option \<Rightarrow> string option \<Rightarrow> (position_key \<times> nat) list" where
  "per_series events tenant store sku =
     (let survivors = filter (sku_filter sku) (collapse_latest_wins (key_scoped_predicate tenant store) events)
      in map (\<lambda>k. (k, length (remdups (map se_event_date (filter (\<lambda>e. series_key e = k) survivors)))))
           (sort (remdups (map series_key survivors))))"

definition probe_statement ::
  "sale_event list \<Rightarrow> uuid \<Rightarrow> uuid option \<Rightarrow> string option \<Rightarrow> int \<Rightarrow> nat \<times> nat" where
  "probe_statement events tenant store sku required =
     (let series = per_series events tenant store sku
      in (length series, length (filter (\<lambda>(k, coverage). int coverage \<ge> required) series)))"

definition qualifying_statement ::
  "sale_event list \<Rightarrow> uuid \<Rightarrow> uuid option \<Rightarrow> string option \<Rightarrow> int \<Rightarrow> position_key list" where
  "qualifying_statement events tenant store sku required =
     take (MAX_SERIES + 1)
       (map fst (filter (\<lambda>(k, coverage). int coverage \<ge> required) (per_series events tenant store sku)))"

text \<open>Two statements of one transaction. Under READ COMMITTED each has a snapshot of its own, so
  the table may have grown between them.\<close>

definition probe_min_history_days ::
  "sale_event list \<Rightarrow> sale_event list \<Rightarrow> int \<Rightarrow> uuid \<Rightarrow> uuid option \<Rightarrow> string option \<Rightarrow> int \<Rightarrow> observation result" where
  "probe_min_history_days snapshot1 snapshot2 db_now tenant store sku required =
     (case probe_statement snapshot1 tenant store sku required of (measured, qualifying) \<Rightarrow>
        let identities = qualifying_statement snapshot2 tenant store sku required
        in bind_res (raise_if (length identities > MAX_SERIES) (ResultTooLargeError ''qualifying series'')) (\<lambda>_.
           mk_observation
             \<lparr>ob_pairs_measured = measured, ob_pairs_qualifying = qualifying, ob_measured_at = db_now,
              ob_qualifying = Some (map series_text identities)\<rparr>))"

section \<open>The last sale (last\_sale\_at.py)\<close>

definition last_sale_row :: "sale_event list \<Rightarrow> last_sale_at_row" where
  "last_sale_row es =
     \<lparr>ls_tenant_id = se_tenant_id (hd es), ls_store_id = se_store_id (hd es), ls_sku_id = se_sku_id (hd es),
      ls_last_sale_date = py_max (map se_event_date es)\<rparr>"

definition position_sort :: "sale_event \<Rightarrow> uuid \<times> string \<times> uuid" where
  "position_sort e = (se_store_id e, se_sku_id e, se_tenant_id e)"

definition resolve_last_sale_at ::
  "sale_event list \<Rightarrow> uuid \<Rightarrow> uuid option \<Rightarrow> string option \<Rightarrow> int \<Rightarrow> last_sale_at_row list result" where
  "resolve_last_sale_at events tenant store sku limit =
     (let lim = effective_limit limit;
          collapsed = collapse_latest_wins (key_scoped_predicate tenant store) events;
          survivors = filter (\<lambda>e. se_event_subtype e = SALE \<and> sku_filter sku e) collapsed;
          rows = take (lim + 1) (map last_sale_row (group_by position_sort survivors))
      in bind_res (raise_if (length rows > lim) (ResultTooLargeError ''last_sale_at'')) (\<lambda>_. Inr rows))"

section \<open>The current state (current\_state.py)\<close>

text \<open>A row of the hot table: the projected columns, its id, and the rest of its natural key.\<close>

record hot_position = current_state_row +
  hp_id :: uuid
  hp_sku_variant :: "string option"
  hp_sku_lot_batch :: "string option"

definition hot_project :: "hot_position \<Rightarrow> current_state_row" where
  "hot_project r = current_state_row.truncate r"

definition MAX_POSITIONS :: nat where
  "MAX_POSITIONS = 5000"

definition resolve_current_state :: "hot_position list \<Rightarrow> uuid \<Rightarrow> uuid option \<Rightarrow> nat \<Rightarrow> current_state_row list result" where
  "resolve_current_state hot tenant store limit =
     (let lim = min limit MAX_POSITIONS;
          selected = filter (\<lambda>r. cs_tenant_id r = tenant \<and> (case store of None \<Rightarrow> True | Some s \<Rightarrow> cs_store_id r = s)) hot;
          ordered = sort_key (\<lambda>r. (cs_store_id r, cs_sku_id r, hp_id r)) selected
      in Inr (map hot_project (take lim ordered)))"

section \<open>The newest sale of a tenant (sale\_freshness.py)\<close>

definition latest_sale_date :: "sale_event list \<Rightarrow> uuid \<Rightarrow> date option" where
  "latest_sale_date events tenant =
     (let dates = map se_event_date (filter (\<lambda>e. se_tenant_id e = tenant) events)
      in if dates = [] then None else Some (py_max dates))"

definition resolve_latest_sale_dates :: "sale_event list \<Rightarrow> uuid list \<Rightarrow> (uuid \<times> date option) list" where
  "resolve_latest_sale_dates events tenants =
     fold (\<lambda>t out. AList.update t (latest_sale_date events t) out) tenants []"

section \<open>Facts about the collapse\<close>

lemma latest_row_max:
  assumes "es \<noteq> []"
  shows "latest_row es \<in> set es \<and> (\<forall>e \<in> set es. precedence e \<le> precedence (latest_row es))"
proof -
  have *: "foldl (\<lambda>b e. if precedence b < precedence e then e else b) b xs \<in> set (b # xs) \<and>
        (\<forall>e \<in> set (b # xs). precedence e \<le> precedence (foldl (\<lambda>b e. if precedence b < precedence e then e else b) b xs))" for b xs
  proof (induction xs rule: rev_induct)
    case (snoc x xs)
    then show ?case by (auto simp: not_less intro: order_trans less_imp_le)
  qed simp
  show ?thesis using *[of "hd es" "tl es"] assms by (simp add: latest_row_def)
qed

lemma latest_row_filter:
  assumes "k \<in> DEDUP_KEY ` set rows"
  shows "latest_row (filter (\<lambda>e. DEDUP_KEY e = k) rows) \<in> set rows"
    "DEDUP_KEY (latest_row (filter (\<lambda>e. DEDUP_KEY e = k) rows)) = k"
    "\<forall>e \<in> set rows. DEDUP_KEY e = k \<longrightarrow> precedence e \<le> precedence (latest_row (filter (\<lambda>e. DEDUP_KEY e = k) rows))"
proof -
  have "filter (\<lambda>e. DEDUP_KEY e = k) rows \<noteq> []" using assms by (auto simp: filter_empty_conv)
  from latest_row_max [OF this] show
    "latest_row (filter (\<lambda>e. DEDUP_KEY e = k) rows) \<in> set rows"
    "DEDUP_KEY (latest_row (filter (\<lambda>e. DEDUP_KEY e = k) rows)) = k"
    "\<forall>e \<in> set rows. DEDUP_KEY e = k \<longrightarrow> precedence e \<le> precedence (latest_row (filter (\<lambda>e. DEDUP_KEY e = k) rows))"
    by auto
qed

lemma collapse_keys: "map DEDUP_KEY (collapse_latest_wins c es) = remdups (map DEDUP_KEY (filter c es))"
proof -
  have "map (\<lambda>k. DEDUP_KEY (latest_row (filter (\<lambda>e. DEDUP_KEY e = k) (filter c es)))) ks = ks"
    if "set ks \<subseteq> DEDUP_KEY ` set (filter c es)" for ks
    using that latest_row_filter(2) [of _ "filter c es"] by (induction ks) auto
  from this [of "remdups (map DEDUP_KEY (filter c es))"]
  show ?thesis by (simp add: collapse_latest_wins_def Let_def comp_def)
qed

lemma collapse_distinct: "distinct (map DEDUP_KEY (collapse_latest_wins c es))"
  by (simp add: collapse_keys)

lemma in_collapse:
  assumes "e \<in> set (collapse_latest_wins c es)"
  shows "e \<in> set es" "c e" "\<forall>e' \<in> set es. c e' \<and> DEDUP_KEY e' = DEDUP_KEY e \<longrightarrow> precedence e' \<le> precedence e"
proof -
  obtain k where k: "k \<in> DEDUP_KEY ` set (filter c es)" "e = latest_row (filter (\<lambda>e. DEDUP_KEY e = k) (filter c es))"
    using assms that unfolding collapse_latest_wins_def Let_def set_map set_remdups by blast
  note f = latest_row_filter [OF k(1), folded k(2)]
  show "e \<in> set es" "c e" using f(1) by auto
  show "\<forall>e' \<in> set es. c e' \<and> DEDUP_KEY e' = DEDUP_KEY e \<longrightarrow> precedence e' \<le> precedence e"
    using f(2,3) by auto
qed

lemma collapse_complete:
  assumes "e \<in> set es" "c e"
  shows "\<exists>s \<in> set (collapse_latest_wins c es). DEDUP_KEY s = DEDUP_KEY e"
proof -
  have "DEDUP_KEY e \<in> set (map DEDUP_KEY (collapse_latest_wins c es))"
    unfolding collapse_keys using assms by auto
  then show ?thesis by auto
qed

lemma precedence_id: "precedence e = precedence e' \<Longrightarrow> se_id e = se_id e'"
  by (simp add: precedence_def)

lemma remdups_map_filter: "remdups (map f (filter (\<lambda>e. Q (f e)) xs)) = filter Q (remdups (map f xs))"
  by (induction xs) auto

lemma collapse_pushdown:
  "collapse_latest_wins (\<lambda>e. Q (DEDUP_KEY e) \<and> c e) es = filter (\<lambda>e. Q (DEDUP_KEY e)) (collapse_latest_wins c es)"
proof -
  let ?rows = "filter c es"
  let ?g = "\<lambda>k. latest_row (filter (\<lambda>e. DEDUP_KEY e = k) ?rows)"
  have rows: "filter (\<lambda>e. Q (DEDUP_KEY e) \<and> c e) es = filter (\<lambda>e. Q (DEDUP_KEY e)) ?rows"
    by (simp add: conj_commute)
  have "collapse_latest_wins (\<lambda>e. Q (DEDUP_KEY e) \<and> c e) es =
      map (\<lambda>k. latest_row (filter (\<lambda>e. DEDUP_KEY e = k) (filter (\<lambda>e. Q (DEDUP_KEY e)) ?rows)))
        (filter Q (remdups (map DEDUP_KEY ?rows)))"
    unfolding collapse_latest_wins_def rows Let_def by (simp only: remdups_map_filter)
  also have "\<dots> = map ?g (filter Q (remdups (map DEDUP_KEY ?rows)))"
    by (rule map_cong [OF refl], rule arg_cong [of _ _ latest_row]) (auto intro!: filter_cong)
  also have "\<dots> = filter (\<lambda>e. Q (DEDUP_KEY e)) (map ?g (remdups (map DEDUP_KEY ?rows)))"
    unfolding filter_map by (rule arg_cong [of _ _ "map ?g"], rule filter_cong)
      (auto simp del: set_filter simp: latest_row_filter(2) [of _ ?rows, simplified])
  finally show ?thesis by (simp add: collapse_latest_wins_def Let_def)
qed

lemma key_scoped_key:
  "key_scoped_predicate tenant store e \<longleftrightarrow>
     (\<lambda>(t, s, _). t = tenant \<and> (case store of None \<Rightarrow> True | Some s' \<Rightarrow> s = s')) (DEDUP_KEY e)"
  by (simp add: key_scoped_predicate_def DEDUP_KEY_def split: option.split)

section \<open>Facts about grouping\<close>

lemma hd_filter_key: "k \<in> f ` set xs \<Longrightarrow> f (hd (filter (\<lambda>x. f x = k) xs)) = k"
  by (induction xs) auto

lemma group_by_props:
  assumes "g \<in> set (group_by f xs)"
  shows "g \<noteq> []" "\<forall>x \<in> set g. x \<in> set xs \<and> f x = f (hd g)" "g = filter (\<lambda>x. f x = f (hd g)) xs"
proof -
  obtain k where k: "k \<in> f ` set xs" "g = filter (\<lambda>x. f x = k) xs"
    using assms by (auto simp: group_by_def)
  then show ne: "g \<noteq> []" by (auto simp: filter_empty_conv)
  have "f (hd g) = k" using hd_filter_key [OF k(1)] k(2) by simp
  then show "\<forall>x \<in> set g. x \<in> set xs \<and> f x = f (hd g)" "g = filter (\<lambda>x. f x = f (hd g)) xs"
    using k(2) by auto
qed

lemma group_by_heads: "map (\<lambda>g. f (hd g)) (group_by f xs) = sort (remdups (map f xs))"
  unfolding group_by_def map_map by (rule map_idI) (auto simp: hd_filter_key)

lemma group_by_mset: "mset (concat (group_by f xs)) = mset xs"
proof -
  have "mset (concat (map (\<lambda>k. filter (\<lambda>x. f x = k) xs) ks)) = filter_mset (\<lambda>x. f x \<in> set ks) (mset xs)"
    if "distinct ks" for ks
    using that
  proof (induction ks)
    case (Cons k ks)
    then have "mset (concat (map (\<lambda>k. filter (\<lambda>x. f x = k) xs) (k # ks))) =
        filter_mset (\<lambda>x. f x = k) (mset xs) + filter_mset (\<lambda>x. f x \<in> set ks) (mset xs)" by simp
    also have "\<dots> = filter_mset (\<lambda>x. f x \<in> set (k # ks)) (mset xs)"
      using Cons.prems by (induction xs) auto
    finally show ?case .
  qed simp
  from this [of "sort (remdups (map f xs))"]
  have "mset (concat (group_by f xs)) = filter_mset (\<lambda>x. f x \<in> f ` set xs) (mset xs)"
    by (simp add: group_by_def)
  also have "\<dots> = mset xs" unfolding mset_filter [symmetric] by (subst filter_True) auto
  finally show ?thesis .
qed

lemma group_by_filter:
  assumes "\<And>x. P x = Q (f x)"
  shows "group_by f (filter P xs) = filter (\<lambda>g. Q (f (hd g))) (group_by f xs)"
proof -
  have P: "P = (\<lambda>x. Q (f x))" using assms by auto
  have "group_by f (filter P xs) = map (\<lambda>k. filter (\<lambda>x. f x = k) (filter (\<lambda>x. Q (f x)) xs)) (filter Q (sort (remdups (map f xs))))"
    unfolding group_by_def P remdups_map_filter by (simp add: filter_sort)
  also have "\<dots> = map (\<lambda>k. filter (\<lambda>x. f x = k) xs) (filter Q (sort (remdups (map f xs))))"
    by (rule map_cong) (auto intro!: filter_cong)
  also have "\<dots> = filter (\<lambda>g. Q (f (hd g))) (group_by f xs)"
    unfolding group_by_def filter_map by (rule arg_cong [of _ _ "map _"], rule filter_cong) (auto simp: hd_filter_key)
  finally show ?thesis .
qed

section \<open>The daily series and its gate\<close>

lemma day_row_fields:
  assumes "g \<in> set (group_by day_key xs)"
  shows "ds_key (day_row g) = series_key (hd g)" "ds_event_date (day_row g) = se_event_date (hd g)"
  by (simp_all add: day_row_def ds_key_def series_key_def)

lemma day_row_lines:
  "ds_sale_line_count (day_row es) + ds_return_line_count (day_row es) + ds_void_line_count (day_row es) = length es"
proof -
  have "count_subtype SALE es + count_subtype RETURN es + count_subtype VOID es = length es"
    by (induction es) (auto simp: count_subtype_def, metis sale_subtype.exhaust)
  then show ?thesis by (simp add: day_row_def)
qed

text \<open>The number of distinct days a series has survived with.\<close>

definition coverage :: "sale_event list \<Rightarrow> uuid \<Rightarrow> uuid option \<Rightarrow> string option \<Rightarrow> position_key \<Rightarrow> nat" where
  "coverage events tenant store sku k =
     card (se_event_date ` {e \<in> set (collapse_latest_wins (key_scoped_predicate tenant store) events).
                             sku_filter sku e \<and> series_key e = k})"

lemma per_series_coverage:
  "(k, n) \<in> set (per_series events tenant store sku) \<longleftrightarrow>
     n = coverage events tenant store sku k \<and>
     (\<exists>e \<in> set (collapse_latest_wins (key_scoped_predicate tenant store) events). sku_filter sku e \<and> series_key e = k)"
proof -
  have "length (remdups (map se_event_date (filter (\<lambda>e. series_key e = k) (filter (sku_filter sku) es)))) =
      card (se_event_date ` {e \<in> set es. sku_filter sku e \<and> series_key e = k})" for es k
    by (simp add: length_remdups_card_conv conj_commute)
  then show ?thesis by (auto simp: per_series_def Let_def coverage_def)
qed

lemma distinct_per_series: "distinct (map fst (per_series events tenant store sku))"
  by (simp add: per_series_def Let_def comp_def)

lemma series_text_inject: "series_text k = series_text k' \<longleftrightarrow> k = k'"
  by (auto simp: series_text_def uuid_str_inject split: prod.splits)

lemma probe_qualifying:
  assumes "probe_min_history_days events events now tenant store sku required = Inr obs"
  shows "\<exists>ks. ob_qualifying obs = Some (map series_text ks) \<and> length ks \<le> MAX_SERIES \<and> distinct ks \<and>
     set ks = {k. required \<le> int (coverage events tenant store sku k) \<and>
       (\<exists>e \<in> set (collapse_latest_wins (key_scoped_predicate tenant store) events). sku_filter sku e \<and> series_key e = k)}"
proof -
  let ?all = "map fst (filter (\<lambda>(k, n). int n \<ge> required) (per_series events tenant store sku))"
  have len: "length (take (MAX_SERIES + 1) ?all) \<le> MAX_SERIES"
    and q: "ob_qualifying obs = Some (map series_text (take (MAX_SERIES + 1) ?all))"
    using assms by (auto simp: probe_min_history_days_def qualifying_statement_def mk_observation_def
        bind_res_Inr_iff Let_def split: prod.splits)
  then have all: "take (MAX_SERIES + 1) ?all = ?all" by (simp add: min_def split: if_splits)
  have "distinct ?all" using distinct_per_series by (rule distinct_map_filter)
  moreover have "set ?all = {k. required \<le> int (coverage events tenant store sku k) \<and>
       (\<exists>e \<in> set (collapse_latest_wins (key_scoped_predicate tenant store) events). sku_filter sku e \<and> series_key e = k)}"
    by (force simp: per_series_coverage image_iff)
  ultimately show ?thesis using q len unfolding all by blast
qed

lemma daily_series_Inr:
  "resolve_daily_series events tenant d1 d2 store sku None limit = Inr rows \<longleftrightarrow>
     d1 \<le> d2 \<and>
     rows = map day_row (group_by day_key (filter (\<lambda>e. d1 \<le> se_event_date e \<and> se_event_date e \<le> d2 \<and> sku_filter sku e)
       (collapse_latest_wins (key_scoped_predicate tenant store) events))) \<and>
     length rows \<le> effective_limit limit"
  by (auto simp: resolve_daily_series_def check_series_arguments_def Let_def bind_res_Inr_iff min_def split: if_splits)

text \<open>A fetch narrowed to the qualifying series returns exactly their rows.\<close>

lemma narrowed_fetch_rows:
  assumes "ks \<noteq> []" "length ks \<le> MAX_SERIES"
    and ks: "set ks = series_text ` {k. required \<le> int (coverage events tenant store sku k) \<and>
       (\<exists>e \<in> set (collapse_latest_wins (key_scoped_predicate tenant store) events). sku_filter sku e \<and> series_key e = k)}"
    and fetch: "resolve_daily_series events tenant d1 d2 store sku None limit = Inr rows"
  shows "resolve_daily_series events tenant d1 d2 store sku (Some ks) limit =
           Inr (filter (\<lambda>r. required \<le> int (coverage events tenant store sku (ds_key r))) rows)"
proof -
  let ?c = "collapse_latest_wins (key_scoped_predicate tenant store) events"
  let ?lines = "filter (\<lambda>e. d1 \<le> se_event_date e \<and> se_event_date e \<le> d2 \<and> sku_filter sku e) ?c"
  let ?Q = "\<lambda>(st, sk, d, t). required \<le> int (coverage events tenant store sku (t, st, sk))"
  have mem: "series_text (series_key e) \<in> set ks \<longleftrightarrow> ?Q (day_key e)" if "e \<in> set ?lines" for e
    using that by (auto simp: ks series_text_inject image_iff day_key_def series_key_def)
  have rows: "rows = map day_row (group_by day_key ?lines)" "d1 \<le> d2" "length rows \<le> effective_limit limit"
    using fetch unfolding daily_series_Inr by blast+
  have "filter (\<lambda>e. d1 \<le> se_event_date e \<and> se_event_date e \<le> d2 \<and> sku_filter sku e \<and> series_text (series_key e) \<in> set ks) ?c =
      filter (\<lambda>e. series_text (series_key e) \<in> set ks) ?lines" by (auto intro!: filter_cong)
  also have "\<dots> = filter (\<lambda>e. ?Q (day_key e)) ?lines" by (rule filter_cong [OF refl mem])
  finally have "map day_row (group_by day_key (filter (\<lambda>e. d1 \<le> se_event_date e \<and> se_event_date e \<le> d2 \<and> sku_filter sku e \<and>
        series_text (series_key e) \<in> set ks) ?c)) =
      map day_row (filter (\<lambda>g. ?Q (day_key (hd g))) (group_by day_key ?lines))"
    by (simp only: group_by_filter [of "\<lambda>e. ?Q (day_key e)" ?Q day_key])
  also have "\<dots> = filter (\<lambda>r. required \<le> int (coverage events tenant store sku (ds_key r))) rows"
    unfolding rows(1) filter_map by (rule arg_cong [of _ _ "map day_row"]) (auto intro!: filter_cong simp: day_row_def ds_key_def day_key_def)
  finally have narrowed: "map day_row (group_by day_key (filter (\<lambda>e. d1 \<le> se_event_date e \<and> se_event_date e \<le> d2 \<and> sku_filter sku e \<and>
        series_text (series_key e) \<in> set ks) ?c)) =
      filter (\<lambda>r. required \<le> int (coverage events tenant store sku (ds_key r))) rows" .
  have short: "length (filter (\<lambda>r. required \<le> int (coverage events tenant store sku (ds_key r))) rows) \<le> effective_limit limit"
    using rows(3) by (rule order_trans [OF length_filter_le])
  have "length (group_by day_key (filter (\<lambda>e. d1 \<le> se_event_date e \<and> se_event_date e \<le> d2 \<and> sku_filter sku e \<and>
        series_text (series_key e) \<in> set ks) ?c)) \<le> effective_limit limit"
    using arg_cong [OF narrowed, of length] short by simp
  then show ?thesis
    using rows(2) assms(1,2) short
    by (simp add: resolve_daily_series_def check_series_arguments_def raise_if_def Let_def narrowed)
qed

section \<open>Properties\<close>

lemma collapse_latest:
  assumes "distinct (map se_id events)"
  shows "set (collapse_latest_wins (key_scoped_predicate tenant store) events) =
           {e \<in> set events. key_scoped_predicate tenant store e \<and>
              (\<forall>e' \<in> set events. DEDUP_KEY e' = DEDUP_KEY e \<longrightarrow> precedence e' \<le> precedence e)} \<and>
         distinct (map DEDUP_KEY (collapse_latest_wins (key_scoped_predicate tenant store) events))"
    (is "set ?c = ?latest \<and> _")
proof
  have scope: "key_scoped_predicate tenant store e' = key_scoped_predicate tenant store e"
    if "DEDUP_KEY e' = DEDUP_KEY e" for e e' using that by (simp add: key_scoped_key)
  show "set ?c = ?latest"
  proof
    show "set ?c \<subseteq> ?latest" using in_collapse [of _ "key_scoped_predicate tenant store" events] scope by blast
    show "?latest \<subseteq> set ?c"
    proof
      fix e assume e: "e \<in> ?latest"
      then obtain s where s: "s \<in> set ?c" "DEDUP_KEY s = DEDUP_KEY e" using collapse_complete by blast
      have "precedence s = precedence e"
        using in_collapse [OF s(1)] e s(2) by (intro order.antisym) auto
      then have "se_id s = se_id e" by (rule precedence_id)
      moreover have "inj_on se_id (set events)" using assms by (simp add: distinct_map)
      moreover have "s \<in> set events" "e \<in> set events" using in_collapse(1) [OF s(1)] e by simp_all
      ultimately have "s = e" by (meson inj_onD)
      then show "e \<in> set ?c" using s(1) by simp
    qed
  qed
  show "distinct (map DEDUP_KEY ?c)" by (rule collapse_distinct)
qed

text \<open>
  C17 (equivalence). The collapse returns, for every dedup key in scope, the one row that no other
  row of that key supersedes (later event time, then later write time, then greater id), over ALL events and not only those of the scope: pushing the tenant
  and store predicate inside the collapse cannot hide a superseding row.
\<close>

theorem collapse_keeps_latest:
  assumes "distinct (map se_id events)"
  shows "set (collapse_latest_wins (key_scoped_predicate tenant store) events) =
           {e \<in> set events. key_scoped_predicate tenant store e \<and>
              (\<forall>e' \<in> set events. DEDUP_KEY e' = DEDUP_KEY e \<longrightarrow>
                 (se_source_sale_timestamp e', se_last_updated_at e', se_id e')
                   \<le> (se_source_sale_timestamp e, se_last_updated_at e, se_id e))} \<and>
         distinct (map DEDUP_KEY (collapse_latest_wins (key_scoped_predicate tenant store) events))"
  using collapse_latest [OF assms, of tenant store] unfolding precedence_def .

definition demo_event :: "uuid \<Rightarrow> string \<Rightarrow> date \<Rightarrow> numeric_14_3 \<Rightarrow> sale_event" where
  "demo_event i line d qty =
     \<lparr>se_id = i, se_tenant_id = 1, se_store_id = 2, se_source_id = ''pos'', se_source_event_id = line,
      se_sku_id = ''a'', se_event_date = d, se_event_subtype = SALE, se_quantity = qty,
      se_source_sale_timestamp = d, se_last_updated_at = d\<rparr>"

definition demo_correction :: "sale_event list" where
  "demo_correction = [demo_event 1 ''t1'' 739000 5000, demo_event 2 ''t1'' 739001 7000]"

lemma demo_correction_collapse:
  "collapse_latest_wins (key_scoped_predicate 1 None) demo_correction = [demo_event 2 ''t1'' 739001 7000]"
  by (simp add: collapse_latest_wins_def demo_correction_def demo_event_def key_scoped_predicate_def DEDUP_KEY_def
      latest_row_def precedence_def)

lemma collapse_keeps_latest_witness:
  "{demo_event 2 ''t1'' 739001 7000} =
     {e \<in> set demo_correction. key_scoped_predicate 1 None e \<and>
        (\<forall>e' \<in> set demo_correction. DEDUP_KEY e' = DEDUP_KEY e \<longrightarrow>
           (se_source_sale_timestamp e', se_last_updated_at e', se_id e')
             \<le> (se_source_sale_timestamp e, se_last_updated_at e, se_id e))}"
proof -
  have "distinct (map se_id demo_correction)" by (simp add: demo_correction_def demo_event_def)
  from collapse_keeps_latest [OF this, of 1 None] show ?thesis
    unfolding demo_correction_collapse by simp
qed

text \<open>
  The daily series conserves what survives the collapse: its net quantities sum
  to the signed quantities of the surviving lines in the window, each correction counted once at
  its corrected value, the three line counts add up to the number of those lines, and no two rows
  share a series and a day.
\<close>

theorem daily_series_conserves:
  assumes "resolve_daily_series events tenant d1 d2 store sku None limit = Inr rows"
  shows "(let lines = filter (\<lambda>e. d1 \<le> se_event_date e \<and> se_event_date e \<le> d2 \<and> sku_filter sku e)
                        (collapse_latest_wins (key_scoped_predicate tenant store) events)
          in sum_list (map ds_net_quantity rows) = sum_list (map se_quantity lines) \<and>
             sum_list (map (\<lambda>r. ds_sale_line_count r + ds_return_line_count r + ds_void_line_count r) rows) = length lines) \<and>
         distinct (map (\<lambda>r. (ds_key r, ds_event_date r)) rows)"
proof -
  define lines where "lines = filter (\<lambda>e. d1 \<le> se_event_date e \<and> se_event_date e \<le> d2 \<and> sku_filter sku e)
                        (collapse_latest_wins (key_scoped_predicate tenant store) events)"
  have rows: "rows = map day_row (group_by day_key lines)" using assms by (simp add: daily_series_Inr lines_def)
  have quantity: "sum_list (map ds_net_quantity (map day_row gs)) = sum_list (map se_quantity (concat gs))" for gs
    by (induction gs) (simp_all add: day_row_def)
  also have "sum_list (map se_quantity (concat (group_by day_key lines))) = sum_list (map se_quantity lines)"
    by (metis group_by_mset mset_map sum_mset_sum_list)
  finally have "sum_list (map ds_net_quantity rows) = sum_list (map se_quantity lines)" by (simp add: rows)
  moreover have "sum_list (map (\<lambda>r. ds_sale_line_count r + ds_return_line_count r + ds_void_line_count r) (map day_row gs)) =
      length (concat gs)" for gs
    by (induction gs) (simp_all add: day_row_lines)
  moreover have "length (concat (group_by day_key lines)) = length lines" by (metis group_by_mset size_mset)
  moreover have "distinct (map (\<lambda>g. day_key (hd g)) (group_by day_key lines))" by (simp add: group_by_heads)
  then have "distinct (map (\<lambda>r. (ds_key r, ds_event_date r)) rows)"
    by (auto simp: rows distinct_map inj_on_def day_row_def ds_key_def day_key_def)
  ultimately show ?thesis by (simp add: rows lines_def [symmetric])
qed

lemma demo_correction_series:
  "\<exists>rows. resolve_daily_series demo_correction 1 739000 739001 None None None 0 = Inr rows"
proof -
  have "length (group_by f [x]) \<le> 20000" for f :: "sale_event \<Rightarrow> uuid \<times> string \<times> date \<times> uuid" and x
    by (simp add: group_by_def)
  then show ?thesis
    unfolding daily_series_Inr demo_correction_collapse
    by (simp add: effective_limit_def MAX_ROWS_def group_by_def)
qed

lemma daily_series_conserves_witness:
  "\<exists>rows. resolve_daily_series demo_correction 1 739000 739001 None None None 0 = Inr rows \<and>
     sum_list (map ds_net_quantity rows) = 7000"
proof -
  obtain rows where rows: "resolve_daily_series demo_correction 1 739000 739001 None None None 0 = Inr rows"
    using demo_correction_series by blast
  have "sum_list (map ds_net_quantity rows) = 7000"
    using daily_series_conserves [OF rows]
    unfolding demo_correction_collapse by (simp add: sku_filter_def demo_event_def)
  then show ?thesis using rows by blast
qed

text \<open>
  The two statements of the probe run under READ COMMITTED, each on a snapshot of its
  own, although the source counts on one transaction describing one instant. Whenever a series
  qualifies in one snapshot and not in the other so that the two counts differ, the observation
  cannot be built and the probe raises.
\<close>

theorem probe_race_raises:
  assumes "snd (probe_statement s1 tenant store sku required) \<noteq> snd (probe_statement s2 tenant store sku required)"
    and "snd (probe_statement s2 tenant store sku required) \<le> MAX_SERIES"
  shows "probe_min_history_days s1 s2 now tenant store sku required =
           Inl (ValueError ''the count and the identities must agree'')"
proof -
  have "length (qualifying_statement s2 tenant store sku required) = snd (probe_statement s2 tenant store sku required)"
    using assms(2) by (simp add: qualifying_statement_def probe_statement_def Let_def)
  then show ?thesis
    using assms by (auto simp: probe_min_history_days_def mk_observation_def raise_if_def Let_def split: prod.split)
qed

lemma probe_race_raises_witness:
  "probe_min_history_days [] demo_correction 0 1 None None 1 = Inl (ValueError ''the count and the identities must agree'')"
proof (rule probe_race_raises)
  have "per_series demo_correction 1 None None = [((1, 2, ''a''), 1)]" "per_series [] 1 None None = []"
    by (simp_all add: per_series_def demo_correction_collapse sku_filter_def series_key_def demo_event_def)
       (simp add: collapse_latest_wins_def)
  then show "snd (probe_statement [] 1 None None 1) \<noteq> snd (probe_statement demo_correction 1 None None 1)"
    "snd (probe_statement demo_correction 1 None None 1) \<le> MAX_SERIES"
    by (simp_all add: probe_statement_def MAX_SERIES_def)
qed

end
