(* ===== verification/Dead_Stock.thy ===== *)
theory Dead_Stock
  imports Synapse_Core
begin

text \<open>
  The dead-stock analysis: the evaluator (\<open>core/dead_stock.py\<close>), which dates every position of
  the universe against its last sale or refuses to, and the proposer
  (\<open>core/dead_stock_actions.py\<close>), which turns the dead positions into review actions.
\<close>

section \<open>The evaluator\<close>

record dead_stock_row =
  dr_tenant_id :: uuid
  dr_store_id :: uuid
  dr_sku_id :: string
  dr_days_since_last_sale :: "int option"
  dr_is_dead_stock :: bool
  dr_refused_because :: "refusal_prose option"
  dr_refusal_reason :: "refusal_reason option"

definition dr_key :: "dead_stock_row \<Rightarrow> position_key" where
  "dr_key r = (dr_tenant_id r, dr_store_id r, dr_sku_id r)"

definition mk_dead_stock_row :: "dead_stock_row \<Rightarrow> dead_stock_row result" where
  "mk_dead_stock_row r =
     bind_res (raise_if ((dr_refused_because r = None) \<noteq> (dr_refusal_reason r = None))
                 (ValueError ''a refusal must carry both the prose and its category'')) (\<lambda>_.
     bind_res (raise_if (dr_refused_because r \<noteq> None \<and> dr_is_dead_stock r)
                 (ValueError ''a refusal is not a verdict'')) (\<lambda>_.
     Inr r))"

definition age :: "(position_key \<rightharpoonup> date) \<Rightarrow> current_state_row \<Rightarrow> date \<Rightarrow> int option" where
  "age last_sold position as_of =
     (case last_sold (cs_key position) of None \<Rightarrow> None | Some d \<Rightarrow> Some (as_of - d))"

definition feed_refusal :: "last_sale_at_row list \<Rightarrow> int \<Rightarrow> date \<Rightarrow> (refusal_reason \<times> refusal_prose) option" where
  "feed_refusal selling feed_stale_after_days as_of =
     (if selling = [] then Some (NO_SALE_HISTORY, NoSaleEver as_of)
      else let latest = py_max (map ls_last_sale_date selling);
               feed_age = as_of - latest
           in if feed_age > feed_stale_after_days
              then Some (FEED_STALE, NewestSaleTooOld latest feed_age as_of feed_stale_after_days)
              else None)"

definition stock_refusal :: "current_state_row \<Rightarrow> (refusal_reason \<times> refusal_prose) option" where
  "stock_refusal position =
     (case cs_stock_qty position of
        None \<Rightarrow> Some (NO_STOCK_QUANTITY, StockQtyNull)
      | Some q \<Rightarrow> if q \<le> 0 then Some (NO_STOCK_ON_HAND, StockQtyNothing q) else None)"

definition evaluate_position ::
  "(refusal_reason \<times> refusal_prose) option \<Rightarrow> (position_key \<rightharpoonup> date) \<Rightarrow> int \<Rightarrow> date \<Rightarrow>
   current_state_row \<Rightarrow> dead_stock_row result" where
  "evaluate_position feed last_sold stale_after_days as_of position =
     (let days = age last_sold position as_of;
          refusal = (case feed of Some r \<Rightarrow> Some r | None \<Rightarrow> stock_refusal position)
      in case refusal of
           Some (reason, prose) \<Rightarrow>
             mk_dead_stock_row
               \<lparr>dr_tenant_id = cs_tenant_id position, dr_store_id = cs_store_id position,
                dr_sku_id = cs_sku_id position, dr_days_since_last_sale = days,
                dr_is_dead_stock = False, dr_refused_because = Some prose,
                dr_refusal_reason = Some reason\<rparr>
         | None \<Rightarrow>
             mk_dead_stock_row
               \<lparr>dr_tenant_id = cs_tenant_id position, dr_store_id = cs_store_id position,
                dr_sku_id = cs_sku_id position, dr_days_since_last_sale = days,
                dr_is_dead_stock = (case days of None \<Rightarrow> True | Some n \<Rightarrow> n \<ge> stale_after_days),
                dr_refused_because = None, dr_refusal_reason = None\<rparr>)"

definition evaluate_dead_stock ::
  "current_state_row list \<Rightarrow> last_sale_at_row list \<Rightarrow> int \<Rightarrow> int \<Rightarrow> date \<Rightarrow> dead_stock_row list result" where
  "evaluate_dead_stock universe selling stale_after_days feed_stale_after_days as_of =
     bind_res (raise_if (stale_after_days < 1) (ValueError ''stale_after_days must be at least 1 day'')) (\<lambda>_.
     bind_res (raise_if (feed_stale_after_days < 1) (ValueError ''feed_stale_after_days must be at least 1 day'')) (\<lambda>_.
     let feed = feed_refusal selling feed_stale_after_days as_of;
         last_sold = map_of (dict_of (map (\<lambda>r. (ls_key r, ls_last_sale_date r)) selling))
     in map_res (evaluate_position feed last_sold stale_after_days as_of) universe))"

section \<open>The proposer\<close>

definition propose_one ::
  "holdout \<Rightarrow> ((string \<times> string \<times> string) \<times> numeric_14_3 option) list \<Rightarrow> provenance \<Rightarrow> date \<Rightarrow>
   dead_stock_row \<Rightarrow> action result" where
  "propose_one h stock prov expires_on finding =
     (let target = finding_target (dr_key finding)
      in bind_res (subject_of h target) (\<lambda>subject.
         bind_res (assign h subject) (\<lambda>a.
         mk_action
           \<lparr>ac_target = target, ac_verb = REVIEW,
            ac_quantity_at_stake = stock_lookup stock (dr_key finding),
            ac_expires_on = expires_on, ac_arm = a, ac_provenance = prov,
            ac_days_since_last_sale =
              (case dr_days_since_last_sale finding of
                 Some n \<Rightarrow> if n \<ge> 0 then Some n else None | None \<Rightarrow> None),
            ac_days_of_cover = None\<rparr>)))"

definition propose_dead_stock_actions ::
  "dead_stock_row list \<Rightarrow> current_state_row list \<Rightarrow> analysis_declaration \<Rightarrow> string dict \<Rightarrow> date \<Rightarrow>
   action list result" where
  "propose_dead_stock_actions findings universe declaration capability_versions as_of =
     (case ad_holdout declaration of
        None \<Rightarrow> Inl (ValueError ''analysis proposes actions but declares no holdout'')
      | Some h \<Rightarrow>
          (let thresholds = thresholds_of declaration
           in bind_res (raise_if (\<not> has_key thresholds ''stale_after_days'' \<or> \<not> has_key thresholds ''expires_after_days'')
                          (ValueError ''analysis is missing threshold(s) this proposer reads by name'')) (\<lambda>_.
              bind_res (mk_provenance
                          \<lparr>pr_declaration_id = ad_id declaration, pr_declaration_version = ad_version declaration,
                           pr_capability_versions = dict_of capability_versions,
                           pr_thresholds = thresholds, pr_as_of = as_of\<rparr>) (\<lambda>prov.
              bind_res (dict_item thresholds ''expires_after_days'') (\<lambda>days.
              bind_res (date_add as_of days) (\<lambda>expires_on.
              map_res (propose_one h (stock_by_key universe) prov expires_on) (filter dr_is_dead_stock findings)))))))"

section \<open>The evaluator, position by position\<close>

text \<open>What the analysis means, over the rows it was given.\<close>

definition feed_live :: "last_sale_at_row list \<Rightarrow> int \<Rightarrow> date \<Rightarrow> bool" where
  "feed_live selling limit as_of \<longleftrightarrow> (\<exists>s \<in> set selling. as_of - ls_last_sale_date s \<le> limit)"

definition has_stock :: "current_state_row \<Rightarrow> bool" where
  "has_stock r \<longleftrightarrow> (\<exists>q > 0. cs_stock_qty r = Some q)"

definition unsold_for :: "last_sale_at_row list \<Rightarrow> int \<Rightarrow> date \<Rightarrow> current_state_row \<Rightarrow> bool" where
  "unsold_for selling n as_of r \<longleftrightarrow>
     (\<forall>s \<in> set selling. ls_key s = cs_key r \<longrightarrow> n \<le> as_of - ls_last_sale_date s)"

lemma feed_refusal_iff: "feed_refusal selling limit as_of = None \<longleftrightarrow> feed_live selling limit as_of"
proof (cases "selling = []")
  case False
  then have "py_max (map ls_last_sale_date selling) = Max (ls_last_sale_date ` set selling)"
    by (simp add: py_max_eq_Max)
  moreover have "limit < as_of - Max (ls_last_sale_date ` set selling) \<longleftrightarrow> \<not> feed_live selling limit as_of"
  proof -
    have "Max (ls_last_sale_date ` set selling) < as_of - limit \<longleftrightarrow>
          (\<forall>s \<in> set selling. ls_last_sale_date s < as_of - limit)"
      using False by (subst Max_less_iff) auto
    then show ?thesis by (auto simp: feed_live_def not_le)
  qed
  ultimately show ?thesis using False by (auto simp: feed_refusal_def Let_def)
qed (simp add: feed_refusal_def feed_live_def)

lemma stock_refusal_iff: "stock_refusal r = None \<longleftrightarrow> has_stock r"
  by (auto simp: stock_refusal_def has_stock_def split: option.splits)

lemma last_sold_distinct:
  assumes "distinct (map ls_key selling)"
  shows "map_of (dict_of (map (\<lambda>r. (ls_key r, ls_last_sale_date r)) selling)) k = Some d \<longleftrightarrow>
         (\<exists>s \<in> set selling. ls_key s = k \<and> ls_last_sale_date s = d)"
  using assms by (subst dict_of_lookup_distinct) (auto simp: comp_def map_of_eq_Some_iff image_iff)

text \<open>Every row is built successfully, so evaluation never stops half way.\<close>

lemma evaluate_position_total:
  obtains row where "evaluate_position feed sold n as_of r = Inr row" "dr_key row = cs_key r"
    "dr_days_since_last_sale row = age sold r as_of"
    "dr_refusal_reason row = map_option fst (case feed of Some x \<Rightarrow> Some x | None \<Rightarrow> stock_refusal r)"
    "(dr_refused_because row = None) = (dr_refusal_reason row = None)"
    "dr_is_dead_stock row \<longleftrightarrow> feed = None \<and> stock_refusal r = None \<and>
       (case sold (cs_key r) of None \<Rightarrow> True | Some d \<Rightarrow> n \<le> as_of - d)"
proof (cases "case feed of Some x \<Rightarrow> Some x | None \<Rightarrow> stock_refusal r")
  case None
  then have "feed = None" "stock_refusal r = None" by (simp_all split: option.splits)
  then show ?thesis
    by (intro that) (auto simp: evaluate_position_def mk_dead_stock_row_def raise_if_def Let_def age_def
        dr_key_def cs_key_def split: option.split)
next
  case (Some x)
  obtain reason prose where x: "x = (reason, prose)" by (cases x)
  have "feed \<noteq> None \<or> stock_refusal r \<noteq> None" using Some by (auto split: option.splits)
  then show ?thesis
    using Some x by (intro that) (auto simp: evaluate_position_def mk_dead_stock_row_def raise_if_def Let_def
        dr_key_def cs_key_def)
qed

definition position_verdict ::
  "last_sale_at_row list \<Rightarrow> int \<Rightarrow> int \<Rightarrow> date \<Rightarrow> current_state_row \<Rightarrow> dead_stock_row \<Rightarrow> bool" where
  "position_verdict selling stale feed_stale as_of r row \<longleftrightarrow>
     dr_key row = cs_key r \<and>
     (dr_is_dead_stock row \<longleftrightarrow> feed_live selling feed_stale as_of \<and> has_stock r \<and> unsold_for selling stale as_of r) \<and>
     (dr_refusal_reason row = None \<longleftrightarrow> feed_live selling feed_stale as_of \<and> has_stock r) \<and>
     (dr_days_since_last_sale row =
        (if \<exists>s \<in> set selling. ls_key s = cs_key r
         then Some (as_of - ls_last_sale_date (the (find (\<lambda>s. ls_key s = cs_key r) selling))) else None))"

lemma find_distinct_key:
  assumes "distinct (map ls_key selling)" "s \<in> set selling" "ls_key s = k"
  shows "find (\<lambda>s. ls_key s = k) selling = Some s"
  using assms by (induction selling) (auto simp: image_iff)

lemma evaluate_position_verdict:
  assumes "distinct (map ls_key selling)"
  shows "\<exists>row. evaluate_position (feed_refusal selling fs as_of)
                  (map_of (dict_of (map (\<lambda>r. (ls_key r, ls_last_sale_date r)) selling))) n as_of r = Inr row \<and>
               position_verdict selling n fs as_of r row"
proof -
  let ?feed = "feed_refusal selling fs as_of"
  let ?sold = "map_of (dict_of (map (\<lambda>r. (ls_key r, ls_last_sale_date r)) selling))"
  obtain row where row: "evaluate_position ?feed ?sold n as_of r = Inr row" "dr_key row = cs_key r"
    "dr_days_since_last_sale row = age ?sold r as_of"
    "dr_refusal_reason row = map_option fst (case ?feed of Some x \<Rightarrow> Some x | None \<Rightarrow> stock_refusal r)"
    "dr_is_dead_stock row \<longleftrightarrow> ?feed = None \<and> stock_refusal r = None \<and>
       (case ?sold (cs_key r) of None \<Rightarrow> True | Some d \<Rightarrow> n \<le> as_of - d)"
    by (rule evaluate_position_total)
  note sold = last_sold_distinct [OF assms, of "cs_key r"]
  have unsold: "(case ?sold (cs_key r) of None \<Rightarrow> True | Some d \<Rightarrow> n \<le> as_of - d) \<longleftrightarrow> unsold_for selling n as_of r"
  proof (cases "?sold (cs_key r)")
    case None
    then show ?thesis using sold by (auto simp: unsold_for_def)
  next
    case (Some d)
    have "n \<le> as_of - d \<longleftrightarrow> unsold_for selling n as_of r"
      using sold Some by (fastforce simp: unsold_for_def)
    then show ?thesis using Some by simp
  qed
  have days: "age ?sold r as_of =
      (if \<exists>s \<in> set selling. ls_key s = cs_key r
       then Some (as_of - ls_last_sale_date (the (find (\<lambda>s. ls_key s = cs_key r) selling))) else None)"
  proof (cases "?sold (cs_key r)")
    case None
    then show ?thesis using sold by (auto simp: age_def)
  next
    case (Some d)
    then obtain s where "s \<in> set selling" "ls_key s = cs_key r" "ls_last_sale_date s = d" using sold by blast
    then show ?thesis using Some find_distinct_key [OF assms] by (auto simp: age_def)
  qed
  have "(dr_refusal_reason row = None) = (?feed = None \<and> stock_refusal r = None)"
    by (simp add: row(4) split: option.split)
  then have "position_verdict selling n fs as_of r row"
    using row unsold days by (simp add: position_verdict_def feed_refusal_iff stock_refusal_iff)
  then show ?thesis using row(1) by blast
qed

section \<open>The proposer, finding by finding\<close>

lemma propose_one_ok:
  assumes "set (ho_unit h) \<subseteq> {''tenant_id'', ''store_id'', ''sku_id''}"
    and "\<not> negative (stock_lookup stock (dr_key f))" and "pr_as_of prov \<le> e"
  shows "\<exists>a. propose_one h stock prov e f = Inr a \<and> ac_target a = finding_target (dr_key f) \<and>
             ac_quantity_at_stake a = stock_lookup stock (dr_key f) \<and> ac_expires_on a = e \<and> ac_provenance a = prov"
proof -
  obtain subject a where s: "subject_of h (finding_target (dr_key f)) = Inr subject" "assign h subject = Inr a"
    by (rule finding_arm [OF assms(1)])
  let ?age = "case dr_days_since_last_sale f of Some n \<Rightarrow> if n \<ge> 0 then Some n else None | None \<Rightarrow> None"
  let ?action = "\<lparr>ac_target = finding_target (dr_key f), ac_verb = REVIEW,
        ac_quantity_at_stake = stock_lookup stock (dr_key f), ac_expires_on = e, ac_arm = a, ac_provenance = prov,
        ac_days_since_last_sale = ?age, ac_days_of_cover = None\<rparr>"
  have "\<not> negative ?age" by (simp add: negative_def split: option.split)
  then have "mk_action ?action = Inr ?action"
    using assms by (simp add: mk_action_Inr_iff) (simp add: negative_def)
  then have "propose_one h stock prov e f = Inr ?action"
    using s by (simp add: propose_one_def Let_def)
  then show ?thesis by simp
qed

lemma dead_stock_thresholds:
  "thresholds_of DEAD_STOCK = [(''stale_after_days'', 90), (''expires_after_days'', 30), (''feed_stale_after_days'', 3)]"
  by (simp add: thresholds_of_def DEAD_STOCK_def dict_of_def)

lemma dict_of_not_Nil: "kvs \<noteq> [] \<Longrightarrow> dict_of kvs \<noteq> []"
  using dict_of_keys [of kvs] by (metis image_is_empty set_empty)

text \<open>The declared holdout, thresholds and identity let the proposer reach its loop.\<close>

lemma dead_stock_fields:
  "ad_id DEAD_STOCK \<noteq> []" "ad_version DEAD_STOCK \<noteq> []"
  "\<exists>h. ad_holdout DEAD_STOCK = Some h \<and> ho_unit h = [''tenant_id'', ''store_id'', ''sku_id'']"
  by (simp_all add: DEAD_STOCK_def)

lemma propose_dead_stock_loop:
  assumes "1 \<le> as_of" "as_of + 30 \<le> max_ordinal" "versions \<noteq> []"
  shows "\<exists>h prov. set (ho_unit h) \<subseteq> {''tenant_id'', ''store_id'', ''sku_id''} \<and> pr_as_of prov = as_of \<and>
     propose_dead_stock_actions findings universe DEAD_STOCK versions as_of =
       map_res (propose_one h (stock_by_key universe) prov (as_of + 30)) (filter dr_is_dead_stock findings)"
proof -
  obtain h where h: "ad_holdout DEAD_STOCK = Some h" "ho_unit h = [''tenant_id'', ''store_id'', ''sku_id'']"
    using dead_stock_fields(3) by blast
  let ?prov = "\<lparr>pr_declaration_id = ad_id DEAD_STOCK, pr_declaration_version = ad_version DEAD_STOCK,
    pr_capability_versions = dict_of versions, pr_thresholds = thresholds_of DEAD_STOCK, pr_as_of = as_of\<rparr>"
  have "mk_provenance ?prov = Inr ?prov"
    using dead_stock_fields(1,2) dict_of_not_Nil [OF assms(3)] by (simp add: mk_provenance_def raise_if_def)
  moreover have "has_key (thresholds_of DEAD_STOCK) ''stale_after_days''"
    "has_key (thresholds_of DEAD_STOCK) ''expires_after_days''"
    "dict_item (thresholds_of DEAD_STOCK) ''expires_after_days'' = Inr 30"
    by (simp_all add: dead_stock_thresholds has_key_def dict_item_def)
  moreover have "date_add as_of 30 = Inr (as_of + 30)" using assms by (simp add: date_add_def)
  ultimately have "propose_dead_stock_actions findings universe DEAD_STOCK versions as_of =
      map_res (propose_one h (stock_by_key universe) ?prov (as_of + 30)) (filter dr_is_dead_stock findings)"
    by (simp add: propose_dead_stock_actions_def h(1) raise_if_def)
  then show ?thesis using h(2) by (intro exI [of _ h] exI [of _ ?prov]) simp
qed

lemma dead_stock_verdicts_aux:
  assumes "1 \<le> stale" "1 \<le> feed_stale" "distinct (map ls_key selling)"
  shows "\<exists>rows. evaluate_dead_stock universe selling stale feed_stale as_of = Inr rows \<and>
                list_all2 (position_verdict selling stale feed_stale as_of) universe rows"
  using map_res_total [OF evaluate_position_verdict [OF assms(3)]] assms
  by (simp add: evaluate_dead_stock_def raise_if_def Let_def)

section \<open>Properties\<close>


definition demo_position :: "string \<Rightarrow> numeric_14_3 option \<Rightarrow> current_state_row" where
  "demo_position sku qty =
     \<lparr>cs_tenant_id = 1, cs_store_id = 2, cs_sku_id = sku, cs_product_name = ''p'', cs_product_category = None,
      cs_sku_status = None, cs_current_retail_price = 0, cs_unit_cost = None, cs_promo_price = None,
      cs_stock_qty = qty, cs_reorder_point = None, cs_currency = ''INR'', cs_expiry_date = None,
      cs_last_source_event_at = None, cs_last_updated_at = 0\<rparr>"

definition demo_sale :: "string \<Rightarrow> date \<Rightarrow> last_sale_at_row" where
  "demo_sale sku d = \<lparr>ls_tenant_id = 1, ls_store_id = 2, ls_sku_id = sku, ls_last_sale_date = d\<rparr>"

lemmas demo_rows = demo_position_def demo_sale_def cs_key_def ls_key_def


text \<open>
  Evaluating and proposing dead stock under the shipped declaration never raises on
  a universe at the declared grain: the actions are exactly the dead positions, in order, each
  with a positive quantity at stake and an expiry 30 days out. In particular a stalled or silent
  feed yields no action at all.
\<close>

theorem dead_stock_actions_total:
  assumes "distinct (map cs_key universe)" "distinct (map ls_key selling)"
    and "1 \<le> as_of" "as_of + 30 \<le> max_ordinal" "versions \<noteq> []"
  shows "\<exists>rows actions.
     evaluate_dead_stock universe selling 90 3 as_of = Inr rows \<and>
     propose_dead_stock_actions rows universe DEAD_STOCK versions as_of = Inr actions \<and>
     map ac_target actions =
       map (finding_target \<circ> cs_key)
         (filter (\<lambda>r. feed_live selling 3 as_of \<and> has_stock r \<and> unsold_for selling 90 as_of r) universe) \<and>
     (\<forall>a \<in> set actions. is_actionable a \<and> ac_expires_on a = as_of + 30)"
proof -
  let ?dead = "\<lambda>r. feed_live selling 3 as_of \<and> has_stock r \<and> unsold_for selling 90 as_of r"
  obtain rows where rows: "evaluate_dead_stock universe selling 90 3 as_of = Inr rows"
    and v: "list_all2 (position_verdict selling 90 3 as_of) universe rows"
    using dead_stock_verdicts_aux [of 90 3 selling universe as_of] assms(2) by auto
  obtain h prov where h: "set (ho_unit h) \<subseteq> {''tenant_id'', ''store_id'', ''sku_id''}" "pr_as_of prov = as_of"
    and loop: "propose_dead_stock_actions rows universe DEAD_STOCK versions as_of =
      map_res (propose_one h (stock_by_key universe) prov (as_of + 30)) (filter dr_is_dead_stock rows)"
    using propose_dead_stock_loop [OF assms(3-5)] by blast
  have stock: "\<exists>q > 0. stock_lookup (stock_by_key universe) (dr_key f) = Some q"
    if "f \<in> set (filter dr_is_dead_stock rows)" for f
  proof -
    from that v obtain r where r: "r \<in> set universe" "position_verdict selling 90 3 as_of r f" and "dr_is_dead_stock f"
      using list_all2_right [OF v] by auto
    then have "has_stock r" "dr_key f = cs_key r" by (simp_all add: position_verdict_def)
    then show ?thesis using stock_lookup_distinct [OF assms(1) r(1)] by (auto simp: has_stock_def)
  qed
  have "\<exists>a. propose_one h (stock_by_key universe) prov (as_of + 30) f = Inr a \<and>
            ac_target a = finding_target (dr_key f) \<and> is_actionable a \<and> ac_expires_on a = as_of + 30"
    if f: "f \<in> set (filter dr_is_dead_stock rows)" for f
  proof -
    from stock [OF f] obtain q where "q > 0" "stock_lookup (stock_by_key universe) (dr_key f) = Some q" by blast
    then show ?thesis
      using propose_one_ok [OF h(1), of "stock_by_key universe" f prov "as_of + 30"] h(2)
      by (auto simp: negative_def is_actionable_def)
  qed
  then have "\<exists>actions. map_res (propose_one h (stock_by_key universe) prov (as_of + 30)) (filter dr_is_dead_stock rows) = Inr actions \<and>
      list_all2 (\<lambda>f a. ac_target a = finding_target (dr_key f) \<and> is_actionable a \<and> ac_expires_on a = as_of + 30)
        (filter dr_is_dead_stock rows) actions"
    by (rule map_res_total)
  then obtain actions
    where acts: "map_res (propose_one h (stock_by_key universe) prov (as_of + 30)) (filter dr_is_dead_stock rows) = Inr actions"
      and rel: "list_all2 (\<lambda>f a. ac_target a = finding_target (dr_key f) \<and> is_actionable a \<and> ac_expires_on a = as_of + 30)
                  (filter dr_is_dead_stock rows) actions" by blast
  have "map ac_target actions = map (finding_target \<circ> dr_key) (filter dr_is_dead_stock rows)"
    using rel by (induction rule: list_all2_induct) simp_all
  also have "\<dots> = map (finding_target \<circ> cs_key) (filter ?dead universe)"
    using v by (induction rule: list_all2_induct) (auto simp: position_verdict_def)
  finally have "map ac_target actions = map (finding_target \<circ> cs_key) (filter ?dead universe)" .
  moreover have "\<forall>a \<in> set actions. is_actionable a \<and> ac_expires_on a = as_of + 30"
    using list_all2_right [OF rel] by blast
  ultimately show ?thesis using rows loop acts by (intro exI [of _ rows] exI [of _ actions]) simp
qed

lemma dead_stock_actions_total_witness:
  "\<exists>rows actions.
     evaluate_dead_stock [demo_position ''a'' (Some 5000)] [demo_sale ''c'' 739000] 90 3 739001 = Inr rows \<and>
     propose_dead_stock_actions rows [demo_position ''a'' (Some 5000)] DEAD_STOCK [(''current_state'', ''0.1.0'')] 739001 = Inr actions \<and>
     map ac_target actions = [finding_target (1, 2, ''a'')] \<and>
     (\<forall>a \<in> set actions. is_actionable a \<and> ac_expires_on a = 739031)"
  using dead_stock_actions_total
    [of "[demo_position ''a'' (Some 5000)]" "[demo_sale ''c'' 739000]" 739001 "[(''current_state'', ''0.1.0'')]"]
  by (simp add: max_ordinal_def demo_rows feed_live_def has_stock_def unsold_for_def)

text \<open>
  The hot table is unique per variant and lot, the capability's declared grain is
  per SKU, so one SKU can have two rows. Both rows then yield one and the same action: same
  target, arm and provenance, and the quantity of the last row alone. The log keeps one of the
  two, and it does not carry the stock of the position.
\<close>

theorem lot_rows_collapse:
  assumes "cs_key r1 = cs_key r2" "cs_stock_qty r1 = Some q1" "cs_stock_qty r2 = Some q2" "0 < q1" "0 < q2"
    and "feed_live selling 3 as_of" "distinct (map ls_key selling)" "unsold_for selling 90 as_of r1"
    and "1 \<le> as_of" "as_of + 30 \<le> max_ordinal" "versions \<noteq> []"
  shows "\<exists>rows a. evaluate_dead_stock [r1, r2] selling 90 3 as_of = Inr rows \<and>
     propose_dead_stock_actions rows [r1, r2] DEAD_STOCK versions as_of = Inr [a, a] \<and>
     ac_quantity_at_stake a = Some q2"
proof -
  obtain x y where rows: "evaluate_dead_stock [r1, r2] selling 90 3 as_of = Inr [x, y]"
    and v: "position_verdict selling 90 3 as_of r1 x" "position_verdict selling 90 3 as_of r2 y"
    using dead_stock_verdicts_aux [of 90 3 selling "[r1, r2]" as_of] assms(7)
    by (auto simp: list_all2_Cons1)
  have "has_stock r1" "has_stock r2" using assms(2-5) by (auto simp: has_stock_def)
  then have dead: "dr_is_dead_stock x" "dr_is_dead_stock y"
    and key: "dr_key x = cs_key r2" "dr_key y = cs_key r2"
    and days: "dr_days_since_last_sale x = dr_days_since_last_sale y"
    using v assms(1,6,8) by (simp_all add: position_verdict_def unsold_for_def)
  obtain h prov where h: "set (ho_unit h) \<subseteq> {''tenant_id'', ''store_id'', ''sku_id''}" "pr_as_of prov = as_of"
    and loop: "propose_dead_stock_actions [x, y] [r1, r2] DEAD_STOCK versions as_of =
      map_res (propose_one h (stock_by_key [r1, r2]) prov (as_of + 30)) [x, y]"
    using propose_dead_stock_loop [OF assms(9-11), of "[x, y]" "[r1, r2]"] dead by auto
  have stock: "stock_lookup (stock_by_key [r1, r2]) (cs_key r2) = Some q2"
    using stock_lookup_last [of r2 "[]" "[r1]"] assms(3) by simp
  obtain a where a: "propose_one h (stock_by_key [r1, r2]) prov (as_of + 30) y = Inr a" "ac_quantity_at_stake a = Some q2"
    using propose_one_ok [OF h(1), of "stock_by_key [r1, r2]" y prov "as_of + 30"] stock key assms(5) h(2)
    by (auto simp: negative_def)
  have "propose_one h (stock_by_key [r1, r2]) prov (as_of + 30) x = Inr a"
    using a(1) key days by (simp add: propose_one_def)
  then have "propose_dead_stock_actions [x, y] [r1, r2] DEAD_STOCK versions as_of = Inr [a, a]"
    using loop a(1) by simp
  then show ?thesis using rows a(2) by blast
qed

lemma lot_rows_collapse_witness:
  "\<exists>rows a. evaluate_dead_stock [demo_position ''a'' (Some 5000), demo_position ''a'' (Some 7000)] [demo_sale ''c'' 739000] 90 3 739001 = Inr rows \<and>
     propose_dead_stock_actions rows [demo_position ''a'' (Some 5000), demo_position ''a'' (Some 7000)] DEAD_STOCK
       [(''current_state'', ''0.1.0'')] 739001 = Inr [a, a] \<and>
     ac_quantity_at_stake a = Some 7000"
  by (rule lot_rows_collapse [where ?q1.0 = 5000])
     (simp_all add: max_ordinal_def demo_rows feed_live_def unsold_for_def)

end
