(* ===== verification/Stockout_Risk.thy ===== *)
theory Stockout_Risk
  imports Synapse_Core
begin

text \<open>
  The stockout-risk analysis: days of cover per position at the recent rate of sale, or a stated
  refusal (\<open>core/stockout_risk.py\<close>), and the proposer over its findings
  (\<open>core/stockout_actions.py\<close>).
\<close>

section \<open>The evaluator\<close>

record stockout_risk_row =
  sr_tenant_id :: uuid
  sr_store_id :: uuid
  sr_sku_id :: string
  sr_days_of_cover :: "rat option"
  sr_is_at_risk :: bool
  sr_refused_because :: "refusal_prose option"
  sr_refusal_reason :: "refusal_reason option"

definition sr_key :: "stockout_risk_row \<Rightarrow> position_key" where
  "sr_key r = (sr_tenant_id r, sr_store_id r, sr_sku_id r)"

definition mk_stockout_risk_row :: "stockout_risk_row \<Rightarrow> stockout_risk_row result" where
  "mk_stockout_risk_row r =
     bind_res (raise_if ((sr_refused_because r = None) \<noteq> (sr_refusal_reason r = None))
                 (ValueError ''a refusal must carry both the prose and its category'')) (\<lambda>_.
     bind_res (if sr_refused_because r \<noteq> None
               then bind_res (raise_if (sr_days_of_cover r \<noteq> None)
                                (ValueError ''refused but carries a cover figure'')) (\<lambda>_.
                    raise_if (sr_is_at_risk r) (ValueError ''refused but flagged at risk''))
               else raise_if (sr_days_of_cover r = None)
                      (ValueError ''no cover figure and no refusal reason'')) (\<lambda>_.
     Inr r))"

text \<open>\<open>in_window\<close>: the observations of the window, per position, in the order of the series.\<close>

definition in_window :: "date \<Rightarrow> date \<Rightarrow> daily_series_row list \<Rightarrow> (position_key \<times> daily_series_row list) list" where
  "in_window window_start as_of series =
     fold (\<lambda>row d. if window_start \<le> ds_event_date row \<and> ds_event_date row \<le> as_of
                    then AList.update (ds_key row)
                           ((case map_of d (ds_key row) of None \<Rightarrow> [] | Some rows \<Rightarrow> rows) @ [row]) d
                    else d) series []"

definition total_demand :: "daily_series_row list \<Rightarrow> rat" where
  "total_demand observations = dec_sum (map ds_net_quantity observations) 0"

definition stockout_refusal ::
  "current_state_row \<Rightarrow> daily_series_row list \<Rightarrow> int \<Rightarrow> int \<Rightarrow> int \<Rightarrow> date \<Rightarrow>
   (refusal_reason \<times> refusal_prose) option" where
  "stockout_refusal position observations stale_after_days min_observations window_days as_of =
     (if cs_stock_qty position = None then Some (NO_STOCK_QUANTITY, StockQtyNull)
      else if observations = [] then Some (NO_OBSERVATIONS_IN_WINDOW, NoObservations window_days as_of)
      else let latest = py_max (map ds_event_date observations);
               staleness = as_of - latest
           in if staleness > stale_after_days
              then Some (SERIES_TOO_STALE, SeriesEnds latest staleness as_of stale_after_days)
              else if int (length observations) < min_observations
              then Some (TOO_FEW_OBSERVATIONS, TooFew (length observations) window_days min_observations)
              else let total = total_demand observations
                   in if total \<le> 0 then Some (NO_POSITIVE_DEMAND, DemandNotPositive total) else None)"

definition assess ::
  "int \<Rightarrow> int \<Rightarrow> int \<Rightarrow> int \<Rightarrow> date \<Rightarrow> current_state_row \<Rightarrow> daily_series_row list \<Rightarrow> stockout_risk_row result" where
  "assess window_days at_risk_below_days stale_after_days min_observations as_of position observations =
     (case stockout_refusal position observations stale_after_days min_observations window_days as_of of
        Some (reason, prose) \<Rightarrow>
          mk_stockout_risk_row
            \<lparr>sr_tenant_id = cs_tenant_id position, sr_store_id = cs_store_id position,
             sr_sku_id = cs_sku_id position, sr_days_of_cover = None, sr_is_at_risk = False,
             sr_refused_because = Some prose, sr_refusal_reason = Some reason\<rparr>
      | None \<Rightarrow>
          (let total = total_demand observations;
               rate = dec_div total (of_int window_days);
               stock = dec_of_numeric (the (cs_stock_qty position));
               cover = dec_div stock rate
           in mk_stockout_risk_row
                \<lparr>sr_tenant_id = cs_tenant_id position, sr_store_id = cs_store_id position,
                 sr_sku_id = cs_sku_id position, sr_days_of_cover = Some cover,
                 sr_is_at_risk = (cover < of_int at_risk_below_days),
                 sr_refused_because = None, sr_refusal_reason = None\<rparr>))"

definition evaluate_stockout_risk ::
  "current_state_row list \<Rightarrow> daily_series_row list \<Rightarrow> int \<Rightarrow> int \<Rightarrow> int \<Rightarrow> int \<Rightarrow> date \<Rightarrow>
   stockout_risk_row list result" where
  "evaluate_stockout_risk universe series window_days at_risk_below_days stale_after_days min_observations as_of =
     bind_res (raise_if (window_days < 1) (ValueError ''window_days must be at least 1'')) (\<lambda>_.
     bind_res (date_add as_of (- (window_days - 1))) (\<lambda>window_start.
     map_res (\<lambda>position.
       assess window_days at_risk_below_days stale_after_days min_observations as_of position
         (case map_of (in_window window_start as_of series) (cs_key position) of None \<Rightarrow> [] | Some rows \<Rightarrow> rows))
       universe))"

section \<open>The proposer\<close>

definition propose_stockout_one ::
  "holdout \<Rightarrow> ((string \<times> string \<times> string) \<times> numeric_14_3 option) list \<Rightarrow> provenance \<Rightarrow> date \<Rightarrow>
   stockout_risk_row \<Rightarrow> action result" where
  "propose_stockout_one h stock prov expires_on finding =
     (let target = finding_target (sr_key finding)
      in bind_res (subject_of h target) (\<lambda>subject.
         bind_res (assign h subject) (\<lambda>a.
         mk_action
           \<lparr>ac_target = target, ac_verb = REVIEW,
            ac_quantity_at_stake = stock_lookup stock (sr_key finding),
            ac_expires_on = expires_on, ac_arm = a, ac_provenance = prov,
            ac_days_since_last_sale = None, ac_days_of_cover = sr_days_of_cover finding\<rparr>)))"

definition propose_stockout_actions ::
  "stockout_risk_row list \<Rightarrow> current_state_row list \<Rightarrow> analysis_declaration \<Rightarrow> string dict \<Rightarrow> date \<Rightarrow>
   action list result" where
  "propose_stockout_actions findings universe declaration capability_versions as_of =
     (case ad_holdout declaration of
        None \<Rightarrow> Inl (ValueError ''analysis proposes actions but declares no holdout'')
      | Some h \<Rightarrow>
          (let thresholds = thresholds_of declaration
           in bind_res (raise_if (\<not> has_key thresholds ''at_risk_below_days'' \<or> \<not> has_key thresholds ''expires_after_days'')
                          (ValueError ''analysis is missing threshold(s) this proposer reads by name'')) (\<lambda>_.
              bind_res (mk_provenance
                          \<lparr>pr_declaration_id = ad_id declaration, pr_declaration_version = ad_version declaration,
                           pr_capability_versions = dict_of capability_versions,
                           pr_thresholds = thresholds, pr_as_of = as_of\<rparr>) (\<lambda>prov.
              bind_res (dict_item thresholds ''expires_after_days'') (\<lambda>days.
              bind_res (date_add as_of days) (\<lambda>expires_on.
              map_res (propose_stockout_one h (stock_by_key universe) prov expires_on) (filter sr_is_at_risk findings)))))))"

section \<open>The evaluator, position by position\<close>

text \<open>The observations a position is assessed on.\<close>

definition window_rows :: "daily_series_row list \<Rightarrow> int \<Rightarrow> date \<Rightarrow> position_key \<Rightarrow> daily_series_row list" where
  "window_rows series window_days as_of k =
     filter (\<lambda>r. ds_key r = k \<and> as_of - window_days < ds_event_date r \<and> ds_event_date r \<le> as_of) series"

lemma in_window_lookup:
  "(case map_of (in_window ws as_of series) k of None \<Rightarrow> [] | Some rows \<Rightarrow> rows) =
   filter (\<lambda>r. ds_key r = k \<and> ws \<le> ds_event_date r \<and> ds_event_date r \<le> as_of) series"
proof -
  let ?get = "\<lambda>d. case map_of d k of None \<Rightarrow> [] | Some rows \<Rightarrow> rows"
  let ?step = "\<lambda>row d. if ws \<le> ds_event_date row \<and> ds_event_date row \<le> as_of
        then AList.update (ds_key row) ((case map_of d (ds_key row) of None \<Rightarrow> [] | Some rows \<Rightarrow> rows) @ [row]) d else d"
  have "?get (fold ?step series d) = ?get d @ filter (\<lambda>r. ds_key r = k \<and> ws \<le> ds_event_date r \<and> ds_event_date r \<le> as_of) series" for d
    by (induction series arbitrary: d) (auto simp: update_conv')
  then show ?thesis by (simp add: in_window_def)
qed

text \<open>The four conditions of an assessment, in the order the refusals report them.\<close>

definition assessable ::
  "current_state_row \<Rightarrow> daily_series_row list \<Rightarrow> int \<Rightarrow> int \<Rightarrow> date \<Rightarrow> bool" where
  "assessable r obs stale min_obs as_of \<longleftrightarrow>
     cs_stock_qty r \<noteq> None \<and> (\<exists>s \<in> set obs. as_of - ds_event_date s \<le> stale) \<and>
     min_obs \<le> int (length obs) \<and> 0 < total_demand obs"

lemma stockout_refusal_iff:
  "stockout_refusal r obs stale min_obs w as_of = None \<longleftrightarrow> assessable r obs stale min_obs as_of"
proof (cases "obs = []")
  case False
  then have "py_max (map ds_event_date obs) = Max (ds_event_date ` set obs)" by (simp add: py_max_eq_Max)
  moreover have "Max (ds_event_date ` set obs) < as_of - stale \<longleftrightarrow> (\<forall>s \<in> set obs. ds_event_date s < as_of - stale)"
    using False by (subst Max_less_iff) auto
  then have "stale < as_of - Max (ds_event_date ` set obs) \<longleftrightarrow> \<not> (\<exists>s \<in> set obs. as_of - ds_event_date s \<le> stale)"
    by (auto simp: not_le)
  ultimately show ?thesis
    using False by (auto simp: stockout_refusal_def Let_def assessable_def)
qed (simp add: stockout_refusal_def assessable_def)

definition cover_verdict ::
  "int \<Rightarrow> int \<Rightarrow> int \<Rightarrow> int \<Rightarrow> date \<Rightarrow> daily_series_row list \<Rightarrow> current_state_row \<Rightarrow> stockout_risk_row \<Rightarrow> bool" where
  "cover_verdict w below stale min_obs as_of series r row \<longleftrightarrow>
     (let obs = window_rows series w as_of (cs_key r)
      in sr_key row = cs_key r \<and>
         (sr_refusal_reason row = None \<longleftrightarrow> assessable r obs stale min_obs as_of) \<and>
         (sr_days_of_cover row =
            (if assessable r obs stale min_obs as_of
             then Some (dec_div (dec_of_numeric (the (cs_stock_qty r))) (dec_div (total_demand obs) (of_int w)))
             else None)) \<and>
         (sr_is_at_risk row \<longleftrightarrow> (\<exists>c. sr_days_of_cover row = Some c \<and> c < of_int below)))"

lemma assess_total:
  "\<exists>row. assess w below stale min_obs as_of r obs = Inr row \<and> sr_key row = cs_key r \<and>
     (sr_refusal_reason row = None \<longleftrightarrow> assessable r obs stale min_obs as_of) \<and>
     sr_days_of_cover row =
       (if assessable r obs stale min_obs as_of
        then Some (dec_div (dec_of_numeric (the (cs_stock_qty r))) (dec_div (total_demand obs) (of_int w))) else None) \<and>
     (sr_is_at_risk row \<longleftrightarrow> (\<exists>c. sr_days_of_cover row = Some c \<and> c < of_int below))"
proof (cases "stockout_refusal r obs stale min_obs w as_of")
  case None
  then have "assessable r obs stale min_obs as_of" by (simp add: stockout_refusal_iff)
  then show ?thesis
    using None by (simp add: assess_def mk_stockout_risk_row_def raise_if_def Let_def sr_key_def cs_key_def)
next
  case (Some x)
  then have "\<not> assessable r obs stale min_obs as_of" using stockout_refusal_iff by (metis option.distinct(1))
  then show ?thesis
    using Some by (cases x) (simp add: assess_def mk_stockout_risk_row_def raise_if_def sr_key_def cs_key_def)
qed

lemma evaluate_stockout_total:
  assumes "1 \<le> w" "1 \<le> as_of - (w - 1)" "as_of \<le> max_ordinal"
  shows "\<exists>rows. evaluate_stockout_risk universe series w below stale min_obs as_of = Inr rows \<and>
                list_all2 (cover_verdict w below stale min_obs as_of series) universe rows"
proof -
  let ?f = "\<lambda>r. assess w below stale min_obs as_of r
      (case map_of (in_window (as_of - (w - 1)) as_of series) (cs_key r) of None \<Rightarrow> [] | Some rows \<Rightarrow> rows)"
  have obs: "(case map_of (in_window (as_of - (w - 1)) as_of series) k of None \<Rightarrow> [] | Some rows \<Rightarrow> rows) =
    window_rows series w as_of k" for k
    unfolding in_window_lookup window_rows_def by (rule filter_cong) auto
  have "\<exists>row. ?f r = Inr row \<and> cover_verdict w below stale min_obs as_of series r row" for r
    using assess_total [of w below stale min_obs as_of r "window_rows series w as_of (cs_key r)"]
    unfolding obs by (simp add: cover_verdict_def Let_def)
  then have "\<exists>rows. map_res ?f universe = Inr rows \<and>
      list_all2 (cover_verdict w below stale min_obs as_of series) universe rows"
    by (intro map_res_total) blast
  moreover have "date_add as_of (- (w - 1)) = Inr (as_of - (w - 1))" using assms by (simp add: date_add_def)
  moreover have "raise_if (w < 1) e = Inr ()" for e :: synapse_error using assms(1) by (simp add: raise_if_def)
  ultimately show ?thesis unfolding evaluate_stockout_risk_def by (simp only: bind_res_simps)
qed

section \<open>The proposer, finding by finding\<close>

lemma propose_stockout_one_eq:
  assumes "set (ho_unit h) \<subseteq> {''tenant_id'', ''store_id'', ''sku_id''}"
  shows "\<exists>a. propose_stockout_one h stock prov e f =
     mk_action \<lparr>ac_target = finding_target (sr_key f), ac_verb = REVIEW,
       ac_quantity_at_stake = stock_lookup stock (sr_key f), ac_expires_on = e, ac_arm = a, ac_provenance = prov,
       ac_days_since_last_sale = None, ac_days_of_cover = sr_days_of_cover f\<rparr>"
  by (rule finding_arm [OF assms, of "sr_key f"]) (auto simp: propose_stockout_one_def Let_def)

lemma stockout_thresholds:
  "thresholds_of STOCKOUT_RISK =
     [(''window_days'', 28), (''at_risk_below_days'', 14), (''stale_after_days'', 3), (''expires_after_days'', 7)]"
  by (simp add: thresholds_of_def STOCKOUT_RISK_def dict_of_def)

lemma stockout_fields:
  "ad_id STOCKOUT_RISK \<noteq> []" "ad_version STOCKOUT_RISK \<noteq> []"
  "\<exists>h. ad_holdout STOCKOUT_RISK = Some h \<and> ho_unit h = [''tenant_id'', ''store_id'', ''sku_id'']"
  by (simp_all add: STOCKOUT_RISK_def)

lemma propose_stockout_loop:
  assumes "1 \<le> as_of" "as_of + 7 \<le> max_ordinal" "versions \<noteq> []"
  shows "\<exists>h prov. set (ho_unit h) \<subseteq> {''tenant_id'', ''store_id'', ''sku_id''} \<and> pr_as_of prov = as_of \<and>
     (\<forall>findings universe. propose_stockout_actions findings universe STOCKOUT_RISK versions as_of =
       map_res (propose_stockout_one h (stock_by_key universe) prov (as_of + 7)) (filter sr_is_at_risk findings))"
proof -
  obtain h where h: "ad_holdout STOCKOUT_RISK = Some h" "ho_unit h = [''tenant_id'', ''store_id'', ''sku_id'']"
    using stockout_fields(3) by blast
  let ?prov = "\<lparr>pr_declaration_id = ad_id STOCKOUT_RISK, pr_declaration_version = ad_version STOCKOUT_RISK,
    pr_capability_versions = dict_of versions, pr_thresholds = thresholds_of STOCKOUT_RISK, pr_as_of = as_of\<rparr>"
  have "dict_of versions \<noteq> []" using dict_of_keys [of versions] assms(3) by (metis image_is_empty set_empty)
  then have "mk_provenance ?prov = Inr ?prov"
    using stockout_fields(1,2) by (simp add: mk_provenance_def raise_if_def)
  moreover have "has_key (thresholds_of STOCKOUT_RISK) ''at_risk_below_days''"
    "has_key (thresholds_of STOCKOUT_RISK) ''expires_after_days''"
    "dict_item (thresholds_of STOCKOUT_RISK) ''expires_after_days'' = Inr 7"
    by (simp_all add: stockout_thresholds has_key_def dict_item_def)
  moreover have "date_add as_of 7 = Inr (as_of + 7)" using assms by (simp add: date_add_def)
  ultimately have "propose_stockout_actions findings universe STOCKOUT_RISK versions as_of =
      map_res (propose_stockout_one h (stock_by_key universe) ?prov (as_of + 7)) (filter sr_is_at_risk findings)"
    for findings universe
    by (simp add: propose_stockout_actions_def h(1) raise_if_def)
  then show ?thesis using h(2) by (intro exI [of _ h] exI [of _ ?prov]) simp
qed

lemma dec_div_sgn: "0 < y \<Longrightarrow> dec_div x y < 0 \<longleftrightarrow> x < 0" "0 < x \<Longrightarrow> 0 < y \<Longrightarrow> 0 < dec_div x y"
  by (simp_all add: dec_div_def dec_round_sgn divide_less_0_iff)

text \<open>The sign of the cover figure is the sign of the stock figure.\<close>

lemma cover_negative_iff:
  assumes "cover_verdict w below stale min_obs as_of series r row" "1 \<le> w" "sr_days_of_cover row = Some c"
  shows "c < 0 \<longleftrightarrow> the (cs_stock_qty r) < 0"
proof -
  let ?obs = "window_rows series w as_of (cs_key r)"
  have "assessable r ?obs stale min_obs as_of"
    and c: "c = dec_div (dec_of_numeric (the (cs_stock_qty r))) (dec_div (total_demand ?obs) (of_int w))"
    using assms(1,3) by (auto simp: cover_verdict_def Let_def split: if_splits)
  then have "0 < dec_div (total_demand ?obs) (of_int w)"
    using assms(2) by (intro dec_div_sgn) (simp_all add: assessable_def)
  then show ?thesis by (simp add: c dec_div_sgn dec_of_numeric_def)
qed

section \<open>Properties\<close>



text \<open>
  C16 (bounds). The reported cover is never negative for a stock figure the hot table admits, and
  differs from the exact quotient of stock by mean daily demand by less than two units in the
  27th digit, although two divisions are rounded on the way.
\<close>

theorem cover_accuracy:
  assumes "evaluate_stockout_risk universe series w below stale min_obs as_of = Inr rows"
    and "1 \<le> w" "1 \<le> as_of - (w - 1)" "as_of \<le> max_ordinal"
    and "i < length universe" "cs_stock_qty (universe ! i) = Some q" "0 \<le> q" "sr_days_of_cover (rows ! i) = Some c"
    and "sum_list (map (\<lambda>r. \<bar>ds_net_quantity r\<bar>) (window_rows series w as_of (cs_key (universe ! i)))) < 10 ^ 28"
  shows "0 \<le> c \<and>
    (let demand = of_int (sum_list (map ds_net_quantity (window_rows series w as_of (cs_key (universe ! i))))) / 1000;
         exact = of_int q / 1000 * of_int w / demand
     in \<bar>c - exact\<bar> \<le> 2 / 10 ^ 27 * exact)"
proof -
  let ?r = "universe ! i" and ?obs = "window_rows series w as_of (cs_key (universe ! i))"
  have "list_all2 (cover_verdict w below stale min_obs as_of series) universe rows"
    using evaluate_stockout_total [OF assms(2-4), of universe series below stale min_obs] assms(1) by simp
  then have v: "cover_verdict w below stale min_obs as_of series ?r (rows ! i)"
    using assms(5) by (rule list_all2_nthD)
  have "0 \<le> c" using cover_negative_iff [OF v assms(2,8)] assms(6,7) by simp
  moreover have "assessable ?r ?obs stale min_obs as_of"
    and c: "c = dec_div (dec_of_numeric q) (dec_div (total_demand ?obs) (of_int w))"
    using v assms(6,8) by (auto simp: cover_verdict_def Let_def split: if_splits)
  moreover have t: "total_demand ?obs = of_int (sum_list (map ds_net_quantity ?obs)) / 1000"
    using dec_sum_exact [of "map ds_net_quantity ?obs" 0] assms(9)
    by (simp add: total_demand_def dec_of_numeric_def comp_def)
  ultimately have "0 < total_demand ?obs" by (simp add: assessable_def)
  then show ?thesis
    using dec_div_div_error [of "dec_of_numeric q" "total_demand ?obs" "of_int w"] assms(2,7) \<open>0 \<le> c\<close>
    unfolding c t by (simp add: Let_def dec_of_numeric_def)
qed

definition cover_position :: "numeric_14_3 \<Rightarrow> current_state_row" where
  "cover_position qty =
     \<lparr>cs_tenant_id = 1, cs_store_id = 2, cs_sku_id = ''a'', cs_product_name = ''p'', cs_product_category = None,
      cs_sku_status = None, cs_current_retail_price = 0, cs_unit_cost = None, cs_promo_price = None,
      cs_stock_qty = Some qty, cs_reorder_point = None, cs_currency = ''INR'', cs_expiry_date = None,
      cs_last_source_event_at = None, cs_last_updated_at = 0\<rparr>"

definition cover_day :: "date \<Rightarrow> numeric_14_3 \<Rightarrow> daily_series_row" where
  "cover_day d qty =
     \<lparr>ds_tenant_id = 1, ds_store_id = 2, ds_sku_id = ''a'', ds_event_date = d, ds_net_quantity = qty,
      ds_sale_line_count = 1, ds_return_line_count = 0, ds_void_line_count = 0\<rparr>"

text \<open>A week of sales: six days of the same quantity and a last day of another.\<close>

definition cover_week :: "numeric_14_3 \<Rightarrow> numeric_14_3 \<Rightarrow> daily_series_row list" where
  "cover_week d6 d7 = map (\<lambda>i. cover_day (738993 + i) d6) [1, 2, 3, 4, 5, 6] @ [cover_day 739000 d7]"

lemma cover_week_rows:
  "window_rows (cover_week d6 d7) 28 739000 (cs_key (cover_position q)) = cover_week d6 d7"
  by (simp add: window_rows_def cover_week_def cover_day_def cover_position_def ds_key_def cs_key_def)

lemma cover_week_demand:
  assumes "\<bar>d6\<bar> < 10 ^ 20" "\<bar>d7\<bar> < 10 ^ 20"
  shows "total_demand (cover_week d6 d7) = of_int (6 * d6 + d7) / 1000"
proof -
  have "dec_sum (map ds_net_quantity (cover_week d6 d7)) (dec_of_numeric 0) = dec_of_numeric (0 + (6 * d6 + d7))"
    using assms by (subst dec_sum_exact) (simp_all add: cover_week_def cover_day_def)
  then show ?thesis by (simp add: total_demand_def dec_of_numeric_def)
qed

lemma cover_week_assessable:
  assumes "\<bar>d6\<bar> < 10 ^ 20" "\<bar>d7\<bar> < 10 ^ 20" "0 < 6 * d6 + d7"
  shows "assessable (cover_position q) (cover_week d6 d7) 3 7 739000"
proof -
  have "0 < total_demand (cover_week d6 d7)"
    unfolding cover_week_demand [OF assms(1,2)] using assms(3) by (simp del: of_int_add of_int_mult)
  then show ?thesis
    by (simp add: assessable_def cover_position_def) (simp add: cover_week_def cover_day_def)
qed

lemma cover_week_verdict:
  assumes "\<bar>d6\<bar> < 10 ^ 20" "\<bar>d7\<bar> < 10 ^ 20" "0 < 6 * d6 + d7"
    and "dec_div (of_int q / 1000) (dec_div (of_int (6 * d6 + d7) / 1000) 28) = c"
    and "cover_verdict 28 14 3 7 739000 (cover_week d6 d7) (cover_position q) row"
  shows "sr_days_of_cover row = Some c" "sr_is_at_risk row \<longleftrightarrow> c < 14"
proof -
  have "cs_stock_qty (cover_position q) = Some q" by (simp add: cover_position_def)
  then show "sr_days_of_cover row = Some c" "sr_is_at_risk row \<longleftrightarrow> c < 14"
    using assms(5) cover_week_assessable [OF assms(1-3)] cover_week_demand [OF assms(1,2)] assms(4)
    by (simp_all add: cover_verdict_def Let_def cover_week_rows dec_of_numeric_def)
qed

lemma cover_accuracy_witness:
  "\<exists>rows c. evaluate_stockout_risk [cover_position 10000] (cover_week 4000 4000) 28 14 3 7 739000 = Inr rows \<and>
     sr_days_of_cover (rows ! 0) = Some c \<and> 0 \<le> c \<and> \<bar>c - 10\<bar> \<le> 2 / 10 ^ 27 * 10"
proof -
  obtain rows where rows: "evaluate_stockout_risk [cover_position 10000] (cover_week 4000 4000) 28 14 3 7 739000 = Inr rows"
    and v: "list_all2 (cover_verdict 28 14 3 7 739000 (cover_week 4000 4000)) [cover_position 10000] rows"
    using evaluate_stockout_total [of 28 739000 "[cover_position 10000]" "cover_week 4000 4000" 14 3 7]
    by (auto simp: max_ordinal_def)
  then obtain row where row: "rows = [row]" "cover_verdict 28 14 3 7 739000 (cover_week 4000 4000) (cover_position 10000) row"
    by (auto simp: list_all2_Cons1)
  then obtain c where c: "sr_days_of_cover (rows ! 0) = Some c"
    using cover_week_verdict(1) [of 4000 4000 10000 _ row] by auto
  have "0 \<le> c \<and> \<bar>c - 10\<bar> \<le> 2 / 10 ^ 27 * 10"
    using cover_accuracy [OF rows, of 0 10000 c] c
    by (simp add: cover_week_rows max_ordinal_def Let_def) (simp add: cover_week_def cover_day_def cover_position_def)
  then show ?thesis using rows c by blast
qed

text \<open>
  The two divisions are rounded separately, and that is visible at the threshold: a
  position with exactly fourteen days of cover (1.405 units on hand against 2.810 sold in the
  28-day window) is flagged as at risk of falling below fourteen days.
\<close>

theorem stockout_boundary_misjudged:
  "\<exists>row. evaluate_stockout_risk [cover_position 1405] (cover_week 400 410) 28 14 3 7 739000 = Inr [row] \<and>
     sr_is_at_risk row \<and> sr_days_of_cover row = Some (1399999999999999999999999999 / 10 ^ 26) \<and>
     dec_of_numeric 1405 * 28 / total_demand (cover_week 400 410) = 14"
proof -
  have d: "total_demand (cover_week 400 410) = 2810 / 1000" by (subst cover_week_demand) simp_all
  have rate: "dec_div (2810 / 1000) 28 = 1003571428571428571428571429 / 10 ^ 28"
    unfolding dec_div_def
    by (subst dec_round_eq [of "-1" _ 1003571428571428571428571429]) (simp_all add: power_int_def power_divide)
  have cover: "dec_div (1405 / 1000) (1003571428571428571428571429 / 10 ^ 28) = 1399999999999999999999999999 / 10 ^ 26"
    unfolding dec_div_def
    by (subst dec_round_eq [of 1 _ 1399999999999999999999999999]) (simp_all add: power_int_def power_divide)
  obtain row where row: "evaluate_stockout_risk [cover_position 1405] (cover_week 400 410) 28 14 3 7 739000 = Inr [row]"
      "cover_verdict 28 14 3 7 739000 (cover_week 400 410) (cover_position 1405) row"
    using evaluate_stockout_total [of 28 739000 "[cover_position 1405]" "cover_week 400 410" 14 3 7]
    by (auto simp: max_ordinal_def list_all2_Cons1)
  have "of_int (6 * 400 + 410) = (2810 :: rat)" "of_int 1405 = (1405 :: rat)" by simp_all
  then have c: "dec_div (of_int 1405 / 1000) (dec_div (of_int (6 * 400 + 410) / 1000) 28) =
      1399999999999999999999999999 / 10 ^ 26" by (simp only: rate cover)
  have "sr_days_of_cover row = Some (1399999999999999999999999999 / 10 ^ 26)"
    "sr_is_at_risk row \<longleftrightarrow> 1399999999999999999999999999 / 10 ^ 26 < (14 :: rat)"
    by (rule cover_week_verdict [OF _ _ _ c row(2)]; simp)+
  moreover have "dec_of_numeric 1405 * 28 / total_demand (cover_week 400 410) = 14"
    unfolding d by (simp add: dec_of_numeric_def)
  ultimately show ?thesis using row(1) by simp
qed

text \<open>
  Cover is computed per row of the hot table against the demand of the whole SKU.
  A SKU held as two lots of ten units and selling one unit a day has twenty days of cover, yet
  both of its rows are reported at risk of running out within fourteen.
\<close>

theorem lot_rows_false_alarm:
  "\<exists>x y. evaluate_stockout_risk [cover_position 10000, cover_position 10000] (cover_week 4000 4000) 28 14 3 7 739000 = Inr [x, y] \<and>
     sr_is_at_risk x \<and> sr_is_at_risk y \<and>
     14 < dec_of_numeric (10000 + 10000) / (total_demand (cover_week 4000 4000) / 28)"
proof -
  have d: "total_demand (cover_week 4000 4000) = 28" by (subst cover_week_demand) simp_all
  have one: "dec_div 28 28 = 1" unfolding dec_div_def by (subst dec_round_exact [of _ 1 0]) simp_all
  have cover: "dec_div 10 1 = 10" unfolding dec_div_def by (subst dec_round_exact [of _ 10 0]) simp_all
  obtain x y where rows: "evaluate_stockout_risk [cover_position 10000, cover_position 10000] (cover_week 4000 4000) 28 14 3 7 739000 = Inr [x, y]"
      "cover_verdict 28 14 3 7 739000 (cover_week 4000 4000) (cover_position 10000) x"
      "cover_verdict 28 14 3 7 739000 (cover_week 4000 4000) (cover_position 10000) y"
    using evaluate_stockout_total [of 28 739000 "[cover_position 10000, cover_position 10000]" "cover_week 4000 4000" 14 3 7]
    by (auto simp: max_ordinal_def list_all2_Cons1)
  have "sr_is_at_risk x" "sr_is_at_risk y"
    using cover_week_verdict(2) [OF _ _ _ _ rows(2), of 10] cover_week_verdict(2) [OF _ _ _ _ rows(3), of 10] one cover
    by simp_all
  then show ?thesis using rows(1) d by (simp add: dec_of_numeric_def)
qed

text \<open>
  Evaluating and proposing stockout risk under the shipped declaration never raises
  on a universe at the declared grain with the stock figures the hot table admits: one action per
  position at risk, in order, each carrying its non-negative cover figure and the units on hand.
\<close>

theorem stockout_actions_total:
  assumes "distinct (map cs_key universe)" "\<forall>r \<in> set universe. \<not> negative (cs_stock_qty r)"
    and "28 \<le> as_of" "as_of + 7 \<le> max_ordinal" "versions \<noteq> []"
  shows "\<exists>rows actions.
     evaluate_stockout_risk universe series 28 14 3 7 as_of = Inr rows \<and>
     propose_stockout_actions rows universe STOCKOUT_RISK versions as_of = Inr actions \<and>
     list_all2 (\<lambda>f a. ac_target a = finding_target (sr_key f) \<and> ac_days_of_cover a = sr_days_of_cover f \<and>
                  (\<exists>c q. ac_days_of_cover a = Some c \<and> ac_quantity_at_stake a = Some q \<and> 0 \<le> c \<and> c < 14 \<and> 0 \<le> q))
       (filter sr_is_at_risk rows) actions"
proof -
  obtain rows where rows: "evaluate_stockout_risk universe series 28 14 3 7 as_of = Inr rows"
    and v: "list_all2 (cover_verdict 28 14 3 7 as_of series) universe rows"
    using evaluate_stockout_total [of 28 as_of universe series 14 3 7] assms(3,4) by auto
  obtain h prov where h: "set (ho_unit h) \<subseteq> {''tenant_id'', ''store_id'', ''sku_id''}" "pr_as_of prov = as_of"
    and loop: "propose_stockout_actions rows universe STOCKOUT_RISK versions as_of =
       map_res (propose_stockout_one h (stock_by_key universe) prov (as_of + 7)) (filter sr_is_at_risk rows)"
    using propose_stockout_loop [OF _ assms(4,5)] assms(3) by auto
  have "\<exists>a. propose_stockout_one h (stock_by_key universe) prov (as_of + 7) f = Inr a \<and>
      ac_target a = finding_target (sr_key f) \<and> ac_days_of_cover a = sr_days_of_cover f \<and>
      (\<exists>c q. ac_days_of_cover a = Some c \<and> ac_quantity_at_stake a = Some q \<and> 0 \<le> c \<and> c < 14 \<and> 0 \<le> q)"
    if f: "f \<in> set (filter sr_is_at_risk rows)" for f
  proof -
    obtain r where r: "r \<in> set universe" "cover_verdict 28 14 3 7 as_of series r f"
      using f list_all2_right [OF v] by auto
    then obtain c where c: "sr_days_of_cover f = Some c" "c < 14" and q: "cs_stock_qty r \<noteq> None" and key: "sr_key f = cs_key r"
      using f by (auto simp: cover_verdict_def Let_def assessable_def split: if_splits)
    then obtain q where q: "cs_stock_qty r = Some q" "0 \<le> q" using assms(2) r(1) by (auto simp: negative_def)
    have "0 \<le> c" using cover_negative_iff [OF r(2) _ c(1)] q by simp
    moreover have "stock_lookup (stock_by_key universe) (sr_key f) = Some q"
      using stock_lookup_distinct [OF assms(1) r(1)] key q by simp
    ultimately show ?thesis
      using propose_stockout_one_eq [OF h(1), of "stock_by_key universe" prov "as_of + 7" f] c q h(2)
      by (auto simp: mk_action_def raise_if_def negative_def)
  qed
  then have "\<exists>actions. map_res (propose_stockout_one h (stock_by_key universe) prov (as_of + 7)) (filter sr_is_at_risk rows) = Inr actions \<and>
      list_all2 (\<lambda>f a. ac_target a = finding_target (sr_key f) \<and> ac_days_of_cover a = sr_days_of_cover f \<and>
        (\<exists>c q. ac_days_of_cover a = Some c \<and> ac_quantity_at_stake a = Some q \<and> 0 \<le> c \<and> c < 14 \<and> 0 \<le> q))
      (filter sr_is_at_risk rows) actions"
    by (rule map_res_total)
  then show ?thesis using rows loop by simp
qed

lemma stockout_actions_total_witness:
  "\<exists>rows actions.
     evaluate_stockout_risk [cover_position 10000] (cover_week 4000 4000) 28 14 3 7 739000 = Inr rows \<and>
     propose_stockout_actions rows [cover_position 10000] STOCKOUT_RISK [(''current_state'', ''0.1.0'')] 739000 = Inr actions \<and>
     list_all2 (\<lambda>f a. ac_target a = finding_target (sr_key f) \<and> ac_days_of_cover a = sr_days_of_cover f \<and>
                  (\<exists>c q. ac_days_of_cover a = Some c \<and> ac_quantity_at_stake a = Some q \<and> 0 \<le> c \<and> c < 14 \<and> 0 \<le> q))
       (filter sr_is_at_risk rows) actions"
  by (rule stockout_actions_total) (simp_all add: max_ordinal_def negative_def cover_position_def)

text \<open>
  The evaluator itself does not exclude a negative cover, contrary to what its row
  type says: a negative stock figure is assessed, flagged at risk with a negative cover, and the
  proposer then raises, losing the actions of every other position. Only the CHECK constraint of
  the hot table stands in the way.
\<close>

theorem stockout_negative_stock_raises:
  assumes "cs_stock_qty r = Some q" "q < 0" "assessable r (window_rows series 28 as_of (cs_key r)) 3 7 as_of"
    and "28 \<le> as_of" "as_of + 7 \<le> max_ordinal" "versions \<noteq> []"
  shows "\<exists>row c. evaluate_stockout_risk [r] series 28 14 3 7 as_of = Inr [row] \<and> sr_is_at_risk row \<and>
     sr_days_of_cover row = Some c \<and> c < 0 \<and>
     propose_stockout_actions [row] [r] STOCKOUT_RISK versions as_of = Inl (ValueError ''negative quantity_at_stake'')"
proof -
  obtain row where row: "evaluate_stockout_risk [r] series 28 14 3 7 as_of = Inr [row]"
      "cover_verdict 28 14 3 7 as_of series r row"
    using evaluate_stockout_total [of 28 as_of "[r]" series 14 3 7] assms(4,5) by (auto simp: list_all2_Cons1)
  then obtain c where c: "sr_days_of_cover row = Some c" and key: "sr_key row = cs_key r"
    using assms(3) by (auto simp: cover_verdict_def Let_def)
  have neg: "c < 0" using cover_negative_iff [OF row(2) _ c] assms(1,2) by simp
  then have risk: "sr_is_at_risk row" using row(2) c by (auto simp: cover_verdict_def Let_def)
  obtain h prov where h: "set (ho_unit h) \<subseteq> {''tenant_id'', ''store_id'', ''sku_id''}"
    and loop: "propose_stockout_actions [row] [r] STOCKOUT_RISK versions as_of =
       map_res (propose_stockout_one h (stock_by_key [r]) prov (as_of + 7)) [row]"
    using propose_stockout_loop [OF _ assms(5,6)] assms(4) risk by fastforce
  have "stock_lookup (stock_by_key [r]) (sr_key row) = Some q"
    using stock_lookup_distinct [of "[r]" r] key assms(1) by simp
  then have "propose_stockout_one h (stock_by_key [r]) prov (as_of + 7) row = Inl (ValueError ''negative quantity_at_stake'')"
    using propose_stockout_one_eq [OF h, of "stock_by_key [r]" prov "as_of + 7" row] assms(2)
    by (auto simp: mk_action_def raise_if_def negative_def)
  then show ?thesis using row(1) c neg risk loop by simp
qed

lemma stockout_negative_stock_raises_witness:
  "\<exists>row c. evaluate_stockout_risk [cover_position (- 1000)] (cover_week 4000 4000) 28 14 3 7 739000 = Inr [row] \<and> sr_is_at_risk row \<and>
     sr_days_of_cover row = Some c \<and> c < 0 \<and>
     propose_stockout_actions [row] [cover_position (- 1000)] STOCKOUT_RISK [(''current_state'', ''0.1.0'')] 739000 =
       Inl (ValueError ''negative quantity_at_stake'')"
proof (rule stockout_negative_stock_raises [where q = "- 1000"])
  show "assessable (cover_position (- 1000)) (window_rows (cover_week 4000 4000) 28 739000 (cs_key (cover_position (- 1000)))) 3 7 739000"
    unfolding cover_week_rows by (rule cover_week_assessable) simp_all
qed (simp_all add: max_ordinal_def cover_position_def)

end
