(* ===== verification/Synapse_Registry.thy ===== *)
theory Synapse_Registry
  imports Effects Synapse_Resolvers Dead_Stock Stockout_Risk "HOL-Library.Char_ord" "HOL-Library.List_Lexorder"
begin

text \<open>
  The capability registry and the resolution engine (\<open>synapse/src/synapse/registry.py\<close>,
  \<open>core/resolution.py\<close>, \<open>core/declaration_resolution.py\<close>). The module's mappings are arguments of
  the checks and of the two resolution functions, so that what the import-time checks establish
  can be stated for any tables they accept; \<open>REGISTRY\<close>, \<open>DECLINED\<close> and \<open>DECLARATIONS\<close> are the
  shipped ones. A resolver, a probe and a bound fetch are data with a function that runs them.

  Every statement sees its own snapshot of the database (READ COMMITTED) and has its own fate;
  the state of a computation here is the number of statements executed so far.
\<close>

section \<open>Statements\<close>

record database =
  db_events :: "sale_event list"
  db_hot :: "hot_position list"
  db_now :: int

record syn_env =
  se_snapshot :: "nat \<Rightarrow> database"
  se_fault :: "nat \<Rightarrow> fault"

text \<open>\<open>Killed\<close> is the death of the process, which no handler sees.\<close>

datatype run_error = Raised synapse_error | Killed

type_synonym 'a reading = "(run_error, nat, 'a) eff"

definition lift_result :: "'a result \<Rightarrow> (run_error, 's, 'a) eff" where
  "lift_result r = lift_res (case r of Inl e \<Rightarrow> Inl (Raised e) | Inr x \<Rightarrow> Inr x)"

text \<open>One session with one read: the query is a function of the snapshot.\<close>

definition select_stmt :: "'z syn_env_scheme \<Rightarrow> (database \<Rightarrow> 'a) \<Rightarrow> 'a reading" where
  "select_stmt env q n =
     (case se_fault env n of
        Fine \<Rightarrow> (Inr (q (se_snapshot env n)), Suc n)
      | Lost \<Rightarrow> (Inl (Raised DatabaseError), Suc n)
      | Late \<Rightarrow> (Inl (Raised DatabaseError), Suc n)
      | Crash \<Rightarrow> (Inl Killed, Suc n)
      | LateCrash \<Rightarrow> (Inl Killed, Suc n))"

section \<open>The registry\<close>

datatype resolver = ResolveCurrentState | ResolveDailySeries | ResolveLastSaleAt

datatype probe = ProbeMinHistoryDays

record probe_binding =
  pb_measure :: probe
  pb_series_grain :: "string list"
  pb_date_column :: string

record registered_capability =
  rc_descriptor :: capability_descriptor
  rc_resolver :: resolver
  rc_probes :: "(gate_kind \<times> probe_binding) list"

definition SERIES_GRAIN :: "string list" where
  "SERIES_GRAIN = [''tenant_id'', ''store_id'', ''sku_id'']"

definition REGISTRY :: "registered_capability dict" where
  "REGISTRY =
     [(''current_state'', \<lparr>rc_descriptor = CURRENT_STATE, rc_resolver = ResolveCurrentState, rc_probes = []\<rparr>),
      (''daily_series'',
        \<lparr>rc_descriptor = DAILY_SERIES, rc_resolver = ResolveDailySeries,
         rc_probes =
           [(MIN_HISTORY_DAYS,
             \<lparr>pb_measure = ProbeMinHistoryDays, pb_series_grain = SERIES_GRAIN, pb_date_column = ''event_date''\<rparr>)]\<rparr>),
      (''last_sale_at'', \<lparr>rc_descriptor = LAST_SALE_AT, rc_resolver = ResolveLastSaleAt, rc_probes = []\<rparr>)]"

definition DECLARATIONS :: "analysis_declaration dict" where
  "DECLARATIONS = [(''dead_stock'', DEAD_STOCK), (''stockout_risk'', STOCKOUT_RISK)]"

text \<open>The recorded reason is cut to its first sentence.\<close>

definition DECLINED :: "string dict" where
  "DECLINED =
     [(''lead_time_distribution'',
       ''No observed lead times exist in canonical, so no distribution can be computed.'')]"

datatype analysis_fn = DeadStockFn | StockoutRiskFn

definition ANALYSES :: "analysis_fn dict" where
  "ANALYSES = [(''dead_stock'', DeadStockFn), (''stockout_risk'', StockoutRiskFn)]"

definition ACTIONS :: "analysis_fn dict" where
  "ACTIONS = [(''dead_stock'', DeadStockFn), (''stockout_risk'', StockoutRiskFn)]"

definition PLANS :: "analysis_fn dict" where
  "PLANS = [(''dead_stock'', DeadStockFn), (''stockout_risk'', StockoutRiskFn)]"

text \<open>The fields of the row type each evaluator returns.\<close>

definition EVALUATOR_ROWS :: "string list dict" where
  "EVALUATOR_ROWS =
     [(''dead_stock'',
       [''tenant_id'', ''store_id'', ''sku_id'', ''days_since_last_sale'', ''is_dead_stock'',
        ''refused_because'', ''refusal_reason'']),
      (''stockout_risk'',
       [''tenant_id'', ''store_id'', ''sku_id'', ''days_of_cover'', ''is_at_risk'',
        ''refused_because'', ''refusal_reason''])]"

section \<open>The import-time checks\<close>

definition check_probe_grain :: "probe_binding \<Rightarrow> capability_descriptor \<Rightarrow> unit result" where
  "check_probe_grain binding descriptor =
     (let covered = insert (pb_date_column binding) (set (pb_series_grain binding));
          grain = set (cd_grain descriptor)
      in bind_res (raise_if (pb_date_column binding \<notin> grain) (ValueError ''the exclusion excludes nothing'')) (\<lambda>_.
         bind_res (raise_if (pb_date_column binding \<in> set (pb_series_grain binding))
                     (ValueError ''probe groups BY its date column'')) (\<lambda>_.
         raise_if (covered \<noteq> grain) (ValueError ''probe does not measure at the declared grain''))))"

definition check_registry :: "registered_capability dict \<Rightarrow> string dict \<Rightarrow> unit result" where
  "check_registry registry declined =
     bind_res (iter_res (\<lambda>(key, entry).
        bind_res (raise_if (key \<noteq> cd_id (rc_descriptor entry)) (ValueError ''registry key does not match descriptor id'')) (\<lambda>_.
        bind_res (raise_if (set (cd_gates (rc_descriptor entry)) \<noteq> fst ` set (rc_probes entry))
                    (ValueError ''declared gates and registered probes differ'')) (\<lambda>_.
        iter_res (\<lambda>(kind, binding). check_probe_grain binding (rc_descriptor entry)) (rc_probes entry)))) registry) (\<lambda>_.
     raise_if (set (keys registry) \<inter> set (keys declined) \<noteq> {}) (ValueError ''both registered and declined''))"

definition check_requirement ::
  "registered_capability dict \<Rightarrow> analysis_declaration \<Rightarrow> capability_requirement \<Rightarrow> unit result" where
  "check_requirement registry declaration requirement =
     (case map_of registry (cr_capability_id requirement) of
        None \<Rightarrow> Inl (ValueError ''required capability is not registered'')
      | Some entry \<Rightarrow>
          bind_res (raise_if (\<not> set (ad_grain declaration) \<subseteq> set (cd_grain (rc_descriptor entry)))
                      (ValueError ''a coarser capability cannot be joined at a finer grain'')) (\<lambda>_.
          raise_if (\<not> set (cr_fields requirement) \<subseteq> set (cd_returns (rc_descriptor entry)))
            (ValueError ''required fields are not returned'')))"

definition check_declarations :: "registered_capability dict \<Rightarrow> analysis_declaration dict \<Rightarrow> unit result" where
  "check_declarations registry declarations =
     iter_res (\<lambda>(key, declaration).
       bind_res (raise_if (key \<noteq> ad_id declaration) (ValueError ''declaration key does not match analysis id'')) (\<lambda>_.
       iter_res (check_requirement registry declaration) (ad_requires declaration))) declarations"

definition check_window ::
  "registered_capability dict \<Rightarrow> analysis_declaration \<Rightarrow> capability_requirement \<Rightarrow> unit result" where
  "check_window registry declaration requirement =
     (case cr_window_from_threshold requirement of
        None \<Rightarrow> Inr ()
      | Some wanted \<Rightarrow>
          bind_res (raise_if (wanted \<notin> th_name ` set (ad_thresholds declaration))
                      (ValueError ''window names no declared threshold'')) (\<lambda>_.
          case map_of registry (cr_capability_id requirement) of
            None \<Rightarrow> Inr ()
          | Some entry \<Rightarrow>
              raise_if (cd_freshness (rc_descriptor entry) \<noteq> AS_OF_DATE)
                (ValueError ''a date window is only meaningful for AS_OF_DATE'')))"

definition check_window_declarations :: "analysis_declaration dict \<Rightarrow> registered_capability dict \<Rightarrow> unit result" where
  "check_window_declarations declarations registry =
     iter_res (\<lambda>(analysis_id, declaration). iter_res (check_window registry declaration) (ad_requires declaration))
       declarations"

definition check_analyses ::
  "analysis_declaration dict \<Rightarrow> analysis_fn dict \<Rightarrow> string list dict \<Rightarrow> unit result" where
  "check_analyses declarations analyses evaluator_rows =
     bind_res (raise_if (\<not> set (keys declarations) \<subseteq> set (keys analyses)) (ValueError ''declared but no evaluator'')) (\<lambda>_.
     bind_res (raise_if (\<not> set (keys analyses) \<subseteq> set (keys declarations)) (ValueError ''an evaluator but no declaration'')) (\<lambda>_.
     iter_res (\<lambda>(analysis_id, declaration).
       case map_of evaluator_rows analysis_id of
         None \<Rightarrow> Inl (ValueError ''no declared row type'')
       | Some produced \<Rightarrow>
           raise_if (set produced \<noteq> set (ad_emits declaration)) (ValueError ''emits is not what the evaluator returns''))
       declarations))"

definition check_actions :: "analysis_fn dict \<Rightarrow> analysis_declaration dict \<Rightarrow> unit result" where
  "check_actions actions declarations =
     bind_res (raise_if (\<not> set (keys actions) \<subseteq> set (keys declarations)) (ValueError ''an action proposer but no declaration'')) (\<lambda>_.
     iter_res (\<lambda>analysis_id.
       bind_res (dict_item declarations analysis_id) (\<lambda>declaration.
       case ad_holdout declaration of
         None \<Rightarrow> Inl (ValueError ''analysis proposes actions but declares no holdout'')
       | Some h \<Rightarrow>
           raise_if (\<not> set (ho_unit h) \<subseteq> set (ad_grain declaration)) (ValueError ''holdout unit is not in the grain'')))
       (sort (keys actions)))"

definition check_plan_bindings :: "analysis_fn dict \<Rightarrow> analysis_fn dict \<Rightarrow> analysis_declaration dict \<Rightarrow> unit result" where
  "check_plan_bindings plans actions declarations =
     bind_res (raise_if (\<not> set (keys actions) \<subseteq> set (keys plans)) (ValueError ''propose actions but have no plan'')) (\<lambda>_.
     raise_if (\<not> set (keys plans) \<subseteq> set (keys declarations)) (ValueError ''a plan but no declaration''))"

text \<open>What importing the module runs, in order.\<close>

definition import_registry :: "unit result" where
  "import_registry =
     bind_res (check_registry REGISTRY DECLINED) (\<lambda>_.
     bind_res (check_declarations REGISTRY DECLARATIONS) (\<lambda>_.
     bind_res (check_analyses DECLARATIONS ANALYSES EVALUATOR_ROWS) (\<lambda>_.
     bind_res (check_window_declarations DECLARATIONS REGISTRY) (\<lambda>_.
     bind_res (check_actions ACTIONS DECLARATIONS) (\<lambda>_.
     check_plan_bindings PLANS ACTIONS DECLARATIONS)))))"

definition max_rungs :: "rung dict" where
  "max_rungs = dict_of (map (\<lambda>(analysis_id, declaration). (analysis_id, ad_max_rung declaration)) DECLARATIONS)"

section \<open>Resolving a capability\<close>

record precondition_report =
  rp_name :: gate_kind
  rp_required :: int
  rp_pairs_measured :: nat
  rp_pairs_qualifying :: nat
  rp_measured_at :: int

definition satisfies :: "series_policy \<Rightarrow> precondition_report \<Rightarrow> bool" where
  "satisfies policy report =
     (case policy of
        ALL_SERIES \<Rightarrow> rp_pairs_measured report > 0 \<and> rp_pairs_qualifying report = rp_pairs_measured report
      | ANY_SERIES \<Rightarrow> rp_pairs_qualifying report > 0)"

text \<open>The keywords \<open>resolve\<close> forwards, and the resolver bound to them.\<close>

record bound_fetch =
  bf_resolver :: resolver
  bf_tenant :: uuid
  bf_window :: "(date \<times> date) option"
  bf_store :: "uuid option"
  bf_sku :: "string option"
  bf_only_series :: "string list list option"

record satisfied =
  sa_descriptor :: capability_descriptor
  sa_fetch :: bound_fetch
  sa_qualifying :: "string list list option"

datatype resolution =
    Satisfied satisfied
  | Unregistered string "string option"
  | PreconditionUnmet capability_descriptor "precondition_report list"

definition mk_satisfied :: "satisfied \<Rightarrow> resolution result" where
  "mk_satisfied s =
     bind_res (raise_if (sa_qualifying s = Some []) (ValueError ''Satisfied with an EMPTY qualifying population'')) (\<lambda>_.
     Inr (Satisfied s))"

definition mk_precondition_unmet :: "capability_descriptor \<Rightarrow> precondition_report list \<Rightarrow> resolution result" where
  "mk_precondition_unmet d unmet =
     bind_res (raise_if (unmet = []) (ValueError ''PreconditionUnmet with no unmet report'')) (\<lambda>_.
     Inr (PreconditionUnmet d unmet))"

text \<open>Rows of whichever capability, as \<open>Sequence[object]\<close>.\<close>

datatype rows =
    CurrentStateRows "current_state_row list"
  | LastSaleAtRows "last_sale_at_row list"
  | DailySeriesRows "daily_series_row list"

text \<open>Awaiting a fetch: a keyword the resolver does not take, or a missing one, is a
  \<open>TypeError\<close>.\<close>

definition run_fetch :: "'z syn_env_scheme \<Rightarrow> bound_fetch \<Rightarrow> rows reading" where
  "run_fetch env f =
     (case bf_resolver f of
        ResolveCurrentState \<Rightarrow>
          if bf_window f \<noteq> None \<or> bf_sku f \<noteq> None \<or> bf_only_series f \<noteq> None
          then throw (Raised (TypeError ''unexpected keyword argument''))
          else bind_eff (select_stmt env (\<lambda>db.
                 resolve_current_state (db_hot db) (bf_tenant f) (bf_store f) MAX_POSITIONS)) (\<lambda>r.
               bind_eff (lift_result r) (\<lambda>rows. ret (CurrentStateRows rows)))
      | ResolveLastSaleAt \<Rightarrow>
          if bf_window f \<noteq> None \<or> bf_only_series f \<noteq> None
          then throw (Raised (TypeError ''unexpected keyword argument''))
          else bind_eff (select_stmt env (\<lambda>db.
                 resolve_last_sale_at (db_events db) (bf_tenant f) (bf_store f) (bf_sku f) (int MAX_ROWS))) (\<lambda>r.
               bind_eff (lift_result r) (\<lambda>rows. ret (LastSaleAtRows rows)))
      | ResolveDailySeries \<Rightarrow>
          (case bf_window f of
             None \<Rightarrow> throw (Raised (TypeError ''missing date_from and date_to''))
           | Some (date_from, date_to) \<Rightarrow>
               bind_eff (lift_result (check_series_arguments date_from date_to (bf_only_series f))) (\<lambda>_.
               bind_eff (select_stmt env (\<lambda>db.
                 resolve_daily_series (db_events db) (bf_tenant f) date_from date_to (bf_store f) (bf_sku f)
                   (bf_only_series f) (int MAX_ROWS))) (\<lambda>r.
               bind_eff (lift_result r) (\<lambda>rows. ret (DailySeriesRows rows))))))"

text \<open>The two statements of the probe, in one transaction.\<close>

definition run_probe ::
  "'z syn_env_scheme \<Rightarrow> probe \<Rightarrow> uuid \<Rightarrow> uuid option \<Rightarrow> string option \<Rightarrow> int \<Rightarrow> observation reading" where
  "run_probe env p tenant store sku required =
     (case p of
        ProbeMinHistoryDays \<Rightarrow>
          bind_eff (select_stmt env (\<lambda>db. db)) (\<lambda>snapshot1.
          bind_eff (select_stmt env (\<lambda>db. db)) (\<lambda>snapshot2.
          lift_result (probe_min_history_days (db_events snapshot1) (db_events snapshot2) (db_now snapshot1)
            tenant store sku required))))"

definition bound_gate :: "min_history_days \<Rightarrow> gate_kind \<times> int \<times> series_policy" where
  "bound_gate g = (MIN_HISTORY_DAYS, mh_days g, mh_policy g)"

text \<open>\<open>found if qualifying is None else (qualifying & found)\<close>, as a list without repeats.\<close>

definition meet_qualifying :: "string list list option \<Rightarrow> string list list option \<Rightarrow> string list list option" where
  "meet_qualifying qualifying found =
     (case found of
        None \<Rightarrow> qualifying
      | Some f \<Rightarrow>
          Some (case qualifying of None \<Rightarrow> remdups f | Some q \<Rightarrow> filter (\<lambda>k. k \<in> set f) q))"

fun gate_loop ::
  "'z syn_env_scheme \<Rightarrow> registered_capability \<Rightarrow> uuid \<Rightarrow> uuid option \<Rightarrow> string option \<Rightarrow>
   (gate_kind \<times> int \<times> series_policy) list \<Rightarrow> precondition_report list \<Rightarrow> string list list option \<Rightarrow>
   (precondition_report list \<times> string list list option) reading" where
  "gate_loop env entry tenant store sku [] unmet qualifying = ret (unmet, qualifying)"
| "gate_loop env entry tenant store sku ((kind, required, policy) # bound) unmet qualifying =
     (case map_of (rc_probes entry) kind of
        None \<Rightarrow> throw (Raised (KeyError ''probe''))
      | Some binding \<Rightarrow>
          bind_eff (run_probe env (pb_measure binding) tenant store sku required) (\<lambda>obs.
          let report = \<lparr>rp_name = kind, rp_required = required, rp_pairs_measured = ob_pairs_measured obs,
                        rp_pairs_qualifying = ob_pairs_qualifying obs, rp_measured_at = ob_measured_at obs\<rparr>
          in gate_loop env entry tenant store sku bound
               (if satisfies policy report then unmet else unmet @ [report])
               (meet_qualifying qualifying (ob_qualifying obs))))"

definition resolve ::
  "'z syn_env_scheme \<Rightarrow> registered_capability dict \<Rightarrow> string dict \<Rightarrow> string \<Rightarrow> uuid \<Rightarrow> min_history_days list \<Rightarrow>
   uuid option \<Rightarrow> string option \<Rightarrow> (date \<times> date) option \<Rightarrow> resolution reading" where
  "resolve env registry declined capability_id tenant gates store sku window =
     (case map_of registry capability_id of
        None \<Rightarrow> ret (Unregistered capability_id (map_of declined capability_id))
      | Some entry \<Rightarrow>
          (let bound = dict_of (map bound_gate gates)
           in bind_eff (lift_result (raise_if (fst ` set bound \<noteq> set (cd_gates (rc_descriptor entry)))
                          (ValueError ''declared gates and bound gates differ''))) (\<lambda>_.
              bind_eff (gate_loop env entry tenant store sku bound [] None) (\<lambda>(unmet, qualifying).
              if unmet \<noteq> [] then lift_result (mk_precondition_unmet (rc_descriptor entry) unmet)
              else let ordered = map_option sort qualifying
                   in lift_result (mk_satisfied
                        \<lparr>sa_descriptor = rc_descriptor entry,
                         sa_fetch = \<lparr>bf_resolver = rc_resolver entry, bf_tenant = tenant, bf_window = window,
                                     bf_store = store, bf_sku = sku, bf_only_series = ordered\<rparr>,
                         sa_qualifying = ordered\<rparr>)))))"

section \<open>Resolving a declaration\<close>

datatype declaration_resolution =
    DeclarationSatisfied analysis_declaration "satisfied dict"
  | DeclarationBlocked analysis_declaration "resolution dict"
  | DeclarationUndeclared string

definition mk_declaration_satisfied :: "analysis_declaration \<Rightarrow> satisfied dict \<Rightarrow> declaration_resolution result" where
  "mk_declaration_satisfied d resolutions =
     bind_res (raise_if (set (keys resolutions) \<noteq> cr_capability_id ` set (ad_requires d))
                 (ValueError ''satisfied means EVERY requirement'')) (\<lambda>_.
     Inr (DeclarationSatisfied d resolutions))"

definition is_satisfied :: "resolution \<Rightarrow> bool" where
  "is_satisfied r = (case r of Satisfied _ \<Rightarrow> True | _ \<Rightarrow> False)"

definition mk_declaration_blocked :: "analysis_declaration \<Rightarrow> resolution dict \<Rightarrow> declaration_resolution result" where
  "mk_declaration_blocked d blocked =
     bind_res (raise_if (blocked = []) (ValueError ''names no blocked requirement'')) (\<lambda>_.
     bind_res (raise_if (list_ex (\<lambda>(k, r). is_satisfied r) blocked) (ValueError ''carries SATISFIED outcomes'')) (\<lambda>_.
     bind_res (raise_if (\<not> set (keys blocked) \<subseteq> cr_capability_id ` set (ad_requires d))
                 (ValueError ''names what it does not require'')) (\<lambda>_.
     Inr (DeclarationBlocked d blocked))))"

definition capability_versions :: "satisfied dict \<Rightarrow> string dict" where
  "capability_versions resolutions = map (\<lambda>(k, s). (k, cd_version (sa_descriptor s))) resolutions"

text \<open>The declared date window, relative to \<open>as_of\<close>.\<close>

definition requirement_window ::
  "int dict \<Rightarrow> date option \<Rightarrow> capability_requirement \<Rightarrow> (date \<times> date) option result" where
  "requirement_window thresholds as_of requirement =
     (case cr_window_from_threshold requirement of
        None \<Rightarrow> Inr None
      | Some name \<Rightarrow>
          (case as_of of
             None \<Rightarrow> Inl (ValueError ''resolve_declaration needs as_of'')
           | Some day \<Rightarrow>
               bind_res (dict_item thresholds name) (\<lambda>days.
               bind_res (date_add day (- (days - 1))) (\<lambda>date_from.
               Inr (Some (date_from, day))))))"

fun requirement_loop ::
  "'z syn_env_scheme \<Rightarrow> registered_capability dict \<Rightarrow> string dict \<Rightarrow> int dict \<Rightarrow> uuid \<Rightarrow> date option \<Rightarrow>
   uuid option \<Rightarrow> string option \<Rightarrow> capability_requirement list \<Rightarrow> satisfied dict \<Rightarrow> resolution dict \<Rightarrow>
   (satisfied dict \<times> resolution dict) reading" where
  "requirement_loop env registry declined thresholds tenant as_of store sku [] resolutions blocked =
     ret (resolutions, blocked)"
| "requirement_loop env registry declined thresholds tenant as_of store sku (r # rs) resolutions blocked =
     bind_eff (lift_result (requirement_window thresholds as_of r)) (\<lambda>window.
     bind_eff (resolve env registry declined (cr_capability_id r) tenant (cr_gates r) store sku window) (\<lambda>outcome.
     case outcome of
       Satisfied s \<Rightarrow>
         requirement_loop env registry declined thresholds tenant as_of store sku rs
           (AList.update (cr_capability_id r) s resolutions) blocked
     | _ \<Rightarrow>
         requirement_loop env registry declined thresholds tenant as_of store sku rs
           resolutions (AList.update (cr_capability_id r) outcome blocked)))"

definition resolve_declaration ::
  "'z syn_env_scheme \<Rightarrow> registered_capability dict \<Rightarrow> string dict \<Rightarrow> analysis_declaration dict \<Rightarrow> string \<Rightarrow> uuid \<Rightarrow>
   date option \<Rightarrow> uuid option \<Rightarrow> string option \<Rightarrow> declaration_resolution reading" where
  "resolve_declaration env registry declined declarations analysis_id tenant as_of store sku =
     (case map_of declarations analysis_id of
        None \<Rightarrow> ret (DeclarationUndeclared analysis_id)
      | Some declaration \<Rightarrow>
          bind_eff (requirement_loop env registry declined (thresholds_of declaration) tenant as_of store sku
                      (ad_requires declaration) [] []) (\<lambda>(resolutions, blocked).
          if blocked \<noteq> [] then lift_result (mk_declaration_blocked declaration blocked)
          else lift_result (mk_declaration_satisfied declaration resolutions)))"

section \<open>The plans\<close>

record plan_result =
  pl_actions :: "action list"
  pl_refusals :: "(refusal_reason \<times> nat) list"

text \<open>\<open>await satisfied.fetches[id]()\<close>, with the row type the evaluator reads.\<close>

definition fetch_rows :: "'z syn_env_scheme \<Rightarrow> satisfied dict \<Rightarrow> string \<Rightarrow> (rows \<Rightarrow> 'a option) \<Rightarrow> 'a reading" where
  "fetch_rows env resolutions capability_id view =
     bind_eff (lift_result (dict_item resolutions capability_id)) (\<lambda>s.
     bind_eff (run_fetch env (sa_fetch s)) (\<lambda>rows.
     case view rows of None \<Rightarrow> throw (Raised (AttributeError ''row'')) | Some xs \<Rightarrow> ret xs))"

definition current_state_rows :: "rows \<Rightarrow> current_state_row list option" where
  "current_state_rows r = (case r of CurrentStateRows xs \<Rightarrow> Some xs | _ \<Rightarrow> None)"

definition last_sale_at_rows :: "rows \<Rightarrow> last_sale_at_row list option" where
  "last_sale_at_rows r = (case r of LastSaleAtRows xs \<Rightarrow> Some xs | _ \<Rightarrow> None)"

definition daily_series_rows :: "rows \<Rightarrow> daily_series_row list option" where
  "daily_series_rows r = (case r of DailySeriesRows xs \<Rightarrow> Some xs | _ \<Rightarrow> None)"

definition plan_dead_stock ::
  "'z syn_env_scheme \<Rightarrow> analysis_declaration \<Rightarrow> satisfied dict \<Rightarrow> date \<Rightarrow> plan_result reading" where
  "plan_dead_stock env declaration resolutions as_of =
     bind_eff (fetch_rows env resolutions ''current_state'' current_state_rows) (\<lambda>universe.
     bind_eff (fetch_rows env resolutions ''last_sale_at'' last_sale_at_rows) (\<lambda>selling.
     let thresholds = thresholds_of declaration
     in lift_result
          (bind_res (dict_item thresholds ''stale_after_days'') (\<lambda>stale_after_days.
           bind_res (dict_item thresholds ''feed_stale_after_days'') (\<lambda>feed_stale_after_days.
           bind_res (evaluate_dead_stock universe selling stale_after_days feed_stale_after_days as_of) (\<lambda>findings.
           bind_res (propose_dead_stock_actions findings universe declaration
                       (capability_versions resolutions) as_of) (\<lambda>actions.
           Inr \<lparr>pl_actions = actions, pl_refusals = counts_by_reason (map dr_refusal_reason findings)\<rparr>)))))))"

definition plan_stockout_risk ::
  "'z syn_env_scheme \<Rightarrow> analysis_declaration \<Rightarrow> satisfied dict \<Rightarrow> date \<Rightarrow> plan_result reading" where
  "plan_stockout_risk env declaration resolutions as_of =
     bind_eff (fetch_rows env resolutions ''current_state'' current_state_rows) (\<lambda>universe.
     bind_eff (fetch_rows env resolutions ''daily_series'' daily_series_rows) (\<lambda>series.
     let thresholds = thresholds_of declaration
     in lift_result
          (bind_res (case find (\<lambda>r. cr_capability_id r = ''daily_series'') (ad_requires declaration) of
                       None \<Rightarrow> Inl (RuntimeError ''coroutine raised StopIteration'')
                     | Some requirement \<Rightarrow>
                         (case cr_gates requirement of [g] \<Rightarrow> Inr g | _ \<Rightarrow> Inl (ValueError ''unpack''))) (\<lambda>gate.
           bind_res (dict_item thresholds ''window_days'') (\<lambda>window_days.
           bind_res (dict_item thresholds ''at_risk_below_days'') (\<lambda>at_risk_below_days.
           bind_res (dict_item thresholds ''stale_after_days'') (\<lambda>stale_after_days.
           bind_res (evaluate_stockout_risk universe series window_days at_risk_below_days stale_after_days
                       (mh_days gate) as_of) (\<lambda>findings.
           bind_res (propose_stockout_actions findings universe declaration
                       (capability_versions resolutions) as_of) (\<lambda>actions.
           Inr \<lparr>pl_actions = actions, pl_refusals = counts_by_reason (map sr_refusal_reason findings)\<rparr>)))))))))"

definition plan_for ::
  "'z syn_env_scheme \<Rightarrow> string \<Rightarrow> (analysis_declaration \<Rightarrow> satisfied dict \<Rightarrow> date \<Rightarrow> plan_result reading) option" where
  "plan_for env analysis_id =
     (case map_of PLANS analysis_id of
        None \<Rightarrow> None
      | Some DeadStockFn \<Rightarrow> Some (plan_dead_stock env)
      | Some StockoutRiskFn \<Rightarrow> Some (plan_stockout_risk env))"

end
