(* ===== verification/Synapse_Action_Log.thy ===== *)
theory Synapse_Action_Log
  imports Unique_Ledger Json_Text Synapse_Registry
begin

text \<open>
  The durable action log (\<open>persistence/action_log_postgres.py\<close>): the payload hash over canonical
  JSON, the bind parameters of an event, the insert under \<open>ON CONFLICT DO NOTHING\<close> with the
  table's constraints, and reading an event back. A \<open>jsonb\<close> object is its entries sorted by key.
\<close>

section \<open>Canonical JSON\<close>

text \<open>An object of rendered values, keys sorted.\<close>

definition json_object :: "string dict \<Rightarrow> string" where
  "json_object kvs = ''{'' @ json_join (map json_member (sort_key fst kvs)) @ ''}''"

text \<open>\<open>format(d, "f")\<close> of a figure with three decimals.\<close>

definition format_f :: "numeric_14_3 \<Rightarrow> string" where
  "format_f n = (if n < 0 then ''-'' else []) @ py_str_nat (nat \<bar>n\<bar> div 1000) @ ''.'' @ dec_pad 3 (nat \<bar>n\<bar> mod 1000)"

section \<open>The payload hash and the bind parameters\<close>

definition arm_value :: "arm \<Rightarrow> string" where
  "arm_value a = (case a of TREATMENT \<Rightarrow> ''treatment'' | HOLDOUT \<Rightarrow> ''holdout'')"

definition verb_value :: "verb \<Rightarrow> string" where
  "verb_value v = (case v of REVIEW \<Rightarrow> ''review'')"

definition payload_material :: "action \<Rightarrow> string dict" where
  "payload_material a =
     [(''quantity_at_stake'',
       case ac_quantity_at_stake a of None \<Rightarrow> ''null'' | Some q \<Rightarrow> json_string (format_f q)),
      (''expires_on'', json_string (iso_date (ac_expires_on a))),
      (''arm'', json_string (arm_value (ac_arm a))),
      (''capability_versions'',
       json_object (map (\<lambda>(k, v). (k, json_string v)) (pr_capability_versions (ac_provenance a)))),
      (''thresholds'',
       json_object (map (\<lambda>(k, v). (k, py_str_int v)) (pr_thresholds (ac_provenance a))))]"

definition payload_hash :: "action \<Rightarrow> string" where
  "payload_hash a = hex_text (sha256 (utf8 (json_object (payload_material a))))"

record action_row =
  aw_event_id :: uuid
  aw_recorded_at :: instant
  aw_supersedes :: "uuid option"
  aw_target :: "string dict"
  aw_verb :: string
  aw_quantity_at_stake :: "numeric_14_3 option"
  aw_expires_on :: date
  aw_arm :: string
  aw_declaration_id :: string
  aw_declaration_version :: string
  aw_capability_versions :: "string dict"
  aw_thresholds :: "int dict"
  aw_as_of :: date
  aw_payload_hash :: string
  aw_days_since_last_sale :: "int option"
  aw_days_of_cover :: "rat option"

text \<open>The bind parameters; the two observations are not part of the hash.\<close>

definition parameters :: "action_event \<Rightarrow> action_row" where
  "parameters e =
     (let a = ev_action e; p = ac_provenance a
      in \<lparr>aw_event_id = ev_event_id e, aw_recorded_at = ev_recorded_at e, aw_supersedes = ev_supersedes e,
          aw_target = sort_key fst (ac_target a), aw_verb = verb_value (ac_verb a),
          aw_quantity_at_stake = ac_quantity_at_stake a, aw_expires_on = ac_expires_on a,
          aw_arm = arm_value (ac_arm a), aw_declaration_id = pr_declaration_id p,
          aw_declaration_version = pr_declaration_version p,
          aw_capability_versions = sort_key fst (pr_capability_versions p),
          aw_thresholds = sort_key fst (pr_thresholds p), aw_as_of = pr_as_of p,
          aw_payload_hash = payload_hash a,
          aw_days_since_last_sale = ac_days_since_last_sale a, aw_days_of_cover = ac_days_of_cover a\<rparr>)"

section \<open>The table\<close>

text \<open>A value on its way into a \<open>NUMERIC(14, 3)\<close> column: rounded half away from zero, refused when
  it does not fit.\<close>

definition round_half_away :: "rat \<Rightarrow> int" where
  "round_half_away x = (if x < 0 then - \<lfloor>- x + 1 / 2\<rfloor> else \<lfloor>x + 1 / 2\<rfloor>)"

definition to_numeric_14_3 :: "rat \<Rightarrow> numeric_14_3 option" where
  "to_numeric_14_3 x = (let n = round_half_away (x * 1000) in if \<bar>n\<bar> < 10 ^ 14 then Some n else None)"

definition stored_cover :: "rat option \<Rightarrow> rat option result" where
  "stored_cover x =
     (case x of
        None \<Rightarrow> Inr None
      | Some c \<Rightarrow>
          (case to_numeric_14_3 c of None \<Rightarrow> Inl DatabaseError | Some n \<Rightarrow> Inr (Some (dec_of_numeric n))))"

type_synonym action_key = "string \<times> string \<times> string \<times> date \<times> string dict \<times> string"

text \<open>\<open>uq_actions_idempotency\<close>\<close>

definition action_key :: "action_row \<Rightarrow> action_key" where
  "action_key r =
     (aw_declaration_id r, aw_declaration_version r, aw_verb r, aw_as_of r, aw_target r, aw_payload_hash r)"

text \<open>\<open>INSERT ... ON CONFLICT DO NOTHING\<close>, either unique index suppressing.\<close>

definition add_action :: "action_row \<Rightarrow> action_row list \<Rightarrow> action_row list" where
  "add_action r rows =
     (if action_key r \<in> action_key ` set rows \<or> aw_event_id r \<in> aw_event_id ` set rows then rows else rows @ [r])"

text \<open>The CHECK constraints, and the generated \<open>tenant_id\<close> with the policy's \<open>WITH CHECK\<close>.\<close>

definition action_checks :: "uuid \<Rightarrow> action_row \<Rightarrow> bool" where
  "action_checks session_tenant r \<longleftrightarrow>
     Option.bind (map_of (aw_target r) ''tenant_id'') uuid_parse = Some session_tenant \<and>
     \<not> negative (aw_quantity_at_stake r) \<and> aw_expires_on r \<ge> aw_as_of r \<and>
     aw_supersedes r \<noteq> Some (aw_event_id r) \<and> aw_target r \<noteq> [] \<and> aw_capability_versions r \<noteq> [] \<and>
     aw_declaration_id r \<noteq> [] \<and> aw_declaration_version r \<noteq> [] \<and>
     length (aw_declaration_id r) \<le> 64 \<and> length (aw_declaration_version r) \<le> 32"

definition insert_action :: "uuid \<Rightarrow> action_event \<Rightarrow> action_row list \<Rightarrow> bool result \<times> action_row list" where
  "insert_action session_tenant e rows =
     (case stored_cover (aw_days_of_cover (parameters e)) of
        Inl err \<Rightarrow> (Inl err, rows)
      | Inr cover \<Rightarrow>
          let r = (parameters e)\<lparr>aw_days_of_cover := cover\<rparr>
          in if action_checks session_tenant r
             then (Inr (add_action r rows \<noteq> rows), add_action r rows)
             else (Inl DatabaseError, rows))"

interpretation action_log: unique_ledger add_action action_key
  by unfold_locales (auto simp: add_action_def split: if_splits)

interpretation action_ids: unique_ledger add_action aw_event_id
  by unfold_locales (auto simp: add_action_def split: if_splits)

section \<open>Reading back\<close>

definition verb_of :: "string \<Rightarrow> verb result" where
  "verb_of s = (if s = ''review'' then Inr REVIEW else Inl (ValueError ''not a valid Verb''))"

definition arm_of :: "string \<Rightarrow> arm result" where
  "arm_of s =
     (if s = ''treatment'' then Inr TREATMENT else if s = ''holdout'' then Inr HOLDOUT
      else Inl (ValueError ''not a valid Arm''))"

definition project_action :: "action_row \<Rightarrow> action_event result" where
  "project_action r =
     bind_res (verb_of (aw_verb r)) (\<lambda>v.
     bind_res (arm_of (aw_arm r)) (\<lambda>a.
     bind_res (mk_provenance
       \<lparr>pr_declaration_id = aw_declaration_id r, pr_declaration_version = aw_declaration_version r,
        pr_capability_versions = aw_capability_versions r, pr_thresholds = aw_thresholds r,
        pr_as_of = aw_as_of r\<rparr>) (\<lambda>p.
     bind_res (mk_action
       \<lparr>ac_target = aw_target r, ac_verb = v, ac_quantity_at_stake = aw_quantity_at_stake r,
        ac_expires_on = aw_expires_on r, ac_arm = a, ac_provenance = p,
        ac_days_since_last_sale = aw_days_since_last_sale r, ac_days_of_cover = aw_days_of_cover r\<rparr>) (\<lambda>act.
     mk_action_event
       \<lparr>ev_event_id = aw_event_id r, ev_recorded_at = aw_recorded_at r, ev_action = act,
        ev_supersedes = aw_supersedes r\<rparr>))))"

definition MAX_EVENTS :: nat where
  "MAX_EVENTS = 20000"

definition instant_us :: "instant \<Rightarrow> int" where
  "instant_us i = (case i of Aware us \<Rightarrow> us | Naive us \<Rightarrow> us)"

definition read_events :: "action_row list \<Rightarrow> uuid \<Rightarrow> action_event list result" where
  "read_events table session_tenant =
     (let visible = filter (\<lambda>r. Option.bind (map_of (aw_target r) ''tenant_id'') uuid_parse = Some session_tenant) table;
          rows = take (MAX_EVENTS + 1) (sort_key (\<lambda>r. (instant_us (aw_recorded_at r), aw_event_id r)) visible)
      in bind_res (raise_if (length rows > MAX_EVENTS) (ResultTooLargeError ''action log'')) (\<lambda>_.
         map_res project_action rows))"

end
