(* ===== verification/Synapse_Runner.thy ===== *)
theory Synapse_Runner
  imports Synapse_Action_Log
begin

text \<open>
  One sweep of the orchestrator (\<open>orchestrator/runner.py\<close>) over the run table
  (\<open>persistence/run_postgres.py\<close>), the action log and the provision table
  (\<open>persistence/provision_postgres.py\<close>), with the exit code of \<open>orchestrator/__main__.py\<close>.

  The world is the two ledgers, the count of statements executed and of identifiers minted. The
  environment decides what every statement sees and whether it fails or the process dies at it,
  the provision rows at that time, the identifiers \<open>new_uuid7\<close> mints and the monotonic clock.
  A statement that fails \<open>Late\<close> or dies with \<open>LateCrash\<close> has committed.
\<close>

section \<open>Environment and world\<close>

record provision_row =
  pw_tenant_id :: uuid
  pw_analysis_id :: string
  pw_cadence :: string
  pw_rung :: string
  pw_timezone :: string
  pw_enabled_at :: instant
  pw_disabled_at :: "int option"

record run_env = syn_env +
  re_zones :: zone_db
  re_provisions :: "nat \<Rightarrow> provision_row list"   \<comment> \<open>the table when the n-th statement runs\<close>
  re_uuid :: "nat \<Rightarrow> uuid"
  re_elapsed :: "nat \<Rightarrow> int"                    \<comment> \<open>microseconds since the attempt started\<close>

text \<open>Why a run was blocked or how it failed.\<close>

datatype run_detail =
    RungNotImplemented rung string
  | AlreadyFinished string uuid
  | BlockedOn "string list"
  | NotDeclared string
  | FailedWith synapse_error

record run_row =
  rn_run_id :: uuid
  rn_tenant_id :: uuid
  rn_analysis_id :: string
  rn_slot :: date
  rn_cadence :: cadence
  rn_rung :: rung
  rn_timezone :: string
  rn_started_at :: int
  rn_finished_at :: "int option"
  rn_outcome :: "string option"
  rn_actions_proposed :: "nat option"
  rn_actions_appended :: "nat option"
  rn_detail :: "run_detail option"
  rn_refusals :: "(string \<times> nat) list"

record syn_world =
  sw_tick :: nat
  sw_minted :: nat
  sw_runs :: "run_row list"
  sw_actions :: "action_row list"

type_synonym 'a io = "(run_error, syn_world, 'a) eff"

definition reading :: "'a reading \<Rightarrow> 'a io" where
  "reading m w = (case m (sw_tick w) of (r, n) \<Rightarrow> (r, w\<lparr>sw_tick := n\<rparr>))"

definition new_uuid7 :: "'z run_env_scheme \<Rightarrow> uuid io" where
  "new_uuid7 env w = (Inr (re_uuid env (sw_minted w)), w\<lparr>sw_minted := Suc (sw_minted w)\<rparr>)"

text \<open>One session with one statement on the ledgers. A statement the database refuses leaves them
  as they are.\<close>

definition statement :: "'z run_env_scheme \<Rightarrow> (syn_world \<Rightarrow> 'a result \<times> syn_world) \<Rightarrow> 'a io" where
  "statement env f w =
     (case f w of (r, w') \<Rightarrow>
        (case se_fault env (sw_tick w) of
           Fine \<Rightarrow> (case r of Inl e \<Rightarrow> Inl (Raised e) | Inr x \<Rightarrow> Inr x, w'\<lparr>sw_tick := Suc (sw_tick w)\<rparr>)
         | Lost \<Rightarrow> (Inl (Raised DatabaseError), w\<lparr>sw_tick := Suc (sw_tick w)\<rparr>)
         | Late \<Rightarrow> (Inl (Raised DatabaseError), w'\<lparr>sw_tick := Suc (sw_tick w)\<rparr>)
         | Crash \<Rightarrow> (Inl Killed, w\<lparr>sw_tick := Suc (sw_tick w)\<rparr>)
         | LateCrash \<Rightarrow> (Inl Killed, w'\<lparr>sw_tick := Suc (sw_tick w)\<rparr>)))"

text \<open>\<open>except Exception\<close>\<close>

definition catch_exception :: "'a io \<Rightarrow> (synapse_error \<Rightarrow> 'a io) \<Rightarrow> 'a io" where
  "catch_exception m h = catch_eff m (\<lambda>e. case e of Raised x \<Rightarrow> h x | Killed \<Rightarrow> throw Killed)"

section \<open>Provisions\<close>

definition cadence_of :: "string \<Rightarrow> cadence result" where
  "cadence_of s = (if s = ''daily'' then Inr DAILY else Inl (ValueError ''not a valid Cadence''))"

definition rung_of :: "string \<Rightarrow> rung result" where
  "rung_of s =
     (if s = ''shadow'' then Inr SHADOW else if s = ''suggest'' then Inr SUGGEST
      else Inl (ValueError ''not a valid Rung''))"

definition project_provision :: "zone_db \<Rightarrow> provision_row \<Rightarrow> provision result" where
  "project_provision zones row =
     bind_res (cadence_of (pw_cadence row)) (\<lambda>c.
     bind_res (rung_of (pw_rung row)) (\<lambda>r.
     mk_provision zones
       \<lparr>pv_tenant_id = pw_tenant_id row, pv_analysis_id = pw_analysis_id row, pv_cadence = c, pv_rung = r,
        pv_timezone = pw_timezone row, pv_enabled_at = pw_enabled_at row\<rparr>))"

definition check_envelope :: "provision list \<Rightarrow> rung dict \<Rightarrow> unit result" where
  "check_envelope provisions ceilings =
     bind_res (raise_if (list_ex (\<lambda>p. \<not> has_key ceilings (pv_analysis_id p)) provisions)
                 (ProvisionRefusedError ''provision rows name analyses that no declaration claims'')) (\<lambda>_.
     raise_if (list_ex (\<lambda>p. case map_of ceilings (pv_analysis_id p) of
                              None \<Rightarrow> False | Some c \<Rightarrow> rung_rank (pv_rung p) > rung_rank c) provisions)
       (ProvisionRefusedError ''provision rows exceed their analysis's declared max_rung''))"

definition MAX_PROVISIONS :: nat where
  "MAX_PROVISIONS = 5000"

definition select_active :: "provision_row list \<Rightarrow> provision_row list" where
  "select_active table =
     sort_key (\<lambda>r. (pw_analysis_id r, pw_tenant_id r)) (filter (\<lambda>r. pw_disabled_at r = None) table)"

definition active :: "'z run_env_scheme \<Rightarrow> rung dict \<Rightarrow> provision list io" where
  "active env ceilings =
     bind_eff (statement env (\<lambda>w. (Inr (select_active (re_provisions env (sw_tick w))), w))) (\<lambda>rows.
     lift_result
       (bind_res (raise_if (length rows > MAX_PROVISIONS) (ProvisionRefusedError ''too many active rows'')) (\<lambda>_.
        bind_res (map_res (project_provision (re_zones env)) rows) (\<lambda>provisions.
        bind_res (check_envelope provisions ceilings) (\<lambda>_.
        Inr provisions)))))"

section \<open>The run state machine\<close>

definition OUTCOMES :: "string list" where
  "OUTCOMES = [''satisfied'', ''blocked'', ''undeclared'', ''failed'']"

datatype claimed = Claim uuid bool | Finished uuid string

type_synonym slot_key = "uuid \<times> string \<times> date"

text \<open>\<open>uq_run_slot\<close>\<close>

definition run_slot :: "run_row \<Rightarrow> slot_key" where
  "run_slot r = (rn_tenant_id r, rn_analysis_id r, rn_slot r)"

definition add_run :: "run_row \<Rightarrow> run_row list \<Rightarrow> run_row list" where
  "add_run r rows = (if run_slot r \<in> run_slot ` set rows then rows else rows @ [r])"

interpretation run_table: claiming_ledger add_run run_slot
  by unfold_locales (auto simp: add_run_def split: if_splits)

text \<open>\<open>_CLAIM\<close>: a conflict on the slot inserts nothing; one on the primary key is an error.\<close>

definition insert_run :: "run_row \<Rightarrow> syn_world \<Rightarrow> bool result \<times> syn_world" where
  "insert_run r w =
     (if run_slot r \<in> run_slot ` set (sw_runs w) then (Inr False, w)
      else if rn_run_id r \<in> rn_run_id ` set (sw_runs w) \<or> rn_analysis_id r = [] \<or> rn_timezone r = []
      then (Inl DatabaseError, w)
      else (Inr True, w\<lparr>sw_runs := add_run r (sw_runs w)\<rparr>))"

definition claim_row :: "provision \<Rightarrow> date \<Rightarrow> uuid \<Rightarrow> int \<Rightarrow> run_row" where
  "claim_row p slot run_id started_at =
     \<lparr>rn_run_id = run_id, rn_tenant_id = pv_tenant_id p, rn_analysis_id = pv_analysis_id p, rn_slot = slot,
      rn_cadence = pv_cadence p, rn_rung = pv_rung p, rn_timezone = pv_timezone p, rn_started_at = started_at,
      rn_finished_at = None, rn_outcome = None, rn_actions_proposed = None, rn_actions_appended = None,
      rn_detail = None, rn_refusals = []\<rparr>"

definition existing_run :: "slot_key \<Rightarrow> syn_world \<Rightarrow> run_row option" where
  "existing_run k w = find (\<lambda>r. run_slot r = k) (sw_runs w)"

definition claim :: "'z run_env_scheme \<Rightarrow> provision \<Rightarrow> date \<Rightarrow> uuid \<Rightarrow> int \<Rightarrow> claimed io" where
  "claim env p slot run_id started_at =
     (let row = claim_row p slot run_id started_at in
      bind_eff (statement env (insert_run row)) (\<lambda>inserted.
      if inserted then ret (Claim run_id False)
      else bind_eff (statement env (\<lambda>w.
             (case existing_run (run_slot row) w of
                None \<Rightarrow> Inl (RuntimeError ''NoResultFound'') | Some r \<Rightarrow> Inr r, w))) (\<lambda>existing.
           ret (case rn_outcome existing of
                  Some outcome \<Rightarrow> Finished (rn_run_id existing) outcome
                | None \<Rightarrow> Claim (rn_run_id existing) True))))"

record completion =
  cm_finished_at :: int
  cm_outcome :: string
  cm_actions_proposed :: nat
  cm_actions_appended :: nat
  cm_detail :: "run_detail option"
  cm_refusals :: "(string \<times> nat) list"

definition completed :: "completion \<Rightarrow> run_row \<Rightarrow> run_row" where
  "completed c r =
     r\<lparr>rn_finished_at := Some (cm_finished_at c), rn_outcome := Some (cm_outcome c),
       rn_actions_proposed := Some (cm_actions_proposed c), rn_actions_appended := Some (cm_actions_appended c),
       rn_detail := cm_detail c, rn_refusals := sort_key fst (cm_refusals c)\<rparr>"

text \<open>\<open>ck_run_appended_within_proposed\<close> and \<open>ck_run_finished_after_started\<close>\<close>

definition completion_checks :: "completion \<Rightarrow> run_row \<Rightarrow> bool" where
  "completion_checks c r \<longleftrightarrow>
     cm_actions_appended c \<le> cm_actions_proposed c \<and> rn_started_at r \<le> cm_finished_at c"

definition update_run :: "uuid \<Rightarrow> uuid \<Rightarrow> completion \<Rightarrow> syn_world \<Rightarrow> unit result \<times> syn_world" where
  "update_run session_tenant run_id c w =
     (let hit = (\<lambda>r. rn_run_id r = run_id \<and> rn_tenant_id r = session_tenant)
      in if list_ex (\<lambda>r. hit r \<and> \<not> completion_checks c r) (sw_runs w) then (Inl DatabaseError, w)
         else (Inr (), w\<lparr>sw_runs := map (\<lambda>r. if hit r then completed c r else r) (sw_runs w)\<rparr>))"

definition complete :: "'z run_env_scheme \<Rightarrow> uuid \<Rightarrow> uuid \<Rightarrow> completion \<Rightarrow> unit io" where
  "complete env tenant run_id c =
     bind_eff (lift_result (raise_if (cm_outcome c \<notin> set OUTCOMES) (ValueError ''not a run outcome''))) (\<lambda>_.
     statement env (update_run tenant run_id c))"

section \<open>The sweep\<close>

record slot_result =
  sl_tenant_id :: uuid
  sl_analysis_id :: string
  sl_slot :: date
  sl_outcome :: "string option"
  sl_actions_proposed :: nat
  sl_actions_appended :: nat
  sl_detail :: "run_detail option"
  sl_skipped :: bool
  sl_taken_over :: bool

definition failed :: "slot_result \<Rightarrow> bool" where
  "failed r \<longleftrightarrow> sl_outcome r = Some ''failed''"

definition propose :: "'z run_env_scheme \<Rightarrow> analysis_declaration \<Rightarrow> satisfied dict \<Rightarrow> date \<Rightarrow> plan_result reading" where
  "propose env declaration resolutions slot =
     (case plan_for env (ad_id declaration) of
        None \<Rightarrow> ret \<lparr>pl_actions = [], pl_refusals = []\<rparr>
      | Some plan \<Rightarrow> plan declaration resolutions slot)"

definition append :: "'z run_env_scheme \<Rightarrow> uuid \<Rightarrow> action_event \<Rightarrow> bool io" where
  "append env tenant e =
     statement env (\<lambda>w. case insert_action tenant e (sw_actions w) of (r, rows) \<Rightarrow> (r, w\<lparr>sw_actions := rows\<rparr>))"

fun append_all :: "'z run_env_scheme \<Rightarrow> uuid \<Rightarrow> instant \<Rightarrow> action list \<Rightarrow> nat \<Rightarrow> nat io" where
  "append_all env tenant recorded_at [] landed = ret landed"
| "append_all env tenant recorded_at (a # as) landed =
     bind_eff (new_uuid7 env) (\<lambda>event_id.
     bind_eff (lift_result (mk_action_event
       \<lparr>ev_event_id = event_id, ev_recorded_at = recorded_at, ev_action = a, ev_supersedes = None\<rparr>)) (\<lambda>e.
     bind_eff (append env tenant e) (\<lambda>new.
     append_all env tenant recorded_at as (if new then Suc landed else landed))))"

text \<open>The local variables of \<open>_run_one\<close> that the \<open>try\<close> block sets.\<close>

record attempt =
  at_outcome :: string
  at_detail :: "run_detail option"
  at_proposed :: "action list"
  at_appended :: nat
  at_refusals :: "(refusal_reason \<times> nat) list"

text \<open>The \<open>try\<close> block. What was assigned before an exception stays assigned: an append that raises
  leaves the proposed actions and the refusals, and the count at zero.\<close>

definition attempt_run :: "'z run_env_scheme \<Rightarrow> provision \<Rightarrow> date \<Rightarrow> instant \<Rightarrow> bool \<Rightarrow> attempt io" where
  "attempt_run env p slot now dry_run =
     catch_exception
       (bind_eff (reading (resolve_declaration env REGISTRY DECLINED DECLARATIONS (pv_analysis_id p)
                             (pv_tenant_id p) (Some slot) None None)) (\<lambda>resolution.
        case resolution of
          DeclarationSatisfied declaration resolutions \<Rightarrow>
            bind_eff (reading (propose env declaration resolutions slot)) (\<lambda>planned.
            catch_exception
              (bind_eff (if dry_run then ret 0
                         else append_all env (pv_tenant_id p) now (pl_actions planned) 0) (\<lambda>appended.
               ret \<lparr>at_outcome = ''satisfied'', at_detail = None, at_proposed = pl_actions planned,
                    at_appended = appended, at_refusals = pl_refusals planned\<rparr>))
              (\<lambda>x. ret \<lparr>at_outcome = ''failed'', at_detail = Some (FailedWith x), at_proposed = pl_actions planned,
                        at_appended = 0, at_refusals = pl_refusals planned\<rparr>))
        | DeclarationBlocked declaration blocked \<Rightarrow>
            ret \<lparr>at_outcome = ''blocked'', at_detail = Some (BlockedOn (sort (keys blocked))), at_proposed = [],
                 at_appended = 0, at_refusals = []\<rparr>
        | DeclarationUndeclared analysis_id \<Rightarrow>
            ret \<lparr>at_outcome = ''undeclared'', at_detail = Some (NotDeclared (pv_analysis_id p)), at_proposed = [],
                 at_appended = 0, at_refusals = []\<rparr>))
       (\<lambda>x. ret \<lparr>at_outcome = ''failed'', at_detail = Some (FailedWith x), at_proposed = [], at_appended = 0,
                 at_refusals = []\<rparr>)"

definition finish_run ::
  "'z run_env_scheme \<Rightarrow> provision \<Rightarrow> date \<Rightarrow> instant \<Rightarrow> (uuid \<times> bool) option \<Rightarrow> attempt \<Rightarrow> slot_result io" where
  "finish_run env p slot now claimed_run a =
     bind_eff
       (case claimed_run of
          None \<Rightarrow> ret ()
        | Some (run_id, _) \<Rightarrow>
            (\<lambda>w. complete env (pv_tenant_id p) run_id
               \<lparr>cm_finished_at = instant_us now + re_elapsed env (sw_tick w), cm_outcome = at_outcome a,
                cm_actions_proposed = length (at_proposed a), cm_actions_appended = at_appended a,
                cm_detail = at_detail a,
                cm_refusals = map (\<lambda>(reason, n). (reason_value reason, n)) (at_refusals a)\<rparr> w)) (\<lambda>_.
     ret \<lparr>sl_tenant_id = pv_tenant_id p, sl_analysis_id = pv_analysis_id p, sl_slot = slot,
          sl_outcome = Some (at_outcome a), sl_actions_proposed = length (at_proposed a),
          sl_actions_appended = at_appended a, sl_detail = at_detail a, sl_skipped = False,
          sl_taken_over = (case claimed_run of None \<Rightarrow> False | Some (_, taken_over) \<Rightarrow> taken_over)\<rparr>)"

definition run_one :: "'z run_env_scheme \<Rightarrow> instant \<Rightarrow> bool \<Rightarrow> provision \<Rightarrow> slot_result io" where
  "run_one env now dry_run p =
     bind_eff (lift_result (slot_for (re_zones env) (pv_cadence p) (pv_timezone p) now)) (\<lambda>slot.
     if pv_rung p \<noteq> SHADOW then
       ret \<lparr>sl_tenant_id = pv_tenant_id p, sl_analysis_id = pv_analysis_id p, sl_slot = slot,
            sl_outcome = Some ''failed'', sl_actions_proposed = 0, sl_actions_appended = 0,
            sl_detail = Some (RungNotImplemented (pv_rung p) (pv_analysis_id p)), sl_skipped = False,
            sl_taken_over = False\<rparr>
     else if dry_run then
       bind_eff (attempt_run env p slot now True) (finish_run env p slot now None)
     else
       bind_eff (new_uuid7 env) (\<lambda>run_id.
       bind_eff (claim env p slot run_id (instant_us now)) (\<lambda>claimed.
       case claimed of
         Finished finished_id outcome \<Rightarrow>
           ret \<lparr>sl_tenant_id = pv_tenant_id p, sl_analysis_id = pv_analysis_id p, sl_slot = slot,
                sl_outcome = Some outcome, sl_actions_proposed = 0, sl_actions_appended = 0,
                sl_detail = Some (AlreadyFinished outcome finished_id), sl_skipped = True, sl_taken_over = False\<rparr>
       | Claim claimed_id taken_over \<Rightarrow>
           bind_eff (attempt_run env p slot now False) (finish_run env p slot now (Some (claimed_id, taken_over))))))"

fun run_each :: "'z run_env_scheme \<Rightarrow> instant \<Rightarrow> bool \<Rightarrow> provision list \<Rightarrow> slot_result list io" where
  "run_each env now dry_run [] = ret []"
| "run_each env now dry_run (p # ps) =
     bind_eff (run_one env now dry_run p) (\<lambda>r.
     bind_eff (run_each env now dry_run ps) (\<lambda>rs. ret (r # rs)))"

definition is_due :: "uuid option \<Rightarrow> string option \<Rightarrow> provision \<Rightarrow> bool" where
  "is_due only_tenant only_analysis p \<longleftrightarrow>
     (case only_tenant of None \<Rightarrow> True | Some t \<Rightarrow> pv_tenant_id p = t) \<and>
     (case only_analysis of None \<Rightarrow> True | Some a \<Rightarrow> pv_analysis_id p = a)"

definition run_due ::
  "'z run_env_scheme \<Rightarrow> instant \<Rightarrow> bool \<Rightarrow> uuid option \<Rightarrow> string option \<Rightarrow> slot_result list io" where
  "run_due env now dry_run only_tenant only_analysis =
     bind_eff (active env max_rungs) (\<lambda>provisions.
     run_each env now dry_run (filter (is_due only_tenant only_analysis) provisions))"

text \<open>The exit code: 2 when the sweep could not start, 1 when a run failed (or an exception leaves
  \<open>__main__\<close>), else 0; a killed process has none.\<close>

definition exit_code :: "run_error + slot_result list \<Rightarrow> int option" where
  "exit_code r =
     (case r of
        Inr results \<Rightarrow> Some (if list_ex failed results then 1 else 0)
      | Inl (Raised (ProvisionRefusedError _)) \<Rightarrow> Some 2
      | Inl (Raised (ResultTooLargeError _)) \<Rightarrow> Some 2
      | Inl (Raised _) \<Rightarrow> Some 1
      | Inl Killed \<Rightarrow> None)"

definition summarise :: "slot_result list \<Rightarrow> (string \<times> nat) list" where
  "summarise results =
     fold (\<lambda>r counts.
             let key = (if sl_skipped r then ''skipped'' else case sl_outcome r of None \<Rightarrow> ''None'' | Some s \<Rightarrow> s)
             in AList.update key (1 + (case map_of counts key of None \<Rightarrow> 0 | Some n \<Rightarrow> n)) counts) results []"

section \<open>Executions\<close>

definition empty_ledgers :: syn_world where
  "empty_ledgers = \<lparr>sw_tick = 0, sw_minted = 0, sw_runs = [], sw_actions = []\<rparr>"

text \<open>Sweeps one after the other, each at any instant and ended by its return, by an exception or
  by the death of the process.\<close>

inductive orchestrator_reachable :: "'z run_env_scheme \<Rightarrow> syn_world \<Rightarrow> bool" for env where
  start: "orchestrator_reachable env empty_ledgers"
| sweep: "orchestrator_reachable env w \<Longrightarrow>
    orchestrator_reachable env (snd (run_due env now dry_run only_tenant only_analysis w))"

end
