(* ===== verification/Synapse_Runs.thy ===== *)
theory Synapse_Runs
  imports Synapse_Runner
begin

text \<open>
  What a sweep does to the two ledgers: whatever fails and wherever the process dies, they stay
  consistent, the action log only grows and a finished run never changes.
\<close>

section \<open>The invariant\<close>

definition run_ok :: "run_row \<Rightarrow> bool" where
  "run_ok r \<longleftrightarrow>
     (rn_finished_at r = None) = (rn_outcome r = None) \<and>
     (case rn_outcome r of
        None \<Rightarrow> True
      | Some outcome \<Rightarrow> outcome \<in> set OUTCOMES \<and>
          (\<exists>finished proposed appended.
             rn_finished_at r = Some finished \<and> rn_started_at r \<le> finished \<and>
             rn_actions_proposed r = Some proposed \<and> rn_actions_appended r = Some appended \<and> appended \<le> proposed))"

definition ledgers_ok :: "syn_world \<Rightarrow> bool" where
  "ledgers_ok w \<longleftrightarrow>
     distinct (map run_slot (sw_runs w)) \<and> distinct (map rn_run_id (sw_runs w)) \<and>
     distinct (map action_key (sw_actions w)) \<and> distinct (map aw_event_id (sw_actions w)) \<and>
     (\<forall>r \<in> set (sw_runs w). run_ok r)"

text \<open>A run row changes once, when an unfinished one is completed.\<close>

definition run_step :: "run_row \<Rightarrow> run_row \<Rightarrow> bool" where
  "run_step r r' \<longleftrightarrow> r' = r \<or> (rn_outcome r = None \<and> (\<exists>c. r' = completed c r))"

definition evolves :: "syn_world \<Rightarrow> syn_world \<Rightarrow> bool" where
  "evolves w w' \<longleftrightarrow>
     (\<exists>new. sw_actions w' = sw_actions w @ new) \<and>
     (\<exists>kept new. sw_runs w' = kept @ new \<and> list_all2 run_step (sw_runs w) kept) \<and>
     sw_tick w \<le> sw_tick w' \<and> sw_minted w \<le> sw_minted w'"

lemma run_step_refl [simp]: "run_step r r"
  by (simp add: run_step_def)

lemma run_step_trans: "run_step r s \<Longrightarrow> run_step s t \<Longrightarrow> run_step r t"
  by (auto simp: run_step_def completed_def)

lemma evolves_refl: "evolves w w"
proof -
  have "\<exists>kept new. sw_runs w = kept @ new \<and> list_all2 run_step (sw_runs w) kept"
    by (rule exI [of _ "sw_runs w"]) (simp add: list_all2_same)
  then show ?thesis by (simp add: evolves_def)
qed

lemma evolves_trans:
  assumes "evolves u v" "evolves v w"
  shows "evolves u w"
proof -
  obtain k1 n1 k2 n2 where v: "sw_runs v = k1 @ n1" "list_all2 run_step (sw_runs u) k1"
    and w: "sw_runs w = k2 @ n2" "list_all2 run_step (sw_runs v) k2"
    using assms unfolding evolves_def by blast
  from w(2) v(1) obtain k2a k2b where k2: "k2 = k2a @ k2b" "list_all2 run_step k1 k2a"
    by (auto simp: list_all2_append1)
  have "list_all2 run_step (sw_runs u) k2a"
    using list_all2_trans [OF _ v(2) k2(2), of run_step] run_step_trans by blast
  moreover have "sw_runs w = k2a @ (k2b @ n2)" using w(1) k2 by simp
  ultimately show ?thesis using assms unfolding evolves_def by fastforce
qed

section \<open>Steps that keep it\<close>

text \<open>The invariant at a world reached from \<open>w0\<close>.\<close>

definition sound :: "syn_world \<Rightarrow> syn_world \<Rightarrow> bool" where
  "sound w0 w \<longleftrightarrow> ledgers_ok w \<and> evolves w0 w"

lemma sound_step:
  assumes "sound w0 w" "ledgers_ok w'" "evolves w w'"
  shows "sound w0 w'"
  using assms evolves_trans unfolding sound_def by blast

text \<open>The run a claim hands out is unfinished until its completion.\<close>

definition open_run :: "uuid option \<Rightarrow> syn_world \<Rightarrow> bool" where
  "open_run run_id w \<longleftrightarrow>
     (case run_id of None \<Rightarrow> True | Some i \<Rightarrow> \<forall>r \<in> set (sw_runs w). rn_run_id r = i \<longrightarrow> rn_outcome r = None)"

abbreviation safe :: "syn_world \<Rightarrow> uuid option \<Rightarrow> 'a io \<Rightarrow> bool" where
  "safe w0 i m \<equiv> keeps (\<lambda>w. sound w0 w \<and> open_run i w) m"

lemma ticked:
  "ledgers_ok (w\<lparr>sw_tick := n\<rparr>) = ledgers_ok w" "ledgers_ok (w\<lparr>sw_minted := k\<rparr>) = ledgers_ok w"
  "open_run i (w\<lparr>sw_tick := n\<rparr>) = open_run i w" "open_run i (w\<lparr>sw_minted := k\<rparr>) = open_run i w"
  by (simp_all add: ledgers_ok_def open_run_def split: option.split)

lemma evolves_tick: "evolves w w' \<Longrightarrow> sw_tick w' \<le> n \<Longrightarrow> evolves w (w'\<lparr>sw_tick := n\<rparr>)"
  by (auto simp: evolves_def)

text \<open>From statement \<open>n\<close> on the database answers and the process lives.\<close>

definition calm :: "'z syn_env_scheme \<Rightarrow> nat \<Rightarrow> bool" where
  "calm env n \<longleftrightarrow> (\<forall>m \<ge> n. se_fault env m = Fine)"

lemma calm_later: "calm env n \<Longrightarrow> n \<le> m \<Longrightarrow> calm env m"
  by (simp add: calm_def)

text \<open>A reading moves on to later statements, and only a fault can kill it.\<close>

definition moves_on :: "'z syn_env_scheme \<Rightarrow> 'a reading \<Rightarrow> bool" where
  "moves_on env m \<longleftrightarrow> (\<forall>n. n \<le> snd (m n) \<and> (fst (m n) = Inl Killed \<longrightarrow> \<not> calm env n))"

lemma moves_on_intros:
  "moves_on env (ret x)" "moves_on env (throw (Raised e))" "moves_on env (lift_result r)" "moves_on env (select_stmt env q)"
  by (auto simp: moves_on_def select_stmt_def lift_result_def calm_def split: fault.split sum.splits)

lemma moves_on_bind:
  assumes "moves_on env m" "\<And>x. moves_on env (f x)"
  shows "moves_on env (bind_eff m f)"
  unfolding moves_on_def
proof
  fix n
  obtain r k where m: "m n = (r, k)" by (cases "m n")
  then have k: "n \<le> k" "r = Inl Killed \<longrightarrow> \<not> calm env n" using assms(1) by (auto simp: moves_on_def dest: spec [of _ n])
  show "n \<le> snd (bind_eff m f n) \<and> (fst (bind_eff m f n) = Inl Killed \<longrightarrow> \<not> calm env n)"
  proof (cases r)
    case (Inl e)
    then show ?thesis using m k by (simp add: bind_eff_def)
  next
    case (Inr x)
    then have "bind_eff m f n = f x k" using m by (simp add: bind_eff_def)
    moreover have "k \<le> snd (f x k)" "fst (f x k) = Inl Killed \<longrightarrow> \<not> calm env k"
      using assms(2) [of x] by (simp_all add: moves_on_def)
    ultimately show ?thesis using k(1) calm_later [of env n k] by auto
  qed
qed

lemma moves_on_fetch: "moves_on env (run_fetch env f)"
  unfolding run_fetch_def
  by (auto split: resolver.split option.split prod.split intro!: moves_on_bind moves_on_intros)

lemma moves_on_fetch_rows: "moves_on env (fetch_rows env resolutions c view)"
  unfolding fetch_rows_def
  by (intro moves_on_bind moves_on_intros moves_on_fetch) (auto split: option.split intro: moves_on_intros)

lemma moves_on_gate_loop: "moves_on env (gate_loop env entry tenant store sku bound unmet qualifying)"
proof (induction bound arbitrary: unmet qualifying)
  case (Cons b bound)
  have probe: "moves_on env (run_probe env p tenant store sku required)" for p required
    unfolding run_probe_def by (cases p) (auto intro!: moves_on_bind moves_on_intros)
  show ?case
    by (cases b) (auto simp: Let_def split: option.split intro!: moves_on_bind moves_on_intros probe Cons.IH)
qed (simp only: gate_loop.simps moves_on_intros)

lemma moves_on_resolve: "moves_on env (resolve env registry declined c tenant gates store sku window)"
  unfolding resolve_def Let_def
  by (auto split: option.split prod.split intro!: moves_on_bind moves_on_intros moves_on_gate_loop)

lemma moves_on_requirement_loop:
  "moves_on env (requirement_loop env registry declined thresholds tenant as_of store sku rs resolutions blocked)"
proof (induction rs arbitrary: resolutions blocked)
  case (Cons r rs)
  show ?case unfolding requirement_loop.simps
    by (intro moves_on_bind moves_on_intros moves_on_resolve) (auto split: resolution.split intro: Cons.IH)
qed (simp only: requirement_loop.simps moves_on_intros)

lemma moves_on_declaration:
  "moves_on env (resolve_declaration env registry declined declarations a tenant as_of store sku)"
  unfolding resolve_declaration_def
  by (auto split: option.split intro!: moves_on_bind moves_on_intros moves_on_requirement_loop)

lemma moves_on_propose: "moves_on env (propose env d resolutions slot)"
  unfolding propose_def plan_for_def plan_dead_stock_def plan_stockout_risk_def Let_def
  by (auto split: option.split analysis_fn.split intro!: moves_on_bind moves_on_intros moves_on_fetch_rows)

lemma safe_reading: "moves_on env m \<Longrightarrow> safe w0 i (reading m)"
proof (rule tripleI)
  have *: "sound w0 t \<and> open_run i t"
    if "moves_on env m" "sound w0 w \<and> open_run i w" "reading m w = (r, t)" for w r t
  proof -
    obtain q n where "m (sw_tick w) = (q, n)" by (cases "m (sw_tick w)")
    then have t: "t = w\<lparr>sw_tick := n\<rparr>" "sw_tick w \<le> n"
      using that unfolding reading_def moves_on_def by (auto dest: spec [of _ "sw_tick w"])
    then show ?thesis using that(2) evolves_tick [OF evolves_refl [of w] t(2)] sound_step [of w0 w t]
      by (simp add: ticked sound_def)
  qed
  assume "moves_on env m"
  note * = * [OF this]
  show "sound w0 t \<and> open_run i t" if "sound w0 w \<and> open_run i w" "reading m w = (Inl e, t)" for w e t
    using * [OF that] .
  show "sound w0 t \<and> open_run i t" if "sound w0 w \<and> open_run i w" "reading m w = (Inr x, t)" for w x t
    using * [OF that] .
qed

text \<open>A statement keeps the invariant when its effect does.\<close>

lemma safe_statement:
  assumes "\<And>w. sound w0 w \<Longrightarrow> open_run i w \<Longrightarrow> sound w0 (snd (f w)) \<and> open_run i (snd (f w))"
    and tick: "\<And>w. sw_tick (snd (f w)) = sw_tick w"
  shows "safe w0 i (statement env f)"
proof -
  have *: "sound w0 t \<and> open_run i t" if run: "statement env f w = (r, t)" and w: "sound w0 w \<and> open_run i w" for w r t
  proof -
    have *: "sound w0 (v\<lparr>sw_tick := Suc (sw_tick w)\<rparr>) \<and> open_run i (v\<lparr>sw_tick := Suc (sw_tick w)\<rparr>)"
      if "sound w0 v \<and> open_run i v" "sw_tick v = sw_tick w" for v
      using that evolves_tick [of w0 v "Suc (sw_tick w)"] by (simp add: sound_def ticked)
    have "t = w\<lparr>sw_tick := Suc (sw_tick w)\<rparr> \<or> t = (snd (f w))\<lparr>sw_tick := Suc (sw_tick w)\<rparr>"
      using run unfolding statement_def by (auto split: prod.splits fault.splits)
    then show ?thesis using * [of w] * [of "snd (f w)"] w assms by blast
  qed
  show ?thesis by (rule tripleI) (use * in blast)+
qed

lemma safe_new_uuid: "safe w0 i (new_uuid7 env)"
  by (auto simp: triple_def new_uuid7_def sound_def ticked) (auto simp: evolves_def)

lemma safe_bind: "safe w0 i m \<Longrightarrow> (\<And>x. safe w0 i (f x)) \<Longrightarrow> safe w0 i (bind_eff m f)"
  by (rule triple_bind)

lemma safe_lift: "safe w0 i (lift_result r)" "safe w0 i (ret x)" "safe w0 i (throw e)"
  by (simp_all add: triple_def lift_result_def split: sum.split)

lemma safe_catch: "safe w0 i m \<Longrightarrow> (\<And>x. safe w0 i (h x)) \<Longrightarrow> safe w0 i (catch_exception m h)"
  unfolding catch_exception_def
  by (rule triple_catch) (auto split: run_error.split intro: safe_lift)

lemma sound_add_action:
  assumes "sound w0 w"
  shows "sound w0 (w\<lparr>sw_actions := add_action r (sw_actions w)\<rparr>)"
proof (rule sound_step [OF assms])
  show "ledgers_ok (w\<lparr>sw_actions := add_action r (sw_actions w)\<rparr>)"
    using assms action_log.distinct_add action_ids.distinct_add by (auto simp: sound_def ledgers_ok_def)
  show "evolves w (w\<lparr>sw_actions := add_action r (sw_actions w)\<rparr>)"
    using action_log.add_prefix [of r "sw_actions w"] evolves_refl [of w] by (auto simp: evolves_def)
qed

lemma safe_append: "safe w0 i (append env tenant e)"
  unfolding append_def
proof (rule safe_statement)
  let ?f = "\<lambda>w. case insert_action tenant e (sw_actions w) of (r, rows) \<Rightarrow> (r, w\<lparr>sw_actions := rows\<rparr>)"
  show "sw_tick (snd (?f w)) = sw_tick w" for w by (simp split: prod.split)
  show "sound w0 (snd (?f w)) \<and> open_run i (snd (?f w))" if "sound w0 w" "open_run i w" for w
  proof -
    have "\<exists>r. snd (insert_action tenant e (sw_actions w)) = sw_actions w \<or>
        snd (insert_action tenant e (sw_actions w)) = add_action r (sw_actions w)"
      by (auto simp: insert_action_def Let_def split: sum.split)
    then show ?thesis using that sound_add_action [of w0 w]
      by (auto simp: open_run_def split: prod.splits option.splits)
  qed
qed

lemma safe_append_all: "safe w0 i (append_all env tenant now as n)"
proof (induction as arbitrary: n)
  case (Cons a as)
  show ?case unfolding append_all.simps
    by (intro safe_bind safe_new_uuid safe_lift safe_append Cons.IH)
qed (simp only: append_all.simps safe_lift)

lemma safe_attempt: "safe w0 i (attempt_run env p slot now dry_run)"
  unfolding attempt_run_def
  by (intro safe_catch safe_bind safe_reading [OF moves_on_declaration [of env]])
     (auto split: declaration_resolution.split
       intro!: safe_catch safe_bind safe_reading [OF moves_on_propose [of env]] safe_lift safe_append_all)

section \<open>Claims and completions\<close>

lemma sound_insert_run:
  assumes "sound w0 w" "open_run i w" and open_row: "rn_outcome r = None" "rn_finished_at r = None"
  shows "sound w0 (snd (insert_run r w)) \<and> open_run i (snd (insert_run r w))"
proof (cases "insert_run r w = (Inr True, w\<lparr>sw_runs := sw_runs w @ [r]\<rparr>) \<and>
    run_slot r \<notin> run_slot ` set (sw_runs w) \<and> rn_run_id r \<notin> rn_run_id ` set (sw_runs w)")
  case True
  have "evolves w (w\<lparr>sw_runs := sw_runs w @ [r]\<rparr>)"
  proof -
    have "\<exists>kept new. sw_runs w @ [r] = kept @ new \<and> list_all2 run_step (sw_runs w) kept"
      by (intro exI [of _ "sw_runs w"] exI [of _ "[r]"]) (simp add: list_all2_same)
    then show ?thesis by (simp add: evolves_def)
  qed
  moreover have "ledgers_ok (w\<lparr>sw_runs := sw_runs w @ [r]\<rparr>)"
    using assms(1) True open_row by (auto simp: sound_def ledgers_ok_def run_ok_def)
  ultimately show ?thesis
    using True assms sound_step [OF assms(1)] by (auto simp: open_run_def split: option.splits)
next
  case False
  then have "snd (insert_run r w) = w" by (auto simp: insert_run_def add_run_def)
  then show ?thesis using assms by simp
qed

lemma claim_row_open [simp]:
  "rn_outcome (claim_row p slot i started) = None" "rn_finished_at (claim_row p slot i started) = None"
  "rn_run_id (claim_row p slot i started) = i" "run_slot (claim_row p slot i started) = (pv_tenant_id p, pv_analysis_id p, slot)"
  "rn_tenant_id (claim_row p slot i started) = pv_tenant_id p" "rn_started_at (claim_row p slot i started) = started"
  by (simp_all add: claim_row_def run_slot_def)

lemma safe_insert_run:
  assumes "rn_outcome r = None" "rn_finished_at r = None"
  shows "safe w0 i (statement env (insert_run r))"
proof (rule safe_statement)
  show "sound w0 (snd (insert_run r w)) \<and> open_run i (snd (insert_run r w))" if "sound w0 w" "open_run i w" for w
    using that assms by (rule sound_insert_run)
  show "sw_tick (snd (insert_run r w)) = sw_tick w" for w by (simp add: insert_run_def)
qed

lemma safe_look: "safe w0 i (statement env (\<lambda>w. (f w, w)))"
  by (rule safe_statement) simp_all

lemma claim_open:
  "triple (sound w0) (claim env p slot run_id started)
     (\<lambda>c w. sound w0 w \<and> (case c of Claim i _ \<Rightarrow> open_run (Some i) w | Finished _ _ \<Rightarrow> True)) (\<lambda>_. sound w0)"
proof (rule tripleI)
  fix w c t
  assume "sound w0 w" and run: "claim env p slot run_id started w = (Inr c, t)"
  let ?row = "claim_row p slot run_id started"
  let ?look = "\<lambda>w. (case existing_run (run_slot ?row) w of
                     None \<Rightarrow> Inl (RuntimeError ''NoResultFound'') | Some r \<Rightarrow> Inr r, w)"
  have insert: "safe w0 i (statement env (insert_run ?row))" for i
    by (rule safe_insert_run) simp_all
  obtain inserted u where u: "statement env (insert_run ?row) w = (Inr inserted, u)"
    using run by (auto simp: claim_def Let_def bind_eff_def split: prod.splits sum.splits)
  have "sound w0 u" using triple_Inr [OF insert [of None] _ u] \<open>sound w0 w\<close> by (simp add: open_run_def)
  show "sound w0 t \<and> (case c of Claim i _ \<Rightarrow> open_run (Some i) t | Finished _ _ \<Rightarrow> True)"
  proof (cases inserted)
    case True
    then have c: "c = Claim run_id False" "t = u" using run u by (auto simp: claim_def Let_def bind_eff_def)
    have "insert_run ?row w = (Inr True, w\<lparr>sw_runs := sw_runs w @ [?row]\<rparr>)" "rn_run_id ?row \<notin> rn_run_id ` set (sw_runs w)"
        "sw_runs u = sw_runs w @ [?row]"
      using u True unfolding statement_def
      by (auto simp: insert_run_def add_run_def split: prod.splits fault.splits if_splits sum.splits)
    then show ?thesis using c \<open>sound w0 u\<close> by (auto simp: open_run_def)
  next
    case False
    then obtain existing where e: "statement env ?look u = (Inr existing, t)"
      and c: "c = (case rn_outcome existing of Some outcome \<Rightarrow> Finished (rn_run_id existing) outcome
                  | None \<Rightarrow> Claim (rn_run_id existing) True)"
      using run u by (auto simp: claim_def Let_def bind_eff_def split: prod.splits sum.splits)
    have t: "t = u\<lparr>sw_tick := Suc (sw_tick u)\<rparr>" and found: "existing_run (run_slot ?row) u = Some existing"
      using e unfolding statement_def by (auto split: prod.splits fault.splits option.splits sum.splits)
    have "sound w0 t" using \<open>sound w0 u\<close> evolves_tick [of w0 u "Suc (sw_tick u)"] t by (simp add: sound_def ticked)
    moreover have "open_run (Some (rn_run_id existing)) t" if "rn_outcome existing = None"
    proof -
      have "existing \<in> set (sw_runs u)" using found by (auto simp: existing_run_def find_Some_iff)
      moreover have "distinct (map rn_run_id (sw_runs u))" using \<open>sound w0 u\<close> by (simp add: sound_def ledgers_ok_def)
      ultimately have "r = existing" if "r \<in> set (sw_runs u)" "rn_run_id r = rn_run_id existing" for r
        using that by (simp add: distinct_map inj_on_def)
      then show ?thesis using that t by (auto simp: open_run_def)
    qed
    ultimately show ?thesis using c by (auto split: option.splits)
  qed
next
  fix w e t
  assume "sound w0 w" and run: "claim env p slot run_id started w = (Inl e, t)"
  have "safe w0 None (claim env p slot run_id started)"
    unfolding claim_def Let_def
    by (intro safe_bind safe_insert_run) (auto intro!: safe_bind safe_lift safe_look)
  from triple_Inl [OF this _ run] \<open>sound w0 w\<close> show "sound w0 t" by (simp add: open_run_def)
qed

lemma completed_fields [simp]:
  "rn_run_id (completed c r) = rn_run_id r" "run_slot (completed c r) = run_slot r" "rn_tenant_id (completed c r) = rn_tenant_id r"
  "rn_outcome (completed c r) = Some (cm_outcome c)" "rn_started_at (completed c r) = rn_started_at r"
  by (simp_all add: completed_def run_slot_def)

lemma run_ok_completed:
  assumes "cm_outcome c \<in> set OUTCOMES" "completion_checks c r"
  shows "run_ok (completed c r)"
  using assms by (simp add: run_ok_def completed_def completion_checks_def)

lemma sound_update_run:
  assumes "sound w0 w" "open_run (Some i) w" "cm_outcome c \<in> set OUTCOMES"
  shows "sound w0 (snd (update_run tenant i c w))"
proof (cases "list_ex (\<lambda>r. (rn_run_id r = i \<and> rn_tenant_id r = tenant) \<and> \<not> completion_checks c r) (sw_runs w)")
  case True
  then show ?thesis using assms(1) by (simp add: update_run_def Let_def)
next
  case False
  let ?g = "\<lambda>r. if rn_run_id r = i \<and> rn_tenant_id r = tenant then completed c r else r"
  have g: "run_slot (?g r) = run_slot r" "rn_run_id (?g r) = rn_run_id r" for r by simp_all
  have slots: "map run_slot (map ?g (sw_runs w)) = map run_slot (sw_runs w)"
    and ids: "map rn_run_id (map ?g (sw_runs w)) = map rn_run_id (sw_runs w)" by (simp_all add: g)
  have "list_all2 run_step (sw_runs w) (map ?g (sw_runs w))"
    using assms(2) by (auto simp: list_all2_conv_all_nth run_step_def open_run_def)
  then have "evolves w (w\<lparr>sw_runs := map ?g (sw_runs w)\<rparr>)" by (auto simp: evolves_def)
  moreover have "ledgers_ok (w\<lparr>sw_runs := map ?g (sw_runs w)\<rparr>)"
    using assms(1,3) False slots ids
    by (auto simp: sound_def ledgers_ok_def list_ex_iff simp del: map_map intro!: run_ok_completed)
  ultimately show ?thesis
    using False sound_step [OF assms(1)] by (simp add: update_run_def Let_def)
qed

lemma complete_sound:
  "triple (\<lambda>w. sound w0 w \<and> open_run (Some i) w) (complete env tenant i c) (\<lambda>_. sound w0) (\<lambda>_. sound w0)"
proof (cases "cm_outcome c \<in> set OUTCOMES")
  case True
  have *: "sound w0 t" if run: "statement env (update_run tenant i c) w = (r, t)" and w: "sound w0 w" "open_run (Some i) w" for w r t
  proof -
    have tick: "sw_tick (snd (update_run tenant i c w)) = sw_tick w" by (simp add: update_run_def Let_def)
    have "t = w\<lparr>sw_tick := Suc (sw_tick w)\<rparr> \<or> t = (snd (update_run tenant i c w))\<lparr>sw_tick := Suc (sw_tick w)\<rparr>"
      using run unfolding statement_def by (auto split: prod.splits fault.splits)
    moreover have "sound w0 (v\<lparr>sw_tick := Suc (sw_tick w)\<rparr>)" if "sound w0 v" "sw_tick v = sw_tick w" for v
      using that evolves_tick [of w0 v "Suc (sw_tick w)"] by (simp add: sound_def ticked)
    ultimately show ?thesis using w sound_update_run [OF w True] tick by metis
  qed
  have "sound w0 (snd (statement env (update_run tenant i c) w))" if "sound w0 w" "open_run (Some i) w" for w
    using * [OF surjective_pairing that] .
  then show ?thesis using True by (simp add: triple_snd complete_def raise_if_def lift_result_def bind_eff_def)
next
  case False
  then show ?thesis by (simp add: complete_def raise_if_def lift_result_def triple_def bind_eff_def)
qed

section \<open>The whole sweep\<close>

lemma finish_sound:
  "triple (\<lambda>w. sound w0 w \<and> open_run (map_option fst claimed_run) w) (finish_run env p slot now claimed_run a)
     (\<lambda>_. sound w0) (\<lambda>_. sound w0)"
  unfolding finish_run_def
proof (rule triple_bind [where R = "\<lambda>_. sound w0"])
  show "triple (\<lambda>w. sound w0 w \<and> open_run (map_option fst claimed_run) w)
      (case claimed_run of
          None \<Rightarrow> ret ()
        | Some (run_id, _) \<Rightarrow>
            (\<lambda>w. complete env (pv_tenant_id p) run_id
               \<lparr>cm_finished_at = instant_us now + re_elapsed env (sw_tick w), cm_outcome = at_outcome a,
                cm_actions_proposed = length (at_proposed a), cm_actions_appended = at_appended a,
                cm_detail = at_detail a,
                cm_refusals = map (\<lambda>(reason, n). (reason_value reason, n)) (at_refusals a)\<rparr> w))
      (\<lambda>_. sound w0) (\<lambda>_. sound w0)"
    using complete_sound [unfolded triple_snd, rule_format, OF conjI]
    by (auto simp: triple_snd split: option.split prod.split)
qed (simp add: triple_def)

lemma run_one_sound: "keeps (sound w0) (run_one env now dry_run p)"
  unfolding run_one_def
proof (rule triple_bind [where R = "\<lambda>_. sound w0"])
  show "keeps (sound w0) (lift_result (slot_for (re_zones env) (pv_cadence p) (pv_timezone p) now))"
    by (simp add: triple_def lift_result_def split: sum.split)
  fix slot
  have attempt: "triple (\<lambda>w. sound w0 w \<and> open_run (map_option fst c) w)
      (bind_eff (attempt_run env p slot now d) (finish_run env p slot now c)) (\<lambda>_. sound w0) (\<lambda>_. sound w0)" for c d
    by (rule triple_bind [where R = "\<lambda>_ w. sound w0 w \<and> open_run (map_option fst c) w"])
       (rule triple_conseq [OF safe_attempt], auto intro: finish_sound)
  have claimed: "keeps (sound w0) (bind_eff (new_uuid7 env) (\<lambda>run_id.
       bind_eff (claim env p slot run_id (instant_us now)) (\<lambda>claimed.
       case claimed of
         Finished finished_id outcome \<Rightarrow> ret (r finished_id outcome)
       | Claim claimed_id taken_over \<Rightarrow>
           bind_eff (attempt_run env p slot now False) (finish_run env p slot now (Some (claimed_id, taken_over))))))" for r
  proof (rule triple_bind [where R = "\<lambda>_. sound w0"])
    show "keeps (sound w0) (new_uuid7 env)"
      by (rule triple_conseq [OF safe_new_uuid [of w0 None]]) (auto simp: open_run_def)
    show "keeps (sound w0) (bind_eff (claim env p slot run_id (instant_us now)) (\<lambda>claimed.
       case claimed of
         Finished finished_id outcome \<Rightarrow> ret (r finished_id outcome)
       | Claim claimed_id taken_over \<Rightarrow>
           bind_eff (attempt_run env p slot now False) (finish_run env p slot now (Some (claimed_id, taken_over)))))" for run_id
    proof (rule triple_bind [OF claim_open])
      show "triple (\<lambda>w. sound w0 w \<and> (case c of Claim i _ \<Rightarrow> open_run (Some i) w | Finished _ _ \<Rightarrow> True))
          (case c of Finished finished_id outcome \<Rightarrow> ret (r finished_id outcome)
           | Claim claimed_id taken_over \<Rightarrow>
               bind_eff (attempt_run env p slot now False) (finish_run env p slot now (Some (claimed_id, taken_over))))
          (\<lambda>_. sound w0) (\<lambda>_. sound w0)" for c
        using attempt [of "Some (_, _)" False] by (cases c) (simp_all add: triple_snd)
    qed
  qed
  show "keeps (sound w0)
      (if pv_rung p \<noteq> SHADOW then
         ret \<lparr>sl_tenant_id = pv_tenant_id p, sl_analysis_id = pv_analysis_id p, sl_slot = slot,
            sl_outcome = Some ''failed'', sl_actions_proposed = 0, sl_actions_appended = 0,
            sl_detail = Some (RungNotImplemented (pv_rung p) (pv_analysis_id p)), sl_skipped = False,
            sl_taken_over = False\<rparr>
       else if dry_run then bind_eff (attempt_run env p slot now True) (finish_run env p slot now None)
       else bind_eff (new_uuid7 env) (\<lambda>run_id.
         bind_eff (claim env p slot run_id (instant_us now)) (\<lambda>claimed.
         case claimed of
           Finished finished_id outcome \<Rightarrow>
             ret \<lparr>sl_tenant_id = pv_tenant_id p, sl_analysis_id = pv_analysis_id p, sl_slot = slot,
                  sl_outcome = Some outcome, sl_actions_proposed = 0, sl_actions_appended = 0,
                  sl_detail = Some (AlreadyFinished outcome finished_id), sl_skipped = True, sl_taken_over = False\<rparr>
         | Claim claimed_id taken_over \<Rightarrow>
             bind_eff (attempt_run env p slot now False) (finish_run env p slot now (Some (claimed_id, taken_over))))))"
    using attempt [of None True] claimed by (intro triple_if) (simp_all add: open_run_def triple_snd)
qed

lemma run_each_sound: "keeps (sound w0) (run_each env now dry_run ps)"
proof (induction ps)
  case (Cons p ps)
  show ?case unfolding run_each.simps
    by (rule triple_bind [OF run_one_sound], rule triple_bind [OF Cons.IH]) (simp add: triple_def)
qed (simp only: run_each.simps, simp add: triple_def)

lemma run_due_sound: "keeps (sound w0) (run_due env now dry_run only_tenant only_analysis)"
  unfolding run_due_def
proof (rule triple_bind [where R = "\<lambda>_. sound w0"])
  have "safe w0 None (active env max_rungs)"
    unfolding active_def by (intro safe_bind safe_look safe_lift)
  then show "keeps (sound w0) (active env max_rungs)" by (simp add: open_run_def)
qed (rule run_each_sound)

lemma sweep_sound:
  assumes "ledgers_ok w"
  shows "ledgers_ok (snd (run_due env now dry_run only_tenant only_analysis w))"
    "evolves w (snd (run_due env now dry_run only_tenant only_analysis w))"
proof -
  have "sound w (snd (run_due env now dry_run only_tenant only_analysis w))"
    by (rule keeps_snd [OF run_due_sound]) (simp add: sound_def assms evolves_refl)
  then show "ledgers_ok (snd (run_due env now dry_run only_tenant only_analysis w))"
    "evolves w (snd (run_due env now dry_run only_tenant only_analysis w))"
    by (simp_all add: sound_def)
qed

lemma reachable_ledgers_ok: "orchestrator_reachable env w \<Longrightarrow> ledgers_ok w"
  by (induction rule: orchestrator_reachable.induct) (simp_all add: sweep_sound, simp add: ledgers_ok_def empty_ledgers_def)

end
