(* ===== verification/Synapse_Sweeps.thy ===== *)
theory Synapse_Sweeps
  imports Synapse_Runs
begin

text \<open>
  What the orchestrator promises about its ledgers: consistency under every failure, convergence
  of the sweep that follows, the retry that stays red, and the takeover that cannot complete.
\<close>

section \<open>Steps that only append to the action log\<close>

text \<open>Such a step leaves the run table alone, and under a calm database it cannot be killed.\<close>

definition logs :: "'z run_env_scheme \<Rightarrow> 'a io \<Rightarrow> bool" where
  "logs env m \<longleftrightarrow>
     (\<forall>w. sw_tick w \<le> sw_tick (snd (m w)) \<and> sw_minted w \<le> sw_minted (snd (m w)) \<and>
          sw_runs (snd (m w)) = sw_runs w \<and> (fst (m w) = Inl Killed \<longrightarrow> \<not> calm env (sw_tick w)))"

lemma logs_intros:
  "logs env (ret x)" "logs env (throw (Raised e))" "logs env (lift_result r)" "logs env (new_uuid7 env)"
  by (auto simp: logs_def lift_result_def new_uuid7_def split: sum.splits)

lemma logs_reading:
  assumes "moves_on env m"
  shows "logs env (reading m)"
proof -
  have "sw_tick w \<le> sw_tick (snd (reading m w)) \<and> sw_minted w \<le> sw_minted (snd (reading m w)) \<and>
      sw_runs (snd (reading m w)) = sw_runs w \<and> (fst (reading m w) = Inl Killed \<longrightarrow> \<not> calm env (sw_tick w))" for w
  proof (cases "m (sw_tick w)")
    case (Pair r k)
    then have "sw_tick w \<le> k" "r = Inl Killed \<longrightarrow> \<not> calm env (sw_tick w)"
      using assms by (auto simp: moves_on_def dest: spec [of _ "sw_tick w"])
    then show ?thesis using Pair by (simp add: reading_def)
  qed
  then show ?thesis by (simp add: logs_def)
qed

lemma logs_bind:
  assumes "logs env m" "\<And>x. logs env (f x)"
  shows "logs env (bind_eff m f)"
  unfolding logs_def
proof
  fix w
  obtain r t where m: "m w = (r, t)" by (cases "m w")
  then have t: "sw_tick w \<le> sw_tick t" "sw_minted w \<le> sw_minted t" "sw_runs t = sw_runs w"
      "r = Inl Killed \<longrightarrow> \<not> calm env (sw_tick w)"
    using assms(1) by (auto simp: logs_def dest: spec [of _ w])
  show "sw_tick w \<le> sw_tick (snd (bind_eff m f w)) \<and> sw_minted w \<le> sw_minted (snd (bind_eff m f w)) \<and>
      sw_runs (snd (bind_eff m f w)) = sw_runs w \<and> (fst (bind_eff m f w) = Inl Killed \<longrightarrow> \<not> calm env (sw_tick w))"
  proof (cases r)
    case (Inl e)
    then show ?thesis using m t by (simp add: bind_eff_def)
  next
    case (Inr x)
    have "logs env (f x)" by (rule assms(2))
    then show ?thesis using m t Inr calm_later [of env "sw_tick w" "sw_tick t"]
      by (auto simp: bind_eff_def logs_def dest: spec [of _ t] intro: order_trans)
  qed
qed

lemma catch_exception_cases:
  "m w = (Inr x, t) \<Longrightarrow> catch_exception m h w = (Inr x, t)"
  "m w = (Inl (Raised e), t) \<Longrightarrow> catch_exception m h w = h e t"
  "m w = (Inl Killed, t) \<Longrightarrow> catch_exception m h w = (Inl Killed, t)"
  by (simp_all add: catch_exception_def catch_eff_def)

lemma logs_catch:
  assumes "logs env m"
  shows "logs env (catch_exception m (\<lambda>x. ret (h x)))"
  unfolding logs_def
proof
  fix w
  obtain r t where m: "m w = (r, t)" by (cases "m w")
  then have "sw_tick w \<le> sw_tick t" "sw_minted w \<le> sw_minted t" "sw_runs t = sw_runs w"
      "r = Inl Killed \<longrightarrow> \<not> calm env (sw_tick w)"
    using assms by (auto simp: logs_def dest: spec [of _ w])
  then show "sw_tick w \<le> sw_tick (snd (catch_exception m (\<lambda>x. ret (h x)) w)) \<and>
      sw_minted w \<le> sw_minted (snd (catch_exception m (\<lambda>x. ret (h x)) w)) \<and>
      sw_runs (snd (catch_exception m (\<lambda>x. ret (h x)) w)) = sw_runs w \<and>
      (fst (catch_exception m (\<lambda>x. ret (h x)) w) = Inl Killed \<longrightarrow> \<not> calm env (sw_tick w))"
    using m by (cases r rule: sum.exhaust [case_names raised fine]; (cases "projl r")?)
      (auto simp: catch_exception_def catch_eff_def split: run_error.splits)
qed

lemma statement_calm:
  assumes "calm env (sw_tick w)"
  shows "statement env f w =
    (case f w of (r, w') \<Rightarrow> (case r of Inl e \<Rightarrow> Inl (Raised e) | Inr x \<Rightarrow> Inr x, w'\<lparr>sw_tick := Suc (sw_tick w)\<rparr>))"
  using assms by (simp add: statement_def calm_def)

lemma logs_append: "logs env (append env tenant e)"
  by (auto simp: logs_def append_def statement_def calm_def split: prod.split fault.split sum.split)

lemma logs_append_all: "logs env (append_all env tenant now as n)"
proof (induction as arbitrary: n)
  case (Cons a as)
  show ?case unfolding append_all.simps by (intro logs_bind logs_intros logs_append Cons.IH)
qed (simp only: append_all.simps logs_intros)

lemma logs_attempt: "logs env (attempt_run env p slot now dry_run)"
  unfolding attempt_run_def
  by (intro logs_catch logs_bind logs_reading moves_on_declaration)
     (auto split: declaration_resolution.split
       intro!: logs_catch logs_bind logs_reading moves_on_propose logs_intros logs_append_all)

section \<open>What an attempt returns\<close>

lemma append_all_count:
  "append_all env tenant now as n w = (Inr k, t) \<Longrightarrow> n \<le> k \<and> k \<le> n + length as"
proof (induction as arbitrary: n w)
  case (Cons a as)
  from Cons.prems obtain new u where "append_all env tenant now as (if new then Suc n else n) u = (Inr k, t)"
    by (auto simp: bind_eff_def split: prod.splits sum.splits)
  from Cons.IH [OF this] show ?case by (simp split: if_splits)
qed simp

definition attempt_ok :: "attempt \<Rightarrow> bool" where
  "attempt_ok a \<longleftrightarrow> at_outcome a \<in> set OUTCOMES \<and> at_appended a \<le> length (at_proposed a)"

lemma triple_catch_exception:
  assumes "triple P m Q R" "\<And>x. triple (R (Raised x)) (h x) Q E" "\<And>s. R Killed s \<Longrightarrow> E Killed s"
  shows "triple P (catch_exception m h) Q E"
  unfolding catch_exception_def
  using assms(2,3) by (intro triple_catch [OF assms(1)]) (auto split: run_error.split intro: triple_throw)

lemma attempt_returns:
  "triple (\<lambda>_. True) (attempt_run env p slot now dry_run) (\<lambda>a _. attempt_ok a) (\<lambda>e _. e = Killed)"
proof -
  have any: "triple (\<lambda>_. True) m (\<lambda>_ _. True) (\<lambda>_ _. True)" for m :: "'x io"
    by (simp add: triple_def split: prod.split sum.split)
  have count: "triple (\<lambda>_. True) (if dry_run then ret 0 else append_all env tenant now as 0) (\<lambda>n _. n \<le> length as) (\<lambda>_ _. True)"
    for as tenant
    using append_all_count [of env tenant now as 0] by (auto simp: triple_def split: prod.split sum.split)
  have out: "''satisfied'' \<in> set OUTCOMES" "''failed'' \<in> set OUTCOMES" "''blocked'' \<in> set OUTCOMES" "''undeclared'' \<in> set OUTCOMES"
    by (simp_all add: OUTCOMES_def)
  have branch: "triple (\<lambda>_. True)
      (case resolution of
          DeclarationSatisfied declaration resolutions \<Rightarrow>
            bind_eff (reading (propose env declaration resolutions slot)) (\<lambda>planned.
            catch_exception
              (bind_eff (if dry_run then ret 0
                         else append_all env (pv_tenant_id p) now (pl_actions planned) 0) (\<lambda>appended.
               ret \<lparr>at_outcome = ''satisfied'', at_detail = None, at_proposed = pl_actions planned,
                    at_appended = appended, at_refusals = pl_refusals planned\<rparr>))
              (\<lambda>x. ret \<lparr>at_outcome = ''failed'', at_detail = Some (FailedWith x), at_proposed = pl_actions planned,
                        at_appended = 0, at_refusals = pl_refusals planned\<rparr>))
        | DeclarationBlocked declaration blocked \<Rightarrow>
            ret \<lparr>at_outcome = ''blocked'', at_detail = Some (BlockedOn (sort (keys blocked))), at_proposed = [],
                 at_appended = 0, at_refusals = []\<rparr>
        | DeclarationUndeclared analysis_id \<Rightarrow>
            ret \<lparr>at_outcome = ''undeclared'', at_detail = Some (NotDeclared (pv_analysis_id p)), at_proposed = [],
                 at_appended = 0, at_refusals = []\<rparr>)
      (\<lambda>a _. attempt_ok a) (\<lambda>_ _. True)" for resolution
    by (auto split: declaration_resolution.split intro!: triple_bind [OF any] triple_bind [OF count] triple_ret
        triple_catch_exception [where R = "\<lambda>_ _. True"] simp: attempt_ok_def out)
  show ?thesis
    unfolding attempt_run_def
    by (intro triple_catch_exception [where R = "\<lambda>_ _. True"] triple_bind [OF any] branch)
       (auto intro!: triple_ret simp: attempt_ok_def out)
qed

section \<open>A calm sweep settles its slots\<close>

definition settled :: "syn_world \<Rightarrow> slot_key \<Rightarrow> bool" where
  "settled w k \<longleftrightarrow> (\<exists>r \<in> set (sw_runs w). run_slot r = k \<and> rn_outcome r \<noteq> None)"

text \<open>Unfinished runs were claimed no later than \<open>us\<close>.\<close>

definition claimed_before :: "int \<Rightarrow> syn_world \<Rightarrow> bool" where
  "claimed_before us w \<longleftrightarrow> (\<forall>r \<in> set (sw_runs w). rn_outcome r = None \<longrightarrow> rn_started_at r \<le> us)"

lemma evolves_settled: "evolves w w' \<Longrightarrow> settled w k \<Longrightarrow> settled w' k"
proof -
  assume "evolves w w'" "settled w k"
  then obtain r kept new where r: "r \<in> set (sw_runs w)" "run_slot r = k" "rn_outcome r \<noteq> None"
    and w': "sw_runs w' = kept @ new" "list_all2 run_step (sw_runs w) kept"
    unfolding evolves_def settled_def by blast
  then obtain r' where "r' \<in> set kept" "run_step r r'"
    by (metis in_set_conv_nth list_all2_conv_all_nth)
  then have "r' = r" using r(3) by (simp add: run_step_def)
  then show "settled w' k" using r w' \<open>r' \<in> set kept\<close> by (auto simp: settled_def)
qed

lemma find_unique_slot:
  assumes "distinct (map run_slot rows)" "r \<in> set rows"
  shows "find (\<lambda>x. run_slot x = run_slot r) rows = Some r"
  using assms by (induction rows) (auto simp: image_iff)

text \<open>The two outcomes of a claim on a calm database.\<close>

lemma claim_existing:
  assumes ok: "ledgers_ok w" and calm: "calm env (sw_tick w)"
    and r: "r \<in> set (sw_runs w)" "run_slot r = (pv_tenant_id p, pv_analysis_id p, slot)"
  shows "claim env p slot i us w =
    (Inr (case rn_outcome r of Some outcome \<Rightarrow> Finished (rn_run_id r) outcome | None \<Rightarrow> Claim (rn_run_id r) True),
     w\<lparr>sw_tick := Suc (Suc (sw_tick w))\<rparr>)"
proof -
  let ?w1 = "w\<lparr>sw_tick := Suc (sw_tick w)\<rparr>"
  have first: "statement env (insert_run (claim_row p slot i us)) w = (Inr False, ?w1)"
    using r by (simp add: statement_calm [OF calm] insert_run_def) (metis image_eqI)
  have later: "calm env (sw_tick ?w1)" using calm by (simp add: calm_def)
  have "existing_run (run_slot (claim_row p slot i us)) ?w1 = Some r"
    using find_unique_slot [of "sw_runs w" r] ok r by (simp add: existing_run_def ledgers_ok_def)
  then show ?thesis
    by (simp add: claim_def Let_def bind_eff_def first statement_calm [OF later])
qed

lemma claim_new:
  assumes calm: "calm env (sw_tick w)" and "i \<notin> rn_run_id ` set (sw_runs w)"
    and "(pv_tenant_id p, pv_analysis_id p, slot) \<notin> run_slot ` set (sw_runs w)"
    and "pv_analysis_id p \<noteq> []" "pv_timezone p \<noteq> []"
  shows "claim env p slot i us w =
    (Inr (Claim i False), w\<lparr>sw_runs := sw_runs w @ [claim_row p slot i us], sw_tick := Suc (sw_tick w)\<rparr>)"
proof -
  have "rn_analysis_id (claim_row p slot i us) \<noteq> []" "rn_timezone (claim_row p slot i us) \<noteq> []"
    using assms(4,5) by (simp_all add: claim_row_def)
  then have "insert_run (claim_row p slot i us) w = (Inr True, w\<lparr>sw_runs := sw_runs w @ [claim_row p slot i us]\<rparr>)"
    using assms(2,3) by (simp add: insert_run_def add_run_def)
  then show ?thesis by (simp add: claim_def Let_def bind_eff_def statement_calm [OF calm])
qed

definition closing :: "'z run_env_scheme \<Rightarrow> int \<Rightarrow> attempt \<Rightarrow> syn_world \<Rightarrow> completion" where
  "closing env us a w =
     \<lparr>cm_finished_at = us + re_elapsed env (sw_tick w), cm_outcome = at_outcome a,
      cm_actions_proposed = length (at_proposed a), cm_actions_appended = at_appended a,
      cm_detail = at_detail a,
      cm_refusals = map (\<lambda>(reason, n). (reason_value reason, n)) (at_refusals a)\<rparr>"

definition close_rows :: "uuid \<Rightarrow> uuid \<Rightarrow> completion \<Rightarrow> run_row list \<Rightarrow> run_row list" where
  "close_rows tenant i c rows = map (\<lambda>r. if rn_run_id r = i \<and> rn_tenant_id r = tenant then completed c r else r) rows"

lemma finish_calm:
  assumes calm: "calm env (sw_tick w)" and "attempt_ok a"
    and "\<And>r. r \<in> set (sw_runs w) \<Longrightarrow> rn_run_id r = i \<Longrightarrow> rn_started_at r \<le> us + re_elapsed env (sw_tick w)"
  shows "\<exists>res. finish_run env p slot (Aware us) (Some (i, b)) a w =
    (Inr res, w\<lparr>sw_runs := close_rows (pv_tenant_id p) i (closing env us a w) (sw_runs w), sw_tick := Suc (sw_tick w)\<rparr>)"
proof -
  have "update_run (pv_tenant_id p) i (closing env us a w) w =
      (Inr (), w\<lparr>sw_runs := close_rows (pv_tenant_id p) i (closing env us a w) (sw_runs w)\<rparr>)"
    using assms(2,3) by (auto simp: update_run_def list_ex_iff completion_checks_def closing_def attempt_ok_def close_rows_def Let_def)
  moreover have "cm_outcome (closing env us a w) \<in> set OUTCOMES" using assms(2) by (simp add: closing_def attempt_ok_def)
  ultimately show ?thesis
    by (simp add: finish_run_def bind_eff_def complete_def raise_if_def lift_result_def instant_us_def
        closing_def [symmetric] statement_calm [OF calm])
qed

lemma attempt_calm:
  assumes "calm env (sw_tick w)"
  obtains a t where "attempt_run env p slot now dry_run w = (Inr a, t)" "attempt_ok a"
    "sw_runs t = sw_runs w" "sw_minted w \<le> sw_minted t" "calm env (sw_tick t)"
proof -
  obtain r t where run: "attempt_run env p slot now dry_run w = (r, t)" by (cases "attempt_run env p slot now dry_run w")
  have l: "sw_tick w \<le> sw_tick t" "sw_minted w \<le> sw_minted t" "sw_runs t = sw_runs w" "r \<noteq> Inl Killed"
    using logs_attempt [of env p slot now dry_run] run assms by (auto simp: logs_def dest: spec [of _ w])
  then obtain a where "r = Inr a"
    using triple_Inl [OF attempt_returns TrueI] run by (cases r) blast+
  moreover have "attempt_ok a" using triple_Inr [OF attempt_returns TrueI] run \<open>r = Inr a\<close> by blast
  ultimately show ?thesis using that run l calm_later [OF assms] by blast
qed

lemma run_one_settles:
  assumes ok: "ledgers_ok w" and calm: "calm env (sw_tick w)"
    and before: "claimed_before us w" and elapsed: "\<And>n. 0 \<le> re_elapsed env n"
    and p: "pv_rung p = SHADOW" "pv_analysis_id p \<noteq> []" "pv_timezone p \<noteq> []"
    and slot: "slot_for (re_zones env) (pv_cadence p) (pv_timezone p) (Aware us) = Inr slot"
    and fresh: "re_uuid env (sw_minted w) \<notin> rn_run_id ` set (sw_runs w)"
  shows "\<exists>res t. run_one env (Aware us) False p w = (Inr res, t) \<and>
    settled t (pv_tenant_id p, pv_analysis_id p, slot) \<and> claimed_before us t \<and> calm env (sw_tick t) \<and>
    rn_run_id ` set (sw_runs t) \<subseteq> insert (re_uuid env (sw_minted w)) (rn_run_id ` set (sw_runs w)) \<and>
    sw_minted w < sw_minted t"
proof -
  let ?k = "(pv_tenant_id p, pv_analysis_id p, slot)" and ?w1 = "w\<lparr>sw_minted := Suc (sw_minted w)\<rparr>"
  have ok1: "ledgers_ok ?w1" using ok by (simp add: ticked)
  have calm1: "calm env (sw_tick ?w1)" using calm by simp
  have run: "run_one env (Aware us) False p w =
      bind_eff (claim env p slot (re_uuid env (sw_minted w)) us) (\<lambda>claimed.
       case claimed of
         Finished finished_id outcome \<Rightarrow>
           ret \<lparr>sl_tenant_id = pv_tenant_id p, sl_analysis_id = pv_analysis_id p, sl_slot = slot,
                sl_outcome = Some outcome, sl_actions_proposed = 0, sl_actions_appended = 0,
                sl_detail = Some (AlreadyFinished outcome finished_id), sl_skipped = True, sl_taken_over = False\<rparr>
       | Claim claimed_id taken_over \<Rightarrow>
           bind_eff (attempt_run env p slot (Aware us) False) (finish_run env p slot (Aware us) (Some (claimed_id, taken_over)))) ?w1"
    by (simp add: run_one_def slot p(1) new_uuid7_def bind_eff_def lift_result_def instant_us_def)
  text \<open>Once claimed, the run is attempted and completed.\<close>
  have finish: "\<exists>res t. bind_eff (attempt_run env p slot (Aware us) False) (finish_run env p slot (Aware us) (Some (i, b))) u = (Inr res, t) \<and>
      settled t ?k \<and> claimed_before us t \<and> calm env (sw_tick t) \<and>
      rn_run_id ` set (sw_runs t) = rn_run_id ` set (sw_runs u) \<and> sw_minted u \<le> sw_minted t"
    if u: "calm env (sw_tick u)" "claimed_before us u"
      and r: "r \<in> set (sw_runs u)" "rn_run_id r = i" "run_slot r = ?k" "open_run (Some i) u" for u i b r
  proof -
    obtain a v where v: "attempt_run env p slot (Aware us) False u = (Inr a, v)" "attempt_ok a"
        "sw_runs v = sw_runs u" "sw_minted u \<le> sw_minted v" "calm env (sw_tick v)"
      using attempt_calm [OF u(1)] by blast
    have "rn_started_at x \<le> us + re_elapsed env (sw_tick v)" if "x \<in> set (sw_runs v)" "rn_run_id x = i" for x
      using that u(2) r(4) elapsed [of "sw_tick v"] by (force simp: v(3) claimed_before_def open_run_def)
    from finish_calm [OF v(5,2) this] obtain res where
      res: "finish_run env p slot (Aware us) (Some (i, b)) a v =
        (Inr res, v\<lparr>sw_runs := close_rows (pv_tenant_id p) i (closing env us a v) (sw_runs v), sw_tick := Suc (sw_tick v)\<rparr>)"
      by blast
    let ?t = "v\<lparr>sw_runs := close_rows (pv_tenant_id p) i (closing env us a v) (sw_runs v), sw_tick := Suc (sw_tick v)\<rparr>"
    have "completed (closing env us a v) r \<in> set (sw_runs ?t)"
      using r v(3) by (auto simp: close_rows_def run_slot_def image_iff)
    then have "settled ?t ?k" unfolding settled_def
      by (rule bexI [rotated]) (simp add: r(3))
    moreover have "claimed_before us ?t" using u(2) v(3) by (auto simp: claimed_before_def close_rows_def)
    moreover have "rn_run_id ` set (sw_runs ?t) = rn_run_id ` set (sw_runs u)"
    proof -
      have "map rn_run_id (close_rows tenant j c rows) = map rn_run_id rows" for tenant j c rows
        by (simp add: close_rows_def)
      from arg_cong [OF this, of set] show ?thesis by (simp add: v(3))
    qed
    moreover have "calm env (sw_tick ?t)" using calm_later [OF v(5)] by simp
    ultimately show ?thesis using v(1,4) res by (auto simp: bind_eff_def)
  qed
  show ?thesis
  proof (cases "?k \<in> run_slot ` set (sw_runs w)")
    case True
    then obtain r where r: "r \<in> set (sw_runs ?w1)" "run_slot r = ?k" by auto
    let ?u = "?w1\<lparr>sw_tick := Suc (Suc (sw_tick ?w1))\<rparr>"
    note c = claim_existing [OF ok1 calm1 r, of "re_uuid env (sw_minted w)" us]
    show ?thesis
    proof (cases "rn_outcome r")
      case None
      have "calm env (sw_tick ?u)" "claimed_before us ?u" "r \<in> set (sw_runs ?u)"
        using calm before r(1) by (simp_all add: calm_def claimed_before_def)
      moreover have "open_run (Some (rn_run_id r)) ?u"
        using ok r(1) None by (auto simp: open_run_def ledgers_ok_def distinct_map dest: inj_onD)
      ultimately show ?thesis
        using finish [of ?u r "rn_run_id r" True] r(2) None run by (auto simp: bind_eff_def c)
    next
      case (Some outcome)
      have "settled ?u ?k" using r Some by (auto simp: settled_def)
      then show ?thesis using run Some before calm
        by (auto simp: bind_eff_def c calm_def claimed_before_def)
    qed
  next
    case False
    let ?r = "claim_row p slot (re_uuid env (sw_minted w)) us"
    let ?u = "?w1\<lparr>sw_runs := sw_runs ?w1 @ [?r], sw_tick := Suc (sw_tick ?w1)\<rparr>"
    have c: "claim env p slot (re_uuid env (sw_minted w)) us ?w1 = (Inr (Claim (re_uuid env (sw_minted w)) False), ?u)"
      using fresh False p by (intro claim_new [OF calm1]) simp_all
    have "calm env (sw_tick ?u)" "claimed_before us ?u" "open_run (Some (re_uuid env (sw_minted w))) ?u"
    proof -
      show "calm env (sw_tick ?u)" "claimed_before us ?u" using calm before by (auto simp: calm_def claimed_before_def)
      have "rn_run_id r \<noteq> re_uuid env (sw_minted w)" if "r \<in> set (sw_runs w)" for r using fresh that by force
      then show "open_run (Some (re_uuid env (sw_minted w))) ?u" by (auto simp: open_run_def)
    qed
    then show ?thesis
      using finish [of ?u ?r "re_uuid env (sw_minted w)" False] run by (auto simp: bind_eff_def c)
  qed
qed

lemma run_one_evolves:
  assumes "ledgers_ok w"
  shows "ledgers_ok (snd (run_one env now dry_run p w))" "evolves w (snd (run_one env now dry_run p w))"
  using keeps_snd [OF run_one_sound, of w w env now dry_run p] assms evolves_refl by (simp_all add: sound_def)

lemma run_each_evolves:
  assumes "ledgers_ok w"
  shows "ledgers_ok (snd (run_each env now dry_run ps w))" "evolves w (snd (run_each env now dry_run ps w))"
  using keeps_snd [OF run_each_sound, of w w env now dry_run ps] assms evolves_refl by (simp_all add: sound_def)

text \<open>The identifiers minted on the way are new: among themselves and against the run table.\<close>

definition fresh_ids :: "'z run_env_scheme \<Rightarrow> syn_world \<Rightarrow> nat \<Rightarrow> bool" where
  "fresh_ids env w n \<longleftrightarrow>
     inj_on (re_uuid env) {sw_minted w .. n} \<and> (\<forall>k \<in> {sw_minted w .. n}. re_uuid env k \<notin> rn_run_id ` set (sw_runs w))"

definition runnable :: "'z run_env_scheme \<Rightarrow> int \<Rightarrow> provision \<Rightarrow> bool" where
  "runnable env us p \<longleftrightarrow>
     pv_rung p = SHADOW \<and> pv_analysis_id p \<noteq> [] \<and> pv_timezone p \<noteq> [] \<and>
     (\<exists>slot. slot_for (re_zones env) (pv_cadence p) (pv_timezone p) (Aware us) = Inr slot)"

definition due_slot :: "'z run_env_scheme \<Rightarrow> int \<Rightarrow> provision \<Rightarrow> slot_key" where
  "due_slot env us p =
     (pv_tenant_id p, pv_analysis_id p,
      case slot_for (re_zones env) (pv_cadence p) (pv_timezone p) (Aware us) of Inr slot \<Rightarrow> slot | Inl _ \<Rightarrow> 0)"

lemma run_each_settles:
  assumes "ledgers_ok w" "calm env (sw_tick w)" "claimed_before us w" and elapsed: "\<And>n. 0 \<le> re_elapsed env n"
    and "\<And>p. p \<in> set ps \<Longrightarrow> runnable env us p"
    and "fresh_ids env w (sw_minted (snd (run_each env (Aware us) False ps w)))"
  shows "\<exists>results t. run_each env (Aware us) False ps w = (Inr results, t) \<and> length results = length ps \<and>
    (\<forall>p \<in> set ps. settled t (due_slot env us p))"
  using assms(1-3,5,6)
proof (induction ps arbitrary: w)
  case Nil
  show ?case by simp
next
  case (Cons p ps)
  obtain slot where p: "pv_rung p = SHADOW" "pv_analysis_id p \<noteq> []" "pv_timezone p \<noteq> []"
      "slot_for (re_zones env) (pv_cadence p) (pv_timezone p) (Aware us) = Inr slot"
    using Cons.prems(4) [of p] by (auto simp: runnable_def)
  let ?last = "snd (run_each env (Aware us) False (p # ps) w)"
  have "sw_minted w \<le> sw_minted ?last" using run_each_evolves(2) [OF Cons.prems(1), of env "Aware us" False "p # ps"] by (simp only: evolves_def)
  then have "re_uuid env (sw_minted w) \<notin> rn_run_id ` set (sw_runs w)"
    using Cons.prems(5) by (simp only: fresh_ids_def) simp
  from run_one_settles [OF Cons.prems(1-3) elapsed p this] obtain res t where
    one: "run_one env (Aware us) False p w = (Inr res, t)" "settled t (pv_tenant_id p, pv_analysis_id p, slot)"
      "claimed_before us t" "calm env (sw_tick t)" "sw_minted w < sw_minted t"
      "rn_run_id ` set (sw_runs t) \<subseteq> insert (re_uuid env (sw_minted w)) (rn_run_id ` set (sw_runs w))"
    by blast
  have t: "ledgers_ok t" using run_one_evolves [OF Cons.prems(1), of env "Aware us" False p] one(1) by simp
  have last: "?last = snd (run_each env (Aware us) False ps t)"
    by (simp add: bind_eff_def one(1) split: sum.split prod.split)
  have "fresh_ids env t (sw_minted (snd (run_each env (Aware us) False ps t)))"
  proof -
    let ?n = "sw_minted (snd (run_each env (Aware us) False ps t))"
    have inj: "inj_on (re_uuid env) {sw_minted w .. ?n}" and new: "\<forall>k \<in> {sw_minted w .. ?n}. re_uuid env k \<notin> rn_run_id ` set (sw_runs w)"
      using Cons.prems(5) unfolding fresh_ids_def last by blast+
    have "inj_on (re_uuid env) {sw_minted t .. ?n}" by (rule inj_on_subset [OF inj]) (use one(5) in auto)
    moreover have "re_uuid env k \<notin> rn_run_id ` set (sw_runs t)" if "k \<in> {sw_minted t .. ?n}" for k
    proof -
      have "re_uuid env k \<noteq> re_uuid env (sw_minted w)"
        using inj_onD [OF inj, of k "sw_minted w"] that one(5) by auto
      moreover have "re_uuid env k \<notin> rn_run_id ` set (sw_runs w)" using new that one(5) by simp
      ultimately show ?thesis using one(6) by blast
    qed
    ultimately show ?thesis by (simp add: fresh_ids_def)
  qed
  from Cons.IH [OF t one(4,3) _ this] Cons.prems(4) obtain results u where
    rest: "run_each env (Aware us) False ps t = (Inr results, u)" "length results = length ps"
      "\<forall>p \<in> set ps. settled u (due_slot env us p)"
    by auto
  have "evolves t u" using run_each_evolves(2) [OF t, of env "Aware us" False ps] rest(1) by simp
  then have "settled u (due_slot env us p)"
    using evolves_settled one(2) p(4) by (simp add: due_slot_def)
  then show ?case using rest one(1) by (simp add: bind_eff_def)
qed

section \<open>The provisions of a sweep\<close>

lemma max_rungs_eq: "max_rungs = [(''dead_stock'', SHADOW), (''stockout_risk'', SHADOW)]"
  by (simp add: max_rungs_def DECLARATIONS_def dict_of_def DEAD_STOCK_def STOCKOUT_RISK_def)

lemma envelope_shadow:
  assumes "check_envelope ps max_rungs = Inr ()" "p \<in> set ps"
  shows "pv_rung p = SHADOW"
proof -
  have "has_key max_rungs (pv_analysis_id p)"
    and ceiling: "\<not> (case map_of max_rungs (pv_analysis_id p) of None \<Rightarrow> False | Some c \<Rightarrow> rung_rank (pv_rung p) > rung_rank c)"
    using assms by (auto simp: check_envelope_def bind_res_Inr_iff list_ex_iff)
  then obtain c where "map_of max_rungs (pv_analysis_id p) = Some c"
    by (metis has_key_def keys_map_of not_None_eq)
  moreover from this have "c = SHADOW" by (auto simp: max_rungs_eq split: if_splits)
  ultimately show ?thesis using ceiling by (cases "pv_rung p") (auto simp: rung_rank_def)
qed

lemma map_res_Inr_elem: "map_res f xs = Inr ys \<Longrightarrow> y \<in> set ys \<Longrightarrow> \<exists>x \<in> set xs. f x = Inr y"
  by (induction xs arbitrary: ys) (auto simp: bind_res_Inr_iff)

lemma active_provisions:
  assumes "fst (active env max_rungs w) = Inr ps" "p \<in> set ps"
  shows "pv_rung p = SHADOW" "pv_analysis_id p \<noteq> []" "re_zones env (pv_timezone p) \<noteq> None"
proof -
  obtain rows where rows: "map_res (project_provision (re_zones env)) rows = Inr ps" "check_envelope ps max_rungs = Inr ()"
    using assms(1) unfolding active_def
    by (auto simp: bind_eff_def lift_result_def bind_res_Inr_iff split: prod.splits sum.splits)
  show "pv_rung p = SHADOW" by (rule envelope_shadow [OF rows(2) assms(2)])
  obtain row where "project_provision (re_zones env) row = Inr p"
    using map_res_Inr_elem [OF rows(1) assms(2)] by blast
  then show "pv_analysis_id p \<noteq> []" "re_zones env (pv_timezone p) \<noteq> None"
    by (auto simp: project_provision_def mk_provision_def bind_res_Inr_iff)
qed

lemma active_world: "active env ceilings w = (Inr ps, v) \<Longrightarrow> v = w\<lparr>sw_tick := Suc (sw_tick w)\<rparr>"
  by (auto simp: active_def bind_eff_def statement_def lift_result_def bind_res_Inr_iff
      split: prod.splits sum.splits fault.splits)

section \<open>Slots that are already finished\<close>

lemma run_one_finished:
  assumes ok: "ledgers_ok w" and calm: "calm env (sw_tick w)" and shadow: "pv_rung p = SHADOW"
    and slot: "slot_for (re_zones env) (pv_cadence p) (pv_timezone p) (Aware us) = Inr slot"
    and r: "r \<in> set (sw_runs w)" "run_slot r = (pv_tenant_id p, pv_analysis_id p, slot)" "rn_outcome r = Some outcome"
  shows "\<exists>res. run_one env (Aware us) False p w =
      (Inr res, w\<lparr>sw_minted := Suc (sw_minted w), sw_tick := Suc (Suc (sw_tick w))\<rparr>) \<and>
    sl_skipped res \<and> sl_outcome res = Some outcome"
proof -
  let ?w1 = "w\<lparr>sw_minted := Suc (sw_minted w)\<rparr>"
  have "claim env p slot (re_uuid env (sw_minted w)) us ?w1 =
      (Inr (Finished (rn_run_id r) outcome), ?w1\<lparr>sw_tick := Suc (Suc (sw_tick ?w1))\<rparr>)"
    using claim_existing [of ?w1 env r p slot "re_uuid env (sw_minted w)" us] ok calm r by (simp add: ticked)
  then show ?thesis
    by (simp add: run_one_def slot shadow new_uuid7_def bind_eff_def lift_result_def instant_us_def)
qed

lemma run_each_finished:
  assumes "ledgers_ok w" "calm env (sw_tick w)" "\<And>p. p \<in> set ps \<Longrightarrow> runnable env us p"
    and "\<And>p. p \<in> set ps \<Longrightarrow> settled w (due_slot env us p)"
  shows "\<exists>results t. run_each env (Aware us) False ps w = (Inr results, t) \<and>
    sw_runs t = sw_runs w \<and> sw_actions t = sw_actions w \<and> (\<forall>r \<in> set results. sl_skipped r) \<and>
    (list_ex failed results \<longleftrightarrow>
      (\<exists>p \<in> set ps. \<exists>r \<in> set (sw_runs w). run_slot r = due_slot env us p \<and> rn_outcome r = Some ''failed''))"
  using assms
proof (induction ps arbitrary: w)
  case Nil
  show ?case by simp
next
  case (Cons p ps)
  obtain slot where p: "pv_rung p = SHADOW" "slot_for (re_zones env) (pv_cadence p) (pv_timezone p) (Aware us) = Inr slot"
    using Cons.prems(3) [of p] by (auto simp: runnable_def)
  have due: "due_slot env us p = (pv_tenant_id p, pv_analysis_id p, slot)" using p by (simp add: due_slot_def)
  obtain r outcome where r: "r \<in> set (sw_runs w)" "run_slot r = (pv_tenant_id p, pv_analysis_id p, slot)" "rn_outcome r = Some outcome"
    using Cons.prems(4) [of p] due by (auto simp: settled_def)
  let ?w1 = "w\<lparr>sw_minted := Suc (sw_minted w), sw_tick := Suc (Suc (sw_tick w))\<rparr>"
  obtain res where res: "run_one env (Aware us) False p w = (Inr res, ?w1)" "sl_skipped res" "sl_outcome res = Some outcome"
    using run_one_finished [OF Cons.prems(1,2) p r] by blast
  have "ledgers_ok ?w1" "calm env (sw_tick ?w1)"
    using Cons.prems(1,2) by (simp_all add: ledgers_ok_def calm_def)
  moreover have "settled ?w1 (due_slot env us q)" if "q \<in> set ps" for q
    using Cons.prems(4) [of q] that by (simp add: settled_def)
  ultimately obtain results t where rest: "run_each env (Aware us) False ps ?w1 = (Inr results, t)"
      "sw_runs t = sw_runs w" "sw_actions t = sw_actions w" "\<forall>r \<in> set results. sl_skipped r"
      "list_ex failed results \<longleftrightarrow>
        (\<exists>p \<in> set ps. \<exists>r \<in> set (sw_runs w). run_slot r = due_slot env us p \<and> rn_outcome r = Some ''failed'')"
    using Cons.IH [of ?w1] Cons.prems(3) by auto
  have "rn_outcome x = Some outcome" if "x \<in> set (sw_runs w)" "run_slot x = due_slot env us p" for x
  proof -
    have "inj_on run_slot (set (sw_runs w))" using Cons.prems(1) by (simp add: ledgers_ok_def distinct_map)
    from inj_onD [OF this _ that(1) r(1)] have "x = r" using that(2) r(2) due by simp
    then show ?thesis using r(3) by simp
  qed
  then have head: "(\<exists>x \<in> set (sw_runs w). run_slot x = due_slot env us p \<and> rn_outcome x = Some ''failed'') \<longleftrightarrow> failed res"
    using r due res(3) unfolding failed_def by (metis option.inject)
  have run: "run_each env (Aware us) False (p # ps) w = (Inr (res # results), t)"
    using rest(1) res(1) by (simp add: bind_eff_def)
  have tail: "list_ex failed (res # results) \<longleftrightarrow>
      (\<exists>q \<in> set (p # ps). \<exists>x \<in> set (sw_runs w). run_slot x = due_slot env us q \<and> rn_outcome x = Some ''failed'')"
    using rest(5) head by simp
  have skipped: "\<forall>r \<in> set (res # results). sl_skipped r" using rest(4) res(2) by simp
  show ?case by (rule exI, rule exI, intro conjI, rule run, rule rest(2), rule rest(3), rule skipped, rule tail)
qed

section \<open>A takeover that cannot complete\<close>

lemma run_one_backdated:
  assumes ok: "ledgers_ok w" and calm: "calm env (sw_tick w)" and shadow: "pv_rung p = SHADOW"
    and slot: "slot_for (re_zones env) (pv_cadence p) (pv_timezone p) (Aware us) = Inr slot"
    and r: "r \<in> set (sw_runs w)" "run_slot r = (pv_tenant_id p, pv_analysis_id p, slot)" "rn_outcome r = None"
    and late: "\<And>n. us + re_elapsed env n < rn_started_at r"
  shows "\<exists>t. run_one env (Aware us) False p w = (Inl (Raised DatabaseError), t) \<and> sw_runs t = sw_runs w"
proof -
  let ?w1 = "w\<lparr>sw_minted := Suc (sw_minted w)\<rparr>"
  let ?w2 = "?w1\<lparr>sw_tick := Suc (Suc (sw_tick ?w1))\<rparr>"
  have claim: "claim env p slot (re_uuid env (sw_minted w)) us ?w1 = (Inr (Claim (rn_run_id r) True), ?w2)"
    using claim_existing [of ?w1 env r p slot "re_uuid env (sw_minted w)" us] ok calm r by (simp add: ticked)
  have "calm env (sw_tick ?w2)" using calm by (simp add: calm_def)
  then obtain a v where v: "attempt_run env p slot (Aware us) False ?w2 = (Inr a, v)" "attempt_ok a"
      "sw_runs v = sw_runs ?w2" "calm env (sw_tick v)"
    by (metis attempt_calm)
  have tenant: "rn_tenant_id r = pv_tenant_id p" using r(2) by (simp add: run_slot_def)
  have "update_run (pv_tenant_id p) (rn_run_id r) (closing env us a v) v = (Inl DatabaseError, v)"
    using r(1) v(3) late [of "sw_tick v"] tenant
    by (auto simp: update_run_def list_ex_iff completion_checks_def closing_def Let_def not_le)
  moreover have "cm_outcome (closing env us a v) \<in> set OUTCOMES" using v(2) by (simp add: closing_def attempt_ok_def)
  ultimately have "finish_run env p slot (Aware us) (Some (rn_run_id r, True)) a v =
      (Inl (Raised DatabaseError), v\<lparr>sw_tick := Suc (sw_tick v)\<rparr>)"
    by (simp add: finish_run_def bind_eff_def complete_def raise_if_def lift_result_def instant_us_def
        closing_def [symmetric] statement_calm [OF v(4)])
  then show ?thesis
    using v claim
    by (simp add: run_one_def slot shadow new_uuid7_def bind_eff_def lift_result_def instant_us_def)
qed

section \<open>Appending again\<close>

text \<open>The row of an action, but for its identity.\<close>

definition key_of :: "action \<Rightarrow> action_key" where
  "key_of a = action_key (parameters \<lparr>ev_event_id = 0, ev_recorded_at = Aware 0, ev_action = a, ev_supersedes = None\<rparr>)"

definition storable :: "uuid \<Rightarrow> action \<Rightarrow> bool" where
  "storable tenant a \<longleftrightarrow>
     (\<exists>c. stored_cover (ac_days_of_cover a) = Inr c) \<and>
     action_checks tenant (parameters \<lparr>ev_event_id = 0, ev_recorded_at = Aware 0, ev_action = a, ev_supersedes = None\<rparr>)"

lemma insert_action_storable:
  assumes "storable tenant a"
  shows "\<exists>r. action_key r = key_of a \<and> aw_event_id r = i \<and>
    insert_action tenant \<lparr>ev_event_id = i, ev_recorded_at = ts, ev_action = a, ev_supersedes = None\<rparr> rows =
      (Inr (add_action r rows \<noteq> rows), add_action r rows)"
proof -
  let ?e = "\<lparr>ev_event_id = i, ev_recorded_at = ts, ev_action = a, ev_supersedes = None\<rparr>"
  obtain c where c: "stored_cover (ac_days_of_cover a) = Inr c" using assms by (auto simp: storable_def)
  let ?r = "(parameters ?e)\<lparr>aw_days_of_cover := c\<rparr>"
  have "action_checks tenant ?r" using assms by (simp add: storable_def action_checks_def parameters_def Let_def)
  moreover have "action_key ?r = key_of a" by (simp add: key_of_def action_key_def parameters_def Let_def)
  moreover have "stored_cover (aw_days_of_cover (parameters ?e)) = Inr c" using c by (simp add: parameters_def Let_def)
  ultimately show ?thesis by (intro exI [of _ ?r]) (simp add: insert_action_def Let_def parameters_def)
qed

lemma append_keys:
  assumes "append env tenant \<lparr>ev_event_id = i, ev_recorded_at = ts, ev_action = a, ev_supersedes = None\<rparr> w = (r, t)"
  shows "action_key ` set (sw_actions w) \<subseteq> action_key ` set (sw_actions t)"
    "action_key ` set (sw_actions t) \<subseteq> insert (key_of a) (action_key ` set (sw_actions w))"
proof -
  let ?e = "\<lparr>ev_event_id = i, ev_recorded_at = ts, ev_action = a, ev_supersedes = None\<rparr>"
  have "\<exists>r. action_key r = key_of a \<and> snd (insert_action tenant ?e rows) \<in> {rows, add_action r rows}" for rows
  proof (cases "stored_cover (aw_days_of_cover (parameters ?e))")
    case (Inr c)
    let ?r = "(parameters ?e)\<lparr>aw_days_of_cover := c\<rparr>"
    have "action_key ?r = key_of a" by (simp add: key_of_def action_key_def parameters_def Let_def)
    then show ?thesis by (intro exI [of _ ?r]) (simp add: insert_action_def Inr Let_def)
  next
    case (Inl x)
    then show ?thesis by (intro exI [of _ "parameters ?e"]) (simp add: insert_action_def key_of_def action_key_def parameters_def Let_def)
  qed
  then obtain r where r: "action_key r = key_of a"
      "snd (insert_action tenant ?e (sw_actions w)) \<in> {sw_actions w, add_action r (sw_actions w)}" by blast
  have "sw_actions t \<in> {sw_actions w, add_action r (sw_actions w)}"
    using assms r(2) unfolding append_def statement_def by (auto split: prod.splits fault.splits)
  then show "action_key ` set (sw_actions w) \<subseteq> action_key ` set (sw_actions t)"
    "action_key ` set (sw_actions t) \<subseteq> insert (key_of a) (action_key ` set (sw_actions w))"
    using action_log.keys_add [of r "sw_actions w"] action_log.keys_kept [of "sw_actions w" r] r(1)
    unfolding insert_iff empty_iff by (elim disjE FalseE, (force simp only: intro!: subset_refl)+)
qed

lemma between_keys:
  "A \<subseteq> B \<Longrightarrow> B \<subseteq> insert x A \<Longrightarrow> B \<subseteq> C \<and> C \<subseteq> D \<union> B \<Longrightarrow> A \<subseteq> C \<and> C \<subseteq> insert x D \<union> A"
  "A \<subseteq> B \<Longrightarrow> B \<subseteq> insert x A \<Longrightarrow> A \<subseteq> B \<and> B \<subseteq> insert x D \<union> A"
  by blast+

lemma append_all_keys:
  "append_all env tenant now as n w = (r, t) \<Longrightarrow>
     action_key ` set (sw_actions w) \<subseteq> action_key ` set (sw_actions t) \<and>
     action_key ` set (sw_actions t) \<subseteq> key_of ` set as \<union> action_key ` set (sw_actions w)"
proof (induction as arbitrary: n w)
  case (Cons a as)
  let ?w1 = "w\<lparr>sw_minted := Suc (sw_minted w)\<rparr>"
  let ?e = "\<lparr>ev_event_id = re_uuid env (sw_minted w), ev_recorded_at = now, ev_action = a, ev_supersedes = None\<rparr>"
  obtain q u where u: "append env tenant ?e ?w1 = (q, u)" by (cases "append env tenant ?e ?w1")
  note k = append_keys [OF u]
  show ?case
  proof (cases q)
    case (Inl e)
    then have "t = u" using Cons.prems u
      by (simp add: bind_eff_def new_uuid7_def lift_result_def mk_action_event_def raise_if_def)
    then show ?thesis using between_keys(2) [OF k, of "key_of ` set as"] unfolding list.set image_insert by simp
  next
    case (Inr new)
    then have "append_all env tenant now as (if new then Suc n else n) u = (r, t)" using Cons.prems u
      by (simp add: bind_eff_def new_uuid7_def lift_result_def mk_action_event_def raise_if_def)
    from between_keys(1) [OF k Cons.IH [OF this]] show ?thesis unfolding list.set image_insert by simp
  qed
qed simp

text \<open>On a calm database with new identifiers, every action of the list is in the log afterwards.\<close>

definition fresh_events :: "'z run_env_scheme \<Rightarrow> syn_world \<Rightarrow> nat \<Rightarrow> bool" where
  "fresh_events env w n \<longleftrightarrow>
     inj_on (re_uuid env) {sw_minted w ..< sw_minted w + n} \<and>
     (\<forall>k \<in> {sw_minted w ..< sw_minted w + n}. re_uuid env k \<notin> aw_event_id ` set (sw_actions w))"

lemma append_all_calm:
  assumes "calm env (sw_tick w)" "\<And>a. a \<in> set as \<Longrightarrow> storable tenant a" "fresh_events env w (length as)"
  shows "\<exists>t. append_all env tenant now as n w = (Inr (n + length (sw_actions t) - length (sw_actions w)), t) \<and>
    action_key ` set (sw_actions t) = key_of ` set as \<union> action_key ` set (sw_actions w) \<and>
    length (sw_actions w) \<le> length (sw_actions t)"
  using assms
proof (induction as arbitrary: n w)
  case Nil
  show ?case by simp
next
  case (Cons a as)
  let ?i = "re_uuid env (sw_minted w)" and ?w1 = "w\<lparr>sw_minted := Suc (sw_minted w)\<rparr>"
  obtain r where r: "action_key r = key_of a" "aw_event_id r = ?i"
      "insert_action tenant \<lparr>ev_event_id = ?i, ev_recorded_at = now, ev_action = a, ev_supersedes = None\<rparr> (sw_actions w) =
        (Inr (add_action r (sw_actions w) \<noteq> sw_actions w), add_action r (sw_actions w))"
    using insert_action_storable [OF Cons.prems(2) [OF list.set_intros(1)], of ?i now "sw_actions w"] by blast
  let ?t = "?w1\<lparr>sw_actions := add_action r (sw_actions w), sw_tick := Suc (sw_tick w)\<rparr>"
  have "sw_minted w \<in> {sw_minted w ..< sw_minted w + length (a # as)}" by simp
  then have new: "?i \<notin> aw_event_id ` set (sw_actions w)" using Cons.prems(3) unfolding fresh_events_def by blast
  have keys: "action_key ` set (sw_actions ?t) = insert (key_of a) (action_key ` set (sw_actions w))"
    using r(1,2) new unfolding add_action_def by (cases "key_of a \<in> action_key ` set (sw_actions w)") (simp_all add: insert_absorb)
  have len: "length (sw_actions ?t) = length (sw_actions w) + (if add_action r (sw_actions w) \<noteq> sw_actions w then 1 else 0)"
    by (simp add: add_action_def)
  have "fresh_events env ?t (length as)"
  proof -
    have "inj_on (re_uuid env) {Suc (sw_minted w) ..< Suc (sw_minted w) + length as}"
      using Cons.prems(3) by (auto simp: fresh_events_def intro: inj_on_subset)
    moreover have "re_uuid env k \<notin> aw_event_id ` set (add_action r (sw_actions w))"
      if k: "k \<in> {Suc (sw_minted w) ..< Suc (sw_minted w) + length as}" for k
    proof -
      have "re_uuid env k \<noteq> ?i"
        using Cons.prems(3) k inj_onD [of "re_uuid env" "{sw_minted w ..< sw_minted w + length (a # as)}" k "sw_minted w"]
        by (auto simp: fresh_events_def)
      moreover have "re_uuid env k \<notin> aw_event_id ` set (sw_actions w)" using Cons.prems(3) k by (simp add: fresh_events_def)
      ultimately show ?thesis using contra_subsetD [OF action_ids.keys_add [of r "sw_actions w"]] r(2) by simp
    qed
    ultimately show ?thesis by (simp add: fresh_events_def)
  qed
  moreover have "calm env (sw_tick ?t)" using Cons.prems(1) by (simp add: calm_def)
  ultimately obtain t where t: "append_all env tenant now as (if add_action r (sw_actions w) \<noteq> sw_actions w then Suc n else n) ?t =
      (Inr ((if add_action r (sw_actions w) \<noteq> sw_actions w then Suc n else n) + length (sw_actions t) - length (sw_actions ?t)), t)"
      "action_key ` set (sw_actions t) = key_of ` set as \<union> action_key ` set (sw_actions ?t)" "length (sw_actions ?t) \<le> length (sw_actions t)"
    using Cons.IH [of ?t "if add_action r (sw_actions w) \<noteq> sw_actions w then Suc n else n"]
      Cons.prems(2) [OF list.set_intros(2)] by blast
  have "append_all env tenant now (a # as) n w =
      append_all env tenant now as (if add_action r (sw_actions w) \<noteq> sw_actions w then Suc n else n) ?t"
    using Cons.prems(1) r(3)
    by (simp add: bind_eff_def new_uuid7_def lift_result_def mk_action_event_def raise_if_def append_def statement_calm)
  moreover have "action_key ` set (sw_actions t) = key_of ` set (a # as) \<union> action_key ` set (sw_actions w)"
    unfolding t(2) keys list.set image_insert by blast
  moreover have "(if add_action r (sw_actions w) \<noteq> sw_actions w then Suc n else n) + length (sw_actions t) - length (sw_actions ?t) =
      n + length (sw_actions t) - length (sw_actions w)" "length (sw_actions w) \<le> length (sw_actions t)"
    using t(3) unfolding len by (auto split: if_splits)
  ultimately show ?case using t(1) by simp
qed

end
