(* ===== verification/Synapse_Gating.thy ===== *)
theory Synapse_Gating
  imports Synapse_Registry
begin

text \<open>
  What the resolution engine guarantees: the import-time checks leave only the failures of the
  database and of the calling declaration, and a satisfied declaration hands out fetches that
  return exactly the population its gates passed.
\<close>

section \<open>The shipped tables\<close>

lemma shipped_tables_accepted:
  "check_registry REGISTRY DECLINED = Inr ()"
  "check_declarations REGISTRY DECLARATIONS = Inr ()"
  "check_window_declarations DECLARATIONS REGISTRY = Inr ()"
  by code_simp+

lemma import_registry_ok: "import_registry = Inr ()"
  by code_simp

section \<open>Ways out\<close>

text \<open>How a resolution can end without an answer: the database fails or the process dies, a window
  leaves the calendar, too many series qualify, the two statements of a probe disagree, or a
  declaration binds other gates than the capability declares.\<close>

inductive_set resolution_failures :: "run_error set" where
  killed: "Killed \<in> resolution_failures"
| database: "Raised DatabaseError \<in> resolution_failures"
| calendar: "Raised OverflowError \<in> resolution_failures"
| too_large: "Raised (ResultTooLargeError ''qualifying series'') \<in> resolution_failures"
| disagree: "Raised (ValueError ''the count and the identities must agree'') \<in> resolution_failures"
| gates: "Raised (ValueError ''declared gates and bound gates differ'') \<in> resolution_failures"

declare resolution_failures.intros [simp, intro]

abbreviation ends :: "('a \<Rightarrow> bool) \<Rightarrow> 'a reading \<Rightarrow> bool" where
  "ends Q m \<equiv> triple (\<lambda>_. True) m (\<lambda>x _. Q x) (\<lambda>e _. e \<in> resolution_failures)"

lemma ends_bind:
  assumes "ends R m" and "\<And>x. R x \<Longrightarrow> ends Q (f x)"
  shows "ends Q (bind_eff m f)"
proof (rule triple_bind)
  show "triple (\<lambda>_. True) m (\<lambda>x _. R x) (\<lambda>e _. e \<in> resolution_failures)" by (rule assms(1))
  show "triple (\<lambda>_. R x) (f x) (\<lambda>x _. Q x) (\<lambda>e _. e \<in> resolution_failures)" for x
    using assms(2) [of x] by (auto simp: triple_def)
qed

lemma ends_ret: "Q x \<Longrightarrow> ends Q (ret x)"
  by (simp add: triple_def)

lemma ends_lift:
  assumes "\<And>x. r = Inr x \<Longrightarrow> Q x" and "\<And>e. r = Inl e \<Longrightarrow> Raised e \<in> resolution_failures"
  shows "ends Q (lift_result r)"
  using assms by (auto simp: triple_def lift_result_def split: sum.splits)

lemma ends_select: "ends (\<lambda>_. True) (select_stmt env q)"
  by (simp add: triple_def select_stmt_def split: fault.split)

lemma ends_probe:
  "ends (\<lambda>obs. \<exists>ks. ob_qualifying obs = Some ks \<and> length ks = ob_pairs_qualifying obs)
     (run_probe env p tenant store sku required)"
proof (cases p)
  case ProbeMinHistoryDays
  show ?thesis unfolding run_probe_def ProbeMinHistoryDays probe.case
    by (rule ends_bind [OF ends_select] ends_bind ends_lift)+
       (auto simp: probe_min_history_days_def mk_observation_def bind_res_Inr_iff raise_if_def Let_def
         split: prod.splits if_splits)
qed

text \<open>There is one gate kind, so at most one gate is bound, and a passed gate left someone.\<close>

lemma dict_of_bound_gates:
  "dict_of (map bound_gate gates) = [] \<or> (\<exists>required policy. dict_of (map bound_gate gates) = [(MIN_HISTORY_DAYS, required, policy)])"
proof -
  have "\<exists>required policy. fold (\<lambda>(k, v). AList.update k v) (map bound_gate gates) [(MIN_HISTORY_DAYS, r, p)] =
      [(MIN_HISTORY_DAYS, required, policy)]" for r p
    by (induction gates arbitrary: r p) (simp_all add: bound_gate_def)
  then show ?thesis by (cases gates) (simp_all add: dict_of_def bound_gate_def)
qed

lemma sort_Nil_iff [simp]: "sort xs = [] \<longleftrightarrow> xs = []"
  by (metis length_0_conv length_sort)

lemma satisfies_qualifying: "satisfies policy report \<Longrightarrow> 0 < rp_pairs_qualifying report"
  by (auto simp: satisfies_def split: series_policy.splits)

definition answered :: "registered_capability \<Rightarrow> resolution \<Rightarrow> bool" where
  "answered entry r \<longleftrightarrow>
     (case r of
        Satisfied s \<Rightarrow> sa_descriptor s = rc_descriptor entry
      | Unregistered _ _ \<Rightarrow> False
      | PreconditionUnmet d unmet \<Rightarrow> d = rc_descriptor entry \<and> unmet \<noteq> [])"

lemma check_registryD:
  assumes "check_registry registry declined = Inr ()" "map_of registry c = Some entry"
  shows "set (cd_gates (rc_descriptor entry)) = fst ` set (rc_probes entry)"
proof -
  have "\<forall>x \<in> set registry. (case x of (key, entry) \<Rightarrow>
      bind_res (raise_if (key \<noteq> cd_id (rc_descriptor entry)) (ValueError ''registry key does not match descriptor id'')) (\<lambda>_.
      bind_res (raise_if (set (cd_gates (rc_descriptor entry)) \<noteq> fst ` set (rc_probes entry))
        (ValueError ''declared gates and registered probes differ'')) (\<lambda>_.
      iter_res (\<lambda>(kind, binding). check_probe_grain binding (rc_descriptor entry)) (rc_probes entry)))) = Inr ()"
    using assms(1) by (simp add: check_registry_def bind_res_Inr_iff iter_res_Inr_iff)
  from bspec [OF this map_of_SomeD [OF assms(2)]] show ?thesis by (simp add: bind_res_Inr_iff)
qed

lemma ends_resolve:
  assumes "check_registry registry declined = Inr ()" and entry: "map_of registry c = Some entry"
  shows "ends (answered entry) (resolve env registry declined c tenant gates store sku window)"
proof -
  have gates: "set (cd_gates (rc_descriptor entry)) = fst ` set (rc_probes entry)"
    using assms by (rule check_registryD)
  have loop: "ends (\<lambda>(unmet, qualifying). unmet = [] \<longrightarrow> qualifying \<noteq> Some [])
      (gate_loop env entry tenant store sku (dict_of (map bound_gate gs)) [] None)"
    if kinds: "fst ` set (dict_of (map bound_gate gs)) = set (cd_gates (rc_descriptor entry))" for gs
    using dict_of_bound_gates [of gs]
  proof
    assume "dict_of (map bound_gate gs) = []"
    then show ?thesis by (simp add: ends_ret)
  next
    assume "\<exists>required policy. dict_of (map bound_gate gs) = [(MIN_HISTORY_DAYS, required, policy)]"
    then obtain required policy where bound: "dict_of (map bound_gate gs) = [(MIN_HISTORY_DAYS, required, policy)]" by blast
    then obtain binding where "map_of (rc_probes entry) MIN_HISTORY_DAYS = Some binding"
      using kinds gates by (metis (no_types, lifting) domD dom_map_of_conv_image_fst fst_conv image_insert
          insertI1 list.simps(15))
    then show ?thesis unfolding bound
      by (auto simp: Let_def meet_qualifying_def
        intro!: ends_bind [OF ends_probe] ends_ret dest!: satisfies_qualifying split: if_splits)
  qed
  show ?thesis
    unfolding resolve_def entry option.case Let_def
  proof (rule ends_bind)
    let ?bound = "dict_of (map bound_gate gates)"
    show "ends (\<lambda>_. fst ` set ?bound = set (cd_gates (rc_descriptor entry)))
        (lift_result (raise_if (fst ` set ?bound \<noteq> set (cd_gates (rc_descriptor entry)))
           (ValueError ''declared gates and bound gates differ'')))"
      by (rule ends_lift) auto
    assume "fst ` set ?bound = set (cd_gates (rc_descriptor entry))"
    from loop [OF this]
    show "ends (answered entry)
        (bind_eff (gate_loop env entry tenant store sku ?bound [] None) (\<lambda>(unmet, qualifying).
          if unmet \<noteq> [] then lift_result (mk_precondition_unmet (rc_descriptor entry) unmet)
          else lift_result (mk_satisfied
            \<lparr>sa_descriptor = rc_descriptor entry,
             sa_fetch = \<lparr>bf_resolver = rc_resolver entry, bf_tenant = tenant, bf_window = window,
                         bf_store = store, bf_sku = sku, bf_only_series = map_option sort qualifying\<rparr>,
             sa_qualifying = map_option sort qualifying\<rparr>)))"
      by (rule ends_bind)
         (auto intro!: ends_lift simp: mk_precondition_unmet_def mk_satisfied_def answered_def bind_res_Inr_iff raise_if_def)
  qed
qed


lemma check_requirementD:
  assumes "check_declarations registry declarations = Inr ()" "map_of declarations a = Some d" "r \<in> set (ad_requires d)"
  shows "\<exists>entry. map_of registry (cr_capability_id r) = Some entry"
proof -
  have "\<forall>x \<in> set declarations. (case x of (key, declaration) \<Rightarrow>
      bind_res (raise_if (key \<noteq> ad_id declaration) (ValueError ''declaration key does not match analysis id'')) (\<lambda>_.
      iter_res (check_requirement registry declaration) (ad_requires declaration))) = Inr ()"
    using assms(1) by (simp add: check_declarations_def iter_res_Inr_iff)
  from bspec [OF this map_of_SomeD [OF assms(2)]] assms(3)
  have "check_requirement registry d r = Inr ()" by (simp add: bind_res_Inr_iff iter_res_Inr_iff)
  then show ?thesis by (simp add: check_requirement_def split: option.splits)
qed

lemma check_windowD:
  assumes "check_window_declarations declarations registry = Inr ()" "map_of declarations a = Some d"
    and "r \<in> set (ad_requires d)" "cr_window_from_threshold r = Some name"
  shows "name \<in> th_name ` set (ad_thresholds d)"
proof -
  have "\<forall>x \<in> set declarations. (case x of (analysis_id, declaration) \<Rightarrow>
      iter_res (check_window registry declaration) (ad_requires declaration)) = Inr ()"
    using assms(1) by (simp add: check_window_declarations_def iter_res_Inr_iff)
  from bspec [OF this map_of_SomeD [OF assms(2)]] assms(3)
  have "check_window registry d r = Inr ()" by (simp add: iter_res_Inr_iff)
  then show ?thesis using assms(4) by (simp add: check_window_def bind_res_Inr_iff)
qed

lemma thresholds_of_item:
  assumes "name \<in> th_name ` set (ad_thresholds d)"
  shows "\<exists>days. dict_item (thresholds_of d) name = Inr days"
proof -
  have "name \<in> fst ` set (thresholds_of d)"
    using assms by (simp add: thresholds_of_def dict_of_keys image_image)
  then obtain days where "map_of (thresholds_of d) name = Some days"
    by (metis domD dom_map_of_conv_image_fst)
  then show ?thesis by (simp add: dict_item_def)
qed

section \<open>Every requirement is answered\<close>

definition loop_state :: "capability_requirement list \<Rightarrow> satisfied dict \<times> resolution dict \<Rightarrow> bool" where
  "loop_state seen p \<longleftrightarrow>
     (case p of (resolutions, blocked) \<Rightarrow>
        set (keys resolutions) \<union> set (keys blocked) = cr_capability_id ` set seen \<and>
        (\<forall>(c, r) \<in> set blocked. \<exists>d unmet. r = PreconditionUnmet d unmet \<and> unmet \<noteq> []))"

lemma update_entries: "(c, r) \<in> set (AList.update k v kvs) \<Longrightarrow> (c, r) = (k, v) \<or> (c, r) \<in> set kvs"
  by (induction kvs) (auto split: if_splits)

lemma loop_state_step:
  assumes "loop_state seen (resolutions, blocked)"
  shows "loop_state (seen @ [r]) (AList.update (cr_capability_id r) s resolutions, blocked)"
    "unmet \<noteq> [] \<Longrightarrow> loop_state (seen @ [r])
       (resolutions, AList.update (cr_capability_id r) (PreconditionUnmet d unmet) blocked)"
proof -
  have keys: "set (keys resolutions) \<union> set (keys blocked) = cr_capability_id ` set seen"
    and unmet: "\<forall>(c, r) \<in> set blocked. \<exists>d unmet. r = PreconditionUnmet d unmet \<and> unmet \<noteq> []"
    using assms by (simp_all add: loop_state_def)
  show "loop_state (seen @ [r]) (AList.update (cr_capability_id r) s resolutions, blocked)"
    using keys unmet by (simp add: loop_state_def set_keys_update)
  assume "unmet \<noteq> []"
  then have "\<forall>(c, o1) \<in> set (AList.update (cr_capability_id r) (PreconditionUnmet d unmet) blocked).
      \<exists>d unmet. o1 = PreconditionUnmet d unmet \<and> unmet \<noteq> []"
    using unmet update_entries [of _ _ "cr_capability_id r" "PreconditionUnmet d unmet" blocked] by blast
  then show "loop_state (seen @ [r])
      (resolutions, AList.update (cr_capability_id r) (PreconditionUnmet d unmet) blocked)"
    using keys by (simp add: loop_state_def set_keys_update)
qed

lemma ends_requirement_loop:
  assumes registry: "check_registry registry declined = Inr ()"
    and entries: "\<And>r. r \<in> set rs \<Longrightarrow> \<exists>entry. map_of registry (cr_capability_id r) = Some entry"
    and windows: "\<And>r name. r \<in> set rs \<Longrightarrow> cr_window_from_threshold r = Some name \<Longrightarrow> \<exists>days. dict_item thresholds name = Inr days"
    and "loop_state seen (resolutions, blocked)"
  shows "ends (loop_state (seen @ rs))
    (requirement_loop env registry declined thresholds tenant (Some day) store sku rs resolutions blocked)"
  using entries windows assms(4)
proof (induction rs arbitrary: seen resolutions blocked)
  case Nil
  then show ?case unfolding requirement_loop.simps by (intro ends_ret) simp
next
  case (Cons r rs)
  obtain entry where entry: "map_of registry (cr_capability_id r) = Some entry" using Cons.prems(1) by auto
  have window: "ends (\<lambda>_. True) (lift_result (requirement_window thresholds (Some day) r))"
    using Cons.prems(2) [of r]
    by (intro ends_lift) (auto simp: requirement_window_def date_add_def split: option.splits if_splits)
  have rest: "ends (loop_state (seen @ r # rs))
      (requirement_loop env registry declined thresholds tenant (Some day) store sku rs res blk)"
    if "loop_state (seen @ [r]) (res, blk)" for res blk
  proof -
    have "ends (loop_state ((seen @ [r]) @ rs))
        (requirement_loop env registry declined thresholds tenant (Some day) store sku rs res blk)"
    proof (rule Cons.IH [OF _ _ that])
      show "\<exists>entry. map_of registry (cr_capability_id r') = Some entry" if "r' \<in> set rs" for r'
        using Cons.prems(1) that by simp
      show "\<exists>days. dict_item thresholds name = Inr days"
        if "r' \<in> set rs" "cr_window_from_threshold r' = Some name" for r' name
        using Cons.prems(2) [of r' name] that by simp
    qed
    then show ?thesis by simp
  qed
  show ?case
    unfolding requirement_loop.simps
  proof (rule ends_bind [OF window], rule ends_bind [OF ends_resolve [OF registry entry]])
    fix window outcome
    assume "answered entry outcome"
    then show "ends (loop_state (seen @ r # rs))
        (case outcome of
           Satisfied s \<Rightarrow> requirement_loop env registry declined thresholds tenant (Some day) store sku rs
             (AList.update (cr_capability_id r) s resolutions) blocked
         | _ \<Rightarrow> requirement_loop env registry declined thresholds tenant (Some day) store sku rs
             resolutions (AList.update (cr_capability_id r) outcome blocked))"
      using loop_state_step [OF Cons.prems(3)]
      by (cases outcome) (auto simp: answered_def intro!: rest)
  qed
qed

lemma ends_declaration:
  assumes registry: "check_registry registry declined = Inr ()"
    and declarations: "check_declarations registry declarations = Inr ()"
    and windows: "check_window_declarations declarations registry = Inr ()"
    and d: "map_of declarations a = Some d"
  shows "ends (\<lambda>outcome.
      (\<exists>resolutions. outcome = DeclarationSatisfied d resolutions \<and>
         set (keys resolutions) = cr_capability_id ` set (ad_requires d)) \<or>
      (\<exists>blocked. outcome = DeclarationBlocked d blocked \<and> blocked \<noteq> [] \<and>
         (\<forall>(c, r) \<in> set blocked. \<exists>descriptor unmet. r = PreconditionUnmet descriptor unmet \<and> unmet \<noteq> [])))
    (resolve_declaration env registry declined declarations a tenant (Some day) store sku)"
    (is "ends ?Q _")
  unfolding resolve_declaration_def d option.case
proof (rule ends_bind)
  show "ends (loop_state ([] @ ad_requires d))
      (requirement_loop env registry declined (thresholds_of d) tenant (Some day) store sku (ad_requires d) [] [])"
    using check_requirementD [OF declarations d] thresholds_of_item check_windowD [OF windows d]
    by (intro ends_requirement_loop [OF registry]) (auto simp: loop_state_def)
next
  fix p
  assume "loop_state ([] @ ad_requires d) p"
  then show "ends ?Q (case p of (resolutions, blocked) \<Rightarrow>
      if blocked \<noteq> [] then lift_result (mk_declaration_blocked d blocked)
      else lift_result (mk_declaration_satisfied d resolutions))"
    by (cases p)
       (auto intro!: ends_lift simp: loop_state_def mk_declaration_blocked_def mk_declaration_satisfied_def
          bind_res_Inr_iff raise_if_def list_ex_iff is_satisfied_def split: if_splits)
qed


section \<open>A steady database\<close>

text \<open>From statement \<open>n\<close> on, every statement works and sees the same data.\<close>

definition steady :: "'z syn_env_scheme \<Rightarrow> database \<Rightarrow> nat \<Rightarrow> bool" where
  "steady env db n \<longleftrightarrow> (\<forall>m \<ge> n. se_fault env m = Fine \<and> se_snapshot env m = db)"

lemma steady_Suc: "steady env db n \<Longrightarrow> steady env db (Suc n)"
  by (simp add: steady_def)

lemma select_steady: "steady env db n \<Longrightarrow> select_stmt env q n = (Inr (q db), Suc n)"
  by (simp add: steady_def select_stmt_def)

lemma lift_result_eqs [simp]:
  "lift_result (Inr x) = ret x" "lift_result (Inl e) = throw (Raised e)"
  by (simp_all add: lift_result_def fun_eq_iff)

lemma select_bind_steady: "steady env db n \<Longrightarrow> bind_eff (select_stmt env q) f n = f (q db) (Suc n)"
  by (simp add: bind_eff_cases(1) [OF select_steady])

definition qualifying_series :: "sale_event list \<Rightarrow> uuid \<Rightarrow> int \<Rightarrow> position_key list" where
  "qualifying_series events tenant required =
     map fst (filter (\<lambda>(k, n). required \<le> int n) (per_series events tenant None None))"

lemma set_qualifying_series:
  "set (qualifying_series events tenant required) =
     {k. required \<le> int (coverage events tenant None None k) \<and>
       (\<exists>e \<in> set (collapse_latest_wins (key_scoped_predicate tenant None) events). sku_filter None e \<and> series_key e = k)}"
  by (force simp: qualifying_series_def per_series_coverage image_iff)

lemma qualifying_series_Nil:
  assumes "1 \<le> required"
  shows "qualifying_series events tenant required = [] \<longleftrightarrow> (\<forall>k. int (coverage events tenant None None k) < required)"
proof -
  have "\<exists>e \<in> set (collapse_latest_wins (key_scoped_predicate tenant None) events). sku_filter None e \<and> series_key e = k"
    if "required \<le> int (coverage events tenant None None k)" for k
  proof (rule ccontr)
    assume "\<not> ?thesis"
    then have none: "{e \<in> set (collapse_latest_wins (key_scoped_predicate tenant None) events). sku_filter None e \<and> series_key e = k} = {}"
      by blast
    have "coverage events tenant None None k = 0" unfolding coverage_def none by simp
    then show False using that assms by simp
  qed
  then have "set (qualifying_series events tenant required) = {k. required \<le> int (coverage events tenant None None k)}"
    unfolding set_qualifying_series by blast
  then show ?thesis by (metis (mono_tags, lifting) empty_iff equals0I linorder_not_le mem_Collect_eq set_empty)
qed

lemma probe_steady:
  assumes "steady env db n" "length (qualifying_series (db_events db) tenant required) \<le> MAX_SERIES"
  shows "run_probe env ProbeMinHistoryDays tenant None None required n =
    (Inr \<lparr>ob_pairs_measured = length (per_series (db_events db) tenant None None),
          ob_pairs_qualifying = length (qualifying_series (db_events db) tenant required),
          ob_measured_at = db_now db,
          ob_qualifying = Some (map series_text (qualifying_series (db_events db) tenant required))\<rparr>, Suc (Suc n))"
proof -
  have "qualifying_statement (db_events db) tenant None None required = qualifying_series (db_events db) tenant required"
    using assms(2) by (simp add: qualifying_statement_def qualifying_series_def)
  then show ?thesis
    using assms(2)
    by (simp add: run_probe_def select_bind_steady [OF assms(1)] select_bind_steady [OF steady_Suc [OF assms(1)]]
        probe_min_history_days_def probe_statement_def mk_observation_def raise_if_def Let_def qualifying_series_def)
qed

lemma registry_lookups:
  "map_of REGISTRY ''current_state'' = Some \<lparr>rc_descriptor = CURRENT_STATE, rc_resolver = ResolveCurrentState, rc_probes = []\<rparr>"
  "map_of REGISTRY ''daily_series'' = Some
     \<lparr>rc_descriptor = DAILY_SERIES, rc_resolver = ResolveDailySeries,
      rc_probes = [(MIN_HISTORY_DAYS, \<lparr>pb_measure = ProbeMinHistoryDays, pb_series_grain = SERIES_GRAIN,
                                      pb_date_column = ''event_date''\<rparr>)]\<rparr>"
  "map_of REGISTRY ''last_sale_at'' = Some \<lparr>rc_descriptor = LAST_SALE_AT, rc_resolver = ResolveLastSaleAt, rc_probes = []\<rparr>"
  "map_of DECLARATIONS ''stockout_risk'' = Some STOCKOUT_RISK" "map_of DECLARATIONS ''dead_stock'' = Some DEAD_STOCK"
  by (simp_all add: REGISTRY_def DECLARATIONS_def)

lemma descriptor_gates:
  "cd_gates CURRENT_STATE = []" "cd_gates LAST_SALE_AT = []" "cd_gates DAILY_SERIES = [MIN_HISTORY_DAYS]"
  by (simp_all add: CURRENT_STATE_def LAST_SALE_AT_def DAILY_SERIES_def)

definition gateless :: "capability_descriptor \<Rightarrow> resolver \<Rightarrow> uuid \<Rightarrow> satisfied" where
  "gateless d r tenant =
     \<lparr>sa_descriptor = d,
      sa_fetch = \<lparr>bf_resolver = r, bf_tenant = tenant, bf_window = None, bf_store = None, bf_sku = None, bf_only_series = None\<rparr>,
      sa_qualifying = None\<rparr>"

lemma resolve_gateless:
  assumes "map_of registry c = Some \<lparr>rc_descriptor = d, rc_resolver = r, rc_probes = []\<rparr>" "cd_gates d = []"
  shows "resolve env registry declined c tenant [] None None None = ret (Satisfied (gateless d r tenant))"
  by (rule ext) (simp add: resolve_def assms dict_of_def raise_if_def mk_satisfied_def gateless_def Let_def)

lemma resolve_daily_steady:
  assumes "steady env db n" "length (qualifying_series (db_events db) tenant required) \<le> MAX_SERIES"
  shows "resolve env REGISTRY declined ''daily_series'' tenant [\<lparr>mh_days = required, mh_policy = ANY_SERIES\<rparr>] None None window n =
    (Inr (if qualifying_series (db_events db) tenant required = []
          then PreconditionUnmet DAILY_SERIES
            [\<lparr>rp_name = MIN_HISTORY_DAYS, rp_required = required,
              rp_pairs_measured = length (per_series (db_events db) tenant None None), rp_pairs_qualifying = 0,
              rp_measured_at = db_now db\<rparr>]
          else let ks = sort (remdups (map series_text (qualifying_series (db_events db) tenant required)))
               in Satisfied \<lparr>sa_descriptor = DAILY_SERIES,
                    sa_fetch = \<lparr>bf_resolver = ResolveDailySeries, bf_tenant = tenant, bf_window = window, bf_store = None,
                                bf_sku = None, bf_only_series = Some ks\<rparr>,
                    sa_qualifying = Some ks\<rparr>), Suc (Suc n))"
  by (auto simp: resolve_def registry_lookups descriptor_gates dict_of_def bound_gate_def raise_if_def Let_def
      bind_eff_def probe_steady [OF assms] satisfies_def meet_qualifying_def
      mk_precondition_unmet_def mk_satisfied_def)

section \<open>Properties\<close>

lemma stockout_requires:
  "ad_requires STOCKOUT_RISK =
     [\<lparr>cr_capability_id = ''current_state'',
       cr_fields = [''tenant_id'', ''store_id'', ''sku_id'', ''stock_qty'', ''sku_status''],
       cr_gates = [], cr_window_from_threshold = None\<rparr>,
      \<lparr>cr_capability_id = ''daily_series'',
       cr_fields = [''tenant_id'', ''store_id'', ''sku_id'', ''event_date'', ''net_quantity''],
       cr_gates = [\<lparr>mh_days = 7, mh_policy = ANY_SERIES\<rparr>],
       cr_window_from_threshold = Some ''window_days''\<rparr>]"
  by (simp add: STOCKOUT_RISK_def)

lemma stockout_window:
  assumes "28 \<le> slot" "slot \<le> max_ordinal"
  shows "requirement_window (thresholds_of STOCKOUT_RISK) (Some slot)
      \<lparr>cr_capability_id = ''daily_series'', cr_fields = fs, cr_gates = gs, cr_window_from_threshold = Some ''window_days''\<rparr> =
    Inr (Some (slot - 27, slot))"
  using assms by (simp add: requirement_window_def stockout_thresholds dict_item_def date_add_def)

lemma gateless_window: "cr_window_from_threshold r = None \<Longrightarrow> requirement_window thresholds as_of r = Inr None"
  by (simp add: requirement_window_def)

lemma stockout_steady:
  assumes steady: "steady env db n" and size: "length (qualifying_series (db_events db) tenant 7) \<le> MAX_SERIES"
    and slot: "28 \<le> slot" "slot \<le> max_ordinal"
  shows "resolve_declaration env REGISTRY DECLINED DECLARATIONS ''stockout_risk'' tenant (Some slot) None None n =
    (Inr (if qualifying_series (db_events db) tenant 7 = []
          then DeclarationBlocked STOCKOUT_RISK
            [(''daily_series'', PreconditionUnmet DAILY_SERIES
               [\<lparr>rp_name = MIN_HISTORY_DAYS, rp_required = 7,
                 rp_pairs_measured = length (per_series (db_events db) tenant None None), rp_pairs_qualifying = 0,
                 rp_measured_at = db_now db\<rparr>])]
          else let ks = sort (remdups (map series_text (qualifying_series (db_events db) tenant 7)))
               in DeclarationSatisfied STOCKOUT_RISK
                    [(''current_state'', gateless CURRENT_STATE ResolveCurrentState tenant),
                     (''daily_series'', \<lparr>sa_descriptor = DAILY_SERIES,
                       sa_fetch = \<lparr>bf_resolver = ResolveDailySeries, bf_tenant = tenant, bf_window = Some (slot - 27, slot),
                                   bf_store = None, bf_sku = None, bf_only_series = Some ks\<rparr>,
                       sa_qualifying = Some ks\<rparr>)]), Suc (Suc n))"
  unfolding resolve_declaration_def registry_lookups option.case
  by (simp add: stockout_requires stockout_window [OF slot] gateless_window
      resolve_gateless [OF registry_lookups(1) descriptor_gates(1)] bind_eff_def resolve_daily_steady [OF steady size]
      mk_declaration_blocked_def mk_declaration_satisfied_def raise_if_def is_satisfied_def keys_def Let_def)

text \<open>
  C19 (safety). What the import-time checks buy, for any tables they accept: resolving a declared
  analysis never meets an unregistered capability, an unmeasurable gate or an unnamed threshold.
  It answers Satisfied with a fetch for every requirement, or Blocked with an unmet precondition
  report for each blocked one, or fails for one of the causes in \<open>resolution_failures\<close>.
\<close>

theorem import_checks_suffice:
  assumes "check_registry registry declined = Inr ()" "check_declarations registry declarations = Inr ()"
    and "check_window_declarations declarations registry = Inr ()" "map_of declarations a = Some d"
  shows "case fst (resolve_declaration env registry declined declarations a tenant (Some day) store sku n) of
      Inl e \<Rightarrow> e \<in> resolution_failures
    | Inr (DeclarationSatisfied d' resolutions) \<Rightarrow>
        d' = d \<and> set (keys resolutions) = cr_capability_id ` set (ad_requires d)
    | Inr (DeclarationBlocked d' blocked) \<Rightarrow>
        d' = d \<and> blocked \<noteq> [] \<and>
        (\<forall>(c, r) \<in> set blocked. \<exists>descriptor unmet. r = PreconditionUnmet descriptor unmet \<and> unmet \<noteq> [])
    | Inr (DeclarationUndeclared _) \<Rightarrow> False"
proof -
  obtain r m where run: "resolve_declaration env registry declined declarations a tenant (Some day) store sku n = (r, m)"
    by (cases "resolve_declaration env registry declined declarations a tenant (Some day) store sku n")
  note e = ends_declaration [OF assms, of env tenant day store sku]
  show ?thesis
  proof (cases r)
    case (Inl x)
    then show ?thesis using triple_Inl [OF e TrueI run [unfolded Inl]] run by simp
  next
    case (Inr x)
    then show ?thesis using triple_Inr [OF e TrueI run [unfolded Inr]] run by auto
  qed
qed

definition demo_env :: syn_env where
  "demo_env = \<lparr>se_snapshot = (\<lambda>_. \<lparr>db_events = [], db_hot = [], db_now = 0\<rparr>), se_fault = (\<lambda>_. Fine)\<rparr>"

lemma import_checks_suffice_witness:
  "(case fst (resolve_declaration demo_env REGISTRY DECLINED DECLARATIONS ''stockout_risk'' 1 (Some 739000) None None 0) of
      Inl e \<Rightarrow> e \<in> resolution_failures
    | Inr (DeclarationSatisfied d' resolutions) \<Rightarrow>
        d' = STOCKOUT_RISK \<and> set (keys resolutions) = cr_capability_id ` set (ad_requires STOCKOUT_RISK)
    | Inr (DeclarationBlocked d' blocked) \<Rightarrow>
        d' = STOCKOUT_RISK \<and> blocked \<noteq> [] \<and>
        (\<forall>(c, r) \<in> set blocked. \<exists>descriptor unmet. r = PreconditionUnmet descriptor unmet \<and> unmet \<noteq> [])
    | Inr (DeclarationUndeclared _) \<Rightarrow> False)"
  by (rule import_checks_suffice [OF shipped_tables_accepted]) (simp add: DECLARATIONS_def)


text \<open>
  C20 (functional). On a steady database the shipped stockout declaration is blocked exactly when
  no series of the tenant has sales on seven days, over its whole history. Otherwise its fetch
  returns, whenever it is awaited, precisely the rows of the 28-day window whose series has those
  seven days: the declared gate, the measured one and the rows an analysis sees agree.
\<close>

theorem stockout_population:
  assumes steady: "steady env db n" and size: "length (qualifying_series (db_events db) tenant 7) \<le> MAX_SERIES"
    and slot: "28 \<le> slot" "slot \<le> max_ordinal"
    and rows: "resolve_daily_series (db_events db) tenant (slot - 27) slot None None None (int MAX_ROWS) = Inr rows"
  shows "if \<exists>k. 7 \<le> coverage (db_events db) tenant None None k
    then \<exists>resolutions.
      resolve_declaration env REGISTRY DECLINED DECLARATIONS ''stockout_risk'' tenant (Some slot) None None n =
        (Inr (DeclarationSatisfied STOCKOUT_RISK resolutions), n + 2) \<and>
      fetch_rows env resolutions ''daily_series'' daily_series_rows (n + 2) =
        (Inr (filter (\<lambda>r. 7 \<le> coverage (db_events db) tenant None None (ds_key r)) rows), n + 3)
    else \<exists>blocked.
      resolve_declaration env REGISTRY DECLINED DECLARATIONS ''stockout_risk'' tenant (Some slot) None None n =
        (Inr (DeclarationBlocked STOCKOUT_RISK blocked), n + 2)"
proof -
  let ?qs = "qualifying_series (db_events db) tenant 7" and ?ks = "sort (remdups (map series_text (qualifying_series (db_events db) tenant 7)))"
  have some: "(\<exists>k. 7 \<le> coverage (db_events db) tenant None None k) \<longleftrightarrow> ?qs \<noteq> []"
    by (auto simp: qualifying_series_Nil not_less)
  have short: "length ?ks \<le> MAX_SERIES"
    using size by (metis length_map length_remdups_leq length_sort order_trans)
  have set: "set ?ks = series_text ` {k. 7 \<le> int (coverage (db_events db) tenant None None k) \<and>
      (\<exists>e \<in> set (collapse_latest_wins (key_scoped_predicate tenant None) (db_events db)). sku_filter None e \<and> series_key e = k)}"
    by (simp add: set_qualifying_series)
  have fetch: "resolve_daily_series (db_events db) tenant (slot - 27) slot None None (Some ?ks) (int MAX_ROWS) =
      Inr (filter (\<lambda>r. 7 \<le> coverage (db_events db) tenant None None (ds_key r)) rows)" if "?qs \<noteq> []"
    using narrowed_fetch_rows [OF _ short set rows] that by (simp add: numeral_le_iff)
  have later: "steady env db (Suc (Suc n))" using steady by (simp add: steady_def)
  show ?thesis
  proof (cases "?qs = []")
    case True
    then show ?thesis by (simp only: some if_False not_True_eq_False simp_thms) (simp add: stockout_steady [OF assms(1-4)])
  next
    case False
    then show ?thesis using short fetch [OF False]
      by (simp only: some if_True simp_thms)
         (simp add: stockout_steady [OF assms(1-4)] Let_def fetch_rows_def dict_item_def run_fetch_def
          check_series_arguments_def raise_if_def bind_eff_def select_steady [OF later] daily_series_rows_def)
  qed
qed

text \<open>Seven days of one sale each.\<close>

definition demo_week :: "sale_event list" where
  "demo_week = map (\<lambda>i. demo_event (of_int i) (replicate (nat i) (CHR ''x'')) (738995 + i) 1000) [1..7]"

definition demo_week_env :: syn_env where
  "demo_week_env = \<lparr>se_snapshot = (\<lambda>_. \<lparr>db_events = demo_week, db_hot = [], db_now = 0\<rparr>), se_fault = (\<lambda>_. Fine)\<rparr>"

lemma demo_week_collapse: "collapse_latest_wins (key_scoped_predicate 1 None) demo_week = demo_week"
  by (simp add: collapse_latest_wins_def demo_week_def demo_event_def key_scoped_predicate_def DEDUP_KEY_def
      latest_row_def upto.simps nat_numeral numeral_eq_Suc)

lemma demo_week_per_series: "per_series demo_week 1 None None = [((1, 2, ''a''), 7)]"
  by (simp add: per_series_def demo_week_collapse sku_filter_def)
     (simp add: demo_week_def demo_event_def series_key_def upto.simps)

lemma length_group_by: "length (group_by f xs) \<le> length xs"
  by (simp add: group_by_def) (metis length_map length_remdups_leq)

lemma stockout_population_witness:
  "\<exists>resolutions rows.
     resolve_declaration demo_week_env REGISTRY DECLINED DECLARATIONS ''stockout_risk'' 1 (Some 739002) None None 0 =
       (Inr (DeclarationSatisfied STOCKOUT_RISK resolutions), 2) \<and>
     fetch_rows demo_week_env resolutions ''daily_series'' daily_series_rows 2 =
       (Inr (filter (\<lambda>r. 7 \<le> coverage demo_week 1 None None (ds_key r)) rows), 3)"
proof -
  let ?db = "\<lparr>db_events = demo_week, db_hot = [], db_now = 0\<rparr>"
  have steady: "steady demo_week_env ?db 0" by (simp add: steady_def demo_week_env_def)
  have size: "length (qualifying_series (db_events ?db) 1 7) \<le> MAX_SERIES"
    by (simp add: qualifying_series_def demo_week_per_series MAX_SERIES_def)
  obtain rows where rows: "resolve_daily_series (db_events ?db) 1 (739002 - 27) 739002 None None None (int MAX_ROWS) = Inr rows"
  proof -
    let ?lines = "filter (\<lambda>e. 738975 \<le> se_event_date e \<and> se_event_date e \<le> 739002 \<and> sku_filter None e) demo_week"
    have "length (group_by day_key ?lines) \<le> length ?lines" by (rule length_group_by)
    also have "\<dots> \<le> length demo_week" by (rule length_filter_le)
    also have "\<dots> = 7" by (simp add: demo_week_def)
    finally show ?thesis using that
      by (simp add: daily_series_Inr demo_week_collapse effective_limit_def MAX_ROWS_def)
  qed
  have "((1, 2, ''a''), 7) \<in> set (per_series demo_week 1 None None)" by (simp add: demo_week_per_series)
  then have covered: "\<exists>k. 7 \<le> coverage demo_week 1 None None k" by (metis order_refl per_series_coverage)
  have fits: "28 \<le> (739002 :: int)" "739002 \<le> max_ordinal" by (simp_all add: max_ordinal_def)
  have n: "0 + 2 = (2 :: nat)" "0 + 3 = (3 :: nat)" by simp_all
  show ?thesis
    using stockout_population [OF steady size fits rows, unfolded n database.select_convs if_P [OF covered]] by blast
qed

end
