(* ===== verification/Sweep_Properties.thy ===== *)
theory Sweep_Properties
  imports Synapse_Sweeps Synapse_Gating
begin

text \<open>
  What the orchestrator promises of its two ledgers, over every sequence of sweeps, and what
  happens after one that was cut short.
\<close>

section \<open>A process that dies and the sweeps after it\<close>

text \<open>One tenant with one provision and no sales. The process dies as it claims its first run.\<close>

definition demo_provision :: provision_row where
  "demo_provision =
     \<lparr>pw_tenant_id = 1, pw_analysis_id = ''stockout_risk'', pw_cadence = ''daily'', pw_rung = ''shadow'',
      pw_timezone = ''UTC'', pw_enabled_at = Aware 0, pw_disabled_at = None\<rparr>"

definition demo_sweep_env :: run_env where
  "demo_sweep_env =
     \<lparr>se_snapshot = (\<lambda>_. \<lparr>db_events = [], db_hot = [], db_now = 0\<rparr>),
      se_fault = (\<lambda>n. if n = 1 then LateCrash else Fine),
      re_zones = [''UTC'' \<mapsto> (\<lambda>_. 0)], re_provisions = (\<lambda>_. [demo_provision]),
      re_uuid = (\<lambda>n. of_nat (Suc n)), re_elapsed = (\<lambda>_. 1)\<rparr>"

definition demo_noon :: int where
  "demo_noon = 739000 * day_us + 12 * 3600000000"

definition demo_due :: provision where
  "demo_due =
     \<lparr>pv_tenant_id = 1, pv_analysis_id = ''stockout_risk'', pv_cadence = DAILY, pv_rung = SHADOW,
      pv_timezone = ''UTC'', pv_enabled_at = Aware 0\<rparr>"

lemma demo_active:
  "n \<noteq> 1 \<Longrightarrow> sw_tick w = n \<Longrightarrow> active demo_sweep_env max_rungs w = (Inr [demo_due], w\<lparr>sw_tick := Suc n\<rparr>)"
  by (simp add: active_def bind_eff_def statement_def demo_sweep_env_def select_active_def demo_provision_def
      lift_result_def raise_if_def MAX_PROVISIONS_def project_provision_def cadence_of_def rung_of_def mk_provision_def
      check_envelope_def max_rungs_eq has_key_def rung_rank_def demo_due_def keys_def)

lemma demo_slot: "slot_for (re_zones demo_sweep_env) DAILY ''UTC'' (Aware demo_noon) = Inr 739001"
  by (simp add: slot_for_def demo_sweep_env_def demo_noon_def day_us_def max_ordinal_def)

definition demo_claimed :: syn_world where
  "demo_claimed =
     \<lparr>sw_tick = 2, sw_minted = 1, sw_runs = [claim_row demo_due 739001 1 demo_noon], sw_actions = []\<rparr>"

lemma demo_first:
  "run_due demo_sweep_env (Aware demo_noon) False None None empty_ledgers = (Inl Killed, demo_claimed)"
proof -
  have "se_fault demo_sweep_env (Suc 0) = LateCrash" "re_uuid demo_sweep_env 0 = 1" by (simp_all add: demo_sweep_env_def)
  moreover have "pv_rung demo_due = SHADOW" "pv_cadence demo_due = DAILY" "pv_timezone demo_due = ''UTC''"
    "pv_analysis_id demo_due \<noteq> []" by (simp_all add: demo_due_def)
  ultimately show ?thesis
    using demo_slot
    by (simp add: run_due_def bind_eff_def demo_active [of 0] empty_ledgers_def is_due_def run_one_def lift_result_def
        new_uuid7_def instant_us_def claim_def statement_def insert_run_def add_run_def Let_def demo_claimed_def)
       (simp add: claim_row_def)
qed

lemma demo_claimed_reachable: "orchestrator_reachable demo_sweep_env demo_claimed"
  using orchestrator_reachable.sweep [OF orchestrator_reachable.start, of demo_sweep_env "Aware demo_noon" False None None]
  by (simp add: demo_first)

lemma demo_calm: "2 \<le> n \<Longrightarrow> calm demo_sweep_env n"
  by (simp add: calm_def demo_sweep_env_def)

lemma demo_blocked:
  assumes "2 \<le> n"
  shows "\<exists>b. resolve_declaration demo_sweep_env REGISTRY DECLINED DECLARATIONS ''stockout_risk'' 1 (Some 739001) None None n =
    (Inr (DeclarationBlocked STOCKOUT_RISK [(''daily_series'', b)]), Suc (Suc n))"
proof -
  have steady: "steady demo_sweep_env \<lparr>db_events = [], db_hot = [], db_now = 0\<rparr> n"
    using assms by (simp add: steady_def demo_sweep_env_def)
  have none: "qualifying_series [] 1 7 = []"
    by (simp add: qualifying_series_def per_series_def collapse_latest_wins_def group_by_def)
  show ?thesis
    using stockout_steady [OF steady, of 1 739001] by (simp add: none max_ordinal_def)
qed

definition demo_settled :: syn_world where
  "demo_settled =
     \<lparr>sw_tick = 8, sw_minted = 2,
      sw_runs = [completed
        \<lparr>cm_finished_at = demo_noon + 1, cm_outcome = ''blocked'', cm_actions_proposed = 0, cm_actions_appended = 0,
         cm_detail = Some (BlockedOn [''daily_series'']), cm_refusals = []\<rparr>
        (claim_row demo_due 739001 1 demo_noon)],
      sw_actions = []\<rparr>"

lemma demo_second:
  "\<exists>res. run_due demo_sweep_env (Aware demo_noon) False None None demo_claimed = (Inr [res], demo_settled)"
proof -
  obtain b where b: "resolve_declaration demo_sweep_env REGISTRY DECLINED DECLARATIONS ''stockout_risk'' 1 (Some 739001) None None 5 =
      (Inr (DeclarationBlocked STOCKOUT_RISK [(''daily_series'', b)]), 7)"
    using demo_blocked [of 5] by auto
  have env: "se_fault demo_sweep_env n = Fine" if "n \<noteq> 1" for n using that by (simp add: demo_sweep_env_def)
  have elapsed: "re_elapsed demo_sweep_env n = 1" for n by (simp add: demo_sweep_env_def)
  have due: "pv_rung demo_due = SHADOW" "pv_cadence demo_due = DAILY" "pv_timezone demo_due = ''UTC''"
    "pv_tenant_id demo_due = 1" "pv_analysis_id demo_due = ''stockout_risk''" by (simp_all add: demo_due_def)
  have row: "run_slot (claim_row demo_due 739001 i us) = (1, ''stockout_risk'', 739001)"
    "rn_run_id (claim_row demo_due 739001 i us) = i" "rn_tenant_id (claim_row demo_due 739001 i us) = 1"
    "rn_outcome (claim_row demo_due 739001 i us) = None" "rn_started_at (claim_row demo_due 739001 i us) = us" for i us
    by (simp_all add: claim_row_def run_slot_def due)
  have claim: "claim demo_sweep_env demo_due 739001 i demo_noon (demo_claimed\<lparr>sw_tick := 3, sw_minted := 2\<rparr>) =
      (Inr (Claim 1 True), demo_claimed\<lparr>sw_tick := 5, sw_minted := 2\<rparr>)" for i
    by (simp add: claim_def Let_def bind_eff_def statement_def env insert_run_def existing_run_def demo_claimed_def row)
  have attempt: "attempt_run demo_sweep_env demo_due 739001 (Aware demo_noon) False (demo_claimed\<lparr>sw_tick := 5, sw_minted := 2\<rparr>) =
      (Inr \<lparr>at_outcome = ''blocked'', at_detail = Some (BlockedOn [''daily_series'']), at_proposed = [],
            at_appended = 0, at_refusals = []\<rparr>, demo_claimed\<lparr>sw_tick := 7, sw_minted := 2\<rparr>)"
    by (simp add: attempt_run_def catch_exception_def catch_eff_def bind_eff_def reading_def due b keys_def)
  have finish: "\<exists>res. finish_run demo_sweep_env demo_due 739001 (Aware demo_noon) (Some (1, True))
      \<lparr>at_outcome = ''blocked'', at_detail = Some (BlockedOn [''daily_series'']), at_proposed = [],
       at_appended = 0, at_refusals = []\<rparr> (demo_claimed\<lparr>sw_tick := 7, sw_minted := 2\<rparr>) = (Inr res, demo_settled)"
    by (simp add: finish_run_def bind_eff_def complete_def OUTCOMES_def raise_if_def lift_result_def instant_us_def
        statement_def env elapsed update_run_def completion_checks_def due row demo_claimed_def demo_settled_def)
  then obtain res where "finish_run demo_sweep_env demo_due 739001 (Aware demo_noon) (Some (1, True))
      \<lparr>at_outcome = ''blocked'', at_detail = Some (BlockedOn [''daily_series'']), at_proposed = [],
       at_appended = 0, at_refusals = []\<rparr> (demo_claimed\<lparr>sw_tick := 7, sw_minted := 2\<rparr>) = (Inr res, demo_settled)" by blast
  moreover have "active demo_sweep_env max_rungs demo_claimed = (Inr [demo_due], demo_claimed\<lparr>sw_tick := 3\<rparr>)"
    using demo_active [of 2 demo_claimed] by (simp add: demo_claimed_def)
  moreover have "new_uuid7 demo_sweep_env (demo_claimed\<lparr>sw_tick := 3\<rparr>) = (Inr 2, demo_claimed\<lparr>sw_tick := 3, sw_minted := 2\<rparr>)"
    by (simp add: new_uuid7_def demo_claimed_def demo_sweep_env_def)
  ultimately show ?thesis
    using demo_slot claim attempt
    by (simp add: run_due_def bind_eff_def is_due_def run_one_def lift_result_def instant_us_def due)
qed

text \<open>
  C21 (invariant). However the sweeps before it ended, the run table holds at most one run for a
  tenant's analysis and slot, the action log at most one action for its natural key, and every run
  is either unfinished or has its outcome, its counts and a finish no earlier than its start. A
  further sweep only appends to the log, and of the runs it changes at most the unfinished ones.
\<close>

theorem orchestrator_ledgers:
  assumes "orchestrator_reachable env w"
  shows "distinct (map run_slot (sw_runs w)) \<and> distinct (map action_key (sw_actions w)) \<and>
    (\<forall>r \<in> set (sw_runs w). run_ok r) \<and>
    evolves w (snd (run_due env now dry_run only_tenant only_analysis w))"
  using reachable_ledgers_ok [OF assms] sweep_sound(2) [OF reachable_ledgers_ok [OF assms]]
  by (simp add: ledgers_ok_def)

lemma orchestrator_ledgers_witness:
  "distinct (map run_slot (sw_runs demo_claimed)) \<and> sw_runs demo_claimed \<noteq> [] \<and>
   evolves demo_claimed (snd (run_due demo_sweep_env (Aware demo_noon) False None None demo_claimed))"
  using orchestrator_ledgers [OF demo_claimed_reachable] by (simp add: demo_claimed_def)

text \<open>
  C22 (liveness). Whatever became of the sweeps before, one sweep on a database that answers, with
  new identifiers and a clock behind no claim, leaves a finished run for the slot of every active
  provision whose slot exists.
\<close>

theorem sweep_settles:
  assumes "orchestrator_reachable env w" "calm env (sw_tick w)" "claimed_before us w" "\<And>n. 0 \<le> re_elapsed env n"
    and "re_zones env [] = None" and active: "fst (active env max_rungs w) = Inr ps"
    and slots: "\<And>p. p \<in> set ps \<Longrightarrow> \<exists>slot. slot_for (re_zones env) (pv_cadence p) (pv_timezone p) (Aware us) = Inr slot"
    and "fresh_ids env w (sw_minted (snd (run_due env (Aware us) False None None w)))"
  shows "\<exists>results t. run_due env (Aware us) False None None w = (Inr results, t) \<and> length results = length ps \<and>
    (\<forall>p \<in> set ps. settled t (due_slot env us p))"
proof -
  obtain v where v: "active env max_rungs w = (Inr ps, v)" using active by (cases "active env max_rungs w") simp
  note world = active_world [OF v]
  have "runnable env us p" if "p \<in> set ps" for p
    using active_provisions [OF active that] slots [OF that] assms(5) by (auto simp: runnable_def)
  moreover have run: "run_due env (Aware us) False None None w = run_each env (Aware us) False ps v"
    by (simp add: run_due_def bind_eff_def v is_due_def)
  moreover have "fresh_ids env v n = fresh_ids env w n" for n by (simp add: world fresh_ids_def)
  moreover have "ledgers_ok v" "calm env (sw_tick v)" "claimed_before us v"
    using reachable_ledgers_ok [OF assms(1)] assms(2,3) by (simp_all add: world ticked calm_def claimed_before_def)
  ultimately show ?thesis
    using run_each_settles [of v env us ps] assms(4,8) by simp
qed

lemma sweep_settles_witness:
  "\<exists>results t. run_due demo_sweep_env (Aware demo_noon) False None None demo_claimed = (Inr results, t) \<and>
    length results = 1 \<and> settled t (1, ''stockout_risk'', 739001)"
proof -
  have "claimed_before demo_noon demo_claimed" by (simp add: claimed_before_def demo_claimed_def claim_row_def)
  moreover have "fst (active demo_sweep_env max_rungs demo_claimed) = Inr [demo_due]"
    using demo_active [of 2 demo_claimed] by (simp add: demo_claimed_def)
  moreover have "fresh_ids demo_sweep_env demo_claimed (sw_minted demo_settled)"
    by (simp add: fresh_ids_def demo_claimed_def demo_settled_def demo_sweep_env_def claim_row_def atLeastAtMost_insertL [symmetric] numeral_2_eq_2)
  moreover have "due_slot demo_sweep_env demo_noon demo_due = (1, ''stockout_risk'', 739001)"
    using demo_slot by (simp add: due_slot_def demo_due_def)
  ultimately show ?thesis
    using sweep_settles [OF demo_claimed_reachable, of demo_noon "[demo_due]"] demo_calm [of 2] demo_slot demo_second
    by (auto simp: demo_claimed_def demo_sweep_env_def demo_due_def)
qed

text \<open>
  Once every due slot has a finished run, sweeping again on a database that
  answers writes to neither ledger and skips every slot. Its exit code is still 1 as long as one of
  those runs failed: the retry of a red sweep stays red.
\<close>

theorem retry_stays_red:
  assumes "orchestrator_reachable env w" "calm env (sw_tick w)" and "re_zones env [] = None"
    and active: "fst (active env max_rungs w) = Inr ps"
    and slots: "\<And>p. p \<in> set ps \<Longrightarrow> \<exists>slot. slot_for (re_zones env) (pv_cadence p) (pv_timezone p) (Aware us) = Inr slot"
    and "\<And>p. p \<in> set ps \<Longrightarrow> settled w (due_slot env us p)"
  shows "\<exists>results t. run_due env (Aware us) False None None w = (Inr results, t) \<and>
    sw_runs t = sw_runs w \<and> sw_actions t = sw_actions w \<and> (\<forall>r \<in> set results. sl_skipped r) \<and>
    exit_code (Inr results) = Some
      (if \<exists>p \<in> set ps. \<exists>r \<in> set (sw_runs w). run_slot r = due_slot env us p \<and> rn_outcome r = Some ''failed'' then 1 else 0)"
proof -
  obtain v where v: "active env max_rungs w = (Inr ps, v)" using active by (cases "active env max_rungs w") simp
  note world = active_world [OF v]
  have "runnable env us p" if "p \<in> set ps" for p
    using active_provisions [OF active that] slots [OF that] assms(3) by (auto simp: runnable_def)
  moreover have "ledgers_ok v" "calm env (sw_tick v)"
    using reachable_ledgers_ok [OF assms(1)] assms(2) by (simp_all add: world ticked calm_def)
  moreover have "settled v (due_slot env us p)" if "p \<in> set ps" for p
    using assms(6) [OF that] by (simp add: world settled_def)
  ultimately obtain results t where run: "run_each env (Aware us) False ps v = (Inr results, t)"
    and kept: "sw_runs t = sw_runs w" "sw_actions t = sw_actions w" "\<forall>r \<in> set results. sl_skipped r"
    and red: "list_ex failed results \<longleftrightarrow>
      (\<exists>p \<in> set ps. \<exists>r \<in> set (sw_runs w). run_slot r = due_slot env us p \<and> rn_outcome r = Some ''failed'')"
    using run_each_finished [of v env ps us] by (auto simp: world)
  have "run_due env (Aware us) False None None w = (Inr results, t)"
    by (simp add: run_due_def bind_eff_def v is_due_def run)
  moreover have "exit_code (Inr results) = Some (if list_ex failed results then 1 else 0)" by (simp add: exit_code_def)
  ultimately show ?thesis using kept unfolding red by blast
qed

lemma demo_settled_reachable: "orchestrator_reachable demo_sweep_env demo_settled"
  using orchestrator_reachable.sweep [OF demo_claimed_reachable, of "Aware demo_noon" False None None] demo_second
  by (metis snd_conv)

lemma demo_fields:
  "sw_tick demo_claimed = 2" "sw_tick demo_settled = 8" "re_zones demo_sweep_env [] = None"
  "re_elapsed demo_sweep_env n = 1" "pv_cadence demo_due = DAILY" "pv_timezone demo_due = ''UTC''"
  "sw_runs demo_claimed = [claim_row demo_due 739001 1 demo_noon]"
  "run_slot (claim_row demo_due 739001 i us) = (pv_tenant_id demo_due, pv_analysis_id demo_due, 739001)"
  "rn_outcome (claim_row demo_due 739001 i us) = None" "rn_started_at (claim_row demo_due 739001 i us) = us"
  by (simp_all add: demo_claimed_def demo_settled_def demo_sweep_env_def demo_due_def claim_row_def run_slot_def)

lemma demo_due_slot: "due_slot demo_sweep_env demo_noon demo_due = (1, ''stockout_risk'', 739001)"
  using demo_slot by (simp add: due_slot_def demo_due_def)

lemma retry_stays_red_witness:
  "\<exists>results t. run_due demo_sweep_env (Aware demo_noon) False None None demo_settled = (Inr results, t) \<and>
    sw_runs t = sw_runs demo_settled \<and> exit_code (Inr results) = Some 0"
proof -
  have "fst (active demo_sweep_env max_rungs demo_settled) = Inr [demo_due]"
    using demo_active [of 8 demo_settled] by (simp add: demo_settled_def)
  moreover have "settled demo_settled (1, ''stockout_risk'', 739001)"
    by (simp add: settled_def demo_settled_def claim_row_def run_slot_def demo_due_def completed_def)
  ultimately have "\<exists>results t. run_due demo_sweep_env (Aware demo_noon) False None None demo_settled = (Inr results, t) \<and>
      sw_runs t = sw_runs demo_settled \<and> sw_actions t = sw_actions demo_settled \<and> (\<forall>r \<in> set results. sl_skipped r) \<and>
      exit_code (Inr results) = Some
        (if \<exists>p \<in> set [demo_due]. \<exists>r \<in> set (sw_runs demo_settled).
              run_slot r = due_slot demo_sweep_env demo_noon p \<and> rn_outcome r = Some ''failed'' then 1 else 0)"
    using demo_calm [of 8] demo_slot
    by (intro retry_stays_red [OF demo_settled_reachable]) (simp_all add: demo_due_slot demo_fields)
  moreover have "rn_outcome r \<noteq> Some ''failed''" if "r \<in> set (sw_runs demo_settled)" for r
    using that by (simp add: demo_settled_def)
  ultimately show ?thesis by auto
qed

text \<open>
  C24 (error). A run left unfinished by an earlier process, whose start lies after the instant the
  next sweep is given and the time it takes, cannot be completed: the update breaks
  \<open>ck_run_finished_after_started\<close>, the exception is raised outside the \<open>try\<close> and ends the whole
  sweep with exit code 1, so the provisions sorted after this one do not run.
\<close>

theorem backdated_takeover_aborts:
  assumes "orchestrator_reachable env w" "calm env (sw_tick w)"
    and active: "fst (active env max_rungs w) = Inr (p # ps)"
    and slot: "slot_for (re_zones env) (pv_cadence p) (pv_timezone p) (Aware us) = Inr slot"
    and r: "r \<in> set (sw_runs w)" "run_slot r = (pv_tenant_id p, pv_analysis_id p, slot)" "rn_outcome r = None"
    and late: "\<And>n. us + re_elapsed env n < rn_started_at r"
  shows "\<exists>t. run_due env (Aware us) False None None w = (Inl (Raised DatabaseError), t) \<and>
    sw_runs t = sw_runs w \<and> exit_code (Inl (Raised DatabaseError)) = Some 1"
proof -
  obtain v where v: "active env max_rungs w = (Inr (p # ps), v)" using active by (cases "active env max_rungs w") simp
  note world = active_world [OF v]
  have "ledgers_ok v" "calm env (sw_tick v)" "r \<in> set (sw_runs v)"
    using reachable_ledgers_ok [OF assms(1)] assms(2) r(1) by (simp_all add: world ticked calm_def)
  then obtain t where "run_one env (Aware us) False p v = (Inl (Raised DatabaseError), t)" "sw_runs t = sw_runs v"
    using run_one_backdated [of v env p us slot r] active_provisions(1) [OF active] slot r(2,3) late by auto
  moreover have "run_due env (Aware us) False None None w = run_each env (Aware us) False (p # ps) v"
    by (simp add: run_due_def bind_eff_def v is_due_def)
  ultimately show ?thesis by (simp add: exit_code_def world bind_eff_def)
qed

lemma backdated_takeover_aborts_witness:
  "\<exists>t. run_due demo_sweep_env (Aware (demo_noon - 10)) False None None demo_claimed = (Inl (Raised DatabaseError), t)"
proof -
  have "fst (active demo_sweep_env max_rungs demo_claimed) = Inr [demo_due]"
    using demo_active [of 2 demo_claimed] by (simp add: demo_claimed_def)
  moreover have "slot_for (re_zones demo_sweep_env) DAILY ''UTC'' (Aware (demo_noon - 10)) = Inr 739001"
    by (simp add: slot_for_def demo_sweep_env_def demo_noon_def day_us_def max_ordinal_def)
  ultimately have "\<exists>t. run_due demo_sweep_env (Aware (demo_noon - 10)) False None None demo_claimed =
      (Inl (Raised DatabaseError), t) \<and> sw_runs t = sw_runs demo_claimed \<and> exit_code (Inl (Raised DatabaseError)) = Some 1"
    using demo_calm [of 2]
    by (intro backdated_takeover_aborts [OF demo_claimed_reachable, where p = demo_due and ps = "[]" and slot = 739001
          and r = "claim_row demo_due 739001 1 demo_noon"])
       (simp_all add: demo_fields)
  then show ?thesis by blast
qed

section \<open>A takeover appends again\<close>


definition demo_action :: action where
  "demo_action =
     \<lparr>ac_target = finding_target (1, 2, ''a''), ac_verb = REVIEW, ac_quantity_at_stake = Some 5000,
      ac_expires_on = 739031, ac_arm = TREATMENT,
      ac_provenance = \<lparr>pr_declaration_id = ''stockout_risk'', pr_declaration_version = ''0.1.0'',
        pr_capability_versions = [(''daily_series'', ''0.1.0'')], pr_thresholds = [(''cover_days'', 7)], pr_as_of = 739001\<rparr>,
      ac_days_since_last_sale = None, ac_days_of_cover = Some (5 / 3)\<rparr>"

lemma demo_storable: "storable 1 demo_action"
proof -
  have "round_half_away (5 / 3 * 1000) = 1667" by (simp add: round_half_away_def) linarith
  then have cover: "stored_cover (ac_days_of_cover demo_action) = Inr (Some (dec_of_numeric 1667))"
    by (simp add: stored_cover_def to_numeric_14_3_def demo_action_def)
  have "map_of (sort_key fst (finding_target (1, 2, ''a''))) ''tenant_id'' = Some (uuid_str 1)"
    by (simp add: finding_target_def)
  moreover have "sort_key fst (finding_target (1, 2, ''a'')) \<noteq> []" by (simp add: finding_target_def)
  ultimately show ?thesis unfolding storable_def cover
    by (simp add: action_checks_def parameters_def demo_action_def negative_def)
qed


section \<open>What the log gives back\<close>

definition stored_event :: "rat option \<Rightarrow> action_event \<Rightarrow> action_event" where
  "stored_event cover e =
     (let a = ev_action e; p = ac_provenance a
      in e\<lparr>ev_action := a\<lparr>ac_target := sort_key fst (ac_target a), ac_days_of_cover := cover,
             ac_provenance := p\<lparr>pr_capability_versions := sort_key fst (pr_capability_versions p),
                                 pr_thresholds := sort_key fst (pr_thresholds p)\<rparr>\<rparr>\<rparr>)"

lemma parameters_cover: "aw_days_of_cover (parameters e) = ac_days_of_cover (ev_action e)"
  by (simp add: parameters_def Let_def)

lemma round_half_away_close: "\<bar>of_int (round_half_away x) - x\<bar> \<le> 1 / 2"
proof -
  have f: "of_int \<lfloor>y\<rfloor> \<le> y" "y < of_int \<lfloor>y\<rfloor> + 1" for y :: rat by linarith+
  have "\<bar>- of_int \<lfloor>- x + 1 / 2\<rfloor> - x\<bar> \<le> 1 / 2" "\<bar>of_int \<lfloor>x + 1 / 2\<rfloor> - x\<bar> \<le> 1 / 2"
    using f [of "- x + 1 / 2"] f [of "x + 1 / 2"] unfolding abs_le_iff by linarith+
  then show ?thesis by (simp add: round_half_away_def)
qed

lemma round_half_away_int [simp]: "round_half_away (of_int n) = n"
  using round_half_away_close [of "of_int n"] by linarith

lemma round_half_away_nonneg: "0 \<le> x \<Longrightarrow> 0 \<le> round_half_away x"
  by (simp add: round_half_away_def)

lemma stored_cover_close:
  assumes "stored_cover x = Inr cover"
  shows "case x of None \<Rightarrow> cover = None
    | Some c \<Rightarrow> \<exists>d. cover = Some d \<and> \<bar>d - c\<bar> \<le> 1 / 2000 \<and> (\<forall>n. c = dec_of_numeric n \<longrightarrow> d = c)"
proof (cases x)
  case None
  then show ?thesis using assms by (simp add: stored_cover_def)
next
  case (Some c)
  then have d: "cover = Some (dec_of_numeric (round_half_away (c * 1000)))"
    using assms by (auto simp: stored_cover_def to_numeric_14_3_def Let_def split: if_splits)
  have "\<bar>dec_of_numeric (round_half_away (c * 1000)) - c\<bar> \<le> 1 / 2000"
    using round_half_away_close [of "c * 1000"] by (simp add: dec_of_numeric_def field_simps abs_le_iff)
  moreover have "dec_of_numeric (round_half_away (c * 1000)) = c" if "c = dec_of_numeric n" for n
    using that by (simp add: dec_of_numeric_def)
  ultimately show ?thesis using Some d by auto
qed

lemma stored_cover_sign: "stored_cover x = Inr cover \<Longrightarrow> \<not> negative x \<Longrightarrow> \<not> negative cover"
  using round_half_away_nonneg
  by (auto simp: stored_cover_def to_numeric_14_3_def Let_def negative_def dec_of_numeric_def not_less
      split: option.splits if_splits)

lemma values_of [simp]: "verb_of (verb_value v) = Inr v" "arm_of (arm_value a) = Inr a"
  by (cases v, simp add: verb_of_def verb_value_def) (cases a; simp add: arm_of_def arm_value_def)

lemma sort_key_Nil_iff [simp]: "sort_key f xs = [] \<longleftrightarrow> xs = []"
  by (metis length_0_conv length_sort)

lemma project_stored:
  assumes "mk_action_event e = Inr e" "mk_action (ev_action e) = Inr (ev_action e)"
    "mk_provenance (ac_provenance (ev_action e)) = Inr (ac_provenance (ev_action e))" "\<not> negative cover"
  shows "project_action ((parameters e)\<lparr>aw_days_of_cover := cover\<rparr>) = Inr (stored_event cover e)"
  using assms
  by (simp add: project_action_def parameters_def Let_def mk_provenance_def mk_action_def mk_action_event_def
      bind_res_Inr_iff raise_if_def stored_event_def split: if_splits)

text \<open>
  C25 (roundtrip). An event written to the action log reads back as itself, its dictionaries in
  key order, except for the days of cover: the column keeps three decimals, and what is read back
  lies within half a thousandth of what was proposed. A cover of at most three decimals, or none,
  comes back unchanged.
\<close>

theorem action_log_roundtrip:
  assumes "insert_action tenant e rows = (Inr True, rows')"
    and valid: "mk_action_event e = Inr e" "mk_action (ev_action e) = Inr (ev_action e)"
      "mk_provenance (ac_provenance (ev_action e)) = Inr (ac_provenance (ev_action e))"
  shows "\<exists>r cover. rows' = rows @ [r] \<and> project_action r = Inr (stored_event cover e) \<and>
    (case ac_days_of_cover (ev_action e) of
       None \<Rightarrow> cover = None
     | Some c \<Rightarrow> \<exists>d. cover = Some d \<and> \<bar>d - c\<bar> \<le> 1 / 2000 \<and> (\<forall>n. c = dec_of_numeric n \<longrightarrow> d = c))"
proof -
  obtain cover where cover: "stored_cover (ac_days_of_cover (ev_action e)) = Inr cover"
    and "rows' = add_action ((parameters e)\<lparr>aw_days_of_cover := cover\<rparr>) rows" "rows' \<noteq> rows"
    using assms(1) by (auto simp: insert_action_def Let_def parameters_cover split: sum.splits if_splits)
  then have rows': "rows' = rows @ [(parameters e)\<lparr>aw_days_of_cover := cover\<rparr>]"
    by (auto simp: add_action_def split: if_splits)
  have "\<not> negative (ac_days_of_cover (ev_action e))" using valid(2) by (simp add: mk_action_def bind_res_Inr_iff)
  note c = stored_cover_close [OF cover] stored_cover_sign [OF cover this]
  show ?thesis
    using rows' c(1) project_stored [OF valid c(2)] by blast
qed


lemma action_log_roundtrip_witness:
  "\<exists>r d. snd (insert_action 1 \<lparr>ev_event_id = 5, ev_recorded_at = Aware 0, ev_action = demo_action, ev_supersedes = None\<rparr> []) = [r] \<and>
    project_action r = Inr (stored_event (Some d)
      \<lparr>ev_event_id = 5, ev_recorded_at = Aware 0, ev_action = demo_action, ev_supersedes = None\<rparr>) \<and> \<bar>d - 5 / 3\<bar> \<le> 1 / 2000"
proof -
  let ?e = "\<lparr>ev_event_id = 5, ev_recorded_at = Aware 0, ev_action = demo_action, ev_supersedes = None\<rparr>"
  obtain r where "insert_action 1 ?e [] = (Inr True, [r])"
    using insert_action_storable [OF demo_storable, of 5 "Aware 0" "[]"] by (auto simp: add_action_def)
  moreover have "mk_action_event ?e = Inr ?e" "mk_action (ev_action ?e) = Inr (ev_action ?e)"
      "mk_provenance (ac_provenance (ev_action ?e)) = Inr (ac_provenance (ev_action ?e))"
    by (simp_all add: mk_action_event_def mk_action_def mk_provenance_def raise_if_def demo_action_def negative_def finding_target_def)
  ultimately show ?thesis
    using action_log_roundtrip [of 1 ?e "[]" "[r]"] by (auto simp: demo_action_def)
qed

end
