(* ===== verification/Axon_Delivery.thy ===== *)
theory Axon_Delivery
  imports Complex_Main Json_Text Effects Unique_Ledger
begin

text \<open>
  Axon's send path (\<open>axon/src/axon\<close>): the channel vocabulary and the message (\<open>channel.py\<close>), the
  queue envelope (\<open>envelope.py\<close>), the SendGrid adapter (\<open>sendgrid.py\<close>), the platform ledger with
  its constraints (\<open>ledger.py\<close>, \<open>deliveries.sql\<close>) and \<open>send_platform\<close> (\<open>send.py\<close>).

  A field of an envelope holds whatever JSON value the message carried: nothing checks its type
  before the provider and the database see it. The environment decides what the provider answers
  and what becomes of each statement; the world is the ledger and the payloads the provider took.
\<close>

section \<open>Channels, messages and envelopes\<close>

datatype channel = EMAIL | WHATSAPP | SMS

definition channel_str :: "channel \<Rightarrow> string" where
  "channel_str c = (case c of EMAIL \<Rightarrow> ''email'' | WHATSAPP \<Rightarrow> ''whatsapp'' | SMS \<Rightarrow> ''sms'')"

definition channel_of :: "json \<Rightarrow> channel option" where
  "channel_of v =
     (if v = JStr ''email'' then Some EMAIL else if v = JStr ''whatsapp'' then Some WHATSAPP
      else if v = JStr ''sms'' then Some SMS else None)"

record message =
  ms_channel :: channel
  ms_recipient :: json
  ms_body :: json
  ms_subject :: json

record send_requested =
  sr_delivery_id :: uuid
  sr_channel :: channel
  sr_recipient :: json
  sr_subject :: json
  sr_body :: json
  sr_notification_class :: json
  sr_subject_kind :: json
  sr_subject_id :: json
  sr_actor_subject :: json
  sr_schema_version :: int

definition SCHEMA_VERSION :: int where
  "SCHEMA_VERSION = 1"

text \<open>What Python reads in a float literal: its value, none for NaN and the infinities.\<close>

type_synonym float_value = "string \<Rightarrow> rat option"

definition py_truthy :: "float_value \<Rightarrow> json \<Rightarrow> bool" where
  "py_truthy fv v =
     (case v of JNull \<Rightarrow> False | JBool b \<Rightarrow> b | JInt n \<Rightarrow> n \<noteq> 0 | JFloat t \<Rightarrow> fv t \<noteq> Some 0
      | JStr s \<Rightarrow> s \<noteq> [] | JList vs \<Rightarrow> vs \<noteq> [] | JDict kvs \<Rightarrow> kvs \<noteq> [])"

text \<open>\<open>version == 1\<close>: \<open>True\<close> and \<open>1.0\<close> are equal to 1 as well.\<close>

definition equals_int :: "float_value \<Rightarrow> json \<Rightarrow> int \<Rightarrow> bool" where
  "equals_int fv v n =
     (case v of JInt m \<Rightarrow> m = n | JBool b \<Rightarrow> (if b then 1 else 0) = n | JFloat t \<Rightarrow> fv t = Some (of_int n) | _ \<Rightarrow> False)"

definition envelope_json :: "send_requested \<Rightarrow> json" where
  "envelope_json e =
     JDict
       [(''actor_subject'', sr_actor_subject e), (''body'', sr_body e), (''channel'', JStr (channel_str (sr_channel e))),
        (''delivery_id'', JStr (uuid_str (sr_delivery_id e))), (''notification_class'', sr_notification_class e),
        (''recipient'', sr_recipient e), (''schema_version'', JInt (sr_schema_version e)), (''subject'', sr_subject e),
        (''subject_id'', sr_subject_id e), (''subject_kind'', sr_subject_kind e)]"

text \<open>ASCII text, which is its own UTF-8.\<close>

definition to_json :: "(string \<Rightarrow> string) \<Rightarrow> send_requested \<Rightarrow> string" where
  "to_json float_repr e = json_text float_repr (envelope_json e)"

text \<open>UTF-8 up to U+00FF; other sequences are invalid or outside the model.\<close>

fun utf8_decode :: "string \<Rightarrow> string option" where
  "utf8_decode [] = Some []"
| "utf8_decode (c # cs) =
     (if c < CHR 0x80 then map_option ((#) c) (utf8_decode cs)
      else if c = CHR 0xC2 \<or> c = CHR 0xC3 then
        (case cs of
           [] \<Rightarrow> None
         | d # r \<Rightarrow>
             if CHR 0x80 \<le> d \<and> d < CHR 0xC0
             then map_option ((#) (char_of ((of_char c - 192) * 64 + (of_char d - 128 :: nat)))) (utf8_decode r)
             else None)
      else None)"

datatype envelope_error = Unreadable | NotAnObject | WrongVersion | MissingField string | BadDeliveryId | BadChannel

definition payload_field :: "json dict \<Rightarrow> string \<Rightarrow> envelope_error + json" where
  "payload_field d k = (case map_of d k of None \<Rightarrow> Inl (MissingField k) | Some v \<Rightarrow> Inr v)"

definition uuid_of :: "json \<Rightarrow> uuid option" where
  "uuid_of v = (case v of JStr s \<Rightarrow> uuid_parse s | _ \<Rightarrow> None)"

definition from_json :: "float_value \<Rightarrow> string \<Rightarrow> envelope_error + send_requested" where
  "from_json fv raw =
     (case Option.bind (utf8_decode raw) json_loads of
        None \<Rightarrow> Inl Unreadable
      | Some (JDict payload) \<Rightarrow>
          bind_res (raise_if (case map_of payload ''schema_version'' of
                                None \<Rightarrow> True | Some v \<Rightarrow> \<not> equals_int fv v SCHEMA_VERSION) WrongVersion) (\<lambda>_.
          bind_res (payload_field payload ''delivery_id'') (\<lambda>i.
          bind_res (case uuid_of i of None \<Rightarrow> Inl BadDeliveryId | Some u \<Rightarrow> Inr u) (\<lambda>delivery_id.
          bind_res (payload_field payload ''channel'') (\<lambda>c.
          bind_res (case channel_of c of None \<Rightarrow> Inl BadChannel | Some k \<Rightarrow> Inr k) (\<lambda>channel.
          bind_res (payload_field payload ''recipient'') (\<lambda>recipient.
          bind_res (payload_field payload ''subject'') (\<lambda>subject.
          bind_res (payload_field payload ''body'') (\<lambda>body.
          bind_res (payload_field payload ''notification_class'') (\<lambda>notification_class.
          bind_res (payload_field payload ''subject_kind'') (\<lambda>subject_kind.
          bind_res (payload_field payload ''subject_id'') (\<lambda>subject_id.
          Inr \<lparr>sr_delivery_id = delivery_id, sr_channel = channel, sr_recipient = recipient, sr_subject = subject,
               sr_body = body, sr_notification_class = notification_class, sr_subject_kind = subject_kind,
               sr_subject_id = subject_id,
               sr_actor_subject = (case map_of payload ''actor_subject'' of None \<Rightarrow> JNull | Some v \<Rightarrow> v),
               sr_schema_version = SCHEMA_VERSION\<rparr>)))))))))))
      | Some _ \<Rightarrow> Inl NotAnObject)"

section \<open>The ledger\<close>

datatype delivery_state = ACCEPTED | FAILED | SUPPRESSED

record delivery_record =
  dr_delivery_id :: uuid
  dr_created_at :: int
  dr_channel :: string
  dr_notification_class :: json
  dr_subject_kind :: json
  dr_subject_id :: json
  dr_recipient :: json
  dr_state :: delivery_state
  dr_provider :: string
  dr_failure_detail :: "string option"
  dr_actor_subject :: json

text \<open>A row. No delivery of this path is suppressed, so the reason column stays NULL.\<close>

record delivery =
  dl_delivery_id :: uuid
  dl_created_at :: int
  dl_channel :: string
  dl_notification_class :: string
  dl_subject_kind :: string
  dl_subject_id :: string
  dl_recipient :: string
  dl_state :: delivery_state
  dl_provider :: string
  dl_failure_detail :: "string option"
  dl_actor_subject :: "string option"

text \<open>\<open>VARCHAR(n)\<close>: what is too long is refused, unless the excess is blank.\<close>

definition varchar :: "nat \<Rightarrow> string \<Rightarrow> string option" where
  "varchar n s =
     (if length s \<le> n then Some s else if list_all (\<lambda>c. c = CHR 0x20) (drop n s) then Some (take n s) else None)"

text \<open>A bound parameter in a text column: \<open>None\<close> when the driver or the server refuses it,
  \<open>Some None\<close> for NULL. What becomes of a value that is not a string is a parameter.\<close>

definition bind_text :: "(json \<Rightarrow> string option) \<Rightarrow> json \<Rightarrow> string option option" where
  "bind_text cast v =
     (case v of
        JNull \<Rightarrow> Some None
      | JStr s \<Rightarrow> if CHR 0x00 \<in> set s then None else Some (Some s)
      | _ \<Rightarrow> map_option Some (cast v))"

definition not_null :: "(json \<Rightarrow> string option) \<Rightarrow> json \<Rightarrow> string option" where
  "not_null cast v = Option.bind (bind_text cast v) (\<lambda>x. x)"

text \<open>The row a record becomes, when every column takes its value and the CHECK constraints hold.\<close>

definition delivery_row :: "(json \<Rightarrow> string option) \<Rightarrow> delivery_record \<Rightarrow> delivery option" where
  "delivery_row cast r =
     Option.bind (Option.bind (not_null cast (dr_notification_class r)) (varchar 64)) (\<lambda>notification_class.
     Option.bind (Option.bind (not_null cast (dr_subject_kind r)) (varchar 32)) (\<lambda>subject_kind.
     Option.bind (not_null cast (dr_subject_id r)) (\<lambda>subject_id.
     Option.bind (not_null cast (dr_recipient r)) (\<lambda>recipient.
     Option.bind (varchar 32 (dr_provider r)) (\<lambda>provider.
     Option.bind (bind_text cast (dr_actor_subject r)) (\<lambda>actor_subject.
     if dr_channel r = ''email'' \<and> dr_state r \<noteq> SUPPRESSED
     then Some \<lparr>dl_delivery_id = dr_delivery_id r, dl_created_at = dr_created_at r, dl_channel = dr_channel r,
                dl_notification_class = notification_class, dl_subject_kind = subject_kind, dl_subject_id = subject_id,
                dl_recipient = recipient, dl_state = dr_state r, dl_provider = provider,
                dl_failure_detail = dr_failure_detail r, dl_actor_subject = actor_subject\<rparr>
     else None))))))"

text \<open>What a database error says of itself: the SQLSTATE and the constraint.\<close>

record db_error =
  de_sqlstate :: "string option"
  de_constraint :: "string option"

definition is_duplicate_delivery :: "db_error \<Rightarrow> bool" where
  "is_duplicate_delivery e \<longleftrightarrow>
     (if de_sqlstate e \<noteq> Some ''23505'' then False else de_constraint e = Some ''pk_platform_deliveries'')"

definition add_delivery :: "delivery \<Rightarrow> delivery list \<Rightarrow> delivery list" where
  "add_delivery d rows = (if dl_delivery_id d \<in> dl_delivery_id ` set rows then rows else rows @ [d])"

interpretation delivery_ledger: claiming_ledger add_delivery dl_delivery_id
  by unfold_locales (auto simp: add_delivery_def split: if_splits)

definition insert_platform ::
  "(json \<Rightarrow> string option) \<Rightarrow> delivery_record \<Rightarrow> delivery list \<Rightarrow> (db_error + unit) \<times> delivery list" where
  "insert_platform cast r rows =
     (case delivery_row cast r of
        None \<Rightarrow> (Inl \<lparr>de_sqlstate = Some ''22000'', de_constraint = None\<rparr>, rows)
      | Some d \<Rightarrow>
          if dl_delivery_id d \<in> dl_delivery_id ` set rows
          then (Inl \<lparr>de_sqlstate = Some ''23505'', de_constraint = Some ''pk_platform_deliveries''\<rparr>, rows)
          else (Inr (), add_delivery d rows))"

section \<open>Environment and world\<close>

text \<open>What the call of the provider comes to. \<open>Answer 202\<close> is acceptance; a transport error is
  raised before the provider has the message or after it took it.\<close>

datatype provider_answer = Answer int | TransportLost | TransportLate | ProviderEscapes | ProviderDies | ProviderLateDies

text \<open>What becomes of the ledger's session: it runs; the server fails it with an error of its own;
  the connection is lost before or after the commit; an exception that is no \<open>DBAPIError\<close> leaves it
  (the posture guard, a pool timeout); the process dies before or after the commit.\<close>

datatype db_fate = DbRuns | DbFails "string option" "string option" | DbLost | DbLate | DbEscapes | DbDies | DbLateDies

record axon_env =
  ax_answer :: "nat \<Rightarrow> provider_answer"
  ax_db :: "nat \<Rightarrow> db_fate"
  ax_queue :: "nat \<Rightarrow> fault"
  ax_now :: "nat \<Rightarrow> int"
  ax_float :: float_value
  ax_cast :: "json \<Rightarrow> string option"

record axon_world =
  aw_tick :: nat
  aw_ledger :: "delivery list"
  aw_taken :: "json list"     \<comment> \<open>the payloads the provider accepted\<close>
  aw_acked :: "string list"   \<comment> \<open>the bodies of acknowledged messages\<close>

datatype axon_exn = ChannelSendError string | LedgerWriteError | Escaped | Killed

type_synonym 'a axio = "(axon_exn, axon_world, 'a) eff"

abbreviation ticked :: "axon_world \<Rightarrow> axon_world" where
  "ticked w \<equiv> w\<lparr>aw_tick := Suc (aw_tick w)\<rparr>"

section \<open>The SendGrid adapter\<close>

record adapter =
  ad_provider :: string
  ad_send :: "message \<Rightarrow> unit axio"

definition sendgrid_payload :: "string \<Rightarrow> message \<Rightarrow> json" where
  "sendgrid_payload from_email m =
     JDict
       [(''personalizations'', JList [JDict [(''to'', JList [JDict [(''email'', ms_recipient m)]])]]),
        (''from'', JDict [(''email'', JStr from_email)]),
        (''subject'', ms_subject m),
        (''content'', JList [JDict [(''type'', JStr ''text/plain''), (''value'', ms_body m)]]),
        (''tracking_settings'',
          JDict [(''click_tracking'', JDict [(''enable'', JBool False), (''enable_text'', JBool False)]),
                 (''open_tracking'', JDict [(''enable'', JBool False)])])]"

definition post :: "axon_env \<Rightarrow> json \<Rightarrow> unit axio" where
  "post env payload w =
     (let took = (ticked w)\<lparr>aw_taken := aw_taken w @ [payload]\<rparr>
      in case ax_answer env (aw_tick w) of
           Answer code \<Rightarrow>
             if code = 202 then (Inr (), took)
             else (Inl (ChannelSendError (''SendGrid returned '' @ py_str_int code)), ticked w)
         | TransportLost \<Rightarrow> (Inl (ChannelSendError ''SendGrid transport error''), ticked w)
         | TransportLate \<Rightarrow> (Inl (ChannelSendError ''SendGrid transport error''), took)
         | ProviderEscapes \<Rightarrow> (Inl Escaped, ticked w)
         | ProviderDies \<Rightarrow> (Inl Killed, ticked w)
         | ProviderLateDies \<Rightarrow> (Inl Killed, took))"

definition sendgrid_send :: "axon_env \<Rightarrow> string \<Rightarrow> message \<Rightarrow> unit axio" where
  "sendgrid_send env from_email m =
     (if ms_channel m \<noteq> EMAIL then throw (ChannelSendError ''it serves email only'')
      else if \<not> py_truthy (ax_float env) (ms_subject m) then throw (ChannelSendError ''an email message needs a subject'')
      else post env (sendgrid_payload from_email m))"

text \<open>The constructor's guards.\<close>

definition sendgrid_adapter :: "axon_env \<Rightarrow> string \<Rightarrow> string \<Rightarrow> axon_exn + adapter" where
  "sendgrid_adapter env api_key from_email =
     bind_res (raise_if (api_key = []) (ChannelSendError ''SendGridEmailAdapter requires an API key'')) (\<lambda>_.
     bind_res (raise_if (from_email = []) (ChannelSendError ''SendGridEmailAdapter requires a from-address'')) (\<lambda>_.
     Inr \<lparr>ad_provider = ''sendgrid'', ad_send = sendgrid_send env from_email\<rparr>))"

section \<open>Recording and sending\<close>

definition record_platform_delivery :: "axon_env \<Rightarrow> delivery_record \<Rightarrow> bool axio" where
  "record_platform_delivery env r w =
     (case insert_platform (ax_cast env) r (aw_ledger w) of (result, rows) \<Rightarrow>
        let committed = (ticked w)\<lparr>aw_ledger := rows\<rparr>;
            handled = (\<lambda>e. if is_duplicate_delivery e then Inr False else Inl LedgerWriteError)
        in case ax_db env (aw_tick w) of
             DbRuns \<Rightarrow> (case result of Inl e \<Rightarrow> handled e | Inr _ \<Rightarrow> Inr True, committed)
           | DbFails sqlstate constraint \<Rightarrow> (handled \<lparr>de_sqlstate = sqlstate, de_constraint = constraint\<rparr>, ticked w)
           | DbLost \<Rightarrow> (handled \<lparr>de_sqlstate = None, de_constraint = None\<rparr>, ticked w)
           | DbLate \<Rightarrow> (handled \<lparr>de_sqlstate = None, de_constraint = None\<rparr>, committed)
           | DbEscapes \<Rightarrow> (Inl Escaped, ticked w)
           | DbDies \<Rightarrow> (Inl Killed, ticked w)
           | DbLateDies \<Rightarrow> (Inl Killed, committed))"

record send_outcome =
  so_state :: delivery_state
  so_recorded :: bool
  so_detail :: "string option"
  so_duplicate :: bool

text \<open>\<open>except ChannelSendError\<close> and \<open>except LedgerWriteError\<close>; the detail of the latter is the
  text of the error.\<close>

definition catch_send_error :: "'a axio \<Rightarrow> (string \<Rightarrow> 'a axio) \<Rightarrow> 'a axio" where
  "catch_send_error m h = catch_eff m (\<lambda>e. case e of ChannelSendError d \<Rightarrow> h d | _ \<Rightarrow> throw e)"

definition catch_write_error :: "'a axio \<Rightarrow> 'a axio \<Rightarrow> 'a axio" where
  "catch_write_error m h = catch_eff m (\<lambda>e. case e of LedgerWriteError \<Rightarrow> h | _ \<Rightarrow> throw e)"

definition send_platform ::
  "axon_env \<Rightarrow> adapter \<Rightarrow> message \<Rightarrow> uuid \<Rightarrow> json \<Rightarrow> json \<Rightarrow> json \<Rightarrow> json \<Rightarrow> send_outcome axio" where
  "send_platform env adapter message delivery_id notification_class subject_kind subject_id actor_subject =
     (\<lambda>w0. let created_at = ax_now env (aw_tick w0) in
      bind_eff (catch_send_error (bind_eff (ad_send adapter message) (\<lambda>_. ret (ACCEPTED, None)))
                  (\<lambda>detail. ret (FAILED, Some detail))) (\<lambda>(state, failure_detail).
      catch_write_error
        (bind_eff (record_platform_delivery env
             \<lparr>dr_delivery_id = delivery_id, dr_created_at = created_at,
              dr_channel = channel_str (ms_channel message), dr_notification_class = notification_class,
              dr_subject_kind = subject_kind, dr_subject_id = subject_id, dr_recipient = ms_recipient message,
              dr_state = state, dr_provider = ad_provider adapter, dr_failure_detail = failure_detail,
              dr_actor_subject = actor_subject\<rparr>) (\<lambda>was_new.
         ret \<lparr>so_state = state, so_recorded = True, so_detail = failure_detail, so_duplicate = \<not> was_new\<rparr>))
        (ret \<lparr>so_state = state, so_recorded = False,
              so_detail = Some (''the delivery ledger write failed for '' @ uuid_str delivery_id),
              so_duplicate = False\<rparr>)) w0)"

end
