(* ===== verification/Axon_Sender.thy ===== *)
theory Axon_Sender
  imports Axon_Delivery
begin

text \<open>
  The sender service (\<open>axon-sender/src/axon_sender/subscriber.py\<close>): routing of one message, one
  pull pass, and what the loop keeps true of the ledger over any sequence of passes.
\<close>

section \<open>The service\<close>

datatype axon_decision = Ack | Nack

definition axon_process_message :: "axon_env \<Rightarrow> adapter \<Rightarrow> string \<Rightarrow> axon_decision axio" where
  "axon_process_message env adapter raw =
     (case from_json (ax_float env) raw of
        Inl _ \<Rightarrow> ret Nack
      | Inr e \<Rightarrow>
          if sr_channel e \<noteq> EMAIL then ret Nack
          else bind_eff (send_platform env adapter
                 \<lparr>ms_channel = sr_channel e, ms_recipient = sr_recipient e, ms_body = sr_body e, ms_subject = sr_subject e\<rparr>
                 (sr_delivery_id e) (sr_notification_class e) (sr_subject_kind e) (sr_subject_id e) (sr_actor_subject e))
               (\<lambda>outcome. ret (if so_recorded outcome then Ack else Nack)))"

text \<open>The messages of a pull, as acknowledgement ids with bodies, parted by decision.\<close>

type_synonym pulled = "(string \<times> string) list"

fun route :: "axon_env \<Rightarrow> adapter \<Rightarrow> pulled \<Rightarrow> (pulled \<times> pulled) axio" where
  "route env adapter [] = ret ([], [])"
| "route env adapter (m # ms) =
     bind_eff (axon_process_message env adapter (snd m)) (\<lambda>decision.
     bind_eff (route env adapter ms) (\<lambda>(acks, nacks).
     ret (if decision = Ack then (m # acks, nacks) else (acks, m # nacks))))"

definition queue_call :: "axon_env \<Rightarrow> (axon_world \<Rightarrow> axon_world) \<Rightarrow> unit axio" where
  "queue_call env f w =
     (case ax_queue env (aw_tick w) of
        Fine \<Rightarrow> (Inr (), ticked (f w))
      | Lost \<Rightarrow> (Inl Escaped, ticked w)
      | Late \<Rightarrow> (Inl Escaped, ticked (f w))
      | Crash \<Rightarrow> (Inl Killed, ticked w)
      | LateCrash \<Rightarrow> (Inl Killed, ticked (f w)))"

definition acknowledge :: "axon_env \<Rightarrow> pulled \<Rightarrow> unit axio" where
  "acknowledge env acks = queue_call env (\<lambda>w. w\<lparr>aw_acked := aw_acked w @ map snd acks\<rparr>)"

definition axon_poll_once :: "axon_env \<Rightarrow> adapter \<Rightarrow> pulled \<Rightarrow> nat axio" where
  "axon_poll_once env adapter received =
     bind_eff (route env adapter received) (\<lambda>(acks, nacks).
     bind_eff (if acks = [] then ret () else acknowledge env acks) (\<lambda>_.
     bind_eff (if nacks = [] then ret () else queue_call env (\<lambda>w. w)) (\<lambda>_.
     ret (length received))))"

text \<open>Any number of passes over any messages: an exception of a pass is swallowed by the loop, a
  dead process is started again.\<close>

definition no_deliveries :: axon_world where
  "no_deliveries = \<lparr>aw_tick = 0, aw_ledger = [], aw_taken = [], aw_acked = []\<rparr>"

inductive sender_reachable :: "axon_env \<Rightarrow> adapter \<Rightarrow> axon_world \<Rightarrow> bool" for env adapter where
  start: "sender_reachable env adapter no_deliveries"
| pass: "sender_reachable env adapter w \<Longrightarrow> sender_reachable env adapter (snd (axon_poll_once env adapter received w))"

section \<open>What a message does to the ledger\<close>

text \<open>Only the primary key's own refusal names it.\<close>

definition honest_db :: "axon_env \<Rightarrow> bool" where
  "honest_db env \<longleftrightarrow> (\<forall>n sqlstate constraint. ax_db env n = DbFails sqlstate constraint \<longrightarrow>
     \<not> is_duplicate_delivery \<lparr>de_sqlstate = sqlstate, de_constraint = constraint\<rparr>)"

definition delivery_ids :: "axon_world \<Rightarrow> uuid set" where
  "delivery_ids w = dl_delivery_id ` set (aw_ledger w)"

definition ledger_step :: "axon_world \<Rightarrow> axon_world \<Rightarrow> bool" where
  "ledger_step w t \<longleftrightarrow>
     (\<exists>new. aw_ledger t = aw_ledger w @ new) \<and>
     (distinct (map dl_delivery_id (aw_ledger w)) \<longrightarrow> distinct (map dl_delivery_id (aw_ledger t))) \<and>
     aw_acked t = aw_acked w"

lemma ledger_step_refl [simp]: "ledger_step w w"
  by (simp add: ledger_step_def)

lemma ledger_step_trans: "ledger_step u v \<Longrightarrow> ledger_step v w \<Longrightarrow> ledger_step u w"
  by (auto simp: ledger_step_def)

lemma ledger_step_ids: "ledger_step w t \<Longrightarrow> delivery_ids w \<subseteq> delivery_ids t"
  by (auto simp: ledger_step_def delivery_ids_def)

lemma delivery_row_id: "delivery_row cast r = Some d \<Longrightarrow> dl_delivery_id d = dr_delivery_id r"
  by (auto simp: delivery_row_def split: Option.bind_splits if_splits)

lemma insert_platform_cases:
  assumes "insert_platform cast r rows = (x, rows')"
  shows "rows' = rows \<or> (\<exists>d. dl_delivery_id d = dr_delivery_id r \<and> rows' = add_delivery d rows)"
    "x = Inr () \<or> (\<exists>e. x = Inl e \<and> is_duplicate_delivery e) \<Longrightarrow> dr_delivery_id r \<in> dl_delivery_id ` set rows'"
proof -
  show "rows' = rows \<or> (\<exists>d. dl_delivery_id d = dr_delivery_id r \<and> rows' = add_delivery d rows)"
    using assms by (auto simp: insert_platform_def split: option.splits if_splits dest: delivery_row_id)
  assume x: "x = Inr () \<or> (\<exists>e. x = Inl e \<and> is_duplicate_delivery e)"
  then obtain d where d: "delivery_row cast r = Some d" and rows': "rows' = add_delivery d rows"
    using assms by (auto simp: insert_platform_def is_duplicate_delivery_def add_delivery_def split: option.splits if_splits)
  show "dr_delivery_id r \<in> dl_delivery_id ` set rows'"
    using delivery_ledger.key_claimed [of d rows] delivery_row_id [OF d] by (simp add: rows')
qed

lemma ledger_step_add: "ledger_step w (w\<lparr>aw_ledger := add_delivery d (aw_ledger w), aw_tick := n\<rparr>)"
  using delivery_ledger.add_prefix [of d "aw_ledger w"] delivery_ledger.distinct_add
  by (auto simp: ledger_step_def)

lemma ledger_step_tick: "ledger_step w (w\<lparr>aw_tick := n\<rparr>)" "ledger_step w (w\<lparr>aw_taken := p, aw_tick := n\<rparr>)"
  by (simp_all add: ledger_step_def)

abbreviation steps :: "axon_world \<Rightarrow> 'a axio \<Rightarrow> ('a \<Rightarrow> axon_world \<Rightarrow> bool) \<Rightarrow> bool" where
  "steps w0 m Q \<equiv> triple (ledger_step w0) m (\<lambda>x t. ledger_step w0 t \<and> Q x t) (\<lambda>_ t. ledger_step w0 t)"

lemma record_steps:
  assumes "honest_db env"
  shows "steps w0 (record_platform_delivery env r) (\<lambda>_ t. dr_delivery_id r \<in> delivery_ids t)"
proof (rule tripleI)
  have *: "ledger_step w0 t \<and> (\<forall>b. x = Inr b \<longrightarrow> dr_delivery_id r \<in> delivery_ids t)"
    if w: "ledger_step w0 w" and run: "record_platform_delivery env r w = (x, t)" for w x t
  proof -
    obtain y rows where ins: "insert_platform (ax_cast env) r (aw_ledger w) = (y, rows)" by fastforce
    note c = insert_platform_cases [OF ins]
    have step: "ledger_step w ((ticked w)\<lparr>aw_ledger := rows\<rparr>)"
      using c(1) ledger_step_add [of w] by (auto simp: ledger_step_def)
    have "ledger_step w t"
      using run step ledger_step_tick(1) [of w]
      by (auto simp: record_platform_delivery_def ins Let_def split: db_fate.splits)
    moreover have "dr_delivery_id r \<in> delivery_ids t" if "x = Inr b" for b
      using run that c(2) assms
      by (auto simp: record_platform_delivery_def ins Let_def honest_db_def is_duplicate_delivery_def delivery_ids_def
          split: db_fate.splits sum.splits if_splits)
    ultimately show ?thesis using ledger_step_trans [OF w] by blast
  qed
  show "ledger_step w0 t" if "ledger_step w0 w" "record_platform_delivery env r w = (Inl e, t)" for w e t
    using * [OF that] by blast
  show "ledger_step w0 t \<and> dr_delivery_id r \<in> delivery_ids t"
    if "ledger_step w0 w" "record_platform_delivery env r w = (Inr b, t)" for w b t
    using * [OF that] by blast
qed

definition quiet_adapter :: "adapter \<Rightarrow> bool" where
  "quiet_adapter adapter \<longleftrightarrow> (\<forall>m w. ledger_step w (snd (ad_send adapter m w)) \<and>
     aw_ledger (snd (ad_send adapter m w)) = aw_ledger w \<and> aw_acked (snd (ad_send adapter m w)) = aw_acked w)"

lemma sendgrid_quiet: "sendgrid_adapter env k from_email = Inr adapter \<Longrightarrow> quiet_adapter adapter"
  by (auto simp: sendgrid_adapter_def bind_res_Inr_iff quiet_adapter_def sendgrid_send_def post_def ledger_step_def Let_def
      split: provider_answer.split)

lemma send_steps:
  assumes "honest_db env" "quiet_adapter adapter"
  shows "steps w0 (send_platform env adapter message i c k s a) (\<lambda>out t. so_recorded out \<longrightarrow> i \<in> delivery_ids t)"
proof -
  have send: "steps w0 (ad_send adapter message) (\<lambda>_ _. True)"
    using assms(2) ledger_step_trans by (auto simp: triple_def quiet_adapter_def split: prod.split sum.split) (metis snd_conv)+
  have sent: "triple (ledger_step w0) (catch_send_error (bind_eff (ad_send adapter message) (\<lambda>_. ret (ACCEPTED, None)))
      (\<lambda>detail. ret (FAILED, Some detail))) (\<lambda>_. ledger_step w0) (\<lambda>_. ledger_step w0)"
    unfolding catch_send_error_def
    by (intro triple_catch [where R = "\<lambda>_. ledger_step w0"] triple_bind [OF send])
       (auto split: axon_exn.split intro: triple_ret triple_throw)
  have rest: "steps w0 (case x of (state, failure_detail) \<Rightarrow>
      catch_write_error
        (bind_eff (record_platform_delivery env
             \<lparr>dr_delivery_id = i, dr_created_at = created_at,
              dr_channel = channel_str (ms_channel message), dr_notification_class = c,
              dr_subject_kind = k, dr_subject_id = s, dr_recipient = ms_recipient message,
              dr_state = state, dr_provider = ad_provider adapter, dr_failure_detail = failure_detail,
              dr_actor_subject = a\<rparr>) (\<lambda>was_new.
         ret \<lparr>so_state = state, so_recorded = True, so_detail = failure_detail, so_duplicate = \<not> was_new\<rparr>))
        (ret \<lparr>so_state = state, so_recorded = False,
              so_detail = Some (''the delivery ledger write failed for '' @ uuid_str i),
              so_duplicate = False\<rparr>)) (\<lambda>out t. so_recorded out \<longrightarrow> i \<in> delivery_ids t)" for x created_at
    unfolding catch_write_error_def
    by (cases x) (auto intro!: triple_catch [where R = "\<lambda>_. ledger_step w0"] triple_bind [OF record_steps [OF assms(1)]]
        triple_ret triple_throw split: axon_exn.split)
  have "steps w0 (\<lambda>w. f (created w) w) Q" if "\<And>y. steps w0 (f y) Q" for f :: "int \<Rightarrow> send_outcome axio" and created Q
    using that by (auto simp: triple_def split: prod.split sum.split)
  note timed = this
  show ?thesis
    unfolding send_platform_def Let_def by (rule timed) (rule triple_bind [OF sent rest])
qed

lemma process_steps:
  assumes "honest_db env" "quiet_adapter adapter"
  shows "steps w0 (axon_process_message env adapter raw) (\<lambda>decision t. decision = Ack \<longrightarrow>
    (\<exists>e. from_json (ax_float env) raw = Inr e \<and> sr_channel e = EMAIL \<and> sr_delivery_id e \<in> delivery_ids t))"
proof (cases "from_json (ax_float env) raw")
  case (Inl x)
  then show ?thesis by (auto simp: axon_process_message_def intro: triple_ret)
next
  case (Inr e)
  then show ?thesis
    by (auto simp: axon_process_message_def intro!: triple_ret triple_bind [OF send_steps [OF assms]])
qed

text \<open>A message whose delivery is in the ledger.\<close>

definition evidenced :: "axon_env \<Rightarrow> axon_world \<Rightarrow> string \<Rightarrow> bool" where
  "evidenced env w raw \<longleftrightarrow>
     (\<exists>e. from_json (ax_float env) raw = Inr e \<and> sr_channel e = EMAIL \<and> sr_delivery_id e \<in> delivery_ids w)"

lemma evidenced_later: "ledger_step w t \<Longrightarrow> evidenced env w raw \<Longrightarrow> evidenced env t raw"
  using ledger_step_ids by (auto simp: evidenced_def)

text \<open>Sequencing, the later part judged from where the earlier one left the world.\<close>

lemma steps_bind:
  assumes "steps w0 m R" "\<And>x u. ledger_step w0 u \<Longrightarrow> R x u \<Longrightarrow> steps u (f x) Q"
  shows "steps w0 (bind_eff m f) Q"
proof (rule triple_bind [OF assms(1)], rule tripleI)
  show "ledger_step w0 t" if "ledger_step w0 u \<and> R x u" "f x u = (Inl e, t)" for x u e t
    using triple_Inl [OF assms(2) _ that(2)] that(1) ledger_step_trans by (metis ledger_step_refl)
  show "ledger_step w0 t \<and> Q y t" if "ledger_step w0 u \<and> R x u" "f x u = (Inr y, t)" for x u y t
    using triple_Inr [OF assms(2) _ that(2)] that(1) ledger_step_trans by (metis ledger_step_refl)
qed

lemma route_steps:
  assumes "honest_db env" "quiet_adapter adapter"
  shows "steps w0 (route env adapter ms) (\<lambda>(acks, nacks) t. \<forall>m \<in> set acks. evidenced env t (snd m))"
proof (induction ms arbitrary: w0)
  case (Cons m ms)
  have last: "steps u (ret (if decision = Ack then (m # acks, nacks) else (acks, m # nacks)))
      (\<lambda>(acks, nacks) t. \<forall>m \<in> set acks. evidenced env t (snd m))"
    if "decision = Ack \<longrightarrow> evidenced env u (snd m)" "\<forall>m \<in> set acks. evidenced env u (snd m)" for decision acks nacks u
    using that evidenced_later by (fastforce simp: triple_def)
  show ?case
    unfolding route.simps
    by (rule steps_bind [OF process_steps [OF assms, folded evidenced_def]], rule steps_bind [OF Cons.IH])
       (auto intro!: last dest: evidenced_later)
qed (auto intro: triple_ret)

section \<open>The invariant of the service\<close>

definition sender_ok :: "axon_env \<Rightarrow> axon_world \<Rightarrow> bool" where
  "sender_ok env w \<longleftrightarrow>
     distinct (map dl_delivery_id (aw_ledger w)) \<and> (\<forall>raw \<in> set (aw_acked w). evidenced env w raw)"

text \<open>The invariant, with a ledger that only grew since \<open>w0\<close>.\<close>

definition sender_sound :: "axon_env \<Rightarrow> axon_world \<Rightarrow> axon_world \<Rightarrow> bool" where
  "sender_sound env w0 w \<longleftrightarrow> sender_ok env w \<and> prefix (aw_ledger w0) (aw_ledger w)"

lemma sender_sound_step: "sender_ok env w0 \<Longrightarrow> ledger_step w0 w \<Longrightarrow> sender_sound env w0 w"
  using evidenced_later by (fastforce simp: sender_sound_def sender_ok_def ledger_step_def)

lemma queue_keeps:
  assumes "\<And>w. sender_sound env w0 w \<Longrightarrow> P w \<Longrightarrow> sender_sound env w0 (f w)"
  shows "triple (\<lambda>w. sender_sound env w0 w \<and> P w) (queue_call env f) (\<lambda>_. sender_sound env w0) (\<lambda>_. sender_sound env w0)"
proof -
  have tick: "sender_sound env w0 (ticked w) = sender_sound env w0 w" for w
    by (simp add: sender_sound_def sender_ok_def evidenced_def delivery_ids_def)
  show ?thesis using assms by (simp add: triple_snd queue_call_def tick split: fault.split)
qed

lemma poll_sound:
  assumes "honest_db env" "quiet_adapter adapter" "sender_ok env w0"
  shows "sender_sound env w0 (snd (axon_poll_once env adapter received w0))"
proof -
  have route: "triple (ledger_step w0) (route env adapter received)
      (\<lambda>(acks, nacks) w. sender_sound env w0 w \<and> (\<forall>m \<in> set acks. evidenced env w (snd m))) (\<lambda>_. sender_sound env w0)"
    using sender_sound_step [OF assms(3)] by (intro triple_conseq [OF route_steps [OF assms(1,2)]]) auto
  have nack: "keeps (sender_sound env w0) (queue_call env (\<lambda>w. w))"
    using queue_keeps [of env w0 "\<lambda>_. True"] by simp
  have ack: "triple (\<lambda>w. sender_sound env w0 w \<and> (\<forall>m \<in> set acks. evidenced env w (snd m))) (acknowledge env acks)
      (\<lambda>_. sender_sound env w0) (\<lambda>_. sender_sound env w0)" for acks
    unfolding acknowledge_def
    by (rule queue_keeps) (auto simp: sender_sound_def sender_ok_def evidenced_def delivery_ids_def)
  have "triple (ledger_step w0) (axon_poll_once env adapter received) (\<lambda>_. sender_sound env w0) (\<lambda>_. sender_sound env w0)"
    unfolding axon_poll_once_def
  proof (rule triple_bind [OF route])
    fix x :: "pulled \<times> pulled"
    obtain acks nacks where x: "x = (acks, nacks)" by (cases x)
    have finish: "triple (\<lambda>w. sender_sound env w0 w \<and> (\<forall>m \<in> set acks. evidenced env w (snd m)))
        (if acks = [] then ret () else acknowledge env acks) (\<lambda>_. sender_sound env w0) (\<lambda>_. sender_sound env w0)"
      by (intro triple_if ack) (simp add: triple_def)
    have skip: "keeps (sender_sound env w0) (if nacks = [] then ret () else queue_call env (\<lambda>w. w))"
      by (intro triple_if nack) (simp add: triple_def)
    show "triple ((\<lambda>(acks, nacks) w. sender_sound env w0 w \<and> (\<forall>m \<in> set acks. evidenced env w (snd m))) x)
      (case x of (acks, nacks) \<Rightarrow>
         bind_eff (if acks = [] then ret () else acknowledge env acks) (\<lambda>_.
         bind_eff (if nacks = [] then ret () else queue_call env (\<lambda>w. w)) (\<lambda>_. ret (length received))))
      (\<lambda>_. sender_sound env w0) (\<lambda>_. sender_sound env w0)"
      unfolding x prod.case by (intro triple_bind [OF finish] triple_bind [OF skip]) (simp add: triple_def)
  qed
  from triple_snd [THEN iffD1, OF this] show ?thesis by simp
qed

lemma reachable_ok: "sender_reachable env adapter w \<Longrightarrow> honest_db env \<Longrightarrow> quiet_adapter adapter \<Longrightarrow> sender_ok env w"
proof (induction rule: sender_reachable.induct)
  case start
  show ?case by (simp add: sender_ok_def no_deliveries_def)
next
  case (pass w received)
  then show ?case using poll_sound [of env adapter w received] by (simp add: sender_sound_def)
qed

end
