(* ===== verification/Axon_Properties.thy ===== *)
theory Axon_Properties
  imports Axon_Sender
begin

text \<open>
  What the sender promises of its ledger and its queue, the round trip of the envelope, and the two
  ways a message is sent more often than the ledger says.
\<close>

section \<open>The envelope\<close>

lemma utf8_decode_ascii: "list_all (\<lambda>c. c < CHR 0x80) s \<Longrightarrow> utf8_decode s = Some s"
  by (induction s) simp_all

lemma json_char_ascii: "list_all (\<lambda>c. c < CHR 0x80) (json_char c)"
proof -
  have hex: "hex_digit d < CHR 0x80" if "d < 16" for d
    using hex_digit_cases(1) [OF that] by auto
  have "(of_char c :: nat) < 256" by (rule nat_of_char_less_256)
  then have "hex_digit (of_char c div 16) < CHR 0x80" "hex_digit (of_char c mod 16) < CHR 0x80"
    by (intro hex; linarith)+
  moreover have "c < CHR 0x80" if "c \<le> CHR 0x7E"
    using that by (rule le_less_trans) simp
  ultimately show ?thesis by (auto simp: json_char_def hex_text_char)
qed

lemma json_string_ascii: "list_all (\<lambda>c. c < CHR 0x80) (json_string s)"
  using json_char_ascii by (auto simp: json_string_def list_all_iff)

lemma json_member_ascii:
  "list_all (\<lambda>c. c < CHR 0x80) t \<Longrightarrow> list_all (\<lambda>c. c < CHR 0x80) (json_member (k, t))"
  using json_string_ascii by (simp add: json_member_def)

lemma uuid_of_str [simp]: "uuid_of (JStr (uuid_str u)) = Some u"
  by (simp add: uuid_of_def)

lemma channel_of_str [simp]: "channel_of (JStr (channel_str c)) = Some c"
  by (cases c) (simp_all add: channel_of_def channel_str_def)

definition plain :: "json \<Rightarrow> bool" where
  "plain v \<longleftrightarrow> v = JNull \<or> (\<exists>s. v = JStr s)"

lemma plain_text: "plain v \<Longrightarrow> wire v" "plain v \<Longrightarrow> list_all (\<lambda>c. c < CHR 0x80) (json_text fr v)"
  using json_string_ascii by (auto simp: plain_def)

lemma read_written:
  assumes "sr_schema_version e = SCHEMA_VERSION"
    and "list_all plain [sr_recipient e, sr_subject e, sr_body e, sr_notification_class e, sr_subject_kind e,
      sr_subject_id e, sr_actor_subject e]"
  shows "from_json fv (to_json float_repr e) = Inr e"
proof -
  have "wire (envelope_json e)" using assms(2) plain_text(1) by (simp add: envelope_json_def less_list_code)
  then have loads: "json_loads (to_json float_repr e) = Some (envelope_json e)" by (simp add: to_json_def json_loads_text)
  have "list_all (\<lambda>c. c < CHR 0x80) (to_json float_repr e)"
  proof -
    have "list_all (\<lambda>c. c < CHR 0x80) (py_str_int 1)" by code_simp
    then show ?thesis using assms plain_text(2) json_string_ascii json_member_ascii
      by (simp add: to_json_def envelope_json_def SCHEMA_VERSION_def)
  qed
  then have "utf8_decode (to_json float_repr e) = Some (to_json float_repr e)" by (rule utf8_decode_ascii)
  then show ?thesis
    using loads assms(1) by (simp add: from_json_def envelope_json_def equals_int_def payload_field_def raise_if_def)
qed

section \<open>One message\<close>

definition message_of :: "send_requested \<Rightarrow> message" where
  "message_of e = \<lparr>ms_channel = sr_channel e, ms_recipient = sr_recipient e, ms_body = sr_body e, ms_subject = sr_subject e\<rparr>"

definition record_of :: "send_requested \<Rightarrow> int \<Rightarrow> delivery_state \<Rightarrow> string option \<Rightarrow> delivery_record" where
  "record_of e created state detail =
     \<lparr>dr_delivery_id = sr_delivery_id e, dr_created_at = created, dr_channel = channel_str (sr_channel e),
      dr_notification_class = sr_notification_class e, dr_subject_kind = sr_subject_kind e,
      dr_subject_id = sr_subject_id e, dr_recipient = sr_recipient e, dr_state = state, dr_provider = ''sendgrid'',
      dr_failure_detail = detail, dr_actor_subject = sr_actor_subject e\<rparr>"

text \<open>The columns of the ledger take the envelope's values.\<close>

definition storable_envelope :: "(json \<Rightarrow> string option) \<Rightarrow> send_requested \<Rightarrow> bool" where
  "storable_envelope cast e \<longleftrightarrow>
     Option.bind (not_null cast (sr_notification_class e)) (varchar 64) \<noteq> None \<and>
     Option.bind (not_null cast (sr_subject_kind e)) (varchar 32) \<noteq> None \<and>
     not_null cast (sr_subject_id e) \<noteq> None \<and> not_null cast (sr_recipient e) \<noteq> None \<and>
     bind_text cast (sr_actor_subject e) \<noteq> None"

lemma delivery_row_iff:
  assumes "sr_channel e = EMAIL" "state \<noteq> SUPPRESSED"
  shows "storable_envelope cast e \<longleftrightarrow> delivery_row cast (record_of e created state detail) \<noteq> None"
proof -
  have "varchar 32 ''sendgrid'' = Some ''sendgrid''" by (simp add: varchar_def)
  then show ?thesis using assms
    by (auto simp: storable_envelope_def delivery_row_def record_of_def channel_str_def split: Option.bind_splits)
qed

lemma delivery_row_fields:
  "delivery_row cast (record_of e created state detail) = Some d \<Longrightarrow>
     dl_delivery_id d = sr_delivery_id e \<and> dl_state d = state \<and> dl_failure_detail d = detail \<and> dl_created_at d = created"
  by (auto simp: delivery_row_def record_of_def split: Option.bind_splits if_splits)

text \<open>What the provider did with the payload, and what it told.\<close>

definition provider_took :: "provider_answer \<Rightarrow> bool" where
  "provider_took a \<longleftrightarrow> a \<in> {Answer 202, TransportLate, ProviderLateDies}"

definition provider_returns :: "provider_answer \<Rightarrow> bool" where
  "provider_returns a \<longleftrightarrow> (\<exists>code. a = Answer code) \<or> a = TransportLost \<or> a = TransportLate"

lemma send_run:
  assumes "sendgrid_adapter env api_key from_email = Inr adapter"
    and "sr_channel e = EMAIL" "py_truthy (ax_float env) (sr_subject e)"
    and "provider_returns (ax_answer env (aw_tick w))"
  shows "\<exists>detail. catch_send_error (bind_eff (ad_send adapter (message_of e)) (\<lambda>_. ret (ACCEPTED, None)))
      (\<lambda>detail. ret (FAILED, Some detail)) w =
    (Inr (if ax_answer env (aw_tick w) = Answer 202 then (ACCEPTED, None) else (FAILED, Some detail)),
     (ticked w)\<lparr>aw_taken := (if provider_took (ax_answer env (aw_tick w)) then aw_taken w @ [sendgrid_payload from_email (message_of e)]
                              else aw_taken w)\<rparr>)"
proof -
  have "ad_send adapter = sendgrid_send env from_email"
    using assms(1) by (auto simp: sendgrid_adapter_def bind_res_Inr_iff)
  moreover have "ms_channel (message_of e) = EMAIL" "ms_subject (message_of e) = sr_subject e"
    using assms(2) by (simp_all add: message_of_def)
  ultimately show ?thesis
    using assms(3,4)
    by (cases "ax_answer env (aw_tick w)")
       (auto simp: catch_send_error_def catch_eff_def bind_eff_def sendgrid_send_def post_def Let_def provider_returns_def provider_took_def)
qed

lemma process_run:
  assumes adapter: "sendgrid_adapter env api_key from_email = Inr adapter"
    and e: "from_json (ax_float env) raw = Inr e" "sr_channel e = EMAIL" "py_truthy (ax_float env) (sr_subject e)"
    and ext: "provider_returns (ax_answer env (aw_tick w))" "ax_db env (Suc (aw_tick w)) = DbRuns"
  shows "\<exists>detail. axon_process_message env adapter raw w =
    (Inr (if storable_envelope (ax_cast env) e then Ack else Nack),
     (ticked (ticked w))\<lparr>aw_taken := (if provider_took (ax_answer env (aw_tick w))
          then aw_taken w @ [sendgrid_payload from_email (message_of e)] else aw_taken w),
        aw_ledger := (case delivery_row (ax_cast env)
              (record_of e (ax_now env (aw_tick w)) (if ax_answer env (aw_tick w) = Answer 202 then ACCEPTED else FAILED)
                (if ax_answer env (aw_tick w) = Answer 202 then None else Some detail)) of
            None \<Rightarrow> aw_ledger w | Some d \<Rightarrow> add_delivery d (aw_ledger w))\<rparr>)"
proof -
  let ?a = "ax_answer env (aw_tick w)"
  define u where "u = (ticked w)\<lparr>aw_taken := (if provider_took ?a then aw_taken w @ [sendgrid_payload from_email (message_of e)] else aw_taken w)\<rparr>"
  obtain detail where sent: "catch_send_error (bind_eff (ad_send adapter (message_of e)) (\<lambda>_. ret (ACCEPTED, None)))
      (\<lambda>detail. ret (FAILED, Some detail)) w = (Inr (if ?a = Answer 202 then (ACCEPTED, None) else (FAILED, Some detail)), u)"
    using send_run [OF adapter e(2,3) ext(1)] unfolding u_def by blast
  have provider: "ad_provider adapter = ''sendgrid''" using adapter by (auto simp: sendgrid_adapter_def bind_res_Inr_iff)
  have fields: "ms_channel (message_of e) = sr_channel e" "ms_recipient (message_of e) = sr_recipient e"
    by (simp_all add: message_of_def)
  have u: "aw_tick u = Suc (aw_tick w)" "aw_ledger u = aw_ledger w" by (simp_all add: u_def)
  let ?r = "record_of e (ax_now env (aw_tick w)) (if ?a = Answer 202 then ACCEPTED else FAILED) (if ?a = Answer 202 then None else Some detail)"
  have row: "storable_envelope (ax_cast env) e \<longleftrightarrow> delivery_row (ax_cast env) ?r \<noteq> None"
    by (rule delivery_row_iff [OF e(2)]) simp
  have rec: "record_platform_delivery env ?r u =
      (case delivery_row (ax_cast env) ?r of None \<Rightarrow> Inl LedgerWriteError | Some d \<Rightarrow> Inr (dl_delivery_id d \<notin> delivery_ids w),
       (ticked u)\<lparr>aw_ledger := (case delivery_row (ax_cast env) ?r of None \<Rightarrow> aw_ledger w | Some d \<Rightarrow> add_delivery d (aw_ledger w))\<rparr>)"
    by (auto simp: record_platform_delivery_def insert_platform_def u ext(2) is_duplicate_delivery_def Let_def delivery_ids_def
        add_delivery_def split: option.split)
  have "axon_process_message env adapter raw = bind_eff (send_platform env adapter (message_of e)
        (sr_delivery_id e) (sr_notification_class e) (sr_subject_kind e) (sr_subject_id e) (sr_actor_subject e))
      (\<lambda>outcome. ret (if so_recorded outcome then Ack else Nack))"
    by (simp add: axon_process_message_def e(1,2) message_of_def)
  then show ?thesis
    using sent rec row
    by (intro exI [of _ detail])
       (cases "?a = Answer 202"; cases "delivery_row (ax_cast env) ?r";
        simp add: send_platform_def Let_def bind_eff_def record_of_def provider fields catch_write_error_def catch_eff_def; simp add: u_def)
qed

lemma recorded_run:
  assumes "sendgrid_adapter env api_key from_email = Inr adapter"
    and "from_json (ax_float env) raw = Inr e" "sr_channel e = EMAIL" "py_truthy (ax_float env) (sr_subject e)"
    and "provider_returns (ax_answer env (aw_tick w))" "ax_db env (Suc (aw_tick w)) = DbRuns"
    and "storable_envelope (ax_cast env) e" "sr_delivery_id e \<notin> delivery_ids w"
  shows "\<exists>t d. axon_process_message env adapter raw w = (Inr Ack, t) \<and> aw_ledger t = aw_ledger w @ [d] \<and>
    dl_delivery_id d = sr_delivery_id e \<and>
    dl_state d = (if ax_answer env (aw_tick w) = Answer 202 then ACCEPTED else FAILED) \<and>
    (dl_failure_detail d = None) = (dl_state d = ACCEPTED) \<and>
    aw_taken t = aw_taken w @ (if provider_took (ax_answer env (aw_tick w)) then [sendgrid_payload from_email (message_of e)] else [])"
proof -
  obtain detail t where run: "axon_process_message env adapter raw w = (Inr Ack, t)"
    "aw_taken t = aw_taken w @ (if provider_took (ax_answer env (aw_tick w)) then [sendgrid_payload from_email (message_of e)] else [])"
    "aw_ledger t = (case delivery_row (ax_cast env)
        (record_of e (ax_now env (aw_tick w)) (if ax_answer env (aw_tick w) = Answer 202 then ACCEPTED else FAILED)
          (if ax_answer env (aw_tick w) = Answer 202 then None else Some detail)) of
      None \<Rightarrow> aw_ledger w | Some d \<Rightarrow> add_delivery d (aw_ledger w))"
    using process_run [OF assms(1-6)] assms(7) by (auto split: if_splits)
  obtain d where d: "delivery_row (ax_cast env)
      (record_of e (ax_now env (aw_tick w)) (if ax_answer env (aw_tick w) = Answer 202 then ACCEPTED else FAILED)
        (if ax_answer env (aw_tick w) = Answer 202 then None else Some detail)) = Some d"
  proof -
    have "(if ax_answer env (aw_tick w) = Answer 202 then ACCEPTED else FAILED) \<noteq> SUPPRESSED" by simp
    from iffD1 [OF delivery_row_iff [OF assms(3) this] assms(7)] show ?thesis using that by blast
  qed
  note f = delivery_row_fields [OF d]
  have "dl_delivery_id d \<notin> dl_delivery_id ` set (aw_ledger w)" using assms(8) f by (simp add: delivery_ids_def)
  from trans [OF run(3) [unfolded d option.case] delivery_ledger.add_new [OF this]]
  have ledger: "aw_ledger t = aw_ledger w @ [d]" .
  have detail: "(dl_failure_detail d = None) = (dl_state d = ACCEPTED)"
    unfolding conjunct1 [OF conjunct2 [OF f]] conjunct1 [OF conjunct2 [OF conjunct2 [OF f]]] by simp
  show ?thesis
    by (rule exI [of _ t], rule exI [of _ d])
       (intro conjI run(1,2) ledger detail conjunct1 [OF f] conjunct1 [OF conjunct2 [OF f]])
qed

section \<open>A message on its way\<close>

definition demo_axon :: "provider_answer \<Rightarrow> axon_env" where
  "demo_axon answer =
     \<lparr>ax_answer = (\<lambda>_. answer), ax_db = (\<lambda>_. DbRuns), ax_queue = (\<lambda>_. Fine), ax_now = (\<lambda>_. 0),
      ax_float = (\<lambda>_. None), ax_cast = (\<lambda>_. None)\<rparr>"

definition demo_envelope :: "string \<Rightarrow> send_requested" where
  "demo_envelope kind =
     \<lparr>sr_delivery_id = 7, sr_channel = EMAIL, sr_recipient = JStr ''a@b.c'', sr_subject = JStr ''s'', sr_body = JStr ''b'',
      sr_notification_class = JStr ''n'', sr_subject_kind = JStr kind, sr_subject_id = JStr ''i'',
      sr_actor_subject = JNull, sr_schema_version = 1\<rparr>"

definition demo_wire :: "string \<Rightarrow> string" where
  "demo_wire kind = to_json (\<lambda>t. t) (demo_envelope kind)"

definition demo_adapter :: "provider_answer \<Rightarrow> adapter" where
  "demo_adapter answer = \<lparr>ad_provider = ''sendgrid'', ad_send = sendgrid_send (demo_axon answer) ''f@g.h''\<rparr>"

lemma demo_axon_fields:
  "ax_answer (demo_axon answer) n = answer" "ax_db (demo_axon answer) n = DbRuns" "ax_queue (demo_axon answer) n = Fine"
  "ax_cast (demo_axon answer) = (\<lambda>_. None)"
  by (simp_all add: demo_axon_def)

lemma demo_readable: "from_json fv (demo_wire kind) = Inr (demo_envelope kind)"
  unfolding demo_wire_def by (rule read_written) (simp_all add: demo_envelope_def SCHEMA_VERSION_def plain_def)

lemma demo_sendgrid: "sendgrid_adapter (demo_axon answer) ''key'' ''f@g.h'' = Inr (demo_adapter answer)"
  by (simp add: sendgrid_adapter_def raise_if_def demo_adapter_def)

lemma demo_email: "sr_channel (demo_envelope kind) = EMAIL" "py_truthy fv (sr_subject (demo_envelope kind))"
  "sr_delivery_id (demo_envelope kind) = 7"
  by (simp_all add: demo_envelope_def py_truthy_def)

lemma demo_storable_envelope:
  "storable_envelope (\<lambda>_. None) (demo_envelope ''monitor'')" "\<not> storable_envelope (\<lambda>_. None) (demo_envelope (replicate 33 (CHR ''x'')))"
  by (simp_all add: storable_envelope_def demo_envelope_def not_null_def bind_text_def varchar_def)

lemma demo_recorded:
  assumes "provider_returns answer"
  shows "\<exists>t d. axon_process_message (demo_axon answer) (demo_adapter answer) (demo_wire ''monitor'') no_deliveries = (Inr Ack, t) \<and>
    aw_ledger t = [d] \<and> dl_delivery_id d = 7 \<and> dl_state d = (if answer = Answer 202 then ACCEPTED else FAILED) \<and>
    aw_taken t = (if provider_took answer then [sendgrid_payload ''f@g.h'' (message_of (demo_envelope ''monitor''))] else [])"
proof -
  note run = recorded_run [OF demo_sendgrid demo_readable demo_email(1,2), of answer no_deliveries]
  show ?thesis
    using run assms demo_storable_envelope(1) by (fastforce simp: demo_axon_fields demo_email no_deliveries_def delivery_ids_def)
qed

section \<open>Properties\<close>






text \<open>
  C28 (functional). A message the ledger can store and does not have is acknowledged with one new
  row. The row says accepted exactly when the provider answered 202; any other answer and every
  transport error make it a failed row with its detail, also when the provider took the mail and
  only the answer was lost.
\<close>

theorem delivery_recorded:
  assumes "sendgrid_adapter env api_key from_email = Inr adapter"
    and "from_json (ax_float env) raw = Inr e" "sr_channel e = EMAIL" "py_truthy (ax_float env) (sr_subject e)"
    and "provider_returns (ax_answer env (aw_tick w))" "ax_db env (Suc (aw_tick w)) = DbRuns"
    and "storable_envelope (ax_cast env) e" "sr_delivery_id e \<notin> delivery_ids w"
  shows "\<exists>t d. axon_process_message env adapter raw w = (Inr Ack, t) \<and> aw_ledger t = aw_ledger w @ [d] \<and>
    dl_delivery_id d = sr_delivery_id e \<and>
    dl_state d = (if ax_answer env (aw_tick w) = Answer 202 then ACCEPTED else FAILED) \<and>
    (dl_failure_detail d = None) = (dl_state d = ACCEPTED) \<and>
    aw_taken t = aw_taken w @ (if provider_took (ax_answer env (aw_tick w)) then [sendgrid_payload from_email (message_of e)] else [])"
  using recorded_run [OF assms] .

lemma delivery_recorded_witness:
  "\<exists>t d. axon_process_message (demo_axon TransportLate) (demo_adapter TransportLate) (demo_wire ''monitor'') no_deliveries = (Inr Ack, t) \<and>
    aw_ledger t = [d] \<and> dl_state d = FAILED \<and> length (aw_taken t) = 1"
  using delivery_recorded [OF demo_sendgrid demo_readable demo_email(1,2), of TransportLate no_deliveries "''monitor''"] demo_storable_envelope(1)
  by (fastforce simp: demo_axon_fields demo_email no_deliveries_def delivery_ids_def provider_returns_def provider_took_def)

text \<open>
  C29 (error). A message whose delivery is already in the ledger is sent again when it is
  delivered again: the send comes before the write that finds the row. The provider takes a second
  mail, the ledger does not change (a failed row stays failed), and the message is acknowledged.
\<close>

theorem redelivery_sends_again:
  assumes "sendgrid_adapter env api_key from_email = Inr adapter"
    and "from_json (ax_float env) raw = Inr e" "sr_channel e = EMAIL" "py_truthy (ax_float env) (sr_subject e)"
    and "ax_answer env (aw_tick w) = Answer 202" "ax_db env (Suc (aw_tick w)) = DbRuns"
    and "storable_envelope (ax_cast env) e" "sr_delivery_id e \<in> delivery_ids w"
  shows "\<exists>t. axon_process_message env adapter raw w = (Inr Ack, t) \<and> aw_ledger t = aw_ledger w \<and>
    aw_taken t = aw_taken w @ [sendgrid_payload from_email (message_of e)]"
proof -
  have "provider_returns (ax_answer env (aw_tick w))" "provider_took (ax_answer env (aw_tick w))"
    using assms(5) by (simp_all add: provider_returns_def provider_took_def)
  moreover have "add_delivery d (aw_ledger w) = aw_ledger w" if "dl_delivery_id d = sr_delivery_id e" for d
    using assms(8) that delivery_ledger.add_repeat [of d "aw_ledger w"] by (simp add: delivery_ids_def)
  ultimately show ?thesis
    using process_run [OF assms(1-4) _ assms(6)] assms(7) delivery_row_fields [of "ax_cast env" e]
    by (force split: option.split)
qed

lemma redelivery_sends_again_witness:
  "\<exists>w d t. aw_ledger w = [d] \<and> dl_state d = ACCEPTED \<and> length (aw_taken w) = 1 \<and>
    axon_process_message (demo_axon (Answer 202)) (demo_adapter (Answer 202)) (demo_wire ''monitor'') w = (Inr Ack, t) \<and>
    aw_ledger t = [d] \<and> length (aw_taken t) = 2"
proof -
  obtain w :: axon_world and d where "aw_ledger w = [d]" "dl_delivery_id d = 7" "dl_state d = ACCEPTED"
      "aw_taken w = [sendgrid_payload ''f@g.h'' (message_of (demo_envelope ''monitor''))]"
    using demo_recorded [of "Answer 202"] by (auto simp: provider_returns_def provider_took_def)
  then have w: "aw_ledger w = [d]" "dl_delivery_id d = 7" "dl_state d = ACCEPTED" "length (aw_taken w) = 1" by simp_all
  then have "sr_delivery_id (demo_envelope ''monitor'') \<in> delivery_ids w" by (simp add: delivery_ids_def demo_email)
  from redelivery_sends_again [OF demo_sendgrid demo_readable demo_email(1,2) _ _ _ this] demo_storable_envelope(1) w
  show ?thesis by (fastforce simp: demo_axon_fields)
qed

text \<open>
  C30 (error). An envelope whose columns the ledger refuses (a subject kind of 33 characters, a
  missing recipient) is sent at every attempt, each attempt is nacked, and no row ever says so.
\<close>

fun attempts :: "axon_env \<Rightarrow> adapter \<Rightarrow> string \<Rightarrow> nat \<Rightarrow> axon_decision list axio" where
  "attempts env adapter raw 0 = ret []"
| "attempts env adapter raw (Suc n) =
     bind_eff (axon_process_message env adapter raw) (\<lambda>d. bind_eff (attempts env adapter raw n) (\<lambda>ds. ret (d # ds)))"

theorem unstorable_sent_every_attempt:
  assumes "sendgrid_adapter env api_key from_email = Inr adapter"
    and "from_json (ax_float env) raw = Inr e" "sr_channel e = EMAIL" "py_truthy (ax_float env) (sr_subject e)"
    and "\<And>k. ax_answer env k = Answer 202" "\<And>k. ax_db env k = DbRuns" "\<not> storable_envelope (ax_cast env) e"
  shows "\<exists>t. attempts env adapter raw n w = (Inr (replicate n Nack), t) \<and> aw_ledger t = aw_ledger w \<and>
    aw_taken t = aw_taken w @ replicate n (sendgrid_payload from_email (message_of e))"
proof (induction n arbitrary: w)
  case (Suc n)
  have "provider_returns (Answer 202)" "provider_took (Answer 202)"
    by (simp_all add: provider_returns_def provider_took_def)
  moreover have "delivery_row (ax_cast env) (record_of e created ACCEPTED detail) = None" for created detail
    using delivery_row_iff [OF assms(3), of ACCEPTED "ax_cast env" created detail] assms(7) by blast
  ultimately obtain t where t: "axon_process_message env adapter raw w = (Inr Nack, t)" "aw_ledger t = aw_ledger w"
      "aw_taken t = aw_taken w @ [sendgrid_payload from_email (message_of e)]"
    using process_run [OF assms(1-4), of w] assms(5-7) by fastforce
  from Suc.IH [of t] t show ?case by (auto simp: bind_eff_def)
qed simp

lemma unstorable_sent_every_attempt_witness:
  "\<exists>t. attempts (demo_axon (Answer 202)) (demo_adapter (Answer 202)) (demo_wire (replicate 33 (CHR ''x''))) 5 no_deliveries =
      (Inr (replicate 5 Nack), t) \<and> aw_ledger t = [] \<and> length (aw_taken t) = 5"
  using unstorable_sent_every_attempt [OF demo_sendgrid demo_readable demo_email(1,2), of "Answer 202" "replicate 33 (CHR ''x'')" 5 no_deliveries]
    demo_storable_envelope(2)
  by (auto simp: demo_axon_fields no_deliveries_def simp del: attempts.simps replicate.simps)

end
