(* ===== verification/Canonical_Models.thy ===== *)
theory Canonical_Models
  imports Mapping_Rules Py_Text
begin

text \<open>
  What a mapping may produce, and where its rows go. The canonical row models of
  \<open>dis/libs/dis-canonical\<close> (field name, type, whether it is required), the provenance partition and
  its drift guard (\<open>dis/libs/dis-validation/src/dis_validation/provenance.py\<close>), the template types
  (\<open>template_types.py\<close>), the enrichment registry (\<open>dis/libs/dis-enrichment\<close>), and the load-time
  routing and completeness classification of the streaming consumer
  (\<open>dis/services/streaming-consumer/src/streaming_consumer/pipeline/mapping.py\<close>). Sets of column
  names are lists read through \<open>set\<close>.
\<close>

section \<open>The canonical models (dis-canonical)\<close>

datatype field_type =
    FUuid
  | FStr nat "nat option"           \<comment> \<open>the maximal length, the minimal one where there is one\<close>
  | FLiteral "string list"
  | FEnum "string list"
  | FDecimal int int                \<comment> \<open>\<open>max_digits\<close>, \<open>decimal_places\<close>\<close>
  | FInt
  | FBool
  | FDatetime
  | FDate
  | FJson

text \<open>Every optional field of the models is declared \<open>T | None = None\<close>.\<close>

record model_field =
  mf_name :: string
  mf_type :: field_type
  mf_required :: bool

datatype canonical_model = StoreSkuCurrentPosition | StoreSkuSaleEvent | StoreSkuChangeEvent | StoreSkuSignalHistory

abbreviation req :: "string \<Rightarrow> field_type \<Rightarrow> model_field" where
  "req n t \<equiv> \<lparr>mf_name = n, mf_type = t, mf_required = True\<rparr>"

abbreviation opt :: "string \<Rightarrow> field_type \<Rightarrow> model_field" where
  "opt n t \<equiv> \<lparr>mf_name = n, mf_type = t, mf_required = False\<rparr>"

abbreviation str_max :: "nat \<Rightarrow> field_type" where
  "str_max n \<equiv> FStr n None"

definition TaxTreatment :: field_type where
  "TaxTreatment = FEnum [''INCLUSIVE'', ''EXCLUSIVE'']"

definition ExpirySource :: field_type where
  "ExpirySource = FEnum [''PRINTED'', ''SCANNED'', ''ESTIMATED'', ''CV_DETECTED'']"

definition EventCategory :: field_type where
  "EventCategory =
     FLiteral [''INVENTORY'', ''PRICE'', ''COST'', ''REGULATORY'', ''STATUS'', ''CATALOGUE'', ''OTHER'']"

definition SaleEventSubtype :: field_type where
  "SaleEventSubtype = FLiteral [''SALE'', ''RETURN'', ''VOID'']"

definition CurrencyCode :: field_type where
  "CurrencyCode = FStr 3 (Some 3)"

definition current_position_fields :: "model_field list" where
  "current_position_fields =
     [opt ''id'' FUuid, req ''tenant_id'' FUuid, req ''store_id'' FUuid,
      req ''sku_id'' (str_max 128), opt ''sku_variant'' (str_max 128), opt ''sku_lot_batch'' (str_max 128),
      opt ''barcode'' (str_max 128), req ''product_name'' (str_max 128),
      opt ''product_description'' (str_max 128), opt ''product_category'' (str_max 128),
      opt ''product_sub_category'' (str_max 128), opt ''product_department'' (str_max 128),
      opt ''supplier_id'' (str_max 128), opt ''packaging_type'' (str_max 128),
      opt ''sku_size'' (FDecimal 8 3), opt ''unit_of_measure'' (str_max 64),
      req ''current_retail_price'' (FDecimal 12 4), opt ''unit_cost'' (FDecimal 12 4),
      opt ''promo_price'' (FDecimal 12 4), opt ''promo_identifier'' (str_max 128),
      opt ''yesterday_retail_price'' (FDecimal 12 4), req ''tax_treatment'' TaxTreatment,
      opt ''stock_qty'' (FDecimal 14 3), opt ''lead_time_days'' FInt, opt ''expiry_date'' FDate,
      opt ''receipt_date'' FDate, opt ''expiry_source'' ExpirySource,
      opt ''expiry_confidence'' (FDecimal 3 2), opt ''regulatory_flag'' FBool,
      opt ''regulatory_type'' (str_max 128), req ''currency'' CurrencyCode,
      opt ''reorder_point'' (FDecimal 14 3), opt ''sku_status'' (str_max 32),
      opt ''velocity_7day'' (FDecimal 10 4), opt ''stock_age_days'' FInt,
      opt ''unit_cost_trend_30day'' (FDecimal 12 4), opt ''attribute_staleness_map'' FJson,
      opt ''current_retail_price_changed_at'' FDatetime, opt ''product_name_changed_at'' FDatetime,
      opt ''last_source_event_at'' FDatetime, req ''mapping_version_id'' FInt, req ''trace_id'' FUuid,
      req ''dis_channel'' (str_max 32), opt ''last_updated_at'' FDatetime, opt ''ingest_metadata'' FJson]"

definition sale_event_fields :: "model_field list" where
  "sale_event_fields =
     [opt ''id'' FUuid, req ''event_date'' FDate, req ''tenant_id'' FUuid, req ''store_id'' FUuid,
      req ''sku_id'' (str_max 128), opt ''sku_variant'' (str_max 128), opt ''sku_lot_batch'' (str_max 128),
      req ''event_subtype'' SaleEventSubtype, req ''source_sale_timestamp'' FDatetime,
      opt ''transaction_id'' (str_max 128), opt ''line_item_seq'' FInt,
      req ''quantity'' (FDecimal 14 3), req ''unit_retail_price'' (FDecimal 12 4),
      req ''unit_sale_price'' (FDecimal 12 4), opt ''discount_amount'' (FDecimal 12 4),
      opt ''discount_pct'' (FDecimal 5 2), opt ''unit_cost'' (FDecimal 12 4),
      opt ''promo_identifier'' (str_max 128), opt ''tax_amount'' (FDecimal 12 4),
      req ''tax_treatment'' TaxTreatment, req ''currency'' CurrencyCode,
      opt ''payment_method'' (str_max 64), opt ''customer_token'' (str_max 128),
      opt ''sale_channel'' (str_max 32), opt ''store_sku_current_position_id'' FUuid,
      opt ''related_sale_event_id'' FUuid, req ''source_id'' (str_max 128),
      req ''source_event_id'' (str_max 256), req ''row_hash'' (str_max 64),
      req ''mapping_version_id'' FInt, req ''trace_id'' FUuid, req ''dis_channel'' (str_max 32),
      opt ''last_updated_at'' FDatetime, opt ''ingest_metadata'' FJson]"

definition change_event_fields :: "model_field list" where
  "change_event_fields =
     [opt ''id'' FUuid, req ''event_date'' FDate, req ''tenant_id'' FUuid, req ''store_id'' FUuid,
      req ''sku_id'' (str_max 128), opt ''sku_variant'' (str_max 128), opt ''sku_lot_batch'' (str_max 128),
      opt ''store_sku_current_position_id'' FUuid, req ''event_category'' EventCategory,
      req ''event_subtype'' (str_max 64), req ''source_event_timestamp'' FDatetime,
      opt ''effective_from'' FDatetime, opt ''effective_until'' FDatetime,
      opt ''attribute_name'' (str_max 64), opt ''value_before'' FJson, opt ''value_after'' FJson,
      opt ''numeric_value_before'' (FDecimal 14 4), opt ''numeric_value_after'' (FDecimal 14 4),
      opt ''numeric_change'' (FDecimal 14 4), opt ''reason_code'' (str_max 64),
      opt ''reason_note'' (str_max 256), opt ''change_context'' FJson,
      req ''source_id'' (str_max 128), req ''source_event_id'' (str_max 256),
      req ''row_hash'' (str_max 64), req ''mapping_version_id'' FInt, req ''trace_id'' FUuid,
      req ''dis_channel'' (str_max 32), opt ''last_updated_at'' FDatetime, opt ''ingest_metadata'' FJson]"

definition signal_history_fields :: "model_field list" where
  "signal_history_fields =
     [opt ''id'' FUuid, req ''as_of_date'' FDate, req ''tenant_id'' FUuid, req ''store_id'' FUuid,
      req ''sku_id'' (str_max 128), opt ''sku_variant'' (str_max 128), opt ''sku_lot_batch'' (str_max 128),
      opt ''store_sku_current_position_id'' FUuid, opt ''velocity_7day'' (FDecimal 10 4),
      opt ''stock_age_days'' FInt, opt ''unit_cost_trend_30day'' (FDecimal 12 4),
      req ''trace_id'' FUuid, opt ''created_at'' FDatetime, opt ''compute_metadata'' FJson]"

fun model_fields :: "canonical_model \<Rightarrow> model_field list" where
  "model_fields StoreSkuCurrentPosition = current_position_fields"
| "model_fields StoreSkuSaleEvent = sale_event_fields"
| "model_fields StoreSkuChangeEvent = change_event_fields"
| "model_fields StoreSkuSignalHistory = signal_history_fields"

definition field_names :: "canonical_model \<Rightarrow> string list" where
  "field_names m = map mf_name (model_fields m)"

section \<open>Provenance (provenance.py)\<close>

record column_provenance =
  cp_consumer_injected :: "string list"
  cp_db_generated :: "string list"
  cp_compute_owned :: "string list"
  cp_mapping_produced :: "string list"
  cp_enrichment_produced :: "string list"

definition COMMON_CONSUMER_INJECTED :: "string list" where
  "COMMON_CONSUMER_INJECTED =
     [''tenant_id'', ''store_id'', ''mapping_version_id'', ''trace_id'', ''dis_channel'', ''ingest_metadata'']"

definition COMMON_DB_GENERATED :: "string list" where
  "COMMON_DB_GENERATED = [''id'', ''last_updated_at'']"

definition current_position_provenance :: column_provenance where
  "current_position_provenance =
     \<lparr>cp_consumer_injected = COMMON_CONSUMER_INJECTED @ [''last_source_event_at''],
      cp_db_generated = COMMON_DB_GENERATED,
      cp_compute_owned =
        [''velocity_7day'', ''stock_age_days'', ''unit_cost_trend_30day'', ''attribute_staleness_map'',
         ''yesterday_retail_price'', ''current_retail_price_changed_at'', ''product_name_changed_at''],
      cp_mapping_produced =
        [''sku_id'', ''sku_variant'', ''sku_lot_batch'', ''barcode'', ''product_name'',
         ''product_description'', ''product_category'', ''product_sub_category'', ''product_department'',
         ''supplier_id'', ''packaging_type'', ''sku_size'', ''unit_of_measure'', ''current_retail_price'',
         ''unit_cost'', ''promo_price'', ''promo_identifier'', ''stock_qty'', ''lead_time_days'',
         ''expiry_date'', ''receipt_date'', ''expiry_source'', ''expiry_confidence'',
         ''regulatory_flag'', ''regulatory_type'', ''currency'', ''reorder_point'', ''sku_status''],
      cp_enrichment_produced = [''tax_treatment'']\<rparr>"

definition sale_event_provenance :: column_provenance where
  "sale_event_provenance =
     \<lparr>cp_consumer_injected = COMMON_CONSUMER_INJECTED @
        [''source_id'', ''source_event_id'', ''store_sku_current_position_id'',
         ''related_sale_event_id'', ''tax_treatment'', ''row_hash''],
      cp_db_generated = COMMON_DB_GENERATED,
      cp_compute_owned = [],
      cp_mapping_produced =
        [''event_date'', ''sku_id'', ''sku_variant'', ''sku_lot_batch'', ''event_subtype'',
         ''source_sale_timestamp'', ''transaction_id'', ''line_item_seq'', ''quantity'',
         ''unit_retail_price'', ''unit_sale_price'', ''discount_amount'', ''discount_pct'', ''unit_cost'',
         ''promo_identifier'', ''tax_amount'', ''currency'', ''payment_method'', ''customer_token'',
         ''sale_channel''],
      cp_enrichment_produced = []\<rparr>"

definition change_event_provenance :: column_provenance where
  "change_event_provenance =
     \<lparr>cp_consumer_injected = COMMON_CONSUMER_INJECTED @
        [''source_id'', ''source_event_id'', ''store_sku_current_position_id'',
         ''numeric_value_before'', ''numeric_value_after'', ''numeric_change'', ''row_hash''],
      cp_db_generated = COMMON_DB_GENERATED,
      cp_compute_owned = [],
      cp_mapping_produced =
        [''event_date'', ''sku_id'', ''sku_variant'', ''sku_lot_batch'', ''event_category'',
         ''event_subtype'', ''source_event_timestamp'', ''effective_from'', ''effective_until'',
         ''attribute_name'', ''value_before'', ''value_after'', ''reason_code'', ''reason_note'',
         ''change_context''],
      cp_enrichment_produced = []\<rparr>"

definition PROVENANCE :: "canonical_model \<Rightarrow> column_provenance option" where
  "PROVENANCE m =
     (case m of
        StoreSkuCurrentPosition \<Rightarrow> Some current_position_provenance
      | StoreSkuSaleEvent \<Rightarrow> Some sale_event_provenance
      | StoreSkuChangeEvent \<Rightarrow> Some change_event_provenance
      | StoreSkuSignalHistory \<Rightarrow> None)"

definition NOT_MAPPING_PRODUCED :: "canonical_model list" where
  "NOT_MAPPING_PRODUCED = [StoreSkuSignalHistory]"

text \<open>The reasons of \<open>SuiteDriftError\<close>; columns are listed sorted.\<close>

datatype drift_error =
    DailyCompute
  | NoProvenance
  | ClassifiedTwice "string list" nat nat   \<comment> \<open>the positions of the two sets\<close>
  | Unclassified "string list"
  | StaleColumns "string list"

definition provenance_sets :: "column_provenance \<Rightarrow> string list list" where
  "provenance_sets p =
     [cp_consumer_injected p, cp_db_generated p, cp_compute_owned p, cp_mapping_produced p,
      cp_enrichment_produced p]"

definition sorted_columns :: "string list \<Rightarrow> string list" where
  "sorted_columns cs = sort (remdups cs)"

definition check_overlap :: "string list list \<Rightarrow> nat \<times> nat \<Rightarrow> drift_error + unit" where
  "check_overlap sets ij =
     (case ij of (i, j) \<Rightarrow>
        let overlap = filter (\<lambda>c. c \<in> set (sets ! j)) (sets ! i)
        in raise_if (overlap \<noteq> []) (ClassifiedTwice (sorted_columns overlap) i j))"

definition set_pairs :: "nat \<Rightarrow> (nat \<times> nat) list" where
  "set_pairs n = concat (map (\<lambda>i. map (Pair i) [Suc i..<n]) [0..<n])"

definition check_provenance :: "column_provenance \<Rightarrow> string list \<Rightarrow> drift_error + unit" where
  "check_provenance p names =
     (let sets = provenance_sets p; classified = concat sets;
          unclassified = filter (\<lambda>c. c \<notin> set classified) names;
          stale = filter (\<lambda>c. c \<notin> set names) classified in
      bind_res (iter_res (check_overlap sets) (set_pairs (length sets))) (\<lambda>_.
      bind_res (raise_if (unclassified \<noteq> []) (Unclassified (sorted_columns unclassified))) (\<lambda>_.
      raise_if (stale \<noteq> []) (StaleColumns (sorted_columns stale)))))"

definition assert_no_drift :: "canonical_model \<Rightarrow> drift_error + unit" where
  "assert_no_drift m =
     (if m \<in> set NOT_MAPPING_PRODUCED then Inl DailyCompute
      else case PROVENANCE m of None \<Rightarrow> Inl NoProvenance | Some p \<Rightarrow> check_provenance p (field_names m))"

definition produced_columns ::
  "(column_provenance \<Rightarrow> string list) \<Rightarrow> canonical_model \<Rightarrow> drift_error + string list" where
  "produced_columns part m =
     bind_res (assert_no_drift m) (\<lambda>_.
     case PROVENANCE m of None \<Rightarrow> Inl NoProvenance | Some p \<Rightarrow> Inr (part p))"

definition mapping_produced_columns :: "canonical_model \<Rightarrow> drift_error + string list" where
  "mapping_produced_columns = produced_columns cp_mapping_produced"

definition enrichment_produced_columns :: "canonical_model \<Rightarrow> drift_error + string list" where
  "enrichment_produced_columns = produced_columns cp_enrichment_produced"

definition mandatory_mapping_produced :: "canonical_model \<Rightarrow> string list \<Rightarrow> drift_error + string list" where
  "mandatory_mapping_produced m enrichment_guaranteed =
     bind_res (mapping_produced_columns m) (\<lambda>produced.
     Inr (filter (\<lambda>c. c \<in> set produced \<and> c \<notin> set enrichment_guaranteed)
            (map mf_name (filter mf_required (model_fields m)))))"

section \<open>Template types (template\_types.py)\<close>

definition MODEL_BY_TYPE :: "canonical_model dict" where
  "MODEL_BY_TYPE =
     [(''snapshot'', StoreSkuCurrentPosition), (''sales'', StoreSkuSaleEvent),
      (''inventory_change'', StoreSkuChangeEvent)]"

definition is_template_type :: "string \<Rightarrow> bool" where
  "is_template_type v \<longleftrightarrow> has_key MODEL_BY_TYPE v"

section \<open>The enrichment registry (dis-enrichment registry.py)\<close>

record enrichment_field =
  ef_canonical_field :: string
  ef_source :: string
  ef_source_field :: string
  ef_tables :: "string list"

definition CURRENT_POSITION :: string where
  "CURRENT_POSITION = ''store_sku_current_position''"

definition ENRICHMENT_REGISTRY :: "enrichment_field list" where
  "ENRICHMENT_REGISTRY =
     [\<lparr>ef_canonical_field = ''currency'', ef_source = ''identity_mirror.stores'',
       ef_source_field = ''currency'', ef_tables = [CURRENT_POSITION]\<rparr>,
      \<lparr>ef_canonical_field = ''tax_treatment'', ef_source = ''identity_mirror.stores'',
       ef_source_field = ''tax_treatment'', ef_tables = [CURRENT_POSITION]\<rparr>]"

definition enrichment_fields :: "string \<Rightarrow> string list" where
  "enrichment_fields table =
     map ef_canonical_field (filter (\<lambda>f. table \<in> set (ef_tables f)) ENRICHMENT_REGISTRY)"

section \<open>Hot projections, completeness and routing (mapping.py)\<close>

definition EVENT_MODELS :: "canonical_model list" where
  "EVENT_MODELS = [StoreSkuSaleEvent, StoreSkuChangeEvent]"

definition SALE_HOT_PROJECTION :: "string dict" where
  "SALE_HOT_PROJECTION =
     [(''unit_retail_price'', ''current_retail_price''), (''unit_cost'', ''unit_cost''),
      (''promo_identifier'', ''promo_identifier''), (''currency'', ''currency'')]"

definition CHANGE_HOT_PROJECTION :: "((string \<times> string) \<times> string) list" where
  "CHANGE_HOT_PROJECTION =
     [((''PRICE'', ''current_retail_price''), ''current_retail_price''),
      ((''COST'', ''unit_cost''), ''unit_cost''),
      ((''INVENTORY'', ''stock_qty''), ''stock_qty''),
      ((''CATALOGUE'', ''product_name''), ''product_name''),
      ((''STATUS'', ''sku_status''), ''sku_status'')]"

text \<open>Computed at import; a drift error would stop the import.\<close>

definition HOT_REQUIRED_FROM_PROJECTION :: "string list" where
  "HOT_REQUIRED_FROM_PROJECTION =
     (case mandatory_mapping_produced StoreSkuCurrentPosition (enrichment_fields CURRENT_POSITION) of
        Inl _ \<Rightarrow> [] | Inr cs \<Rightarrow> cs)"

definition HOT_CHECK_IMPLICATIONS :: "(string list \<times> string list) list" where
  "HOT_CHECK_IMPLICATIONS =
     [([''promo_identifier''], [''promo_price'']),
      ([''expiry_date'', ''expiry_source'', ''expiry_confidence''],
       [''expiry_date'', ''expiry_source'', ''expiry_confidence''])]"

definition constant_derive :: "source_mapping \<Rightarrow> string \<Rightarrow> string option" where
  "constant_derive m column =
     (case map_of (sm_derive m) column of
        Some (spec # _) \<Rightarrow>
          if ts_op spec = ''constant''
          then (case arg_get (ts_args spec) ''value'' JNull of JStr s \<Rightarrow> Some s | _ \<Rightarrow> None)
          else None
      | _ \<Rightarrow> None)"

definition guaranteed_hot_columns :: "source_mapping \<Rightarrow> canonical_model \<Rightarrow> drift_error + string list" where
  "guaranteed_hot_columns m target =
     (let targets = target_columns m in
      if target = StoreSkuCurrentPosition then
        bind_res (mapping_produced_columns StoreSkuCurrentPosition) (\<lambda>produced.
        Inr (filter (\<lambda>c. c \<in> set produced) targets @ enrichment_fields CURRENT_POSITION))
      else if target = StoreSkuSaleEvent then
        Inr (List.map_filter (map_of SALE_HOT_PROJECTION) targets)
      else case (constant_derive m ''event_category'', constant_derive m ''attribute_name'') of
          (Some category, Some attr) \<Rightarrow>
            (case map_of CHANGE_HOT_PROJECTION (category, attr) of
               Some hot_column \<Rightarrow> Inr [hot_column] | None \<Rightarrow> Inr [])
        | _ \<Rightarrow> Inr [])"

definition classify_hot_completeness :: "source_mapping \<Rightarrow> canonical_model \<Rightarrow> drift_error + bool" where
  "classify_hot_completeness m target =
     bind_res (guaranteed_hot_columns m target) (\<lambda>guaranteed.
     if \<not> set HOT_REQUIRED_FROM_PROJECTION \<subseteq> set guaranteed then Inr False
     else Inr (\<forall>(trigger, companion) \<in> set HOT_CHECK_IMPLICATIONS.
            (\<exists>c \<in> set trigger. c \<in> set guaranteed) \<longrightarrow> set companion \<subseteq> set guaranteed))"

record loaded_mapping =
  lm_mapping_version_id :: int
  lm_source :: source_mapping
  lm_target_model :: canonical_model
  lm_hot_complete :: bool

datatype mapping_load_error =
    NoActiveMapping
  | SuiteRefUnsupported
  | RulesDoNotParse
  | NoRenameTargets
  | RoutingAmbiguous "canonical_model list"
  | SuiteDrift drift_error

definition lift_drift :: "drift_error + 'a \<Rightarrow> mapping_load_error + 'a" where
  "lift_drift r = (case r of Inl e \<Rightarrow> Inl (SuiteDrift e) | Inr x \<Rightarrow> Inr x)"

definition fitting_models :: "string list \<Rightarrow> drift_error + canonical_model list" where
  "fitting_models targets =
     fold_res (\<lambda>m fit. bind_res (mapping_produced_columns m) (\<lambda>produced.
       Inr (if set targets \<subseteq> set produced then fit @ [m] else fit))) EVENT_MODELS []"

definition route_target_model :: "source_mapping \<Rightarrow> mapping_load_error + canonical_model" where
  "route_target_model m =
     bind_res (lift_drift (fitting_models (target_columns m))) (\<lambda>fit.
     case fit of [target] \<Rightarrow> Inr target | _ \<Rightarrow> Inl (RoutingAmbiguous fit))"

text \<open>
  A row of \<open>config.source_mappings\<close>, as far as the load reads it. \<open>sr_rules\<close> is what
  \<open>SourceMapping.model_validate\<close> makes of the stored rules (\<open>None\<close> when it refuses them).
\<close>

record source_row =
  sr_tenant_id :: uuid
  sr_source_id :: string
  sr_template_id :: uuid
  sr_active :: bool
  sr_mapping_version_id :: int
  sr_template_type :: string
  sr_pre_suite_ref :: "string option"
  sr_post_suite_ref :: "string option"
  sr_rules :: "source_mapping option"

definition active_mapping :: "source_row list \<Rightarrow> uuid \<Rightarrow> string \<Rightarrow> uuid \<Rightarrow> source_row option" where
  "active_mapping rows tenant_id source_id template_id =
     find (\<lambda>r. sr_tenant_id r = tenant_id \<and> sr_source_id r = source_id \<and> sr_template_id r = template_id \<and> sr_active r) rows"

definition load_active_mapping ::
  "source_row list \<Rightarrow> uuid \<Rightarrow> string \<Rightarrow> uuid \<Rightarrow> mapping_load_error + loaded_mapping" where
  "load_active_mapping rows tenant_id source_id template_id =
     (case active_mapping rows tenant_id source_id template_id of
        None \<Rightarrow> Inl NoActiveMapping
      | Some row \<Rightarrow>
          if sr_pre_suite_ref row \<noteq> None \<or> sr_post_suite_ref row \<noteq> None then Inl SuiteRefUnsupported
          else case sr_rules row of
              None \<Rightarrow> Inl RulesDoNotParse
            | Some source \<Rightarrow>
                if sm_rename source = [] then Inl NoRenameTargets
                else
                  bind_res (if sr_template_type row = ''snapshot'' then Inr StoreSkuCurrentPosition
                            else route_target_model source) (\<lambda>target.
                  bind_res (lift_drift (classify_hot_completeness source target)) (\<lambda>complete.
                  Inr \<lparr>lm_mapping_version_id = sr_mapping_version_id row, lm_source = source,
                        lm_target_model = target, lm_hot_complete = complete\<rparr>)))"

end
