(* ===== verification/Canonical_Rows.thy ===== *)
theory Canonical_Rows
  imports Canonical_Models Mapping_Engine Csv_Ingest Sha256
begin

text \<open>
  Write-shape normalization of the streaming consumer
  (\<open>dis/services/streaming-consumer/src/streaming_consumer/pipeline/normalize.py\<close>): the rows of a
  validated contribution become event rows with their identity, dedup key, payload hash and hot
  contribution. A Python value is \<open>None\<close>, a text, a typed cell, a UUID or (as the value of a JSONB
  column) an object of texts. \<open>orjson\<close> and \<open>str\<close> of a value that is no text, int, bool or UUID are
  parameters.
\<close>

section \<open>Python values and rows\<close>

datatype pv = Text string | Cell cellval | Uuid uuid | Obj "string dict"

type_synonym pyval = "pv option"

record row_env =
  re_orjson :: "pyval dict \<Rightarrow> string"
  re_orjson_value :: "pv \<Rightarrow> string"
  re_str :: "pv \<Rightarrow> string"

fun cell_at :: "series \<Rightarrow> nat \<Rightarrow> pyval" where
  "cell_at (StrSeries cs) i = map_option Text (cs ! i)"
| "cell_at (TypedSeries _ cs) i = map_option Cell (cs ! i)"

text \<open>\<open>DataFrame.to_dicts\<close>\<close>

definition to_dicts :: "frame \<Rightarrow> pyval dict list" where
  "to_dicts fr = map (\<lambda>i. map (\<lambda>(c, s). (c, cell_at s i)) fr) [0..<height fr]"

text \<open>\<open>d.get(k)\<close>\<close>

definition get :: "pyval dict \<Rightarrow> string \<Rightarrow> pyval" where
  "get d k = (case map_of d k of Some v \<Rightarrow> v | None \<Rightarrow> None)"

text \<open>\<open>d.update(kvs)\<close>\<close>

definition dict_update :: "'v dict \<Rightarrow> 'v dict \<Rightarrow> 'v dict" where
  "dict_update d kvs = fold (\<lambda>(k, v). AList.update k v) kvs d"

fun py_str :: "row_env \<Rightarrow> pv \<Rightarrow> string" where
  "py_str env (Text s) = s"
| "py_str env (Uuid u) = uuid_str u"
| "py_str env (Cell (VInt n)) = (if n < 0 then ''-'' @ py_str_nat (nat (- n)) else py_str_nat (nat n))"
| "py_str env (Cell (VBool b)) = (if b then ''True'' else ''False'')"
| "py_str env v = re_str env v"

definition sha256_hex :: "string \<Rightarrow> string" where
  "sha256_hex s = hex_text (sha256 (map of_char s))"

text \<open>The bytes \<open>orjson.dumps\<close> returns are a list of characters; keys are sorted first.\<close>

definition canonical_row_hash :: "row_env \<Rightarrow> pyval dict \<Rightarrow> string" where
  "canonical_row_hash env payload = sha256_hex (re_orjson env (sort_key fst payload))"

definition jsonb_param :: "row_env \<Rightarrow> pyval \<Rightarrow> pyval" where
  "jsonb_param env v = map_option (\<lambda>x. Text (re_orjson_value env x)) v"

definition jsonb_object :: "row_env \<Rightarrow> pyval dict \<Rightarrow> pyval" where
  "jsonb_object env d = Some (Text (re_orjson env (sort_key fst d)))"

section \<open>Decimal(str(value))\<close>

text \<open>
  The grammar of \<open>decimal.Decimal\<close> on a text: white space around it and underscores are dropped,
  then a sign and either digits with an optional point and exponent, or an infinity or a NaN. A
  finite decimal is \<open>VDecimal\<close> of its signed coefficient and its scale (minus the exponent); the
  sign of a zero and the payload of a NaN are dropped, and the exponent limit of the C
  implementation (eighteen digits) is not modelled.
\<close>

definition dec_split_sign :: "string \<Rightarrow> bool \<times> string" where
  "dec_split_sign s =
     (case s of c # r \<Rightarrow> if c = CHR ''-'' then (True, r) else if c = CHR ''+'' then (False, r) else (False, s)
      | [] \<Rightarrow> (False, []))"

definition dec_exponent :: "string \<Rightarrow> int option" where
  "dec_exponent s =
     (case s of
        [] \<Rightarrow> Some 0
      | c # r \<Rightarrow>
          if c \<noteq> CHR ''e'' then None
          else (case dec_split_sign r of (negative, ds) \<Rightarrow>
            if ds \<noteq> [] \<and> list_all is_dec ds
            then Some (if negative then - int (dec_int ds) else int (dec_int ds)) else None))"

definition dec_finite :: "bool \<Rightarrow> string \<Rightarrow> cellval option" where
  "dec_finite negative s =
     (let whole = takeWhile is_dec s; r = dropWhile is_dec s;
          (frac, tail) = (case r of c # r' \<Rightarrow> if c = CHR ''.'' then (takeWhile is_dec r', dropWhile is_dec r') else ([], r)
                          | [] \<Rightarrow> ([], []))
      in if whole = [] \<and> frac = [] then None
         else case dec_exponent tail of
             None \<Rightarrow> None
           | Some e \<Rightarrow>
               Some (VDecimal (let n = int (dec_int (whole @ frac)) in if negative then - n else n)
                       (int (length frac) - e)))"

definition Decimal :: "string \<Rightarrow> cellval option" where
  "Decimal text =
     (case dec_split_sign (py_lower (filter (\<lambda>c. c \<noteq> CHR ''_'') (py_strip text))) of (negative, s) \<Rightarrow>
        if s = ''inf'' \<or> s = ''infinity'' then Some (VOther (if negative then ''-Infinity'' else ''Infinity''))
        else if prefix ''nan'' s \<and> list_all is_dec (drop 3 s) then Some (VOther ''NaN'')
        else if prefix ''snan'' s \<and> list_all is_dec (drop 4 s) then Some (VOther ''sNaN'')
        else dec_finite negative s)"

definition as_decimal :: "row_env \<Rightarrow> pyval \<Rightarrow> cellval option" where
  "as_decimal env v =
     (case v of
        None \<Rightarrow> None
      | Some (Cell (VDecimal n s)) \<Rightarrow> Some (VDecimal n s)
      | Some x \<Rightarrow> Decimal (py_str env x))"

text \<open>
  \<open>after - before\<close> in the default context: exact at the finer scale, then rounded to 28 digits,
  ties to even. \<open>None\<close> is \<open>InvalidOperation\<close>.
\<close>

definition dec_fix :: "int \<Rightarrow> int \<Rightarrow> cellval" where
  "dec_fix n s =
     (if \<bar>n\<bar> < 10 ^ 28 then VDecimal n s
      else let k = length (py_str_nat (nat \<bar>n\<bar>)) - 28; q = \<bar>n\<bar> div 10 ^ k; r = \<bar>n\<bar> mod 10 ^ k;
               q' = (if 2 * r < 10 ^ k then q else if 10 ^ k < 2 * r then q + 1 else if even q then q else q + 1);
               m = (if n < 0 then - q' else q')
           in if \<bar>m\<bar> < 10 ^ 28 then VDecimal m (s - int k) else VDecimal (m div 10) (s - int k - 1))"

definition dec_sub :: "cellval \<Rightarrow> cellval \<Rightarrow> cellval option" where
  "dec_sub x y =
     (if x = VOther ''sNaN'' \<or> y = VOther ''sNaN'' then None
      else if x = VOther ''NaN'' \<or> y = VOther ''NaN'' then Some (VOther ''NaN'')
      else case (x, y) of
          (VDecimal n s, VDecimal m t) \<Rightarrow>
            let u = max s t in Some (dec_fix (n * 10 ^ nat (u - s) - m * 10 ^ nat (u - t)) u)
        | (VOther i, VOther j) \<Rightarrow> if i = j then None else Some x
        | (VOther i, _) \<Rightarrow> Some x
        | (_, VOther j) \<Rightarrow> Some (VOther (if j = ''Infinity'' then ''-Infinity'' else ''Infinity''))
        | _ \<Rightarrow> None)"

section \<open>Event rows\<close>

type_synonym natural_key = "string \<times> string option \<times> string option"

record event_row =
  er_params :: "pyval dict"
  er_source_event_id :: string
  er_event_ts :: timestamp
  er_natural_key :: natural_key
  er_hot_contributions :: "pyval dict"
  er_payload :: "pyval dict"
  er_row_hash :: string
  er_chunk_row_index :: nat

datatype row_error = MissingColumn string | NotADatetime string | InvalidOperation

definition derive_source_event_id ::
  "row_env \<Rightarrow> pyval dict \<Rightarrow> canonical_model \<Rightarrow> uuid \<Rightarrow> nat \<Rightarrow> string" where
  "derive_source_event_id env payload target bronze_ref chunk_row_index =
     (case (target = StoreSkuSaleEvent, get payload ''transaction_id'', get payload ''line_item_seq'') of
        (True, Some transaction_id, Some line_item_seq) \<Rightarrow>
          py_str env transaction_id @ '':'' @ py_str env line_item_seq
      | _ \<Rightarrow> uuid_str bronze_ref @ '':'' @ py_str_nat chunk_row_index)"

definition NUMERIC_CATEGORIES :: "string list" where
  "NUMERIC_CATEGORIES = [''INVENTORY'', ''PRICE'', ''COST'']"

definition in_categories :: "pyval \<Rightarrow> string list \<Rightarrow> bool" where
  "in_categories v cats = (case v of Some (Text s) \<Rightarrow> s \<in> set cats | _ \<Rightarrow> False)"

definition jsonb_column :: "row_env \<Rightarrow> string \<Rightarrow> pyval dict \<Rightarrow> pyval dict" where
  "jsonb_column env c params =
     (if has_key params c then AList.update c (jsonb_param env (get params c)) params else params)"

definition populate_change_shortcuts ::
  "row_env \<Rightarrow> pyval dict \<Rightarrow> pyval dict \<Rightarrow> row_error + pyval dict" where
  "populate_change_shortcuts env params payload =
     (let category = get payload ''event_category''; numeric = in_categories category NUMERIC_CATEGORIES;
          before = (if numeric then as_decimal env (get payload ''value_before'') else None);
          after = (if numeric then as_decimal env (get payload ''value_after'') else None) in
      bind_res (case (category = Some (Text ''INVENTORY''), after, before) of
                  (True, Some a, Some b) \<Rightarrow>
                    (case dec_sub a b of None \<Rightarrow> Inl InvalidOperation | Some d \<Rightarrow> Inr (Some (Cell d)))
                | _ \<Rightarrow> Inr None) (\<lambda>change.
      Inr (fold (jsonb_column env) [''value_before'', ''value_after'', ''change_context'']
        (dict_update params
          [(''numeric_value_before'', map_option Cell before),
           (''numeric_value_after'', map_option Cell after), (''numeric_change'', change)]))))"

definition hot_contributions :: "row_env \<Rightarrow> pyval dict \<Rightarrow> bool \<Rightarrow> pyval dict" where
  "hot_contributions env payload is_sale =
     (if is_sale
      then dict_of (List.map_filter
             (\<lambda>(evt, hot). case get payload evt of None \<Rightarrow> None | v \<Rightarrow> Some (hot, v)) SALE_HOT_PROJECTION)
      else case (get payload ''event_category'', get payload ''attribute_name'') of
          (Some (Text category), Some (Text attr)) \<Rightarrow>
            (case map_of CHANGE_HOT_PROJECTION (category, attr) of
               None \<Rightarrow> []
             | Some hot_column \<Rightarrow>
                 let v = get payload ''value_after'';
                     v' = (if category \<in> set NUMERIC_CATEGORIES then map_option Cell (as_decimal env v) else v)
                 in if v' = None then [] else [(hot_column, v')])
        | _ \<Rightarrow> [])"

definition text_of :: "row_env \<Rightarrow> pyval \<Rightarrow> string option" where
  "text_of env v = map_option (py_str env) v"

text \<open>\<open>payload[c]\<close>; \<open>str(None)\<close> is \<open>None\<close> as a text.\<close>

definition index_column :: "pyval dict \<Rightarrow> string \<Rightarrow> row_error + pyval" where
  "index_column payload c = (case map_of payload c of None \<Rightarrow> Inl (MissingColumn c) | Some v \<Rightarrow> Inr v)"

definition str_of :: "row_env \<Rightarrow> pyval \<Rightarrow> string" where
  "str_of env v = (case v of None \<Rightarrow> ''None'' | Some x \<Rightarrow> py_str env x)"

text \<open>The variant and the lot are text columns of both models, so their raw values are texts or \<open>None\<close>.\<close>

definition natural_key_of :: "row_env \<Rightarrow> pyval dict \<Rightarrow> row_error + natural_key" where
  "natural_key_of env payload =
     bind_res (index_column payload ''sku_id'') (\<lambda>sku.
     Inr (str_of env sku, text_of env (get payload ''sku_variant''), text_of env (get payload ''sku_lot_batch'')))"

definition event_ts_column :: "canonical_model \<Rightarrow> string" where
  "event_ts_column target =
     (if target = StoreSkuSaleEvent then ''source_sale_timestamp'' else ''source_event_timestamp'')"

definition consumer_columns ::
  "row_env \<Rightarrow> ingress_ready \<Rightarrow> string \<Rightarrow> loaded_mapping \<Rightarrow> uuid \<Rightarrow> string \<Rightarrow> string \<Rightarrow> nat \<Rightarrow> pyval dict" where
  "consumer_columns env event dis_channel loaded new_id source_event_id row_hash chunk_row_index =
     [(''id'', Some (Uuid new_id)), (''tenant_id'', Some (Uuid (ir_tenant_id event))),
      (''store_id'', Some (Uuid (ir_store_id event))), (''source_id'', Some (Text (ir_source_id event))),
      (''source_event_id'', Some (Text source_event_id)), (''row_hash'', Some (Text row_hash)),
      (''mapping_version_id'', Some (Cell (VInt (lm_mapping_version_id loaded)))),
      (''trace_id'', Some (Uuid (ir_trace_id event))), (''dis_channel'', Some (Text dis_channel)),
      (''ingest_metadata'', jsonb_object env
        [(''dis_received_timestamp'', Some (Text (iso_instant (ir_received_ts event)))),
         (''csv_row_num'', Some (Cell (VInt (int chunk_row_index))))])]"

text \<open>One turn of the loop, for the row at position \<open>chunk_row_index\<close> of the chunk.\<close>

definition build_event_row ::
  "row_env \<Rightarrow> ingress_ready \<Rightarrow> string \<Rightarrow> loaded_mapping \<Rightarrow> pyval \<Rightarrow> uuid \<Rightarrow> pyval dict \<times> nat \<Rightarrow>
   row_error + event_row" where
  "build_event_row env event dis_channel loaded tax_treatment new_id row =
     (case row of (payload, chunk_row_index) \<Rightarrow>
        let target = lm_target_model loaded; is_sale = (target = StoreSkuSaleEvent);
            ts_column = event_ts_column target in
        bind_res (index_column payload ts_column) (\<lambda>ts_value.
        bind_res (case ts_value of Some (Cell (VDatetime t)) \<Rightarrow> Inr t | _ \<Rightarrow> Inl (NotADatetime ts_column)) (\<lambda>event_ts.
        let source_event_id = derive_source_event_id env payload target (ir_bronze_ref event) chunk_row_index;
            row_hash = canonical_row_hash env payload;
            params = dict_update payload
              (consumer_columns env event dis_channel loaded new_id source_event_id row_hash chunk_row_index) in
        bind_res (if is_sale then Inr (AList.update ''tax_treatment'' tax_treatment params)
                  else populate_change_shortcuts env params payload) (\<lambda>params'.
        bind_res (natural_key_of env payload) (\<lambda>key.
        Inr \<lparr>er_params = params', er_source_event_id = source_event_id, er_event_ts = event_ts,
              er_natural_key = key, er_hot_contributions = hot_contributions env payload is_sale,
              er_payload = payload, er_row_hash = row_hash, er_chunk_row_index = chunk_row_index\<rparr>)))))"

text \<open>\<open>zip(..., strict=True)\<close>; identifiers are the next ones minted, one per row.\<close>

definition build_event_rows ::
  "row_env \<Rightarrow> (nat \<Rightarrow> uuid) \<Rightarrow> ingress_ready \<Rightarrow> string \<Rightarrow> loaded_mapping \<Rightarrow> mapping_result \<Rightarrow> pyval \<Rightarrow>
   row_error + event_row list" where
  "build_event_rows env new_ids event dis_channel loaded result tax_treatment =
     map_res (\<lambda>(n, row). build_event_row env event dis_channel loaded tax_treatment (new_ids n) row)
       (enumerate_from 0 (zip (to_dicts (mr_contribution result)) (mr_source_row_indices result)))"

end
