(* ===== verification/Canonical_Sink.thy ===== *)
theory Canonical_Sink
  imports Canonical_Rows "HOL-Library.Product_Lexorder"
begin

text \<open>
  The dual write of the streaming consumer
  (\<open>dis/services/streaming-consumer/src/streaming_consumer/sinks/canonical.py\<close>): per batch, one
  transaction detects duplicates, appends to the event table and merges the hot rows. A table is
  the list of its rows, a row the function from a column to its value (\<open>None\<close> is NULL). The tables'
  constraints are those of \<open>dis/schemas/postgres/canonical\<close>: the NOT NULL columns and the keys are
  spelled out, and so are the two presence-pairing CHECKs of the hot table; the value-range CHECKs
  and foreign keys are the parameter \<open>sk_checks\<close>, and what a column makes of a bound value (\<open>None\<close>
  when it refuses it), as the driver hands it back, is the parameter \<open>sk_column\<close>.
\<close>

section \<open>Tables\<close>

type_synonym db_row = "string \<Rightarrow> pyval"

record canonical_db =
  cd_sale_events :: "db_row list"
  cd_change_events :: "db_row list"
  cd_current_position :: "db_row list"

record sink_env =
  sk_rows :: row_env
  sk_column :: "canonical_model \<Rightarrow> string \<Rightarrow> pv \<Rightarrow> pyval option"
  sk_checks :: "canonical_model \<Rightarrow> db_row \<Rightarrow> bool"

datatype sink_error =
    DatabaseRefuses
  | HotPositionMissing "natural_key list"
  | BadModel

definition event_table :: "canonical_model \<Rightarrow> canonical_db \<Rightarrow> db_row list" where
  "event_table m db = (if m = StoreSkuSaleEvent then cd_sale_events db else cd_change_events db)"

definition set_event_table :: "canonical_model \<Rightarrow> db_row list \<Rightarrow> canonical_db \<Rightarrow> canonical_db" where
  "set_event_table m rows db =
     (if m = StoreSkuSaleEvent then db\<lparr>cd_sale_events := rows\<rparr> else db\<lparr>cd_change_events := rows\<rparr>)"

text \<open>The column's value for a bound one; NULL is bound as it is.\<close>

definition stored :: "sink_env \<Rightarrow> canonical_model \<Rightarrow> string \<Rightarrow> pyval \<Rightarrow> pyval option" where
  "stored env m c v = (case v of None \<Rightarrow> Some None | Some x \<Rightarrow> sk_column env m c x)"

text \<open>\<open>attribute_staleness_map\<close> is bound as the text of a JSON object; its column holds the object.\<close>

definition instant :: "timestamp \<Rightarrow> pyval" where
  "instant t = Some (Cell (VDatetime t))"

definition instant_of :: "pyval \<Rightarrow> timestamp option" where
  "instant_of v = (case v of Some (Cell (VDatetime t)) \<Rightarrow> Some t | _ \<Rightarrow> None)"

definition not_null :: "canonical_model \<Rightarrow> string list" where
  "not_null m = ''id'' # ''last_updated_at'' # map mf_name (filter mf_required (model_fields m))"

definition presence_pairing :: "db_row \<Rightarrow> bool" where
  "presence_pairing r \<longleftrightarrow>
     (r ''promo_identifier'' = None \<or> r ''promo_price'' \<noteq> None) \<and>
     ((r ''expiry_date'' = None \<and> r ''expiry_source'' = None \<and> r ''expiry_confidence'' = None) \<or>
      (r ''expiry_date'' \<noteq> None \<and> r ''expiry_source'' \<noteq> None \<and> r ''expiry_confidence'' \<noteq> None)) \<and>
     r ''sku_variant'' \<noteq> Some (Text []) \<and> r ''sku_lot_batch'' \<noteq> Some (Text [])"

definition row_ok :: "sink_env \<Rightarrow> canonical_model \<Rightarrow> db_row \<Rightarrow> bool" where
  "row_ok env m r \<longleftrightarrow>
     list_all (\<lambda>c. r c \<noteq> None) (not_null m) \<and>
     (m = StoreSkuCurrentPosition \<longrightarrow> presence_pairing r) \<and> sk_checks env m r"

text \<open>A row with the columns \<open>cs\<close> set to the bound values, touched at \<open>now\<close>.\<close>

definition set_columns ::
  "sink_env \<Rightarrow> canonical_model \<Rightarrow> timestamp \<Rightarrow> string list \<Rightarrow> pyval dict \<Rightarrow> db_row \<Rightarrow> db_row option" where
  "set_columns env m now cs params r =
     (if list_all (\<lambda>c. stored env m c (get params c) \<noteq> None) cs
      then Some (\<lambda>c. if c = ''last_updated_at'' then instant now
                     else if c \<in> set cs then the (stored env m c (get params c)) else r c)
      else None)"

section \<open>The event insert\<close>

text \<open>\<open>uq_*_redelivery\<close>\<close>

definition redelivery_key :: "db_row \<Rightarrow> pyval list" where
  "redelivery_key r = map r [''tenant_id'', ''store_id'', ''source_id'', ''source_event_id'', ''row_hash'']"

definition insert_columns :: "canonical_model \<Rightarrow> string list" where
  "insert_columns m = filter (\<lambda>c. c \<noteq> ''last_updated_at'') (field_names m)"

text \<open>
  \<open>INSERT ... ON CONFLICT (...) DO NOTHING\<close>: the constraints of the candidate are checked before the
  conflict, and a violation of the primary key raises.
\<close>

definition claim_event :: "db_row \<Rightarrow> db_row list \<Rightarrow> db_row list" where
  "claim_event r rows = (if redelivery_key r \<in> redelivery_key ` set rows then rows else rows @ [r])"

definition insert_event ::
  "sink_env \<Rightarrow> canonical_model \<Rightarrow> timestamp \<Rightarrow> event_row \<Rightarrow> db_row list \<Rightarrow> sink_error + db_row list" where
  "insert_event env m now row rows =
     (case set_columns env m now (insert_columns m) (er_params row) (\<lambda>_. None) of
        None \<Rightarrow> Inl DatabaseRefuses
      | Some r \<Rightarrow>
          if \<not> row_ok env m r then Inl DatabaseRefuses
          else if redelivery_key r \<notin> redelivery_key ` set rows \<and> r ''id'' \<in> (\<lambda>r. r ''id'') ` set rows
          then Inl DatabaseRefuses
          else Inr (claim_event r rows))"

definition insert_events ::
  "sink_env \<Rightarrow> canonical_model \<Rightarrow> timestamp \<Rightarrow> event_row list \<Rightarrow> db_row list \<Rightarrow> sink_error + db_row list" where
  "insert_events env m now batch rows = fold_res (insert_event env m now) batch rows"

section \<open>Duplicate detection\<close>

datatype duplicate_kind = DUPLICATE_NOOP | DUPLICATE_OVERWRITTEN

record duplicate_hit =
  dh_source_event_id :: string
  dh_prior_trace_id :: pyval
  dh_kind :: duplicate_kind
  dh_row_hash :: string
  dh_chunk_row_index :: nat

definition same_source :: "ingress_ready \<Rightarrow> db_row \<Rightarrow> bool" where
  "same_source event r \<longleftrightarrow>
     r ''tenant_id'' = Some (Uuid (ir_tenant_id event)) \<and> r ''store_id'' = Some (Uuid (ir_store_id event)) \<and>
     r ''source_id'' = Some (Text (ir_source_id event))"

text \<open>\<open>ORDER BY ts DESC, last_updated_at DESC, id DESC\<close>: the later row by this key comes first.\<close>

definition recency :: "canonical_model \<Rightarrow> db_row \<Rightarrow> int \<times> int \<times> nat" where
  "recency m r =
     (the (instant_of (r (event_ts_column m))), the (instant_of (r ''last_updated_at'')),
      case r ''id'' of Some (Uuid u) \<Rightarrow> unat u | _ \<Rightarrow> 0)"

definition later_row :: "canonical_model \<Rightarrow> db_row \<Rightarrow> db_row \<Rightarrow> db_row" where
  "later_row m r s = (if recency m r < recency m s then s else r)"

definition latest_prior :: "canonical_model \<Rightarrow> ingress_ready \<Rightarrow> db_row list \<Rightarrow> string \<Rightarrow> db_row option" where
  "latest_prior m event rows key =
     (case filter (\<lambda>r. same_source event r \<and> r ''source_event_id'' = Some (Text key)) rows of
        [] \<Rightarrow> None
      | r # rs \<Rightarrow> Some (fold (\<lambda>s best. later_row m best s) rs r))"

text \<open>The result set of the query: one row per key, ordered by key.\<close>

definition prior_rows ::
  "canonical_model \<Rightarrow> ingress_ready \<Rightarrow> db_row list \<Rightarrow> event_row list \<Rightarrow> (string \<times> db_row) list" where
  "prior_rows m event rows batch =
     List.map_filter (\<lambda>key. map_option (Pair key) (latest_prior m event rows key))
       (sort (remdups (map er_source_event_id batch)))"

definition prior_payload :: "loaded_mapping \<Rightarrow> db_row \<Rightarrow> pyval dict" where
  "prior_payload loaded r = dict_of (map (\<lambda>c. (c, r c)) (target_columns (lm_source loaded)))"

text \<open>
  The trace in a hit is read from \<open>prior\<close>, the variable of the first loop, which still holds the
  last row of the result set.
\<close>

definition detect_duplicates ::
  "sink_env \<Rightarrow> ingress_ready \<Rightarrow> loaded_mapping \<Rightarrow> event_row list \<Rightarrow> db_row list \<Rightarrow> duplicate_hit list" where
  "detect_duplicates env event loaded batch rows =
     (let priors = prior_rows (lm_target_model loaded) event rows batch;
          last_trace = (if priors = [] then None else snd (last priors) ''trace_id'')
      in List.map_filter (\<lambda>row.
           case map_of priors (er_source_event_id row) of
             None \<Rightarrow> None
           | Some prior_row \<Rightarrow>
               Some \<lparr>dh_source_event_id = er_source_event_id row, dh_prior_trace_id = last_trace,
                     dh_kind =
                       (if canonical_row_hash (sk_rows env) (prior_payload loaded prior_row) = er_row_hash row
                        then DUPLICATE_NOOP else DUPLICATE_OVERWRITTEN),
                     dh_row_hash = er_row_hash row, dh_chunk_row_index = er_chunk_row_index row\<rparr>)
           batch)"

definition is_redelivery :: "duplicate_hit dict \<Rightarrow> event_row \<Rightarrow> bool" where
  "is_redelivery suppressed_keys row \<longleftrightarrow>
     (case map_of suppressed_keys (er_source_event_id row) of
        None \<Rightarrow> False | Some hit \<Rightarrow> dh_row_hash hit = er_row_hash row)"

definition noop_hits :: "duplicate_hit list \<Rightarrow> duplicate_hit dict" where
  "noop_hits hits =
     dict_of (map (\<lambda>h. (dh_source_event_id h, h)) (filter (\<lambda>h. dh_kind h = DUPLICATE_NOOP) hits))"

definition partition_redeliveries ::
  "event_row list \<Rightarrow> duplicate_hit list \<Rightarrow> event_row list \<times> duplicate_hit list" where
  "partition_redeliveries batch hits =
     (let suppressed_keys = noop_hits hits in
      (filter (\<lambda>row. \<not> is_redelivery suppressed_keys row) batch,
       map (\<lambda>row. the (map_of suppressed_keys (er_source_event_id row)))
         (filter (is_redelivery suppressed_keys) batch)))"

text \<open>\<open>range(0, len(rows), size)\<close> raises for a zero size; the size is a positive constant.\<close>

function batches :: "nat \<Rightarrow> 'a list \<Rightarrow> 'a list list" where
  "batches n rows = (if n = 0 \<or> rows = [] then [] else take n rows # batches n (drop n rows))"
  by pat_completeness auto

termination batches
  by (relation "measure (\<lambda>(n, rows). length rows)") auto

declare batches.simps [simp del]

section \<open>Hot groups\<close>

record hot_group =
  hg_natural_key :: natural_key
  hg_projected :: "pyval dict"
  hg_last_source_event_at :: timestamp
  hg_source_event_id :: string
  hg_chunk_row_index :: nat

definition new_group :: "event_row \<Rightarrow> hot_group" where
  "new_group row =
     \<lparr>hg_natural_key = er_natural_key row, hg_projected = er_hot_contributions row,
      hg_last_source_event_at = er_event_ts row, hg_source_event_id = er_source_event_id row,
      hg_chunk_row_index = er_chunk_row_index row\<rparr>"

definition merge_group :: "event_row \<Rightarrow> hot_group \<Rightarrow> hot_group" where
  "merge_group row g =
     (let newer = (hg_last_source_event_at g \<le> er_event_ts row);
          g' = g\<lparr>hg_projected :=
            fold (\<lambda>(c, v) d. if newer \<or> \<not> has_key d c then AList.update c v d else d)
              (er_hot_contributions row) (hg_projected g)\<rparr>
      in if newer
         then g'\<lparr>hg_last_source_event_at := er_event_ts row, hg_source_event_id := er_source_event_id row,
                hg_chunk_row_index := er_chunk_row_index row\<rparr>
         else g')"

definition add_to_groups ::
  "event_row \<Rightarrow> (natural_key \<times> hot_group) list \<Rightarrow> (natural_key \<times> hot_group) list" where
  "add_to_groups row groups =
     (case map_of groups (er_natural_key row) of
        None \<Rightarrow> groups @ [(er_natural_key row, new_group row)]
      | Some g \<Rightarrow> AList.update (er_natural_key row) (merge_group row g) groups)"

definition group_hot :: "event_row list \<Rightarrow> hot_group list" where
  "group_hot batch = map snd (fold add_to_groups batch [])"

definition text_or_empty :: "string option \<Rightarrow> string" where
  "text_or_empty s = (case s of None \<Rightarrow> [] | Some x \<Rightarrow> x)"

definition hot_sort_key :: "hot_group \<Rightarrow> string \<times> string \<times> string" where
  "hot_sort_key g =
     (case hg_natural_key g of (sku_id, sku_variant, sku_lot_batch) \<Rightarrow>
        (sku_id, text_or_empty sku_variant, text_or_empty sku_lot_batch))"

definition hot_params ::
  "sink_env \<Rightarrow> ingress_ready \<Rightarrow> loaded_mapping \<Rightarrow> hot_group \<Rightarrow> string \<Rightarrow> pyval \<Rightarrow> uuid \<Rightarrow> pyval dict" where
  "hot_params env event loaded g dis_channel tax_treatment new_id =
     (case hg_natural_key g of (sku_id, sku_variant, sku_lot_batch) \<Rightarrow>
        dict_update
          [(''id'', Some (Uuid new_id)), (''tenant_id'', Some (Uuid (ir_tenant_id event))),
           (''store_id'', Some (Uuid (ir_store_id event))), (''sku_id'', Some (Text sku_id)),
           (''sku_variant'', map_option Text sku_variant), (''sku_lot_batch'', map_option Text sku_lot_batch),
           (''tax_treatment'', tax_treatment), (''last_source_event_at'', instant (hg_last_source_event_at g)),
           (''mapping_version_id'', Some (Cell (VInt (lm_mapping_version_id loaded)))),
           (''trace_id'', Some (Uuid (ir_trace_id event))), (''dis_channel'', Some (Text dis_channel)),
           (''ingest_metadata'', jsonb_object (sk_rows env)
             [(''source_id'', Some (Text (ir_source_id event))),
              (''source_event_id'', Some (Text (hg_source_event_id g))),
              (''source_event_timestamp'', Some (Text (iso_instant (hg_last_source_event_at g)))),
              (''dis_received_timestamp'', Some (Text (iso_instant (ir_received_ts event)))),
              (''csv_row_num'', Some (Cell (VInt (int (hg_chunk_row_index g)))))])]
          (hg_projected g))"

section \<open>The two hot paths\<close>

datatype hot_outcome = Written | NoopOlder | Missing

definition coalesce :: "pyval \<Rightarrow> pyval" where
  "coalesce v = (case v of None \<Rightarrow> Some (Text []) | Some x \<Rightarrow> Some x)"

text \<open>\<open>uq_sscp_natural_key\<close>\<close>

definition hot_key :: "(string \<Rightarrow> pyval) \<Rightarrow> pyval list" where
  "hot_key r =
     [r ''tenant_id'', r ''store_id'', r ''sku_id'', coalesce (r ''sku_variant''), coalesce (r ''sku_lot_batch'')]"

definition hot_clock :: "db_row \<Rightarrow> timestamp option" where
  "hot_clock r = instant_of (r ''last_source_event_at'')"

definition clock_admits :: "timestamp \<Rightarrow> db_row \<Rightarrow> bool" where
  "clock_admits t r \<longleftrightarrow> (case hot_clock r of None \<Rightarrow> True | Some u \<Rightarrow> u \<le> t)"

definition LINEAGE_COLUMNS :: "string list" where
  "LINEAGE_COLUMNS =
     [''last_source_event_at'', ''mapping_version_id'', ''trace_id'', ''dis_channel'', ''ingest_metadata'']"

text \<open>An \<open>UPDATE\<close> of the rows under \<open>sel\<close>; a refused row undoes the statement.\<close>

definition update_rows ::
  "sink_env \<Rightarrow> (db_row \<Rightarrow> bool) \<Rightarrow> (db_row \<Rightarrow> db_row option) \<Rightarrow> db_row list \<Rightarrow> sink_error + db_row list" where
  "update_rows env sel change rows =
     map_res (\<lambda>r. if \<not> sel r then Inr r
                  else case change r of
                      None \<Rightarrow> Inl DatabaseRefuses
                    | Some r' \<Rightarrow>
                        if row_ok env StoreSkuCurrentPosition r' then Inr r' else Inl DatabaseRefuses) rows"

definition update_hot_incomplete_path ::
  "sink_env \<Rightarrow> timestamp \<Rightarrow> pyval dict \<Rightarrow> string list \<Rightarrow> db_row list \<Rightarrow>
   sink_error + (hot_outcome \<times> db_row list)" where
  "update_hot_incomplete_path env now params projected rows =
     (let matches = (\<lambda>r. hot_key r = hot_key (get params));
          sel = (\<lambda>r. matches r \<and> clock_admits (the (instant_of (get params ''last_source_event_at''))) r) in
      bind_res (update_rows env sel
                  (set_columns env StoreSkuCurrentPosition now (projected @ LINEAGE_COLUMNS) params) rows) (\<lambda>rows'.
      Inr (if list_ex sel rows then (Written, rows')
           else if list_ex matches rows then (NoopOlder, rows) else (Missing, rows))))"

definition CHANGE_STAMP_COLUMNS :: "(string \<times> string) list" where
  "CHANGE_STAMP_COLUMNS =
     [(''current_retail_price'', ''current_retail_price_changed_at''),
      (''product_name'', ''product_name_changed_at'')]"

definition active_stamps :: "string list \<Rightarrow> (string \<times> string) list" where
  "active_stamps projected = filter (\<lambda>(value_col, _). value_col \<in> set projected) CHANGE_STAMP_COLUMNS"

text \<open>\<open>CASE WHEN old IS DISTINCT FROM new THEN EXCLUDED.last_source_event_at ELSE old stamp END\<close>\<close>

definition stamp_set_clause :: "db_row \<Rightarrow> db_row \<Rightarrow> string \<times> string \<Rightarrow> db_row \<Rightarrow> db_row" where
  "stamp_set_clause old excluded stamp r =
     (case stamp of (value_col, stamp_col) \<Rightarrow>
        r(stamp_col := (if old value_col \<noteq> excluded value_col then excluded ''last_source_event_at''
                        else old stamp_col)))"

text \<open>\<open>COALESCE(old, '{}') || EXCLUDED\<close> on JSON objects; \<open>||\<close> with NULL is NULL.\<close>

definition staleness_merge :: "pyval \<Rightarrow> pyval \<Rightarrow> pyval" where
  "staleness_merge old new =
     (case (old, new) of
        (_, None) \<Rightarrow> None
      | (Some (Obj d), Some (Obj e)) \<Rightarrow> Some (Obj (dict_update d e))
      | (_, Some x) \<Rightarrow> Some x)"

definition staleness_merge_clause :: "string list \<Rightarrow> db_row \<Rightarrow> db_row \<Rightarrow> db_row \<Rightarrow> db_row" where
  "staleness_merge_clause projected old excluded r =
     (if ''attribute_staleness_map'' \<in> set projected
      then r(''attribute_staleness_map'' :=
               staleness_merge (old ''attribute_staleness_map'') (excluded ''attribute_staleness_map''))
      else r)"

definition hot_insert_columns :: "string list \<Rightarrow> string list" where
  "hot_insert_columns projected =
     [''id'', ''tenant_id'', ''store_id'', ''sku_id'', ''sku_variant'', ''sku_lot_batch''] @ projected @
     (if ''tax_treatment'' \<in> set projected then [] else [''tax_treatment'']) @ LINEAGE_COLUMNS @
     map snd (active_stamps projected)"

text \<open>The columns the statement does not list take their defaults.\<close>

definition hot_defaults :: db_row where
  "hot_defaults = (\<lambda>_. None)(''regulatory_flag'' := Some (Cell (VBool False)))"

definition do_update :: "timestamp \<Rightarrow> string list \<Rightarrow> db_row \<Rightarrow> db_row \<Rightarrow> db_row" where
  "do_update now projected excluded old =
     fold (stamp_set_clause old excluded) (active_stamps projected)
       (staleness_merge_clause projected old excluded
         (\<lambda>c. if c = ''last_updated_at'' then instant now
              else if c \<in> set (filter (\<lambda>c. c \<noteq> ''attribute_staleness_map'') projected @ LINEAGE_COLUMNS)
              then excluded c else old c))"

definition insert_on_conflict_hot_complete_path ::
  "sink_env \<Rightarrow> timestamp \<Rightarrow> pyval dict \<Rightarrow> string list \<Rightarrow> db_row list \<Rightarrow>
   sink_error + (hot_outcome \<times> db_row list)" where
  "insert_on_conflict_hot_complete_path env now params projected rows =
     (let exec_params = dict_update params
            (map (\<lambda>(_, stamp_col). (stamp_col, get params ''last_source_event_at'')) (active_stamps projected)) in
      case set_columns env StoreSkuCurrentPosition now (hot_insert_columns projected) exec_params hot_defaults of
        None \<Rightarrow> Inl DatabaseRefuses
      | Some excluded \<Rightarrow>
          if \<not> row_ok env StoreSkuCurrentPosition excluded then Inl DatabaseRefuses
          else
            let conflict = (\<lambda>r. hot_key r = hot_key excluded);
                sel = (\<lambda>r. conflict r \<and> clock_admits (the (instant_of (excluded ''last_source_event_at''))) r) in
            if list_ex conflict rows then
              bind_res (update_rows env sel (\<lambda>r. Some (do_update now projected excluded r)) rows) (\<lambda>rows'.
              Inr (if list_ex sel rows then (Written, rows') else (NoopOlder, rows)))
            else if excluded ''id'' \<in> (\<lambda>r. r ''id'') ` set rows then Inl DatabaseRefuses
            else Inr (Written, rows @ [excluded]))"

definition upsert_hot ::
  "sink_env \<Rightarrow> timestamp \<Rightarrow> ingress_ready \<Rightarrow> loaded_mapping \<Rightarrow> string \<Rightarrow> pyval \<Rightarrow> hot_group \<times> uuid \<Rightarrow>
   db_row list \<Rightarrow> sink_error + (hot_outcome \<times> db_row list)" where
  "upsert_hot env now event loaded dis_channel tax_treatment gi rows =
     (case gi of (g, new_id) \<Rightarrow>
        let params = hot_params env event loaded g dis_channel tax_treatment new_id;
            projected = keys (hg_projected g) in
        (if lm_hot_complete loaded then insert_on_conflict_hot_complete_path else update_hot_incomplete_path)
          env now params projected rows)"

section \<open>One batch\<close>

record batch_report =
  bt_hits :: "duplicate_hit list"
  bt_suppressed :: "duplicate_hit list"
  bt_inserted :: nat
  bt_outcomes :: "(natural_key \<times> hot_outcome) list"

text \<open>The loop over the sorted groups, with the identifiers minted for them.\<close>

definition merge_groups ::
  "sink_env \<Rightarrow> timestamp \<Rightarrow> ingress_ready \<Rightarrow> loaded_mapping \<Rightarrow> string \<Rightarrow> pyval \<Rightarrow> (hot_group \<times> uuid) list \<Rightarrow>
   db_row list \<Rightarrow> sink_error + ((natural_key \<times> hot_outcome) list \<times> db_row list)" where
  "merge_groups env now event loaded dis_channel tax_treatment groups rows =
     fold_res (\<lambda>gi (outcomes, rs).
       bind_res (upsert_hot env now event loaded dis_channel tax_treatment gi rs) (\<lambda>(outcome, rs').
       Inr (outcomes @ [(hg_natural_key (fst gi), outcome)], rs'))) groups ([], rows)"

definition sorted_groups :: "event_row list \<Rightarrow> hot_group list" where
  "sorted_groups batch = sort_key hot_sort_key (group_hot batch)"

text \<open>
  The body of the transaction, given the verdicts of the detection (which under concurrency may
  come from an older snapshot than the writes meet).
\<close>

definition commit_batch ::
  "sink_env \<Rightarrow> timestamp \<Rightarrow> (nat \<Rightarrow> uuid) \<Rightarrow> ingress_ready \<Rightarrow> loaded_mapping \<Rightarrow> string \<Rightarrow> pyval \<Rightarrow>
   event_row list \<Rightarrow> duplicate_hit list \<Rightarrow> canonical_db \<Rightarrow> sink_error + (batch_report \<times> canonical_db)" where
  "commit_batch env now new_ids event loaded dis_channel tax_treatment batch hits db =
     (let m = lm_target_model loaded; parts = partition_redeliveries batch hits;
          groups = sorted_groups batch in
      bind_res (insert_events env m now (fst parts) (event_table m db)) (\<lambda>log.
      bind_res (merge_groups env now event loaded dis_channel tax_treatment
                  (zip groups (map new_ids [0..<length groups])) (cd_current_position db)) (\<lambda>(outcomes, hot).
      Inr (\<lparr>bt_hits = hits, bt_suppressed = snd parts, bt_inserted = length (fst parts),
             bt_outcomes = outcomes\<rparr>,
           (set_event_table m log db)\<lparr>cd_current_position := hot\<rparr>))))"

definition write_batch ::
  "sink_env \<Rightarrow> timestamp \<Rightarrow> (nat \<Rightarrow> uuid) \<Rightarrow> ingress_ready \<Rightarrow> loaded_mapping \<Rightarrow> string \<Rightarrow> pyval \<Rightarrow>
   event_row list \<Rightarrow> canonical_db \<Rightarrow> sink_error + (batch_report \<times> canonical_db)" where
  "write_batch env now new_ids event loaded dis_channel tax_treatment batch db =
     commit_batch env now new_ids event loaded dis_channel tax_treatment batch
       (detect_duplicates env event loaded batch (event_table (lm_target_model loaded) db)) db"

definition missed :: "batch_report \<Rightarrow> natural_key list" where
  "missed rep = map fst (filter (\<lambda>(_, o'). o' = Missing) (bt_outcomes rep))"

section \<open>The catalogue write\<close>

definition CATALOGUE_STALENESS_COLUMNS :: "string list" where
  "CATALOGUE_STALENESS_COLUMNS = [''current_retail_price'', ''unit_cost'', ''stock_qty'', ''expiry_date'']"

definition staleness_stamp_keys :: "pyval dict \<Rightarrow> string list \<Rightarrow> string list" where
  "staleness_stamp_keys projected staleness_cols =
     sort (remdups (filter (\<lambda>c. has_key projected c \<and> get projected c \<noteq> None) staleness_cols))"

definition HOT_NATURAL_KEY_COLS :: "string list" where
  "HOT_NATURAL_KEY_COLS = [''sku_id'', ''sku_variant'', ''sku_lot_batch'']"

definition catalogue_projection :: "string list \<Rightarrow> string \<Rightarrow> pyval dict \<Rightarrow> pyval dict" where
  "catalogue_projection produced received_iso payload =
     (let projected = filter (\<lambda>(c, _). c \<in> set produced \<and> c \<notin> set HOT_NATURAL_KEY_COLS) payload;
          stamp = staleness_stamp_keys projected CATALOGUE_STALENESS_COLUMNS
      in if stamp = [] then projected
         else AList.update ''attribute_staleness_map''
                (Some (Obj (map (\<lambda>c. (c, received_iso)) stamp))) projected)"

definition catalogue_group ::
  "sink_env \<Rightarrow> string list \<Rightarrow> ingress_ready \<Rightarrow> pyval dict \<times> nat \<Rightarrow> row_error + hot_group" where
  "catalogue_group env produced event row =
     (case row of (payload, chunk_row_index) \<Rightarrow>
        bind_res (natural_key_of (sk_rows env) payload) (\<lambda>key.
        Inr \<lparr>hg_natural_key = key,
              hg_projected = catalogue_projection produced (iso_instant (ir_received_ts event)) payload,
              hg_last_source_event_at = ir_received_ts event,
              hg_source_event_id = uuid_str (ir_bronze_ref event) @ '':'' @ py_str_nat chunk_row_index,
              hg_chunk_row_index = chunk_row_index\<rparr>))"

definition catalogue_produced :: "drift_error + string list" where
  "catalogue_produced =
     bind_res (mapping_produced_columns StoreSkuCurrentPosition) (\<lambda>produced.
     Inr (produced @ enrichment_fields CURRENT_POSITION))"

definition catalogue_groups ::
  "sink_env \<Rightarrow> string list \<Rightarrow> ingress_ready \<Rightarrow> mapping_result \<Rightarrow> row_error + hot_group list" where
  "catalogue_groups env produced event result =
     map_res (catalogue_group env produced event)
       (zip (to_dicts (mr_contribution result)) (mr_source_row_indices result))"

text \<open>One transaction of the catalogue write; every group goes through the complete path.\<close>

definition write_catalogue_batch ::
  "sink_env \<Rightarrow> timestamp \<Rightarrow> (nat \<Rightarrow> uuid) \<Rightarrow> ingress_ready \<Rightarrow> loaded_mapping \<Rightarrow> string \<Rightarrow>
   hot_group list \<Rightarrow> canonical_db \<Rightarrow> sink_error + (batch_report \<times> canonical_db)" where
  "write_catalogue_batch env now new_ids event loaded dis_channel batch db =
     (let groups = sort_key hot_sort_key batch in
      bind_res (fold_res (\<lambda>(g, new_id) (outcomes, rs).
          bind_res (insert_on_conflict_hot_complete_path env now
                      (hot_params env event loaded g dis_channel None new_id) (keys (hg_projected g)) rs)
            (\<lambda>(outcome, rs'). Inr (outcomes @ [(hg_natural_key g, outcome)], rs')))
        (zip groups (map new_ids [0..<length groups])) ([], cd_current_position db)) (\<lambda>(outcomes, hot).
      Inr (\<lparr>bt_hits = [], bt_suppressed = [], bt_inserted = 0, bt_outcomes = outcomes\<rparr>,
           db\<lparr>cd_current_position := hot\<rparr>)))"

end
