(* ===== verification/Canonical_Registers.thy ===== *)
theory Canonical_Registers
  imports Canonical_Sink Unique_Ledger
begin

text \<open>
  What the two tables of the dual write are. The event table is a ledger claimed once per
  redelivery key. The hot table refines a map from natural keys to last-writer-wins registers: a
  merge reads and writes the register of its key only, and a register takes a write exactly when
  its clock admits the time of the write.
\<close>

section \<open>What the columns give back\<close>

definition TEXT_KEY_COLUMNS :: "string list" where
  "TEXT_KEY_COLUMNS =
     [''sku_id'', ''sku_variant'', ''sku_lot_batch'', ''source_id'', ''source_event_id'', ''row_hash'']"

definition INSTANT_COLUMNS :: "string list" where
  "INSTANT_COLUMNS =
     [''last_source_event_at'', ''source_sale_timestamp'', ''source_event_timestamp'',
      ''current_retail_price_changed_at'', ''product_name_changed_at'']"

text \<open>
  The documented behaviour of the column types: a UUID, a text that fits a \<open>VARCHAR\<close>, and an instant
  in a \<open>TIMESTAMPTZ\<close> come back as they went in.
\<close>

definition column_laws :: "sink_env \<Rightarrow> bool" where
  "column_laws env \<longleftrightarrow>
     (\<forall>m c u w. sk_column env m c (Uuid u) = Some w \<longrightarrow> w = Some (Uuid u)) \<and>
     (\<forall>m c s w. c \<in> set TEXT_KEY_COLUMNS \<longrightarrow> sk_column env m c (Text s) = Some w \<longrightarrow> w = Some (Text s)) \<and>
     (\<forall>m c t w. c \<in> set INSTANT_COLUMNS \<longrightarrow> sk_column env m c (Cell (VDatetime t)) = Some w \<longrightarrow>
        w = Some (Cell (VDatetime t)))"

lemma stored_Uuid: "column_laws env \<Longrightarrow> stored env m c (Some (Uuid u)) = Some w \<Longrightarrow> w = Some (Uuid u)"
  by (simp add: column_laws_def stored_def)

lemma stored_Text:
  "column_laws env \<Longrightarrow> c \<in> set TEXT_KEY_COLUMNS \<Longrightarrow> stored env m c (map_option Text s) = Some w \<Longrightarrow>
   w = map_option Text s"
  by (cases s) (auto simp: column_laws_def stored_def)

lemma stored_Text1:
  "column_laws env \<Longrightarrow> c \<in> set TEXT_KEY_COLUMNS \<Longrightarrow> stored env m c (Some (Text s)) = Some w \<Longrightarrow>
   w = Some (Text s)"
  using stored_Text [of env c m "Some s" w] by simp

lemma stored_instant:
  "column_laws env \<Longrightarrow> c \<in> set INSTANT_COLUMNS \<Longrightarrow> stored env m c (instant t) = Some w \<Longrightarrow> w = instant t"
  by (simp add: column_laws_def stored_def instant_def)

lemma instant_of_instant [simp]: "instant_of (instant t) = Some t"
  by (simp add: instant_of_def instant_def)

lemma instant_inject [simp]: "instant t = instant u \<longleftrightarrow> t = u"
  by (simp add: instant_def)

section \<open>Statements\<close>

lemma map_of_dict_update: "map_of (dict_update d kvs) = map_of d ++ map_of (rev kvs)"
proof (induction kvs arbitrary: d)
  case (Cons p kvs)
  have "dict_update d (p # kvs) = dict_update (AList.update (fst p) (snd p) d) kvs"
    by (simp add: dict_update_def case_prod_beta)
  then show ?case by (intro ext) (simp add: Cons.IH map_of_update map_add_def split: option.split)
qed (simp add: dict_update_def)

lemma get_dict_update_fresh: "c \<notin> set (keys kvs) \<Longrightarrow> get (dict_update d kvs) c = get d c"
  by (simp add: get_def map_of_dict_update map_add_def map_of_eq_None_iff keys_def split: option.splits)
    (metis (no_types, lifting) map_of_eq_None_iff option.distinct(1) set_map set_rev)

lemma set_columns_some:
  assumes "set_columns env m now cs params r = Some r'"
  shows "c \<in> set cs \<Longrightarrow> c \<noteq> ''last_updated_at'' \<Longrightarrow> stored env m c (get params c) = Some (r' c)"
    and "c \<notin> set cs \<Longrightarrow> c \<noteq> ''last_updated_at'' \<Longrightarrow> r' c = r c"
    and "r' ''last_updated_at'' = instant now"
  using assms by (auto simp: set_columns_def list_all_iff split: if_splits)

lemma list_all_keep: "map_res f rows = Inr rows' \<Longrightarrow> list_all2 (\<lambda>r r'. f r = Inr r') rows rows'"
  by (induction rows arbitrary: rows') (auto simp: bind_res_Inr_iff)

section \<open>The event table\<close>

interpretation event_log: claiming_ledger claim_event redelivery_key
  by unfold_locales (auto simp: claim_event_def)

text \<open>The row an insert makes of its parameters.\<close>

definition event_candidate :: "sink_env \<Rightarrow> canonical_model \<Rightarrow> timestamp \<Rightarrow> event_row \<Rightarrow> db_row option" where
  "event_candidate env m now row = set_columns env m now (insert_columns m) (er_params row) (\<lambda>_. None)"

lemma insert_event_Inr:
  assumes "insert_event env m now row rows = Inr rows'"
  obtains r where "event_candidate env m now row = Some r" "row_ok env m r" "rows' = claim_event r rows"
    and "redelivery_key r \<in> redelivery_key ` set rows \<or> r ''id'' \<notin> (\<lambda>r. r ''id'') ` set rows"
  using assms by (auto simp: insert_event_def event_candidate_def split: option.splits if_splits)

lemma insert_event_keys:
  assumes "insert_event env m now row rows = Inr rows'"
  shows "redelivery_key ` set rows \<subseteq> redelivery_key ` set rows'"
proof -
  obtain r where "rows' = claim_event r rows" using assms by (rule insert_event_Inr)
  then show ?thesis using event_log.keys_kept by simp
qed

text \<open>What holds of a log: keys and identifiers are unique, and every row satisfies its constraints.\<close>

definition log_ok :: "sink_env \<Rightarrow> canonical_model \<Rightarrow> db_row list \<Rightarrow> bool" where
  "log_ok env m rows \<longleftrightarrow>
     distinct (map redelivery_key rows) \<and> distinct (map (\<lambda>r. r ''id'') rows) \<and> list_all (row_ok env m) rows"

lemma insert_event_log:
  assumes "insert_event env m now row rows = Inr rows'" and "log_ok env m rows"
  shows "log_ok env m rows'" and "\<exists>new. rows' = rows @ new"
proof -
  obtain r where r: "row_ok env m r" "rows' = claim_event r rows"
    "redelivery_key r \<in> redelivery_key ` set rows \<or> r ''id'' \<notin> (\<lambda>r. r ''id'') ` set rows"
    using assms(1) by (rule insert_event_Inr)
  show "\<exists>new. rows' = rows @ new" using r(2) event_log.add_prefix by simp
  show "log_ok env m rows'"
    using r assms(2) event_log.add_iff [of r rows] event_log.distinct_add [of rows r]
    by (auto simp: log_ok_def split: if_splits)
qed

lemma insert_events_log:
  assumes "insert_events env m now batch rows = Inr rows'" and "log_ok env m rows"
  shows "log_ok env m rows' \<and> (\<exists>new. rows' = rows @ new)"
proof -
  have "log_ok env m rows' \<and> prefix rows rows'"
  proof (rule fold_res_invariant [of "insert_event env m now" batch rows rows' "\<lambda>rs. log_ok env m rs \<and> prefix rows rs"])
    show "fold_res (insert_event env m now) batch rows = Inr rows'"
      using assms(1) by (simp add: insert_events_def)
    show "log_ok env m t \<and> prefix rows t"
      if "log_ok env m s \<and> prefix rows s" "insert_event env m now x s = Inr t" for x s t
      using insert_event_log [OF that(2)] that(1) by (metis prefix_def prefix_order.order_trans)
  qed (use assms(2) in simp)
  then show ?thesis by (auto simp: prefix_def)
qed

text \<open>Every row offered to the insert has its key in the log afterwards.\<close>

lemma insert_events_claimed:
  assumes "insert_events env m now batch rows = Inr rows'" and "row \<in> set batch"
  shows "\<exists>r. event_candidate env m now row = Some r \<and> redelivery_key r \<in> redelivery_key ` set rows'"
  using assms
proof (induction batch arbitrary: rows)
  case (Cons x batch)
  then obtain rs where rs: "insert_event env m now x rows = Inr rs" "insert_events env m now batch rs = Inr rows'"
    by (auto simp: insert_events_def bind_res_Inr_iff)
  have keep: "redelivery_key ` set rs \<subseteq> redelivery_key ` set rows'"
  proof (rule fold_res_invariant [of "insert_event env m now" batch rs rows' "\<lambda>s. redelivery_key ` set rs \<subseteq> redelivery_key ` set s"])
    show "redelivery_key ` set rs \<subseteq> redelivery_key ` set t"
      if "redelivery_key ` set rs \<subseteq> redelivery_key ` set s" "insert_event env m now y s = Inr t" for y s t
      using insert_event_keys [OF that(2)] that(1) by simp
  qed (use rs(2) in \<open>simp_all add: insert_events_def\<close>)
  show ?case
  proof (cases "row = x")
    case True
    then show ?thesis using insert_event_Inr [OF rs(1)] event_log.key_claimed keep by (metis subsetD)
  next
    case False
    then show ?thesis using Cons rs(2) by auto
  qed
qed simp

text \<open>Rows whose keys are in the log are absorbed.\<close>

lemma insert_events_absorbed:
  assumes "\<And>row. row \<in> set batch \<Longrightarrow>
      \<exists>r. event_candidate env m now row = Some r \<and> row_ok env m r \<and> redelivery_key r \<in> redelivery_key ` set rows"
  shows "insert_events env m now batch rows = Inr rows"
proof -
  have "insert_event env m now row rows = Inr rows" if row: "row \<in> set batch" for row
  proof -
    obtain r where "event_candidate env m now row = Some r" "row_ok env m r"
      "redelivery_key r \<in> redelivery_key ` set rows" using assms [OF row] by blast
    then show ?thesis
      using event_log.add_repeat [of r rows] by (simp add: insert_event_def event_candidate_def)
  qed
  then show ?thesis unfolding insert_events_def by (induction batch) auto
qed

section \<open>The hot table as registers\<close>

text \<open>
  The abstract store: at most one row per natural key. A write at time \<open>t\<close> changes the row there if
  its clock admits \<open>t\<close>; where there is none it creates one, if it can.
\<close>

definition register_write ::
  "timestamp \<Rightarrow> (db_row \<Rightarrow> db_row) \<Rightarrow> db_row option \<Rightarrow> db_row option \<Rightarrow> hot_outcome \<times> db_row option" where
  "register_write t change create cell =
     (case cell of
        None \<Rightarrow> (case create of None \<Rightarrow> (Missing, None) | Some r \<Rightarrow> (Written, Some r))
      | Some r \<Rightarrow> if clock_admits t r then (Written, Some (change r)) else (NoopOlder, Some r))"

definition registers :: "db_row list \<Rightarrow> pyval list \<Rightarrow> db_row option" where
  "registers rows k = find (\<lambda>r. hot_key r = k) rows"

definition hot_ok :: "sink_env \<Rightarrow> db_row list \<Rightarrow> bool" where
  "hot_ok env rows \<longleftrightarrow> distinct (map hot_key rows) \<and> list_all (row_ok env StoreSkuCurrentPosition) rows"

lemma registers_None: "registers rows k = None \<longleftrightarrow> \<not> list_ex (\<lambda>r. hot_key r = k) rows"
  by (auto simp: registers_def find_None_iff list_ex_iff)

lemma registers_SomeD: "registers rows k = Some r \<Longrightarrow> r \<in> set rows \<and> hot_key r = k"
  by (auto simp: registers_def find_Some_iff)

lemma registers_unique:
  "distinct (map hot_key rows) \<Longrightarrow> r \<in> set rows \<Longrightarrow> registers rows (hot_key r) = Some r"
proof (induction rows)
  case (Cons x rows)
  then show ?case by (cases "r = x") (auto simp: registers_def rev_image_eqI)
qed simp

lemma registers_append:
  "registers (rows @ [r]) k = (case registers rows k of None \<Rightarrow> if hot_key r = k then Some r else None | x \<Rightarrow> x)"
  by (induction rows) (auto simp: registers_def)

lemma registers_map:
  "(\<And>r. r \<in> set rows \<Longrightarrow> hot_key (f r) = hot_key r) \<Longrightarrow> registers (map f rows) k = map_option f (registers rows k)"
  by (induction rows) (auto simp: registers_def)

text \<open>An \<open>UPDATE\<close> of the row of one key is a write of its register.\<close>

lemma update_rows_map:
  assumes "update_rows env sel change rows = Inr rows'"
  shows "rows' = map (\<lambda>r. if sel r then the (change r) else r) rows"
    and "r \<in> set rows \<Longrightarrow> sel r \<Longrightarrow> \<exists>r'. change r = Some r' \<and> row_ok env StoreSkuCurrentPosition r'"
  using assms unfolding update_rows_def
  by (induction rows arbitrary: rows') (auto simp: bind_res_Inr_iff split: option.splits if_splits)

lemma update_rows_register:
  assumes upd: "update_rows env (\<lambda>r. hot_key r = k \<and> clock_admits t r) change rows = Inr rows'"
    and ok: "hot_ok env rows"
    and key: "\<And>r r'. change r = Some r' \<Longrightarrow> hot_key r' = hot_key r"
  shows "hot_ok env rows'" and "map hot_key rows' = map hot_key rows"
    and "registers rows' = (registers rows)(k := snd (register_write t (\<lambda>r. the (change r)) None (registers rows k)))"
proof -
  let ?sel = "\<lambda>r. hot_key r = k \<and> clock_admits t r"
  let ?f = "\<lambda>r. if ?sel r then the (change r) else r"
  note upd' = update_rows_map [OF upd]
  have f: "hot_key (?f r) = hot_key r" if "r \<in> set rows" for r
    using upd'(2) [OF that] key [of r] by (cases "?sel r") auto
  show keys: "map hot_key rows' = map hot_key rows" using f by (simp add: upd'(1) comp_def)
  have "row_ok env StoreSkuCurrentPosition (?f r)" if "r \<in> set rows" for r
    using upd'(2) [OF that] ok that by (auto simp: hot_ok_def list_all_iff)
  then have "list_all (row_ok env StoreSkuCurrentPosition) rows'" by (fastforce simp: upd'(1) list_all_iff)
  then show "hot_ok env rows'" using ok keys by (simp add: hot_ok_def)
  show "registers rows' = (registers rows)(k := snd (register_write t (\<lambda>r. the (change r)) None (registers rows k)))"
  proof
    fix j
    have "registers rows' j = map_option ?f (registers rows j)"
      unfolding upd'(1) by (rule registers_map) (rule f)
    then show "registers rows' j =
        ((registers rows)(k := snd (register_write t (\<lambda>r. the (change r)) None (registers rows k)))) j"
      using registers_SomeD [of rows j] by (cases "registers rows j") (auto simp: register_write_def)
  qed
qed

section \<open>The two paths as register writes\<close>

text \<open>The columns no projection may name.\<close>

definition RESERVED_COLUMNS :: "string list" where
  "RESERVED_COLUMNS =
     [''id'', ''tenant_id'', ''store_id'', ''sku_id'', ''sku_variant'', ''sku_lot_batch'', ''last_updated_at'',
      ''current_retail_price_changed_at'', ''product_name_changed_at''] @ LINEAGE_COLUMNS"

definition wf_group :: "hot_group \<Rightarrow> bool" where
  "wf_group g \<longleftrightarrow> distinct (keys (hg_projected g)) \<and> set (keys (hg_projected g)) \<inter> set RESERVED_COLUMNS = {}"

definition group_key :: "ingress_ready \<Rightarrow> hot_group \<Rightarrow> pyval list" where
  "group_key event g =
     (case hot_sort_key g of (sku_id, sku_variant, sku_lot_batch) \<Rightarrow>
        [Some (Uuid (ir_tenant_id event)), Some (Uuid (ir_store_id event)), Some (Text sku_id),
         Some (Text sku_variant), Some (Text sku_lot_batch)])"

lemma coalesce_text [simp]: "coalesce (map_option Text s) = Some (Text (text_or_empty s))"
  by (cases s) (simp_all add: coalesce_def text_or_empty_def)

lemma get_hot_params:
  assumes "wf_group g" and "hg_natural_key g = (sku, variant, lot)"
    and p_def: "p = get (hot_params env event loaded g dc tax i)"
  shows "p ''tenant_id'' = Some (Uuid (ir_tenant_id event))" "p ''store_id'' = Some (Uuid (ir_store_id event))"
    "p ''sku_id'' = Some (Text sku)" "p ''sku_variant'' = map_option Text variant"
    "p ''sku_lot_batch'' = map_option Text lot" "p ''last_source_event_at'' = instant (hg_last_source_event_at g)"
    "p ''id'' = Some (Uuid i)" "p ''trace_id'' = Some (Uuid (ir_trace_id event))"
proof -
  have fresh: "c \<notin> set (keys (hg_projected g))" if "c \<in> set RESERVED_COLUMNS" for c
    using assms(1) that by (auto simp: wf_group_def)
  have r: "{''tenant_id'', ''store_id'', ''sku_id'', ''sku_variant'', ''sku_lot_batch'',
            ''last_source_event_at'', ''id'', ''trace_id''} \<subseteq> set RESERVED_COLUMNS"
    by (simp add: RESERVED_COLUMNS_def LINEAGE_COLUMNS_def)
  show "p ''tenant_id'' = Some (Uuid (ir_tenant_id event))" "p ''store_id'' = Some (Uuid (ir_store_id event))"
    "p ''sku_id'' = Some (Text sku)" "p ''sku_variant'' = map_option Text variant"
    "p ''sku_lot_batch'' = map_option Text lot" "p ''last_source_event_at'' = instant (hg_last_source_event_at g)"
    "p ''id'' = Some (Uuid i)" "p ''trace_id'' = Some (Uuid (ir_trace_id event))"
    using r fresh unfolding p_def hot_params_def assms(2) prod.case
    by (simp_all add: get_dict_update_fresh) (simp_all add: get_def)
qed

lemma hot_key_params:
  assumes "wf_group g"
  shows "hot_key (get (hot_params env event loaded g dc tax i)) = group_key event g"
proof (cases "hg_natural_key g")
  case (fields sku variant lot)
  then show ?thesis
    using get_hot_params [OF assms fields refl, of env event loaded dc tax i]
    by (simp add: hot_key_def group_key_def hot_sort_key_def)
qed

text \<open>The columns of the key.\<close>

definition HOT_KEY_COLUMNS :: "string list" where
  "HOT_KEY_COLUMNS = [''tenant_id'', ''store_id'', ''sku_id'', ''sku_variant'', ''sku_lot_batch'']"

lemma hot_key_cong:
  assumes "\<And>c. c \<in> set HOT_KEY_COLUMNS \<Longrightarrow> r c = s c"
  shows "hot_key r = hot_key s"
  using assms by (simp add: hot_key_def HOT_KEY_COLUMNS_def)

lemma key_columns_reserved: "c \<in> set HOT_KEY_COLUMNS \<Longrightarrow> c \<in> set RESERVED_COLUMNS \<and> c \<notin> set LINEAGE_COLUMNS \<and> c \<noteq> ''last_updated_at''"
  by (auto simp: HOT_KEY_COLUMNS_def RESERVED_COLUMNS_def LINEAGE_COLUMNS_def)

definition hot_change ::
  "sink_env \<Rightarrow> timestamp \<Rightarrow> pyval dict \<Rightarrow> string list \<Rightarrow> db_row \<Rightarrow> db_row" where
  "hot_change env now params projected r =
     the (set_columns env StoreSkuCurrentPosition now (projected @ LINEAGE_COLUMNS) params r)"

lemma hot_change_key:
  assumes "wf_group g"
    and "set_columns env m now (keys (hg_projected g) @ LINEAGE_COLUMNS) params r = Some r'"
  shows "hot_key r' = hot_key r"
proof (rule hot_key_cong)
  fix c
  assume c: "c \<in> set HOT_KEY_COLUMNS"
  then have "c \<notin> set (keys (hg_projected g) @ LINEAGE_COLUMNS)" "c \<noteq> ''last_updated_at''"
    using key_columns_reserved [OF c] assms(1) by (auto simp: wf_group_def)
  then show "r' c = r c" using set_columns_some(2) [OF assms(2)] by blast
qed

text \<open>The update path never creates a row.\<close>

lemma incomplete_path_register:
  assumes run: "update_hot_incomplete_path env now params (keys (hg_projected g)) rows = Inr (outcome, rows')"
    and params: "params = hot_params env event loaded g dc tax i"
    and wf: "wf_group g" and ok: "hot_ok env rows"
  shows "hot_ok env rows'" and "map hot_key rows' = map hot_key rows"
    and "(outcome, registers rows') =
      (let w = register_write (hg_last_source_event_at g)
                 (hot_change env now params (keys (hg_projected g))) None (registers rows (group_key event g))
       in (fst w, (registers rows)(group_key event g := snd w)))"
    and "registers rows (group_key event g) = Some r \<Longrightarrow> clock_admits (hg_last_source_event_at g) r \<Longrightarrow>
      set_columns env StoreSkuCurrentPosition now (keys (hg_projected g) @ LINEAGE_COLUMNS) params r =
        Some (hot_change env now params (keys (hg_projected g)) r)"
proof -
  obtain sku variant lot where nk: "hg_natural_key g = (sku, variant, lot)" by (cases "hg_natural_key g") auto
  let ?k = "group_key event g" and ?t = "hg_last_source_event_at g"
  let ?ch = "set_columns env StoreSkuCurrentPosition now (keys (hg_projected g) @ LINEAGE_COLUMNS) params"
  have t: "the (instant_of (get params ''last_source_event_at'')) = ?t"
    using get_hot_params(6) [OF wf nk refl] params by simp
  have k: "hot_key (get params) = ?k" using hot_key_params [OF wf] params by simp
  obtain rows'' where upd: "update_rows env (\<lambda>r. hot_key r = ?k \<and> clock_admits ?t r) ?ch rows = Inr rows''"
    and res: "(outcome, rows') =
      (if list_ex (\<lambda>r. hot_key r = ?k \<and> clock_admits ?t r) rows then (Written, rows'')
       else if list_ex (\<lambda>r. hot_key r = ?k) rows then (NoopOlder, rows) else (Missing, rows))"
    using run by (auto simp: update_hot_incomplete_path_def t k Let_def bind_res_Inr_iff)
  note reg = update_rows_register [OF upd ok hot_change_key [OF wf]]
  have same: "rows'' = rows" if "\<not> list_ex (\<lambda>r. hot_key r = ?k \<and> clock_admits ?t r) rows"
    unfolding update_rows_map(1) [OF upd] using that by (intro map_idI) (auto simp: list_ex_iff)
  have rows': "rows' = rows''" using res same by (auto split: if_splits)
  show "hot_ok env rows'" "map hot_key rows' = map hot_key rows" using reg(1,2) rows' by simp_all
  have sel: "list_ex (\<lambda>r. hot_key r = ?k \<and> clock_admits ?t r) rows \<longleftrightarrow>
      (\<exists>r. registers rows ?k = Some r \<and> clock_admits ?t r)"
    using ok registers_unique [of rows] registers_SomeD [of rows ?k]
    by (simp add: hot_ok_def list_ex_iff) metis
  show "(outcome, registers rows') =
      (let w = register_write ?t (hot_change env now params (keys (hg_projected g))) None (registers rows ?k)
       in (fst w, (registers rows)(?k := snd w)))"
  proof -
    have ch: "(\<lambda>r. the (?ch r)) = hot_change env now params (keys (hg_projected g))"
      by (simp add: hot_change_def fun_eq_iff)
    have "outcome = fst (register_write ?t (hot_change env now params (keys (hg_projected g))) None (registers rows ?k))"
      using res sel registers_None [of rows ?k]
      by (cases "registers rows ?k") (auto simp: register_write_def split: if_splits)
    then show ?thesis using reg(3) by (simp add: rows' Let_def ch)
  qed
  show "?ch r = Some (hot_change env now params (keys (hg_projected g)) r)"
    if "registers rows ?k = Some r" "clock_admits ?t r"
    using update_rows_map(2) [OF upd, of r] registers_SomeD [OF that(1)] that(2) by (auto simp: hot_change_def)
qed

text \<open>The insert path creates the row, or updates it as the conflict clause says.\<close>

lemma fold_stamps: "c \<notin> snd ` set ss \<Longrightarrow> fold (stamp_set_clause old excluded) ss r c = r c"
  by (induction ss arbitrary: r) (auto simp: stamp_set_clause_def split: prod.splits)

lemma active_stamps_cols: "snd ` set (active_stamps projected) \<subseteq> {''current_retail_price_changed_at'', ''product_name_changed_at''}"
  by (auto simp: active_stamps_def CHANGE_STAMP_COLUMNS_def)

lemma do_update_reserved:
  assumes "set projected \<inter> set RESERVED_COLUMNS = {}"
  shows "c \<in> set HOT_KEY_COLUMNS \<Longrightarrow> do_update now projected excluded old c = old c"
    and "do_update now projected excluded old ''last_source_event_at'' = excluded ''last_source_event_at''"
proof -
  have lsea: "''last_source_event_at'' \<in> set LINEAGE_COLUMNS" by (simp add: LINEAGE_COLUMNS_def)
  have stamps: "c \<notin> snd ` set (active_stamps projected)"
    if "c \<in> set HOT_KEY_COLUMNS \<or> c = ''last_source_event_at''" for c
    using active_stamps_cols [of projected] that by (auto simp: HOT_KEY_COLUMNS_def)
  show "do_update now projected excluded old ''last_source_event_at'' = excluded ''last_source_event_at''"
    using fold_stamps [OF stamps] lsea by (simp add: do_update_def staleness_merge_clause_def)
  show "do_update now projected excluded old c = old c" if c: "c \<in> set HOT_KEY_COLUMNS"
  proof -
    have "c \<notin> set projected" "c \<notin> set LINEAGE_COLUMNS" "c \<noteq> ''last_updated_at''" "c \<noteq> ''attribute_staleness_map''"
      using key_columns_reserved [OF c] assms c by (auto simp: HOT_KEY_COLUMNS_def)
    then show ?thesis using fold_stamps [OF stamps] c by (simp add: do_update_def staleness_merge_clause_def)
  qed
qed

definition excluded_row :: "sink_env \<Rightarrow> timestamp \<Rightarrow> pyval dict \<Rightarrow> string list \<Rightarrow> db_row option" where
  "excluded_row env now params projected =
     set_columns env StoreSkuCurrentPosition now (hot_insert_columns projected)
       (dict_update params
         (map (\<lambda>(_, stamp_col). (stamp_col, get params ''last_source_event_at'')) (active_stamps projected)))
       hot_defaults"

lemma excluded_row_key:
  assumes laws: "column_laws env" and wf: "wf_group g"
    and ex: "excluded_row env now (hot_params env event loaded g dc tax i) (keys (hg_projected g)) = Some excluded"
  shows "hot_key excluded = group_key event g"
    and "excluded ''last_source_event_at'' = instant (hg_last_source_event_at g)"
proof -
  let ?p = "hot_params env event loaded g dc tax i" and ?pr = "keys (hg_projected g)"
  let ?q = "dict_update ?p (map (\<lambda>(_, stamp_col). (stamp_col, get ?p ''last_source_event_at'')) (active_stamps ?pr))"
  obtain sku variant lot where nk: "hg_natural_key g = (sku, variant, lot)" by (cases "hg_natural_key g") auto
  have q: "get ?q c = get ?p c" if "c \<in> set HOT_KEY_COLUMNS \<or> c = ''last_source_event_at''" for c
    using active_stamps_cols [of ?pr] that
    by (intro get_dict_update_fresh) (auto simp: keys_def HOT_KEY_COLUMNS_def case_prod_beta)
  have col: "stored env StoreSkuCurrentPosition c (get ?p c) = Some (excluded c)"
    if "c \<in> set HOT_KEY_COLUMNS \<or> c = ''last_source_event_at''" for c
  proof -
    have "c \<in> set (hot_insert_columns ?pr)" "c \<noteq> ''last_updated_at''"
      using that by (auto simp: hot_insert_columns_def HOT_KEY_COLUMNS_def LINEAGE_COLUMNS_def)
    then show ?thesis using set_columns_some(1) [OF ex [unfolded excluded_row_def], of c] q [OF that] by simp
  qed
  note g = get_hot_params [OF wf nk refl, of env event loaded dc tax i]
  have tk: "c \<in> set TEXT_KEY_COLUMNS" if "c \<in> {''sku_id'', ''sku_variant'', ''sku_lot_batch''}" for c
    using that by (auto simp: TEXT_KEY_COLUMNS_def)
  have kk: "c \<in> set HOT_KEY_COLUMNS" if "c \<in> {''tenant_id'', ''store_id'', ''sku_id'', ''sku_variant'', ''sku_lot_batch''}" for c
    using that by (auto simp: HOT_KEY_COLUMNS_def)
  have "excluded ''tenant_id'' = Some (Uuid (ir_tenant_id event))"
    by (rule stored_Uuid [OF laws, of StoreSkuCurrentPosition "''tenant_id''"]) (use col [OF disjI1, OF kk, of "''tenant_id''"] g in simp_all)
  moreover have "excluded ''store_id'' = Some (Uuid (ir_store_id event))"
    by (rule stored_Uuid [OF laws, of StoreSkuCurrentPosition "''store_id''"]) (use col [OF disjI1, OF kk, of "''store_id''"] g in simp_all)
  moreover have "excluded ''sku_id'' = Some (Text sku)"
    by (rule stored_Text1 [OF laws tk, of "''sku_id''" StoreSkuCurrentPosition]) (use col [OF disjI1, OF kk, of "''sku_id''"] g in simp_all)
  moreover have "excluded ''sku_variant'' = map_option Text variant"
    by (rule stored_Text [OF laws tk, of "''sku_variant''" StoreSkuCurrentPosition]) (use col [OF disjI1, OF kk, of "''sku_variant''"] g in simp_all)
  moreover have "excluded ''sku_lot_batch'' = map_option Text lot"
    by (rule stored_Text [OF laws tk, of "''sku_lot_batch''" StoreSkuCurrentPosition]) (use col [OF disjI1, OF kk, of "''sku_lot_batch''"] g in simp_all)
  ultimately show "hot_key excluded = group_key event g"
    by (simp add: hot_key_def group_key_def hot_sort_key_def nk)
  show "excluded ''last_source_event_at'' = instant (hg_last_source_event_at g)"
    by (rule stored_instant [OF laws, of "''last_source_event_at''" StoreSkuCurrentPosition]) (use col [OF disjI2, OF refl] g in \<open>simp_all add: INSTANT_COLUMNS_def\<close>)
qed

lemma complete_path_register:
  assumes run: "insert_on_conflict_hot_complete_path env now params (keys (hg_projected g)) rows = Inr (outcome, rows')"
    and params: "params = hot_params env event loaded g dc tax i"
    and wf: "wf_group g" and ok: "hot_ok env rows" and laws: "column_laws env"
  obtains excluded where "excluded_row env now params (keys (hg_projected g)) = Some excluded"
    and "hot_ok env rows'" and "\<exists>new. map hot_key rows' = map hot_key rows @ new"
    and "(outcome, registers rows') =
      (let w = register_write (hg_last_source_event_at g) (do_update now (keys (hg_projected g)) excluded)
                 (Some excluded) (registers rows (group_key event g))
       in (fst w, (registers rows)(group_key event g := snd w)))"
proof -
  let ?k = "group_key event g" and ?t = "hg_last_source_event_at g" and ?pr = "keys (hg_projected g)"
  obtain excluded where ex: "excluded_row env now params ?pr = Some excluded"
    and rok: "row_ok env StoreSkuCurrentPosition excluded"
    using run by (auto simp: insert_on_conflict_hot_complete_path_def excluded_row_def Let_def split: option.splits if_splits)
  note exk = excluded_row_key [OF laws wf ex [unfolded params]]
  let ?sel = "\<lambda>r. hot_key r = ?k \<and> clock_admits ?t r"
  have disj: "set ?pr \<inter> set RESERVED_COLUMNS = {}" using wf by (simp add: wf_group_def)
  have key: "hot_key r' = hot_key r" if "Some (do_update now ?pr excluded r) = Some r'" for r r'
    using that do_update_reserved(1) [OF disj] by (auto intro: hot_key_cong)
  show thesis
  proof (cases "list_ex (\<lambda>r. hot_key r = ?k) rows")
    case True
    then obtain rows'' where upd: "update_rows env ?sel (\<lambda>r. Some (do_update now ?pr excluded r)) rows = Inr rows''"
      and res: "(outcome, rows') = (if list_ex ?sel rows then (Written, rows'') else (NoopOlder, rows))"
      using run ex rok exk
      by (auto simp: insert_on_conflict_hot_complete_path_def excluded_row_def Let_def bind_res_Inr_iff)
    note reg = update_rows_register [OF upd ok key]
    have same: "rows'' = rows" if "\<not> list_ex ?sel rows"
      unfolding update_rows_map(1) [OF upd] using that by (intro map_idI) (auto simp: list_ex_iff)
    have rows': "rows' = rows''" using res same by (auto split: if_splits)
    have sel: "list_ex ?sel rows \<longleftrightarrow> (\<exists>r. registers rows ?k = Some r \<and> clock_admits ?t r)"
      using ok registers_unique [of rows] registers_SomeD [of rows ?k]
      by (simp add: hot_ok_def list_ex_iff) metis
    obtain r where r: "registers rows ?k = Some r" using True registers_None [of rows ?k] by auto
    have o': "outcome = (if clock_admits ?t r then Written else NoopOlder)" using res sel r by (auto split: if_splits)
    have "(outcome, registers rows') =
      (let w = register_write ?t (do_update now ?pr excluded) (Some excluded) (registers rows ?k)
       in (fst w, (registers rows)(?k := snd w)))"
      using reg(3) o' by (auto simp: rows' r register_write_def Let_def)
    then show thesis using that [OF ex] reg(1,2) rows' by simp
  next
    case False
    then have new: "outcome = Written" "rows' = rows @ [excluded]"
      using run ex rok exk
      by (auto simp: insert_on_conflict_hot_complete_path_def excluded_row_def Let_def bind_res_Inr_iff split: if_splits)
    have none: "registers rows ?k = None" using False registers_None [of rows ?k] by simp
    have fresh: "?k \<notin> set (map hot_key rows)" using False by (auto simp: list_ex_iff)
    have "registers rows' = (registers rows)(?k \<mapsto> excluded)"
      using none by (auto simp: new registers_append exk(1) fun_eq_iff split: option.splits)
    then have "(outcome, registers rows') =
      (let w = register_write ?t (do_update now ?pr excluded) (Some excluded) (registers rows ?k)
       in (fst w, (registers rows)(?k := snd w)))"
      by (simp add: new none register_write_def)
    moreover have "hot_ok env rows'" using ok rok fresh by (simp add: hot_ok_def new exk(1))
    ultimately show thesis using that [OF ex] new by simp
  qed
qed

end
