(* ===== verification/Canonical_Store.thy ===== *)
theory Canonical_Store
  imports Canonical_Registers
begin

text \<open>
  Batches on the canonical store: the groups of a batch as register writes, and the store under any
  interleaving of committed batches, from any number of instances. A batch takes the verdicts of its
  duplicate detection from whatever snapshot it saw, so the step relation leaves them open.
\<close>

section \<open>The classification of a mapping\<close>

lemma no_drift:
  "assert_no_drift StoreSkuCurrentPosition = Inr ()" "assert_no_drift StoreSkuSaleEvent = Inr ()"
  "assert_no_drift StoreSkuChangeEvent = Inr ()"
  by code_simp+

lemma hot_required: "HOT_REQUIRED_FROM_PROJECTION = [''sku_id'', ''product_name'', ''current_retail_price'']"
  by code_simp

lemma mapping_produced:
  "mapping_produced_columns StoreSkuCurrentPosition = Inr (cp_mapping_produced current_position_provenance)"
  "mapping_produced_columns StoreSkuSaleEvent = Inr (cp_mapping_produced sale_event_provenance)"
  "mapping_produced_columns StoreSkuChangeEvent = Inr (cp_mapping_produced change_event_provenance)"
  by (simp_all add: mapping_produced_columns_def produced_columns_def no_drift PROVENANCE_def)

lemma event_mapping_incomplete:
  assumes "classify_hot_completeness m target = Inr complete" and "target \<noteq> StoreSkuCurrentPosition"
  shows "\<not> complete"
proof -
  have sku: "''sku_id'' \<notin> snd ` set SALE_HOT_PROJECTION" "(p, ''sku_id'') \<notin> set CHANGE_HOT_PROJECTION" for p
    by (simp_all add: SALE_HOT_PROJECTION_def CHANGE_HOT_PROJECTION_def)
  obtain guaranteed where g: "guaranteed_hot_columns m target = Inr guaranteed"
    and c: "(if \<not> set HOT_REQUIRED_FROM_PROJECTION \<subseteq> set guaranteed then Inr False
       else Inr (\<forall>(trigger, companion) \<in> set HOT_CHECK_IMPLICATIONS.
              (\<exists>c \<in> set trigger. c \<in> set guaranteed) \<longrightarrow> set companion \<subseteq> set guaranteed)) = (Inr complete :: drift_error + bool)"
    using assms(1) by (auto simp: classify_hot_completeness_def bind_res_Inr_iff)
  have "''sku_id'' \<notin> set guaranteed"
  proof (cases "target = StoreSkuSaleEvent")
    case True
    then have "guaranteed = List.map_filter (map_of SALE_HOT_PROJECTION) (target_columns m)"
      using g by (simp add: guaranteed_hot_columns_def)
    then have "set guaranteed \<subseteq> snd ` set SALE_HOT_PROJECTION"
      by (auto simp: List.map_filter_def) (metis image_eqI map_of_SomeD option.sel snd_conv)
    then show ?thesis using sku(1) by blast
  next
    case False
    then show ?thesis
      using g assms(2) sku(2)
      by (auto simp: guaranteed_hot_columns_def Let_def split: option.splits dest!: map_of_SomeD)
  qed
  then show ?thesis using c by (auto simp: hot_required split: if_splits)
qed

lemma loaded_event_mapping_incomplete:
  assumes "load_active_mapping rows tenant_id source_id template_id = Inr loaded"
    and "lm_target_model loaded \<noteq> StoreSkuCurrentPosition"
  shows "\<not> lm_hot_complete loaded"
proof -
  have lift: "lift_drift r = Inr x \<longleftrightarrow> r = Inr x" for r :: "drift_error + 'b" and x
    by (cases r) (simp_all add: lift_drift_def)
  obtain source target complete where "classify_hot_completeness source target = Inr complete"
    and "lm_target_model loaded = target" "lm_hot_complete loaded = complete"
    using assms(1)
    by (auto simp: load_active_mapping_def bind_res_Inr_iff lift split: option.splits if_splits)
  then show ?thesis using event_mapping_incomplete assms(2) by blast
qed

section \<open>A group as a register write\<close>

definition group_write ::
  "sink_env \<Rightarrow> timestamp \<Rightarrow> ingress_ready \<Rightarrow> loaded_mapping \<Rightarrow> string \<Rightarrow> pyval \<Rightarrow> bool \<Rightarrow> hot_group \<times> uuid \<Rightarrow>
   db_row option \<Rightarrow> hot_outcome \<times> db_row option" where
  "group_write env now event loaded dis_channel tax_treatment complete gi =
     (case gi of (g, new_id) \<Rightarrow>
        let params = hot_params env event loaded g dis_channel tax_treatment new_id;
            projected = keys (hg_projected g); excluded = excluded_row env now params projected in
        if complete
        then register_write (hg_last_source_event_at g) (do_update now projected (the excluded)) excluded
        else register_write (hg_last_source_event_at g) (hot_change env now params projected) None)"

definition write_register ::
  "ingress_ready \<Rightarrow> (db_row option \<Rightarrow> hot_outcome \<times> db_row option) \<Rightarrow> hot_group \<Rightarrow>
   (pyval list \<Rightarrow> db_row option) \<Rightarrow> pyval list \<Rightarrow> db_row option" where
  "write_register event write g store =
     store(group_key event g := snd (write (store (group_key event g))))"

lemma upsert_register:
  assumes run: "(if complete then insert_on_conflict_hot_complete_path else update_hot_incomplete_path)
       env now (hot_params env event loaded g dc tax i) (keys (hg_projected g)) rows = Inr (outcome, rows')"
    and wf: "wf_group g" and ok: "hot_ok env rows" and laws: "column_laws env"
  shows "hot_ok env rows'" and "\<exists>new. map hot_key rows' = map hot_key rows @ new \<and> (\<not> complete \<longrightarrow> new = [])"
    and "outcome = fst (group_write env now event loaded dc tax complete (g, i) (registers rows (group_key event g)))"
    and "registers rows' = write_register event (group_write env now event loaded dc tax complete (g, i)) g (registers rows)"
proof -
  have "hot_ok env rows' \<and> (\<exists>new. map hot_key rows' = map hot_key rows @ new \<and> (\<not> complete \<longrightarrow> new = [])) \<and>
      (outcome, registers rows') =
        (let w = group_write env now event loaded dc tax complete (g, i) (registers rows (group_key event g))
         in (fst w, (registers rows)(group_key event g := snd w)))"
  proof (cases complete)
    case True
    then have "insert_on_conflict_hot_complete_path env now (hot_params env event loaded g dc tax i)
        (keys (hg_projected g)) rows = Inr (outcome, rows')" using run by simp
    from complete_path_register [OF this refl wf ok laws] obtain excluded where
      ex: "excluded_row env now (hot_params env event loaded g dc tax i) (keys (hg_projected g)) = Some excluded"
      and res: "hot_ok env rows'" "\<exists>new. map hot_key rows' = map hot_key rows @ new"
        "(outcome, registers rows') =
          (let w = register_write (hg_last_source_event_at g) (do_update now (keys (hg_projected g)) excluded)
                     (Some excluded) (registers rows (group_key event g))
           in (fst w, (registers rows)(group_key event g := snd w)))" .
    have "group_write env now event loaded dc tax complete (g, i) =
        register_write (hg_last_source_event_at g) (do_update now (keys (hg_projected g)) excluded) (Some excluded)"
      using True ex by (simp add: group_write_def)
    then show ?thesis using res True by simp
  next
    case False
    then have "update_hot_incomplete_path env now (hot_params env event loaded g dc tax i)
        (keys (hg_projected g)) rows = Inr (outcome, rows')" using run by simp
    from incomplete_path_register [OF this refl wf ok] show ?thesis
      using False by (simp add: group_write_def)
  qed
  then show "hot_ok env rows'" "\<exists>new. map hot_key rows' = map hot_key rows @ new \<and> (\<not> complete \<longrightarrow> new = [])"
    "outcome = fst (group_write env now event loaded dc tax complete (g, i) (registers rows (group_key event g)))"
    "registers rows' = write_register event (group_write env now event loaded dc tax complete (g, i)) g (registers rows)"
    by (simp_all add: Let_def write_register_def)
qed

text \<open>The loop of either write over its sorted groups.\<close>

definition merge_loop ::
  "sink_env \<Rightarrow> timestamp \<Rightarrow> ingress_ready \<Rightarrow> loaded_mapping \<Rightarrow> string \<Rightarrow> pyval \<Rightarrow> bool \<Rightarrow> (hot_group \<times> uuid) list \<Rightarrow>
   db_row list \<Rightarrow> sink_error + ((natural_key \<times> hot_outcome) list \<times> db_row list)" where
  "merge_loop env now event loaded dc tax complete groups rows =
     fold_res (\<lambda>gi (outcomes, rs).
       bind_res ((if complete then insert_on_conflict_hot_complete_path else update_hot_incomplete_path)
                   env now (hot_params env event loaded (fst gi) dc tax (snd gi)) (keys (hg_projected (fst gi))) rs)
         (\<lambda>(outcome, rs'). Inr (outcomes @ [(hg_natural_key (fst gi), outcome)], rs'))) groups ([], rows)"

lemma merge_groups_loop:
  "merge_groups env now event loaded dc tax groups rows =
     merge_loop env now event loaded dc tax (lm_hot_complete loaded) groups rows"
  by (simp add: merge_groups_def merge_loop_def upsert_hot_def case_prod_beta Let_def)

lemma catalogue_loop:
  "fold_res (\<lambda>(g, new_id) (outcomes, rs).
      bind_res (insert_on_conflict_hot_complete_path env now
                  (hot_params env event loaded g dc None new_id) (keys (hg_projected g)) rs)
        (\<lambda>(outcome, rs'). Inr (outcomes @ [(hg_natural_key g, outcome)], rs'))) groups ([], rows) =
     merge_loop env now event loaded dc None True groups rows"
  unfolding merge_loop_def split_def by simp

section \<open>The loop\<close>

lemma merge_loop_Cons:
  "merge_loop env now event loaded dc tax complete (gi # gs) rows = Inr (outs, rows') \<longleftrightarrow>
     (\<exists>outcome rs outs'.
        (if complete then insert_on_conflict_hot_complete_path else update_hot_incomplete_path)
          env now (hot_params env event loaded (fst gi) dc tax (snd gi)) (keys (hg_projected (fst gi))) rows =
          Inr (outcome, rs) \<and>
        merge_loop env now event loaded dc tax complete gs rs = Inr (outs', rows') \<and>
        outs = (hg_natural_key (fst gi), outcome) # outs')"
proof -
  define step where "step = (\<lambda>(gi :: hot_group \<times> uuid) (outcomes :: (natural_key \<times> hot_outcome) list, rs).
       bind_res ((if complete then insert_on_conflict_hot_complete_path else update_hot_incomplete_path)
                   env now (hot_params env event loaded (fst gi) dc tax (snd gi)) (keys (hg_projected (fst gi))) rs)
         (\<lambda>(outcome, rs'). Inr (outcomes @ [(hg_natural_key (fst gi), outcome)], rs')))"
  have shift: "fold_res step gs (xs @ ys, rs) =
      bind_res (fold_res step gs (ys, rs)) (\<lambda>(zs, rs'). Inr (xs @ zs, rs'))" for gs xs ys rs
  proof (induction gs arbitrary: ys rs)
    case (Cons g gs)
    show ?case
    proof (cases "(if complete then insert_on_conflict_hot_complete_path else update_hot_incomplete_path)
        env now (hot_params env event loaded (fst g) dc tax (snd g)) (keys (hg_projected (fst g))) rs")
      case (Inr p)
      then show ?thesis using Cons.IH by (cases p) (simp add: step_def)
    qed (simp add: step_def)
  qed simp
  have loop: "merge_loop env now event loaded dc tax complete gs rows = fold_res step gs ([], rows)" for gs rows
    by (simp add: merge_loop_def step_def)
  show ?thesis
  proof (cases "(if complete then insert_on_conflict_hot_complete_path else update_hot_incomplete_path)
      env now (hot_params env event loaded (fst gi) dc tax (snd gi)) (keys (hg_projected (fst gi))) rows")
    case (Inl e)
    then show ?thesis by (simp add: loop step_def)
  next
    case (Inr p)
    obtain outcome rs where p: "p = (outcome, rs)" by (cases p)
    have "merge_loop env now event loaded dc tax complete (gi # gs) rows =
        fold_res step gs ([(hg_natural_key (fst gi), outcome)] @ [], rs)"
      using Inr p by (simp add: loop step_def)
    also have "\<dots> = bind_res (fold_res step gs ([], rs)) (\<lambda>(zs, rs'). Inr ([(hg_natural_key (fst gi), outcome)] @ zs, rs'))"
      by (rule shift)
    finally show ?thesis using Inr p by (auto simp: loop bind_res_Inr_iff)
  qed
qed

lemma merge_loop_Nil: "merge_loop env now event loaded dc tax complete [] rows = Inr ([], rows)"
  by (simp add: merge_loop_def)

text \<open>The store after the loop, as a function of the store before it.\<close>

definition merged ::
  "sink_env \<Rightarrow> timestamp \<Rightarrow> ingress_ready \<Rightarrow> loaded_mapping \<Rightarrow> string \<Rightarrow> pyval \<Rightarrow> bool \<Rightarrow> (hot_group \<times> uuid) list \<Rightarrow>
   (pyval list \<Rightarrow> db_row option) \<Rightarrow> pyval list \<Rightarrow> db_row option" where
  "merged env now event loaded dc tax complete groups =
     fold (\<lambda>gi. write_register event (group_write env now event loaded dc tax complete gi) (fst gi)) groups"

lemma merge_loop_refines:
  assumes "merge_loop env now event loaded dc tax complete groups rows = Inr (outs, rows')"
    and "\<And>g i. (g, i) \<in> set groups \<Longrightarrow> wf_group g" and "hot_ok env rows" and laws: "column_laws env"
  shows "hot_ok env rows'" and "\<exists>new. map hot_key rows' = map hot_key rows @ new \<and> (\<not> complete \<longrightarrow> new = [])"
    and "registers rows' = merged env now event loaded dc tax complete groups (registers rows)"
proof -
  have "hot_ok env rows' \<and> (\<exists>new. map hot_key rows' = map hot_key rows @ new \<and> (\<not> complete \<longrightarrow> new = [])) \<and>
      registers rows' = merged env now event loaded dc tax complete groups (registers rows)"
    using assms(1-3)
  proof (induction groups arbitrary: rows outs)
    case Nil
    then show ?case by (simp add: merge_loop_Nil merged_def)
  next
    case (Cons gi gs)
    obtain g i where gi: "gi = (g, i)" by (cases gi)
    obtain outcome rs outs' where step: "(if complete then insert_on_conflict_hot_complete_path
          else update_hot_incomplete_path) env now (hot_params env event loaded g dc tax i)
          (keys (hg_projected g)) rows = Inr (outcome, rs)"
      and rest: "merge_loop env now event loaded dc tax complete gs rs = Inr (outs', rows')"
      using Cons.prems(1) gi by (auto simp: merge_loop_Cons)
    have wf: "wf_group g" by (rule Cons.prems(2) [of g i]) (simp add: gi)
    note u = upsert_register [OF step wf Cons.prems(3) laws]
    have ih: "hot_ok env rows' \<and> (\<exists>new. map hot_key rows' = map hot_key rs @ new \<and> (\<not> complete \<longrightarrow> new = [])) \<and>
        registers rows' = merged env now event loaded dc tax complete gs (registers rs)"
      by (rule Cons.IH [OF rest _ u(1)]) (use Cons.prems(2) in auto)
    obtain new1 where "map hot_key rs = map hot_key rows @ new1 \<and> (\<not> complete \<longrightarrow> new1 = [])" using u(2) by blast
    moreover obtain new2 where "map hot_key rows' = map hot_key rs @ new2 \<and> (\<not> complete \<longrightarrow> new2 = [])"
      using ih by blast
    ultimately have "map hot_key rows' = map hot_key rows @ (new1 @ new2) \<and> (\<not> complete \<longrightarrow> new1 @ new2 = [])"
      by simp
    then show ?case using ih u(4) by (auto simp: merged_def gi)
  qed
  then show "hot_ok env rows'" "\<exists>new. map hot_key rows' = map hot_key rows @ new \<and> (\<not> complete \<longrightarrow> new = [])"
    "registers rows' = merged env now event loaded dc tax complete groups (registers rows)" by simp_all
qed

section \<open>Clocks\<close>

text \<open>A register's clock never runs backwards, and its row never disappears.\<close>

definition clock_le :: "db_row option \<Rightarrow> db_row option \<Rightarrow> bool" where
  "clock_le cell cell' \<longleftrightarrow>
     (\<forall>r. cell = Some r \<longrightarrow> (\<exists>r'. cell' = Some r' \<and>
        (\<forall>t. hot_clock r = Some t \<longrightarrow> (\<exists>t'. hot_clock r' = Some t' \<and> t \<le> t'))))"

lemma clock_le_refl: "clock_le c c"
  by (simp add: clock_le_def)

lemma clock_le_trans: "clock_le a b \<Longrightarrow> clock_le b c \<Longrightarrow> clock_le a c"
  by (fastforce simp: clock_le_def)

lemma hot_change_clock:
  assumes "column_laws env" "wf_group g" "params = hot_params env event loaded g dc tax i"
    and "set_columns env StoreSkuCurrentPosition now (projected @ LINEAGE_COLUMNS) params r = Some r'"
  shows "hot_clock r' = Some (hg_last_source_event_at g)"
proof -
  obtain sku variant lot where nk: "hg_natural_key g = (sku, variant, lot)" by (cases "hg_natural_key g") auto
  have "stored env StoreSkuCurrentPosition ''last_source_event_at'' (instant (hg_last_source_event_at g)) =
      Some (r' ''last_source_event_at'')"
    using set_columns_some(1) [OF assms(4), of "''last_source_event_at''"] get_hot_params(6) [OF assms(2) nk assms(3) [THEN arg_cong, of get]]
    by (simp add: LINEAGE_COLUMNS_def)
  then have "r' ''last_source_event_at'' = instant (hg_last_source_event_at g)"
    by (rule stored_instant [OF assms(1), rotated]) (simp add: INSTANT_COLUMNS_def)
  then show ?thesis by (simp add: hot_clock_def)
qed

lemma upsert_clock:
  assumes run: "(if complete then insert_on_conflict_hot_complete_path else update_hot_incomplete_path)
       env now (hot_params env event loaded g dc tax i) (keys (hg_projected g)) rows = Inr (outcome, rows')"
    and wf: "wf_group g" and ok: "hot_ok env rows" and laws: "column_laws env"
  shows "clock_le (registers rows k) (registers rows' k)"
proof -
  let ?k = "group_key event g" and ?t = "hg_last_source_event_at g" and ?pr = "keys (hg_projected g)"
  let ?p = "hot_params env event loaded g dc tax i"
  let ?w = "group_write env now event loaded dc tax complete (g, i)"
  have disj: "set ?pr \<inter> set RESERVED_COLUMNS = {}" using wf by (simp add: wf_group_def)
  have "clock_le (registers rows ?k) (snd (?w (registers rows ?k)))"
  proof (cases "registers rows ?k")
    case None
    then show ?thesis by (simp add: clock_le_def)
  next
    case (Some r)
    show ?thesis
    proof (cases "clock_admits ?t r")
      case False
      then show ?thesis using Some by (simp add: group_write_def register_write_def clock_le_refl Let_def)
    next
      case admits: True
      have "\<exists>r'. snd (?w (Some r)) = Some r' \<and> hot_clock r' = Some ?t"
      proof (cases complete)
        case True
        then have "insert_on_conflict_hot_complete_path env now ?p ?pr rows = Inr (outcome, rows')" using run by simp
        from complete_path_register [OF this refl wf ok laws] obtain excluded
          where ex: "excluded_row env now ?p ?pr = Some excluded" .
        then show ?thesis
          using True admits do_update_reserved(2) [OF disj] excluded_row_key(2) [OF laws wf ex]
          by (simp add: group_write_def register_write_def hot_clock_def)
      next
        case False
        then have "update_hot_incomplete_path env now ?p ?pr rows = Inr (outcome, rows')" using run by simp
        from incomplete_path_register(4) [OF this refl wf ok Some admits] show ?thesis
          using False admits hot_change_clock [OF laws wf refl]
          by (simp add: group_write_def register_write_def)
      qed
      then show ?thesis using admits Some by (auto simp: clock_le_def clock_admits_def)
    qed
  qed
  then show ?thesis
    using upsert_register(4) [OF run wf ok laws] by (simp add: write_register_def clock_le_refl)
qed

lemma merge_loop_clock:
  assumes "merge_loop env now event loaded dc tax complete groups rows = Inr (outs, rows')"
    and "\<And>g i. (g, i) \<in> set groups \<Longrightarrow> wf_group g" and "hot_ok env rows" and laws: "column_laws env"
  shows "clock_le (registers rows k) (registers rows' k)"
  using assms(1-3)
proof (induction groups arbitrary: rows outs)
  case Nil
  then show ?case by (simp add: merge_loop_Nil clock_le_refl)
next
  case (Cons gi gs)
  obtain g i where gi: "gi = (g, i)" by (cases gi)
  obtain outcome rs outs' where step: "(if complete then insert_on_conflict_hot_complete_path
        else update_hot_incomplete_path) env now (hot_params env event loaded g dc tax i)
        (keys (hg_projected g)) rows = Inr (outcome, rs)"
    and rest: "merge_loop env now event loaded dc tax complete gs rs = Inr (outs', rows')"
    using Cons.prems(1) gi by (auto simp: merge_loop_Cons)
  have wf: "wf_group g" by (rule Cons.prems(2) [of g i]) (simp add: gi)
  have "clock_le (registers rs k) (registers rows' k)"
    by (rule Cons.IH [OF rest _ upsert_register(1) [OF step wf Cons.prems(3) laws]]) (use Cons.prems(2) in auto)
  with upsert_clock [OF step wf Cons.prems(3) laws] show ?case by (rule clock_le_trans)
qed

section \<open>Where the groups come from\<close>

definition EVENT_HOT_COLUMNS :: "string list" where
  "EVENT_HOT_COLUMNS = map snd SALE_HOT_PROJECTION @ map snd CHANGE_HOT_PROJECTION"

definition wf_contribution :: "pyval dict \<Rightarrow> bool" where
  "wf_contribution d \<longleftrightarrow> distinct (keys d) \<and> set (keys d) \<subseteq> set EVENT_HOT_COLUMNS"

lemma keys_dict_of: "set (keys (dict_of kvs)) = set (map fst kvs)" "distinct (keys (dict_of kvs))"
proof -
  have "set (keys (fold (\<lambda>(k, v). AList.update k v) kvs d)) = set (keys d) \<union> set (map fst kvs) \<and>
      (distinct (keys d) \<longrightarrow> distinct (keys (fold (\<lambda>(k, v). AList.update k v) kvs d)))" for d
    by (induction kvs arbitrary: d) (auto simp: set_keys_update distinct_keys_update)
  from this [of "[]"] show "set (keys (dict_of kvs)) = set (map fst kvs)" "distinct (keys (dict_of kvs))"
    by (simp_all add: dict_of_def)
qed

lemma hot_contributions_wf: "wf_contribution (hot_contributions env payload is_sale)"
proof (cases is_sale)
  case True
  then show ?thesis
    by (auto simp: hot_contributions_def wf_contribution_def keys_dict_of EVENT_HOT_COLUMNS_def List.map_filter_def
        split: option.splits) (metis image_eqI snd_conv)
next
  case False
  then show ?thesis
    by (auto simp: hot_contributions_def wf_contribution_def EVENT_HOT_COLUMNS_def Let_def
        split: option.splits pv.splits dest!: map_of_SomeD intro: rev_image_eqI)
qed

lemma build_event_row_wf: "build_event_row env event dc loaded tax new_id row = Inr r \<Longrightarrow> wf_contribution (er_hot_contributions r)"
  by (auto simp: build_event_row_def Let_def bind_res_Inr_iff hot_contributions_wf split: prod.splits)

lemma build_event_rows_wf:
  assumes "build_event_rows env new_ids event dc loaded result tax = Inr rows" and "r \<in> set rows"
  shows "wf_contribution (er_hot_contributions r)"
proof -
  have "list_all2 (\<lambda>x y. (case x of (n, row) \<Rightarrow> build_event_row env event dc loaded tax (new_ids n) row) = Inr y)
      (enumerate_from 0 (zip (to_dicts (mr_contribution result)) (mr_source_row_indices result))) rows"
    by (rule list_all_keep) (use assms(1) in \<open>simp add: build_event_rows_def\<close>)
  from list_all2_right [OF this assms(2)] show ?thesis by (auto dest: build_event_row_wf)
qed

lemma merge_contribution_wf:
  assumes "wf_contribution d" and "wf_contribution e"
  shows "wf_contribution (fold (\<lambda>(c, v) d. if newer \<or> \<not> has_key d c then AList.update c v d else d) e d)"
proof -
  let ?step = "\<lambda>(c, v) d. if newer \<or> \<not> has_key d c then AList.update c v d else d"
  have one: "wf_contribution (?step p d)" if "fst p \<in> set EVENT_HOT_COLUMNS" "wf_contribution d" for p and d :: "pyval dict"
    using that by (auto simp: wf_contribution_def set_keys_update distinct_keys_update split: prod.splits)
  have "wf_contribution (fold ?step e d)" if "set (keys e) \<subseteq> set EVENT_HOT_COLUMNS" for e
    using that assms(1)
  proof (induction e arbitrary: d)
    case (Cons p e)
    have "wf_contribution (?step p d)" by (rule one) (use Cons.prems in simp_all)
    then show ?case using Cons by simp
  qed simp
  then show ?thesis using assms(2) by (simp add: wf_contribution_def)
qed

lemma group_hot_wf:
  assumes "\<And>r. r \<in> set batch \<Longrightarrow> wf_contribution (er_hot_contributions r)" and "g \<in> set (group_hot batch)"
  shows "wf_contribution (hg_projected g)"
proof -
  let ?ok = "\<lambda>gs :: (natural_key \<times> hot_group) list. \<forall>g \<in> snd ` set gs. wf_contribution (hg_projected g)"
  have step: "?ok (add_to_groups r gs)" if "?ok gs" "wf_contribution (er_hot_contributions r)" for r gs
  proof (cases "map_of gs (er_natural_key r)")
    case None
    then show ?thesis using that by (auto simp: add_to_groups_def new_group_def)
  next
    case (Some g)
    have "wf_contribution (hg_projected (merge_group r g))"
    proof -
      have "g \<in> snd ` set gs" using map_of_SomeD [OF Some] by force
      then have "wf_contribution (hg_projected g)" using that(1) by blast
      then show ?thesis
        using merge_contribution_wf [OF _ that(2), of _ True] merge_contribution_wf [OF _ that(2), of _ False]
        by (simp add: merge_group_def Let_def)
    qed
    moreover have "snd ` set (AList.update (er_natural_key r) (merge_group r g) gs) \<subseteq> insert (merge_group r g) (snd ` set gs)"
      by (induction gs) auto
    ultimately have "wf_contribution (hg_projected x)"
      if "x \<in> snd ` set (AList.update (er_natural_key r) (merge_group r g) gs)" for x
      using subsetD [OF _ that] \<open>?ok gs\<close> by (metis insertE)
    then have "?ok (AList.update (er_natural_key r) (merge_group r g) gs)" by (rule ballI)
    then show ?thesis using Some by (simp add: add_to_groups_def)
  qed
  have all: "?ok (fold add_to_groups batch gs)" if "?ok gs" for gs
    using assms(1) that
  proof (induction batch arbitrary: gs)
    case (Cons r batch)
    have "?ok (add_to_groups r gs)" by (rule step [OF Cons.prems(2)]) (use Cons.prems(1) in simp)
    then have "?ok (fold add_to_groups batch (add_to_groups r gs))"
      by (rule Cons.IH [rotated]) (rule Cons.prems(1), rule list.set_intros(2))
    then show ?case by (simp only: fold_simps)
  qed simp
  have "?ok []" by simp
  from all [OF this] have "?ok (fold add_to_groups batch [])" .
  then show ?thesis using assms(2) unfolding group_hot_def set_map by (rule bspec)
qed

lemma event_columns_free: "set EVENT_HOT_COLUMNS \<inter> set RESERVED_COLUMNS = {}"
  by code_simp

lemma sorted_groups_wf:
  assumes "\<And>r. r \<in> set batch \<Longrightarrow> wf_contribution (er_hot_contributions r)" and "g \<in> set (sorted_groups batch)"
  shows "wf_group g"
proof -
  have "wf_contribution (hg_projected g)"
    by (rule group_hot_wf [OF assms(1)]) (use assms(2) in \<open>simp_all add: sorted_groups_def\<close>)
  then show ?thesis using event_columns_free by (auto simp: wf_group_def wf_contribution_def)
qed

text \<open>The catalogue's projections.\<close>

lemma catalogue_projection_wf:
  assumes "catalogue_produced = Inr produced" and "distinct (keys payload)"
  shows "distinct (keys (catalogue_projection produced received payload))"
    and "set (keys (catalogue_projection produced received payload)) \<inter> set RESERVED_COLUMNS = {}"
proof -
  have p: "produced = cp_mapping_produced current_position_provenance @ enrichment_fields CURRENT_POSITION"
    using assms(1) by (simp add: catalogue_produced_def mapping_produced)
  have free: "\<forall>c \<in> set (cp_mapping_produced current_position_provenance @ enrichment_fields CURRENT_POSITION).
      c \<in> set HOT_NATURAL_KEY_COLS \<or> c \<notin> set RESERVED_COLUMNS"
    by code_simp
  let ?f = "filter (\<lambda>(c, _). c \<in> set produced \<and> c \<notin> set HOT_NATURAL_KEY_COLS) payload"
  have keys: "set (keys ?f) \<subseteq> {c. c \<in> set produced \<and> c \<notin> set HOT_NATURAL_KEY_COLS}" "distinct (keys ?f)"
    using assms(2) by (auto simp: keys_def distinct_map_filter case_prod_beta)
  have "''attribute_staleness_map'' \<notin> set RESERVED_COLUMNS" by (simp add: RESERVED_COLUMNS_def LINEAGE_COLUMNS_def)
  then show "set (keys (catalogue_projection produced received payload)) \<inter> set RESERVED_COLUMNS = {}"
    using keys(1) free unfolding p by (auto simp: catalogue_projection_def Let_def set_keys_update)
  show "distinct (keys (catalogue_projection produced received payload))"
    using keys(2) by (simp add: catalogue_projection_def Let_def distinct_keys_update)
qed

lemma to_dicts_keys: "d \<in> set (to_dicts fr) \<Longrightarrow> keys d = keys fr"
  by (auto simp: to_dicts_def keys_def case_prod_beta)

lemma catalogue_groups_wf:
  assumes "catalogue_produced = Inr produced" and "distinct (keys (mr_contribution result))"
    and "catalogue_groups env produced event result = Inr groups" and "g \<in> set groups"
  shows "wf_group g"
proof -
  have "list_all2 (\<lambda>x y. catalogue_group env produced event x = Inr y)
      (zip (to_dicts (mr_contribution result)) (mr_source_row_indices result)) groups"
    by (rule list_all_keep) (use assms(3) in \<open>simp add: catalogue_groups_def\<close>)
  from list_all2_right [OF this assms(4)] obtain payload i
    where row: "(payload, i) \<in> set (zip (to_dicts (mr_contribution result)) (mr_source_row_indices result))"
      and g: "catalogue_group env produced event (payload, i) = Inr g" by auto
  have "distinct (keys payload)" using to_dicts_keys set_zip_leftD [OF row] assms(2) by metis
  moreover have "hg_projected g = catalogue_projection produced (iso_instant (ir_received_ts event)) payload"
    using g by (auto simp: catalogue_group_def bind_res_Inr_iff)
  ultimately show ?thesis using catalogue_projection_wf [OF assms(1)] by (simp add: wf_group_def)
qed

section \<open>Committed batches\<close>

text \<open>
  What any instance may commit next: a batch of the event write of some chunk, with whatever verdicts
  its detection gave, or a batch of the catalogue write. A data frame has distinct column names.
\<close>

inductive canon_step :: "sink_env \<Rightarrow> canonical_db \<Rightarrow> canonical_db \<Rightarrow> bool" for env where
  event_batch:
    "lm_target_model loaded \<in> set EVENT_MODELS \<Longrightarrow>
     build_event_rows (sk_rows env) row_ids event dc loaded result tax = Inr rows \<Longrightarrow>
     batch \<in> set (batches n rows) \<Longrightarrow>
     commit_batch env now new_ids event loaded dc tax batch hits db = Inr (rep, db') \<Longrightarrow>
     canon_step env db db'"
| catalogue_batch:
    "catalogue_produced = Inr produced \<Longrightarrow> distinct (keys (mr_contribution result)) \<Longrightarrow>
     catalogue_groups env produced event result = Inr groups \<Longrightarrow>
     batch \<in> set (batches n groups) \<Longrightarrow>
     write_catalogue_batch env now new_ids event loaded dc batch db = Inr (rep, db') \<Longrightarrow>
     canon_step env db db'"

inductive canon_steps :: "sink_env \<Rightarrow> canonical_db \<Rightarrow> canonical_db \<Rightarrow> bool" for env where
  none: "canon_steps env db db"
| more: "canon_steps env db db' \<Longrightarrow> canon_step env db' db'' \<Longrightarrow> canon_steps env db db''"

lemma batches_set: "batch \<in> set (batches n rows) \<Longrightarrow> set batch \<subseteq> set rows"
proof (induction n rows rule: batches.induct)
  case (1 n rows)
  then show ?case
    by (subst (asm) (2) batches.simps) (auto split: if_splits dest: in_set_takeD in_set_dropD)
qed

definition db_ok :: "sink_env \<Rightarrow> canonical_db \<Rightarrow> bool" where
  "db_ok env db \<longleftrightarrow>
     log_ok env StoreSkuSaleEvent (cd_sale_events db) \<and>
     log_ok env StoreSkuChangeEvent (cd_change_events db) \<and> hot_ok env (cd_current_position db)"

text \<open>What a step leaves of the store it met.\<close>

definition extends :: "canonical_db \<Rightarrow> canonical_db \<Rightarrow> bool" where
  "extends db db' \<longleftrightarrow>
     prefix (cd_sale_events db) (cd_sale_events db') \<and> prefix (cd_change_events db) (cd_change_events db') \<and>
     (\<forall>k. clock_le (registers (cd_current_position db) k) (registers (cd_current_position db') k))"

lemma extends_refl: "extends db db"
  by (simp add: extends_def clock_le_refl)

lemma extends_trans: "extends a b \<Longrightarrow> extends b c \<Longrightarrow> extends a c"
  using clock_le_trans prefix_order.order_trans by (fastforce simp: extends_def)

lemma zip_fst: "(g, i) \<in> set (zip xs ys) \<Longrightarrow> g \<in> set xs"
  by (rule set_zip_leftD)

lemma commit_batch_extends:
  assumes run: "commit_batch env now new_ids event loaded dc tax batch hits db = Inr (rep, db')"
    and m: "lm_target_model loaded \<in> set EVENT_MODELS"
    and wf: "\<And>r. r \<in> set batch \<Longrightarrow> wf_contribution (er_hot_contributions r)"
    and ok: "db_ok env db" and laws: "column_laws env"
  shows "db_ok env db'" and "extends db db'"
    and "\<not> lm_hot_complete loaded \<Longrightarrow> map hot_key (cd_current_position db') = map hot_key (cd_current_position db)"
proof -
  let ?m = "lm_target_model loaded" and ?hot = "cd_current_position db"
  obtain log outcomes hot where
    log: "insert_events env ?m now (fst (partition_redeliveries batch hits)) (event_table ?m db) = Inr log"
    and loop: "merge_loop env now event loaded dc tax (lm_hot_complete loaded)
      (zip (sorted_groups batch) (map new_ids [0..<length (sorted_groups batch)])) ?hot = Inr (outcomes, hot)"
    and db': "db' = (set_event_table ?m log db)\<lparr>cd_current_position := hot\<rparr>"
    using run by (auto simp: commit_batch_def Let_def bind_res_Inr_iff merge_groups_loop)
  have hot_ok: "hot_ok env ?hot" using ok by (simp add: db_ok_def)
  have groups: "wf_group g" if "(g, i) \<in> set (zip (sorted_groups batch) (map new_ids [0..<length (sorted_groups batch)]))" for g i
    using sorted_groups_wf [OF wf] zip_fst [OF that] by blast
  note hot = merge_loop_refines [OF loop groups hot_ok laws]
  have tbl: "log_ok env ?m (event_table ?m db)"
    using ok m by (auto simp: db_ok_def event_table_def EVENT_MODELS_def)
  have ins: "log_ok env ?m log" "prefix (event_table ?m db) log"
    using insert_events_log [OF log tbl] by (auto simp: prefix_def)
  show "db_ok env db'"
    using ins(1) hot(1) ok m by (auto simp: db' db_ok_def set_event_table_def EVENT_MODELS_def)
  show "extends db db'"
    using ins(2) merge_loop_clock [OF loop groups hot_ok laws]
    by (auto simp: db' extends_def set_event_table_def event_table_def)
  show "map hot_key (cd_current_position db') = map hot_key ?hot" if "\<not> lm_hot_complete loaded"
    using hot(2) that by (auto simp: db')
qed

lemma write_catalogue_batch_extends:
  assumes run: "write_catalogue_batch env now new_ids event loaded dc batch db = Inr (rep, db')"
    and wf: "\<And>g. g \<in> set batch \<Longrightarrow> wf_group g"
    and ok: "db_ok env db" and laws: "column_laws env"
  shows "db_ok env db'" and "extends db db'"
proof -
  let ?gs = "sort_key hot_sort_key batch"
  obtain outcomes hot where
    loop: "merge_loop env now event loaded dc None True (zip ?gs (map new_ids [0..<length ?gs]))
      (cd_current_position db) = Inr (outcomes, hot)"
    and db': "db' = db\<lparr>cd_current_position := hot\<rparr>"
    using run by (auto simp: write_catalogue_batch_def Let_def bind_res_Inr_iff catalogue_loop)
  have hot_ok: "hot_ok env (cd_current_position db)" using ok by (simp add: db_ok_def)
  have groups: "wf_group g" if "(g, i) \<in> set (zip ?gs (map new_ids [0..<length ?gs]))" for g i
    using wf zip_fst [OF that] by simp
  show "db_ok env db'"
    using merge_loop_refines(1) [OF loop groups hot_ok laws] ok by (simp add: db' db_ok_def)
  show "extends db db'"
    using merge_loop_clock [OF loop groups hot_ok laws] by (simp add: db' extends_def)
qed

lemma canon_step_ok:
  assumes "canon_step env db db'" and "db_ok env db" and "column_laws env"
  shows "db_ok env db' \<and> extends db db'"
  using assms
proof cases
  case (event_batch loaded row_ids event dc result tax rows batch n now new_ids hits rep)
  have wf: "wf_contribution (er_hot_contributions r)" if "r \<in> set batch" for r
    using build_event_rows_wf [OF event_batch(2)] batches_set [OF event_batch(3)] that by blast
  show ?thesis using commit_batch_extends [OF event_batch(4,1) wf assms(2,3)] by blast
next
  case (catalogue_batch produced result event groups batch n now new_ids loaded dc rep)
  have wf: "wf_group g" if "g \<in> set batch" for g
    using catalogue_groups_wf [OF catalogue_batch(1,2,3)] batches_set [OF catalogue_batch(4)] that by blast
  show ?thesis using write_catalogue_batch_extends [OF catalogue_batch(5) wf assms(2,3)] by blast
qed

lemma canon_steps_ok:
  assumes "canon_steps env db db'" and "db_ok env db" and "column_laws env"
  shows "db_ok env db' \<and> extends db db'"
  using assms
proof (induction rule: canon_steps.induct)
  case (none db)
  then show ?case by (simp add: extends_refl)
next
  case (more db db' db'')
  then show ?case using canon_step_ok extends_trans by blast
qed

end
