(* ===== verification/Canonical_Redelivery.thy ===== *)
theory Canonical_Redelivery
  imports Canonical_Store
begin

text \<open>
  A chunk delivered again. One delivery is the sequence of its batch transactions. What a delivery
  leaves of the hot registers is described by one fold that reads nothing but the rows of the chunk:
  its register writes. That fold absorbs a repetition, so a delivery that stopped after some batches
  and is repeated leaves the registers one undisturbed delivery leaves.
\<close>

section \<open>One delivery\<close>

record write_report =
  wr_event_rows_written :: nat
  wr_event_rows_suppressed :: nat
  wr_hot_rows_upserted :: nat
  wr_hot_noops :: nat
  wr_batches :: nat
  wr_duplicates :: "duplicate_hit list"

definition outcome_count :: "hot_outcome \<Rightarrow> batch_report \<Rightarrow> nat" where
  "outcome_count x rep = length (filter (\<lambda>(_, y). y = x) (bt_outcomes rep))"

definition add_report :: "batch_report \<Rightarrow> write_report \<Rightarrow> write_report" where
  "add_report rep acc =
     \<lparr>wr_event_rows_written = wr_event_rows_written acc + bt_inserted rep,
      wr_event_rows_suppressed = wr_event_rows_suppressed acc + length (bt_suppressed rep),
      wr_hot_rows_upserted = wr_hot_rows_upserted acc + outcome_count Written rep,
      wr_hot_noops = wr_hot_noops acc + outcome_count NoopOlder rep,
      wr_batches = wr_batches acc + 1,
      wr_duplicates = wr_duplicates acc @ bt_hits rep\<rparr>"

text \<open>
  The loop over the batches, each with the time and the identifiers of its transaction. A refused
  batch is rolled back; a batch that missed a position is committed, and then the loop raises.
\<close>

primrec run_batches ::
  "sink_env \<Rightarrow> ingress_ready \<Rightarrow> loaded_mapping \<Rightarrow> string \<Rightarrow> pyval \<Rightarrow>
   ((timestamp \<times> (nat \<Rightarrow> uuid)) \<times> event_row list) list \<Rightarrow> write_report \<Rightarrow> canonical_db \<Rightarrow>
   canonical_db \<times> (sink_error + write_report)" where
  "run_batches env event loaded dc tax [] acc db = (db, Inr acc)"
| "run_batches env event loaded dc tax (b # bs) acc db =
     (case write_batch env (fst (fst b)) (snd (fst b)) event loaded dc tax (snd b) db of
        Inl e \<Rightarrow> (db, Inl e)
      | Inr (rep, db') \<Rightarrow>
          if missed rep \<noteq> [] then (db', Inl (HotPositionMissing (missed rep)))
          else run_batches env event loaded dc tax bs (add_report rep acc) db')"

definition write_chunk ::
  "sink_env \<Rightarrow> (nat \<Rightarrow> timestamp \<times> (nat \<Rightarrow> uuid)) \<Rightarrow> ingress_ready \<Rightarrow> loaded_mapping \<Rightarrow> event_row list \<Rightarrow>
   string \<Rightarrow> pyval \<Rightarrow> nat \<Rightarrow> canonical_db \<Rightarrow> canonical_db \<times> (sink_error + write_report)" where
  "write_chunk env draws event loaded event_rows dis_channel tax_treatment batch_size db =
     (let bs = batches batch_size event_rows in
      run_batches env event loaded dis_channel tax_treatment (zip (map draws [0..<length bs]) bs)
        \<lparr>wr_event_rows_written = 0, wr_event_rows_suppressed = 0, wr_hot_rows_upserted = 0,
         wr_hot_noops = 0, wr_batches = 0, wr_duplicates = []\<rparr> db)"

text \<open>The catalogue write: no event rows, no detection, and no position can be missing.\<close>

primrec run_catalogue_batches ::
  "sink_env \<Rightarrow> ingress_ready \<Rightarrow> loaded_mapping \<Rightarrow> string \<Rightarrow> ((timestamp \<times> (nat \<Rightarrow> uuid)) \<times> hot_group list) list \<Rightarrow>
   write_report \<Rightarrow> canonical_db \<Rightarrow> canonical_db \<times> (sink_error + write_report)" where
  "run_catalogue_batches env event loaded dc [] acc db = (db, Inr acc)"
| "run_catalogue_batches env event loaded dc (b # bs) acc db =
     (case write_catalogue_batch env (fst (fst b)) (snd (fst b)) event loaded dc (snd b) db of
        Inl e \<Rightarrow> (db, Inl e)
      | Inr (rep, db') \<Rightarrow> run_catalogue_batches env event loaded dc bs (add_report rep acc) db')"

definition write_catalogue_chunk ::
  "sink_env \<Rightarrow> (nat \<Rightarrow> timestamp \<times> (nat \<Rightarrow> uuid)) \<Rightarrow> string list \<Rightarrow> ingress_ready \<Rightarrow> loaded_mapping \<Rightarrow>
   mapping_result \<Rightarrow> string \<Rightarrow> nat \<Rightarrow> canonical_db \<Rightarrow> row_error + canonical_db \<times> (sink_error + write_report)" where
  "write_catalogue_chunk env draws produced event loaded result dis_channel batch_size db =
     bind_res (catalogue_groups env produced event result) (\<lambda>groups.
       let bs = batches batch_size groups in
       Inr (run_catalogue_batches env event loaded dis_channel (zip (map draws [0..<length bs]) bs)
         \<lparr>wr_event_rows_written = 0, wr_event_rows_suppressed = 0, wr_hot_rows_upserted = 0,
          wr_hot_noops = 0, wr_batches = 0, wr_duplicates = []\<rparr> db))"

text \<open>Content: everything but the identifier and the row time.\<close>

definition hot_content :: "db_row \<Rightarrow> db_row" where
  "hot_content r = r(''last_updated_at'' := None)"

section \<open>Registers that are written again\<close>

type_synonym reg_op = "timestamp \<times> (string \<Rightarrow> pyval option)"

definition overwrite :: "(string \<Rightarrow> pyval option) \<Rightarrow> db_row \<Rightarrow> db_row" where
  "overwrite vals r = (\<lambda>c. case vals c of Some v \<Rightarrow> v | None \<Rightarrow> r c)"

definition reg_op :: "reg_op \<Rightarrow> db_row \<Rightarrow> db_row" where
  "reg_op p r = (case p of (t, vals) \<Rightarrow> if clock_admits t r then overwrite vals r else r)"

abbreviation run_ops :: "reg_op list \<Rightarrow> db_row \<Rightarrow> db_row" where
  "run_ops ops r \<equiv> fold reg_op ops r"

text \<open>A write sets the clock to its time.\<close>

definition timed :: "reg_op \<Rightarrow> bool" where
  "timed p \<longleftrightarrow> snd p ''last_source_event_at'' = Some (instant (fst p))"

lemma overwrite_clock: "timed (t, vals) \<Longrightarrow> hot_clock (overwrite vals r) = Some t"
  by (simp add: timed_def overwrite_def hot_clock_def)

lemma fold_overwrite_again:
  fixes ops :: "reg_op list"
  shows "fold (\<lambda>p. overwrite (snd p)) ops (fold (\<lambda>p. overwrite (snd p)) ops r) = fold (\<lambda>p. overwrite (snd p)) ops (r :: db_row)"
proof -
  have ex: "\<exists>vals. \<forall>r. fold (\<lambda>p. overwrite (snd p)) ops r = overwrite vals r" for ops :: "reg_op list"
  proof (induction ops)
    case Nil
    show ?case by (rule exI [of _ "\<lambda>_. None"]) (simp add: overwrite_def)
  next
    case (Cons p ops)
    then obtain vals where v: "\<forall>r. fold (\<lambda>p. overwrite (snd p)) ops r = overwrite vals r" by blast
    have "fold (\<lambda>p. overwrite (snd p)) (p # ops) r = overwrite vals (overwrite (snd p) r)" for r
      using v by simp
    also have "overwrite vals (overwrite (snd p) r) =
        overwrite (\<lambda>c. case vals c of Some x \<Rightarrow> Some x | None \<Rightarrow> snd p c) r" for r
      by (auto simp: overwrite_def fun_eq_iff split: option.splits)
    finally show ?case by blast
  qed
  obtain vals where v: "\<forall>r. fold (\<lambda>p. overwrite (snd p)) ops r = overwrite vals r" using ex [of ops] by blast
  have "overwrite vals (overwrite vals r) = overwrite vals r"
    by (auto simp: overwrite_def fun_eq_iff split: option.splits)
  then show ?thesis using v by simp
qed

text \<open>The last writes of a history are those at the final clock, and they decide its result.\<close>

lemma run_ops_last:
  assumes "\<And>p. p \<in> set ops \<Longrightarrow> timed p"
  shows "\<exists>s. run_ops ops r =
      fold (\<lambda>p. overwrite (snd p)) (filter (\<lambda>p. hot_clock (run_ops ops r) = Some (fst p)) ops) s"
    and "p \<in> set ops \<Longrightarrow> \<exists>u. hot_clock (run_ops ops r) = Some u \<and> fst p \<le> u"
proof -
  have "(\<exists>s. run_ops ops r =
      fold (\<lambda>p. overwrite (snd p)) (filter (\<lambda>p. hot_clock (run_ops ops r) = Some (fst p)) ops) s) \<and>
      (\<forall>p \<in> set ops. \<exists>u. hot_clock (run_ops ops r) = Some u \<and> fst p \<le> u)"
    using assms
  proof (induction ops rule: rev_induct)
    case Nil
    show ?case by simp
  next
    case (snoc p ops)
    obtain t vals where p: "p = (t, vals)" by (cases p)
    let ?s = "run_ops ops r"
    have timed: "timed (t, vals)" using snoc.prems [of p] by (simp add: p)
    obtain s where s: "?s = fold (\<lambda>p. overwrite (snd p)) (filter (\<lambda>p. hot_clock ?s = Some (fst p)) ops) s"
      and le: "\<forall>p \<in> set ops. \<exists>u. hot_clock ?s = Some u \<and> fst p \<le> u"
      using snoc.IH snoc.prems by auto
    have run: "run_ops (ops @ [p]) r = reg_op (t, vals) ?s" by (simp add: p)
    show ?case
    proof (cases "clock_admits t ?s")
      case False
      then have same: "run_ops (ops @ [p]) r = ?s" unfolding run by (simp add: reg_op_def)
      obtain u where u: "hot_clock ?s = Some u" "t < u"
        using False by (auto simp: clock_admits_def split: option.splits)
      have clock: "hot_clock (run_ops (ops @ [p]) r) = Some u" unfolding same by (rule u(1))
      have "filter (\<lambda>q. hot_clock (run_ops (ops @ [p]) r) = Some (fst q)) (ops @ [p]) =
          filter (\<lambda>q. hot_clock ?s = Some (fst q)) ops"
        unfolding clock u(1) using u(2) by (simp add: p)
      then have "\<exists>s. run_ops (ops @ [p]) r = fold (\<lambda>p. overwrite (snd p))
          (filter (\<lambda>q. hot_clock (run_ops (ops @ [p]) r) = Some (fst q)) (ops @ [p])) s"
        using s same by metis
      moreover have "\<forall>q \<in> set (ops @ [p]). \<exists>w. hot_clock (run_ops (ops @ [p]) r) = Some w \<and> fst q \<le> w"
        unfolding clock using le u by (auto simp: p)
      ultimately show ?thesis by blast
    next
      case True
      then have new: "run_ops (ops @ [p]) r = overwrite vals ?s" unfolding run by (simp add: reg_op_def)
      have clock: "hot_clock (run_ops (ops @ [p]) r) = Some t" unfolding new by (rule overwrite_clock [OF timed])
      have bound: "\<forall>q \<in> set (ops @ [p]). fst q \<le> t"
        using le True by (auto simp: clock_admits_def p)
      have "\<exists>s. overwrite vals ?s = fold (\<lambda>p. overwrite (snd p)) (filter (\<lambda>q. t = fst q) ops @ [p]) s"
      proof (cases "hot_clock ?s = Some t")
        case True
        then have "overwrite vals ?s = fold (\<lambda>p. overwrite (snd p)) (filter (\<lambda>q. t = fst q) ops @ [p]) s"
          using s by (simp add: p)
        then show ?thesis by blast
      next
        case False
        have "filter (\<lambda>q. t = fst q) ops = []"
        proof (rule ccontr)
          assume "filter (\<lambda>q. t = fst q) ops \<noteq> []"
          then obtain q where q: "q \<in> set ops" "fst q = t" by (auto simp: filter_empty_conv)
          then obtain u where "hot_clock ?s = Some u" "t \<le> u" using le by fastforce
          then show False using True False by (simp add: clock_admits_def)
        qed
        then have "overwrite vals ?s = fold (\<lambda>p. overwrite (snd p)) (filter (\<lambda>q. t = fst q) ops @ [p]) ?s"
          by (simp add: p)
        then show ?thesis by blast
      qed
      moreover have "filter (\<lambda>q. hot_clock (run_ops (ops @ [p]) r) = Some (fst q)) (ops @ [p]) =
          filter (\<lambda>q. t = fst q) ops @ [p]"
        unfolding clock by (simp add: p)
      ultimately show ?thesis using new clock bound by auto
    qed
  qed
  then show "\<exists>s. run_ops ops r =
      fold (\<lambda>p. overwrite (snd p)) (filter (\<lambda>p. hot_clock (run_ops ops r) = Some (fst p)) ops) s"
    and "p \<in> set ops \<Longrightarrow> \<exists>u. hot_clock (run_ops ops r) = Some u \<and> fst p \<le> u" by blast+
qed

lemma run_ops_settled:
  assumes "\<And>p. p \<in> set ops \<Longrightarrow> timed p" and "\<And>p. p \<in> set ops \<Longrightarrow> fst p \<le> u" and "hot_clock r = Some u"
  shows "run_ops ops r = fold (\<lambda>p. overwrite (snd p)) (filter (\<lambda>p. Some u = Some (fst p)) ops) r"
  using assms
proof (induction ops arbitrary: r)
  case (Cons p ops)
  obtain t vals where p: "p = (t, vals)" by (cases p)
  have t: "t \<le> u" "timed (t, vals)" using Cons.prems(1,2) [of p] by (simp_all add: p)
  show ?case
  proof (cases "t = u")
    case True
    then have "reg_op p r = overwrite vals r" using Cons.prems(3) by (simp add: p reg_op_def clock_admits_def)
    moreover have "hot_clock (overwrite vals r) = Some u" using overwrite_clock [OF t(2)] True by simp
    ultimately show ?thesis using Cons.IH [of "overwrite vals r"] Cons.prems(1,2) True by (simp add: p)
  next
    case False
    then have "reg_op p r = r" using Cons.prems(3) t(1) by (simp add: p reg_op_def clock_admits_def)
    then show ?thesis using Cons.IH [of r] Cons.prems False by (simp add: p)
  qed
qed simp

lemma run_ops_again:
  assumes "\<And>p. p \<in> set ops \<Longrightarrow> timed p"
  shows "run_ops ops (run_ops ops r) = run_ops ops r"
proof (cases "ops = []")
  case False
  then obtain p where "p \<in> set ops" by (cases ops) auto
  then obtain u where u: "hot_clock (run_ops ops r) = Some u" using run_ops_last(2) [OF assms, where r = r] by blast
  have le: "fst p \<le> u" if "p \<in> set ops" for p using run_ops_last(2) [OF assms that, where r = r] u by auto
  let ?last = "filter (\<lambda>p. Some u = Some (fst p)) ops"
  have "\<exists>s. run_ops ops r = fold (\<lambda>p. overwrite (snd p)) ?last s"
    using run_ops_last(1) [where ops = ops and r = r, OF assms] unfolding u .
  then obtain s where s: "run_ops ops r = fold (\<lambda>p. overwrite (snd p)) ?last s" ..
  have "run_ops ops (run_ops ops r) = fold (\<lambda>p. overwrite (snd p)) ?last (run_ops ops r)"
    by (rule run_ops_settled [OF assms le u])
  also have "\<dots> = run_ops ops r" unfolding s by (rule fold_overwrite_again)
  finally show ?thesis .
qed simp

text \<open>A history repeated from its beginning after a prefix of it.\<close>

lemma run_ops_resumed:
  assumes "\<And>p. p \<in> set (pre @ suf) \<Longrightarrow> timed p"
  shows "run_ops (pre @ suf) (run_ops pre r) = run_ops (pre @ suf) r"
proof -
  have "run_ops pre (run_ops pre r) = run_ops pre r" by (rule run_ops_again) (rule assms, simp)
  then show ?thesis unfolding fold_append comp_def by (rule arg_cong)
qed

section \<open>The writes of a group, up to row time\<close>

lemma get_dict_update:
  "get (dict_update d kvs) c = (case map_of (rev kvs) c of Some v \<Rightarrow> v | None \<Rightarrow> get d c)"
  by (simp add: get_def map_of_dict_update map_add_def split: option.splits)

definition group_op ::
  "sink_env \<Rightarrow> ingress_ready \<Rightarrow> loaded_mapping \<Rightarrow> string \<Rightarrow> pyval \<Rightarrow> hot_group \<Rightarrow> reg_op" where
  "group_op env event loaded dc tax g =
     (hg_last_source_event_at g,
      \<lambda>c. let v = get (hot_params env event loaded g dc tax 0) c in
          if c \<in> set (keys (hg_projected g) @ LINEAGE_COLUMNS)
          then Some (case stored env StoreSkuCurrentPosition c v of Some w \<Rightarrow> w | None \<Rightarrow> v)
          else None)"

lemma group_op_timed:
  assumes "column_laws env" and "wf_group g"
  shows "timed (group_op env event loaded dc tax g)"
proof -
  obtain sku variant lot where nk: "hg_natural_key g = (sku, variant, lot)" by (cases "hg_natural_key g") auto
  have "get (hot_params env event loaded g dc tax 0) ''last_source_event_at'' = instant (hg_last_source_event_at g)"
    using get_hot_params(6) [OF assms(2) nk refl] .
  then show ?thesis
    using stored_instant [OF assms(1), of "''last_source_event_at''" StoreSkuCurrentPosition "hg_last_source_event_at g"]
    by (auto simp: timed_def group_op_def LINEAGE_COLUMNS_def INSTANT_COLUMNS_def Let_def split: option.splits)
qed

lemma hot_params_id:
  assumes "c \<noteq> ''id''"
  shows "get (hot_params env event loaded g dc tax i) c = get (hot_params env event loaded g dc tax j) c"
  using assms by (cases "hg_natural_key g") (simp add: hot_params_def get_def map_of_dict_update map_add_def split: option.split)

lemma hot_content_clock [simp]: "hot_clock (hot_content r) = hot_clock r"
  by (simp add: hot_clock_def hot_content_def)

lemma hot_content_change:
  assumes "set_columns env StoreSkuCurrentPosition now (keys (hg_projected g) @ LINEAGE_COLUMNS)
      (hot_params env event loaded g dc tax i) r = Some r'"
    and "wf_group g" and "clock_admits (hg_last_source_event_at g) r"
  shows "hot_content r' = reg_op (group_op env event loaded dc tax g) (hot_content r)"
proof -
  have free: "c \<noteq> ''id'' \<and> c \<noteq> ''last_updated_at''" if "c \<in> set (keys (hg_projected g) @ LINEAGE_COLUMNS)" for c
    using that assms(2) by (auto simp: wf_group_def RESERVED_COLUMNS_def LINEAGE_COLUMNS_def)
  have admits: "clock_admits (hg_last_source_event_at g) (hot_content r)"
    using assms(3) by (simp add: clock_admits_def)
  show ?thesis
  proof
    fix c
    consider "c = ''last_updated_at''" | "c \<noteq> ''last_updated_at''" "c \<in> set (keys (hg_projected g) @ LINEAGE_COLUMNS)"
      | "c \<noteq> ''last_updated_at''" "c \<notin> set (keys (hg_projected g) @ LINEAGE_COLUMNS)" by blast
    then show "hot_content r' c = reg_op (group_op env event loaded dc tax g) (hot_content r) c"
    proof cases
      case 1
      then have "c \<notin> set (keys (hg_projected g) @ LINEAGE_COLUMNS)" using free by blast
      then show ?thesis using admits 1 by (simp add: reg_op_def group_op_def hot_content_def overwrite_def Let_def)
    next
      case 2
      have "stored env StoreSkuCurrentPosition c (get (hot_params env event loaded g dc tax 0) c) = Some (r' c)"
        using set_columns_some(1) [OF assms(1) 2(2,1)] hot_params_id [of c env event loaded g dc tax 0 i] free [OF 2(2)]
        by simp
      then show ?thesis
        using admits 2 by (simp add: reg_op_def group_op_def hot_content_def overwrite_def Let_def)
    next
      case 3
      then show ?thesis
        using admits set_columns_some(2) [OF assms(1) 3(2,1)]
        by (simp add: reg_op_def group_op_def hot_content_def overwrite_def Let_def)
    qed
  qed
qed

section \<open>The hot table of a delivery\<close>

definition group_ops ::
  "sink_env \<Rightarrow> ingress_ready \<Rightarrow> loaded_mapping \<Rightarrow> string \<Rightarrow> pyval \<Rightarrow> pyval list \<Rightarrow> hot_group list \<Rightarrow> reg_op list" where
  "group_ops env event loaded dc tax k gs =
     map (group_op env event loaded dc tax) (filter (\<lambda>g. group_key event g = k) gs)"

lemma group_ops_timed:
  assumes "column_laws env" and "\<And>g. g \<in> set gs \<Longrightarrow> wf_group g" and "p \<in> set (group_ops env event loaded dc tax k gs)"
  shows "timed p"
  using assms by (auto simp: group_ops_def group_op_timed)

text \<open>The content of the register of a key.\<close>

definition hot_cell :: "db_row list \<Rightarrow> pyval list \<Rightarrow> db_row option" where
  "hot_cell rows k = map_option hot_content (registers rows k)"

lemma merge_loop_ops:
  assumes "merge_loop env now event loaded dc tax False groups rows = Inr (outs, rows')"
    and "\<And>g i. (g, i) \<in> set groups \<Longrightarrow> wf_group g" and "hot_ok env rows" and laws: "column_laws env"
  shows "hot_cell rows' k = map_option (run_ops (group_ops env event loaded dc tax k (map fst groups))) (hot_cell rows k)"
  using assms(1-3)
proof (induction groups arbitrary: rows outs)
  case Nil
  then show ?case by (simp add: merge_loop_Nil group_ops_def option.map_id0 [unfolded id_def])
next
  case (Cons gi gs)
  obtain g i where gi: "gi = (g, i)" by (cases gi)
  obtain outcome rs outs' where step: "update_hot_incomplete_path env now (hot_params env event loaded g dc tax i)
        (keys (hg_projected g)) rows = Inr (outcome, rs)"
    and rest: "merge_loop env now event loaded dc tax False gs rs = Inr (outs', rows')"
    using Cons.prems(1) gi by (auto simp: merge_loop_Cons)
  have wf: "wf_group g" by (rule Cons.prems(2) [of g i]) (simp add: gi)
  note inc = incomplete_path_register [OF step refl wf Cons.prems(3)]
  let ?k = "group_key event g" and ?op = "group_op env event loaded dc tax g"
  have regs: "registers rs = (registers rows)(?k := snd (register_write (hg_last_source_event_at g)
      (hot_change env now (hot_params env event loaded g dc tax i) (keys (hg_projected g))) None (registers rows ?k)))"
    using inc(3) by (simp add: Let_def)
  have one: "hot_cell rs k = (if ?k = k then map_option (reg_op ?op) (hot_cell rows k) else hot_cell rows k)"
  proof (cases "registers rows k")
    case None
    then show ?thesis unfolding hot_cell_def regs by (auto simp: register_write_def)
  next
    case (Some r)
    show ?thesis
    proof (cases "?k = k")
      case k: True
      show ?thesis
      proof (cases "clock_admits (hg_last_source_event_at g) r")
        case True
        have "hot_content (hot_change env now (hot_params env event loaded g dc tax i) (keys (hg_projected g)) r) =
            reg_op ?op (hot_content r)"
          by (rule hot_content_change [OF inc(4) wf True]) (use Some k True in auto)
        then show ?thesis unfolding hot_cell_def regs using Some k True by (simp add: register_write_def)
      next
        case False
        then have "reg_op ?op (hot_content r) = hot_content r"
          by (simp add: reg_op_def group_op_def clock_admits_def)
        then show ?thesis unfolding hot_cell_def regs using Some k False by (simp add: register_write_def)
      qed
    qed (simp add: hot_cell_def regs)
  qed
  have ih: "hot_cell rows' k = map_option (run_ops (group_ops env event loaded dc tax k (map fst gs))) (hot_cell rs k)"
    by (rule Cons.IH [OF rest _ inc(1)]) (use Cons.prems(2) in auto)
  show ?case unfolding ih one by (cases "hot_cell rows k") (simp_all add: group_ops_def gi)
qed

lemma write_batch_ops:
  assumes run: "write_batch env now new_ids event loaded dc tax batch db = Inr (rep, db')"
    and m: "lm_target_model loaded \<in> set EVENT_MODELS" and inc: "\<not> lm_hot_complete loaded"
    and wf: "\<And>r. r \<in> set batch \<Longrightarrow> wf_contribution (er_hot_contributions r)"
    and ok: "db_ok env db" and laws: "column_laws env"
  shows "db_ok env db'"
    and "hot_cell (cd_current_position db') k =
      map_option (run_ops (group_ops env event loaded dc tax k (sorted_groups batch))) (hot_cell (cd_current_position db) k)"
proof -
  note commit = run [unfolded write_batch_def]
  show "db_ok env db'" by (rule commit_batch_extends(1) [OF commit m wf ok laws])
  let ?gs = "zip (sorted_groups batch) (map new_ids [0..<length (sorted_groups batch)])"
  obtain outcomes hot where
    loop: "merge_loop env now event loaded dc tax False ?gs (cd_current_position db) = Inr (outcomes, hot)"
    and db': "cd_current_position db' = hot"
    using commit inc by (auto simp: commit_batch_def Let_def bind_res_Inr_iff merge_groups_loop)
  have hot_ok: "hot_ok env (cd_current_position db)" using ok by (simp add: db_ok_def)
  have groups: "wf_group g" if "(g, i) \<in> set ?gs" for g i
    using sorted_groups_wf [OF wf] zip_fst [OF that] by blast
  show "hot_cell (cd_current_position db') k =
      map_option (run_ops (group_ops env event loaded dc tax k (sorted_groups batch))) (hot_cell (cd_current_position db) k)"
    using merge_loop_ops [OF loop groups hot_ok laws] by (simp add: db')
qed

text \<open>The writes of the batches that were committed.\<close>

definition batch_ops ::
  "sink_env \<Rightarrow> ingress_ready \<Rightarrow> loaded_mapping \<Rightarrow> string \<Rightarrow> pyval \<Rightarrow> pyval list \<Rightarrow> event_row list list \<Rightarrow> reg_op list" where
  "batch_ops env event loaded dc tax k bs =
     concat (map (\<lambda>b. group_ops env event loaded dc tax k (sorted_groups b)) bs)"

lemma run_batches_ops:
  assumes run: "run_batches env event loaded dc tax bs acc db = (db', res)"
    and m: "lm_target_model loaded \<in> set EVENT_MODELS" and inc: "\<not> lm_hot_complete loaded"
    and wf: "\<And>b r. b \<in> set bs \<Longrightarrow> r \<in> set (snd b) \<Longrightarrow> wf_contribution (er_hot_contributions r)"
    and ok: "db_ok env db" and laws: "column_laws env"
  shows "db_ok env db' \<and> (\<exists>pre suf. map snd bs = pre @ suf \<and> ((\<exists>rep. res = Inr rep) \<longrightarrow> suf = []) \<and>
    (\<forall>k. hot_cell (cd_current_position db') k =
       map_option (run_ops (batch_ops env event loaded dc tax k pre)) (hot_cell (cd_current_position db) k)))"
  using run wf ok
proof (induction bs arbitrary: acc db)
  case Nil
  then show ?case by (auto simp: batch_ops_def option.map_id0)
next
  case (Cons b bs)
  have stop: "\<exists>pre suf. map snd (b # bs) = pre @ suf \<and> ((\<exists>rep. res = Inr rep) \<longrightarrow> suf = []) \<and>
    (\<forall>k. hot_cell (cd_current_position d) k =
       map_option (run_ops (batch_ops env event loaded dc tax k pre)) (hot_cell (cd_current_position d) k))"
    if "res = Inl e" for e d
    using that by (intro exI [of _ "[]"] exI [of _ "map snd (b # bs)"]) (simp add: batch_ops_def option.map_id0 [unfolded id_def])
  show ?case
  proof (cases "write_batch env (fst (fst b)) (snd (fst b)) event loaded dc tax (snd b) db")
    case (Inl e)
    then have "db' = db" "res = Inl e" using Cons.prems(1) by simp_all
    then show ?thesis using stop Cons.prems(3) by blast
  next
    case (Inr p)
    obtain rep d where p: "p = (rep, d)" by (cases p)
    note w = write_batch_ops [OF Inr [unfolded p] m inc Cons.prems(2) [of b] Cons.prems(3) laws, simplified]
    show ?thesis
    proof (cases "missed rep = []")
      case True
      then have rest: "run_batches env event loaded dc tax bs (add_report rep acc) d = (db', res)"
        using Cons.prems(1) Inr p by simp
      have "db_ok env db' \<and> (\<exists>pre suf. map snd bs = pre @ suf \<and> ((\<exists>rep. res = Inr rep) \<longrightarrow> suf = []) \<and>
        (\<forall>k. hot_cell (cd_current_position db') k =
          map_option (run_ops (batch_ops env event loaded dc tax k pre)) (hot_cell (cd_current_position d) k)))"
        by (rule Cons.IH [OF rest _ w(1)]) (rule Cons.prems(2), auto)
      then obtain pre suf where ok': "db_ok env db'" and split: "map snd bs = pre @ suf" "(\<exists>rep. res = Inr rep) \<longrightarrow> suf = []"
        and cells: "\<And>k. hot_cell (cd_current_position db') k =
          map_option (run_ops (batch_ops env event loaded dc tax k pre)) (hot_cell (cd_current_position d) k)" by blast
      have "hot_cell (cd_current_position db') k =
          map_option (run_ops (batch_ops env event loaded dc tax k (snd b # pre))) (hot_cell (cd_current_position db) k)" for k
        unfolding cells w(2) by (simp add: batch_ops_def option.map_comp comp_def)
      then show ?thesis using ok' split by (intro conjI exI [of _ "snd b # pre"] exI [of _ suf]) simp_all
    next
      case False
      then have stopped: "db' = d" "res = Inl (HotPositionMissing (missed rep))" using Cons.prems(1) Inr p by simp_all
      have "hot_cell (cd_current_position db') k =
          map_option (run_ops (batch_ops env event loaded dc tax k [snd b])) (hot_cell (cd_current_position db) k)" for k
        unfolding stopped w(2) by (simp add: batch_ops_def)
      then show ?thesis
        using w(1) stopped by (intro conjI exI [of _ "[snd b]"] exI [of _ "map snd bs"]) simp_all
    qed
  qed
qed

section \<open>A delivery interrupted and repeated\<close>

text \<open>The hot groups do not read the parameters of the event insert, where the minted identifiers are.\<close>

definition strip :: "event_row \<Rightarrow> event_row" where
  "strip r = r\<lparr>er_params := []\<rparr>"

lemma group_hot_strip: "group_hot (map strip rows) = group_hot rows"
proof -
  have "add_to_groups (strip r) = add_to_groups r" for r
    by (simp add: fun_eq_iff add_to_groups_def new_group_def merge_group_def strip_def Let_def split: option.split)
  then show ?thesis by (simp add: group_hot_def fold_map comp_def)
qed

lemma batches_map: "batches n (map f rows) = map (map f) (batches n rows)"
proof (induction n rows rule: batches.induct)
  case (1 n rows)
  then show ?case
    by (subst (1 2) batches.simps) (simp add: take_map drop_map)
qed

lemma sorted_groups_strip: "map strip a = map strip b \<Longrightarrow> sorted_groups a = sorted_groups b"
  using group_hot_strip [of a] group_hot_strip [of b] by (simp add: sorted_groups_def)

lemma batch_ops_strip:
  assumes "map (map strip) as = map (map strip) bs"
  shows "batch_ops env event loaded dc tax k as = batch_ops env event loaded dc tax k bs"
  using assms
proof (induction as arbitrary: bs)
  case (Cons a as)
  then obtain b bs' where bs: "bs = b # bs'" and eq: "map strip a = map strip b" "map (map strip) as = map (map strip) bs'"
    by (cases bs) auto
  show ?case using Cons.IH [OF eq(2)] sorted_groups_strip [OF eq(1)] by (simp add: bs batch_ops_def)
qed (simp add: batch_ops_def)

text \<open>The rows of a redelivered message are those of the first delivery, up to the identifiers.\<close>

definition row_content :: "row_env \<Rightarrow> ingress_ready \<Rightarrow> loaded_mapping \<Rightarrow> pyval dict \<times> nat \<Rightarrow> event_row" where
  "row_content env event loaded row =
     (let payload = fst row; target = lm_target_model loaded in
      \<lparr>er_params = [],
       er_source_event_id = derive_source_event_id env payload target (ir_bronze_ref event) (snd row),
       er_event_ts = (case index_column payload (event_ts_column target) of Inr (Some (Cell (VDatetime t))) \<Rightarrow> t | _ \<Rightarrow> 0),
       er_natural_key = projr (natural_key_of env payload),
       er_hot_contributions = hot_contributions env payload (target = StoreSkuSaleEvent),
       er_payload = payload, er_row_hash = canonical_row_hash env payload, er_chunk_row_index = snd row\<rparr>)"

lemma a_datetime:
  "(case v of Some (Cell (VDatetime t)) \<Rightarrow> Inr t | _ \<Rightarrow> Inl e) = Inr u \<longleftrightarrow> v = Some (Cell (VDatetime u))"
  by (simp split: option.split pv.split cellval.split)

lemma build_event_row_content:
  "build_event_row env event dc loaded tax i row = Inr a \<Longrightarrow> strip a = row_content env event loaded row"
  by (cases row) (auto simp: build_event_row_def row_content_def strip_def Let_def bind_res_Inr_iff a_datetime)

lemma build_event_rows_content:
  assumes "build_event_rows env ids event dc loaded result tax = Inr rows"
  shows "map strip rows = map (row_content env event loaded)
    (zip (to_dicts (mr_contribution result)) (mr_source_row_indices result))"
proof -
  have "map strip as = map (row_content env event loaded) xs"
    if "map_res (\<lambda>(j, row). build_event_row env event dc loaded tax (ids j) row) (enumerate_from n xs) = Inr as" for n xs as
    using that
  proof (induction xs arbitrary: n as)
    case (Cons x xs)
    then show ?case by (auto simp: bind_res_Inr_iff build_event_row_content)
  qed simp
  then show ?thesis using assms unfolding build_event_rows_def by blast
qed

lemma build_event_rows_strip:
  assumes "build_event_rows env ids1 event dc loaded result tax = Inr rows1"
    and "build_event_rows env ids2 event dc loaded result tax = Inr rows2"
  shows "map strip rows1 = map strip rows2"
  unfolding build_event_rows_content [OF assms(1)] build_event_rows_content [OF assms(2)] ..

text \<open>The store a delivery leaves.\<close>

lemma write_chunk_ops:
  assumes run: "write_chunk env draws event loaded rows dc tax n db = (db', res)"
    and m: "lm_target_model loaded \<in> set EVENT_MODELS" and inc: "\<not> lm_hot_complete loaded"
    and wf: "\<And>r. r \<in> set rows \<Longrightarrow> wf_contribution (er_hot_contributions r)"
    and ok: "db_ok env db" and laws: "column_laws env"
  obtains pre suf where "db_ok env db'" "batches n rows = pre @ suf" "(\<exists>rep. res = Inr rep) \<longrightarrow> suf = []"
    "\<And>k. hot_cell (cd_current_position db') k =
       map_option (run_ops (batch_ops env event loaded dc tax k pre)) (hot_cell (cd_current_position db) k)"
proof -
  let ?bs = "batches n rows"
  have wf': "wf_contribution (er_hot_contributions r)"
    if "b \<in> set (zip (map draws [0..<length ?bs]) ?bs)" "r \<in> set (snd b)" for b r
  proof -
    have "snd b \<in> set ?bs" using set_zip_rightD [of "fst b" "snd b"] that(1) by simp
    then show ?thesis using batches_set that(2) wf by blast
  qed
  have snds: "map snd (zip (map draws [0..<length ?bs]) ?bs) = ?bs" by simp
  have "db_ok env db' \<and> (\<exists>pre suf. ?bs = pre @ suf \<and> ((\<exists>rep. res = Inr rep) \<longrightarrow> suf = []) \<and>
    (\<forall>k. hot_cell (cd_current_position db') k =
       map_option (run_ops (batch_ops env event loaded dc tax k pre)) (hot_cell (cd_current_position db) k)))"
    by (rule run_batches_ops [OF run [unfolded write_chunk_def Let_def] m inc _ ok laws, unfolded snds]) (rule wf')
  then show thesis using that by blast
qed

lemma batch_ops_timed:
  assumes laws: "column_laws env" and wf: "\<And>r. r \<in> set rows \<Longrightarrow> wf_contribution (er_hot_contributions r)"
    and bs: "set bs \<subseteq> set (batches n rows)" and p: "p \<in> set (batch_ops env event loaded dc tax k bs)"
  shows "timed p"
proof -
  obtain b where b: "b \<in> set bs" "p \<in> set (group_ops env event loaded dc tax k (sorted_groups b))"
    using p by (auto simp: batch_ops_def)
  have "wf_contribution (er_hot_contributions r)" if "r \<in> set b" for r
    using batches_set bs b(1) that wf by blast
  then have "wf_group g" if "g \<in> set (sorted_groups b)" for g using sorted_groups_wf that by blast
  then show ?thesis using group_ops_timed [OF laws _ b(2)] by blast
qed

lemma redelivery_converges_hot:
  assumes rows1: "build_event_rows (sk_rows env) ids1 event dc loaded result tax = Inr rows1"
    and rows2: "build_event_rows (sk_rows env) ids2 event dc loaded result tax = Inr rows2"
    and rows3: "build_event_rows (sk_rows env) ids3 event dc loaded result tax = Inr rows3"
    and broken: "write_chunk env draws1 event loaded rows1 dc tax n db = (db1, res1)"
    and again: "write_chunk env draws2 event loaded rows2 dc tax n db1 = (db2, Inr rep2)"
    and once: "write_chunk env draws3 event loaded rows3 dc tax n db = (db3, Inr rep3)"
    and m: "lm_target_model loaded \<in> set EVENT_MODELS" and inc: "\<not> lm_hot_complete loaded"
    and ok: "db_ok env db" and laws: "column_laws env"
  shows "hot_cell (cd_current_position db2) k = hot_cell (cd_current_position db3) k"
proof -
  let ?ops = "\<lambda>bs. batch_ops env event loaded dc tax k bs"
  note wf = build_event_rows_wf [OF rows1] build_event_rows_wf [OF rows2] build_event_rows_wf [OF rows3]
  obtain pre suf where ok1: "db_ok env db1" and split: "batches n rows1 = pre @ suf"
    and cells1: "\<And>k. hot_cell (cd_current_position db1) k =
      map_option (run_ops (batch_ops env event loaded dc tax k pre)) (hot_cell (cd_current_position db) k)"
    by (rule write_chunk_ops [OF broken m inc _ ok laws]) ((rule wf(1) that; assumption)+)
  have cells2: "hot_cell (cd_current_position db2) k =
      map_option (run_ops (?ops (batches n rows2))) (hot_cell (cd_current_position db1) k)"
    by (rule write_chunk_ops [OF again m inc _ ok1 laws]) (erule wf(2), simp)
  have cells3: "hot_cell (cd_current_position db3) k =
      map_option (run_ops (?ops (batches n rows3))) (hot_cell (cd_current_position db) k)"
    by (rule write_chunk_ops [OF once m inc _ ok laws]) (erule wf(3), simp)
  have same: "?ops (batches n rows2) = ?ops (pre @ suf)" "?ops (batches n rows3) = ?ops (pre @ suf)"
    unfolding split [symmetric]
    by (rule batch_ops_strip, simp only: batches_map [symmetric] build_event_rows_strip [OF rows2 rows1]
        build_event_rows_strip [OF rows3 rows1])+
  have app: "?ops (pre @ suf) = ?ops pre @ ?ops suf" by (simp add: batch_ops_def)
  have timed: "timed p" if "p \<in> set (?ops pre @ ?ops suf)" for p
  proof (rule batch_ops_timed [OF laws wf(1)])
    show "set (pre @ suf) \<subseteq> set (batches n rows1)" by (simp add: split)
    show "p \<in> set (?ops (pre @ suf))" using that by (simp add: app)
  qed
  have "run_ops (?ops pre @ ?ops suf) (run_ops (?ops pre) r) = run_ops (?ops pre @ ?ops suf) r" for r
    by (rule run_ops_resumed) (rule timed)
  then show ?thesis
    unfolding cells2 cells3 cells1 same app by (cases "hot_cell (cd_current_position db) k") simp_all
qed

section \<open>Events and the keys of the hot table\<close>

lemma routed_to_an_event_model:
  assumes "load_active_mapping rows tenant_id source_id template_id = Inr loaded"
    and "lm_target_model loaded \<noteq> StoreSkuCurrentPosition"
  shows "lm_target_model loaded \<in> set EVENT_MODELS"
proof -
  have lift: "lift_drift r = Inr x \<longleftrightarrow> r = Inr x" for r :: "drift_error + 'b" and x
    by (cases r) (simp_all add: lift_drift_def)
  have fit: "set ms \<subseteq> set EVENT_MODELS" if "fitting_models targets = Inr ms" for targets ms
    using that by (auto simp: fitting_models_def EVENT_MODELS_def bind_res_Inr_iff split: if_splits)
  obtain source where "route_target_model source = Inr (lm_target_model loaded)"
    using assms by (auto simp: load_active_mapping_def bind_res_Inr_iff split: option.splits if_splits)
  then obtain ms where ms: "fitting_models (target_columns source) = Inr ms"
    and one: "(case ms of [target] \<Rightarrow> Inr target | _ \<Rightarrow> Inl (RoutingAmbiguous ms)) = Inr (lm_target_model loaded)"
    unfolding route_target_model_def bind_res_Inr_iff lift by blast
  from one have "ms = [lm_target_model loaded]" by (cases ms; cases "tl ms") simp_all
  then show ?thesis using fit [OF ms] by simp
qed

lemma run_batches_keys:
  assumes "run_batches env event loaded dc tax bs acc db = (db', res)"
    and m: "lm_target_model loaded \<in> set EVENT_MODELS" and inc: "\<not> lm_hot_complete loaded"
    and "\<And>b r. b \<in> set bs \<Longrightarrow> r \<in> set (snd b) \<Longrightarrow> wf_contribution (er_hot_contributions r)"
    and "db_ok env db" and laws: "column_laws env"
  shows "map hot_key (cd_current_position db') = map hot_key (cd_current_position db) \<and> db_ok env db' \<and> extends db db'"
  using assms(1,4,5)
proof (induction bs arbitrary: acc db)
  case Nil
  then show ?case by (simp add: extends_refl)
next
  case (Cons b bs)
  show ?case
  proof (cases "write_batch env (fst (fst b)) (snd (fst b)) event loaded dc tax (snd b) db")
    case (Inl e)
    then show ?thesis using Cons.prems by (auto simp: extends_refl)
  next
    case (Inr p)
    obtain rep d where p: "p = (rep, d)" by (cases p)
    have wf: "wf_contribution (er_hot_contributions r)" if "r \<in> set (snd b)" for r
      using Cons.prems(2) [of b r] that by simp
    note step = commit_batch_extends [OF Inr [unfolded p write_batch_def] m wf Cons.prems(3) laws]
    show ?thesis
    proof (cases "missed rep = []")
      case True
      then have rest: "run_batches env event loaded dc tax bs (add_report rep acc) d = (db', res)"
        using Cons.prems(1) Inr p by simp
      have "map hot_key (cd_current_position db') = map hot_key (cd_current_position d) \<and> db_ok env db' \<and> extends d db'"
        by (rule Cons.IH [OF rest _ step(1)]) (rule Cons.prems(2), auto)
      then show ?thesis using step(2) step(3) [OF _ inc] extends_trans by auto
    next
      case False
      then have "db' = d" using Cons.prems(1) Inr p by simp
      then show ?thesis using step(1,2) step(3) [OF _ inc] by auto
    qed
  qed
qed

lemma write_chunk_keys:
  assumes load: "load_active_mapping srows tenant_id source_id template_id = Inr loaded"
    and event_model: "lm_target_model loaded \<noteq> StoreSkuCurrentPosition"
    and rows: "build_event_rows (sk_rows env) ids event dc loaded result tax = Inr rows"
    and run: "write_chunk env draws event loaded rows dc tax n db = (db', res)"
    and ok: "db_ok env db" and laws: "column_laws env"
  shows "map hot_key (cd_current_position db') = map hot_key (cd_current_position db) \<and> db_ok env db' \<and> extends db db'"
proof -
  let ?bs = "zip (map draws [0..<length (batches n rows)]) (batches n rows)"
  have wf: "wf_contribution (er_hot_contributions r)" if "b \<in> set ?bs" "r \<in> set (snd b)" for b r
  proof -
    have "snd b \<in> set (batches n rows)" using set_zip_rightD [of "fst b" "snd b"] that(1) by simp
    then show ?thesis using batches_set that(2) build_event_rows_wf [OF rows] by blast
  qed
  show ?thesis
    by (rule run_batches_keys [OF run [unfolded write_chunk_def Let_def] routed_to_an_event_model [OF load event_model]
          loaded_event_mapping_incomplete [OF load event_model] _ ok laws]) (rule wf)
qed

section \<open>One statement\<close>

text \<open>The hot update of an event group, as one register write.\<close>

lemma update_path_cell:
  assumes "update_hot_incomplete_path env now (hot_params env event loaded g dc tax i) (keys (hg_projected g)) rows =
      Inr (outcome, rows')"
    and "wf_group g" and "hot_ok env rows" and "column_laws env"
  shows "hot_ok env rows'"
    and "hot_cell rows' (group_key event g) =
      map_option (reg_op (group_op env event loaded dc tax g)) (hot_cell rows (group_key event g))"
proof -
  have "merge_loop env now event loaded dc tax False [(g, i)] rows = Inr ([(hg_natural_key g, outcome)], rows')"
    using assms(1) by (simp add: merge_loop_Cons merge_loop_Nil)
  from merge_loop_ops [OF this _ assms(3,4), of "group_key event g"] assms(2)
  show "hot_cell rows' (group_key event g) =
      map_option (reg_op (group_op env event loaded dc tax g)) (hot_cell rows (group_key event g))"
    by (simp add: group_ops_def)
  show "hot_ok env rows'" by (rule incomplete_path_register(1) [OF assms(1) refl assms(2,3)])
qed

lemma reg_op_clock:
  assumes "timed (t, vals)"
  shows "\<exists>u. hot_clock (reg_op (t, vals) r) = Some u \<and> t \<le> u"
  using overwrite_clock [OF assms, of r] by (auto simp: reg_op_def clock_admits_def split: option.splits)

text \<open>A write, another one to the same columns at the same time, and the first one again.\<close>

lemma reg_op_tie:
  assumes timed: "timed (t, va)" "timed (t, vb)" and dom: "\<And>c. va c = None \<longleftrightarrow> vb c = None"
  shows "reg_op (t, va) (reg_op (t, vb) (reg_op (t, va) r)) = reg_op (t, va) r"
proof (cases "clock_admits t r")
  case True
  have "overwrite va (overwrite vb (overwrite va r)) = overwrite va r"
    using dom by (auto simp: overwrite_def fun_eq_iff split: option.split) (metis option.distinct(1))+
  moreover have "clock_admits t (overwrite va r)" "clock_admits t (overwrite vb (overwrite va r))"
    by (simp_all add: clock_admits_def overwrite_clock [OF timed(1)] overwrite_clock [OF timed(2)])
  ultimately show ?thesis using True by (simp add: reg_op_def)
qed (simp add: reg_op_def)

section \<open>A delivery is a sequence of committed batches\<close>

lemma canon_steps_trans: "canon_steps env b c \<Longrightarrow> canon_steps env a b \<Longrightarrow> canon_steps env a c"
  by (induction rule: canon_steps.induct) (auto intro: canon_steps.more)

lemma run_batches_steps:
  assumes "run_batches env event loaded dc tax bs acc db = (db', res)"
    and m: "lm_target_model loaded \<in> set EVENT_MODELS"
    and rows: "build_event_rows (sk_rows env) row_ids event dc loaded result tax = Inr rows"
    and "snd ` set bs \<subseteq> set (batches n rows)"
  shows "canon_steps env db db'"
  using assms(1,4)
proof (induction bs arbitrary: acc db)
  case Nil
  then show ?case by (simp add: canon_steps.none)
next
  case (Cons b bs)
  show ?case
  proof (cases "write_batch env (fst (fst b)) (snd (fst b)) event loaded dc tax (snd b) db")
    case (Inl e)
    then show ?thesis using Cons.prems by (auto simp: canon_steps.none)
  next
    case (Inr p)
    obtain rep d where p: "p = (rep, d)" by (cases p)
    have "canon_step env db d"
      by (rule event_batch [OF m rows _ Inr [unfolded p write_batch_def]]) (use Cons.prems(2) in auto)
    then have step: "canon_steps env db d" by (rule canon_steps.more [OF canon_steps.none])
    show ?thesis
    proof (cases "missed rep = []")
      case True
      then have "canon_steps env d db'" using Cons Inr p by simp
      then show ?thesis using step by (rule canon_steps_trans)
    next
      case False
      then show ?thesis using Cons.prems(1) Inr p step by simp
    qed
  qed
qed

lemma snd_zip_subset: "snd ` set (zip xs ys) \<subseteq> set ys"
  by (auto dest: set_zip_rightD)

lemma write_chunk_steps:
  assumes "build_event_rows (sk_rows env) row_ids event dc loaded result tax = Inr rows"
    and "write_chunk env draws event loaded rows dc tax n db = (db', res)"
    and "lm_target_model loaded \<in> set EVENT_MODELS"
  shows "canon_steps env db db'"
  by (rule run_batches_steps [OF assms(2) [unfolded write_chunk_def Let_def] assms(3,1) snd_zip_subset])

lemma run_catalogue_batches_steps:
  assumes "run_catalogue_batches env event loaded dc bs acc db = (db', res)"
    and produced: "catalogue_produced = Inr produced" and frame: "distinct (keys (mr_contribution result))"
    and groups: "catalogue_groups env produced event result = Inr groups"
    and "snd ` set bs \<subseteq> set (batches n groups)"
  shows "canon_steps env db db'"
  using assms(1,5)
proof (induction bs arbitrary: acc db)
  case Nil
  then show ?case by (simp add: canon_steps.none)
next
  case (Cons b bs)
  show ?case
  proof (cases "write_catalogue_batch env (fst (fst b)) (snd (fst b)) event loaded dc (snd b) db")
    case (Inl e)
    then show ?thesis using Cons.prems by (auto simp: canon_steps.none)
  next
    case (Inr p)
    obtain rep d where p: "p = (rep, d)" by (cases p)
    have "canon_step env db d"
      by (rule catalogue_batch [OF produced frame groups _ Inr [unfolded p]]) (use Cons.prems(2) in auto)
    then have "canon_steps env db d" by (rule canon_steps.more [OF canon_steps.none])
    moreover have "canon_steps env d db'" using Cons Inr p by simp
    ultimately show ?thesis using canon_steps_trans by blast
  qed
qed

lemma write_catalogue_chunk_steps:
  assumes "write_catalogue_chunk env draws produced event loaded result dc n db = Inr (db', res)"
    and "catalogue_produced = Inr produced" and "distinct (keys (mr_contribution result))"
  shows "canon_steps env db db'"
proof -
  obtain groups where groups: "catalogue_groups env produced event result = Inr groups"
    and run: "run_catalogue_batches env event loaded dc
      (zip (map draws [0..<length (batches n groups)]) (batches n groups))
        \<lparr>wr_event_rows_written = 0, wr_event_rows_suppressed = 0, wr_hot_rows_upserted = 0,
         wr_hot_noops = 0, wr_batches = 0, wr_duplicates = []\<rparr> db = (db', res)"
    using assms(1) by (auto simp: write_catalogue_chunk_def bind_res_Inr_iff Let_def)
  show ?thesis by (rule run_catalogue_batches_steps [OF run assms(2,3) groups snd_zip_subset])
qed

end
