(* ===== verification/Canonical_Example.thy ===== *)
theory Canonical_Example
  imports Canonical_Redelivery
begin

text \<open>
  A concrete chunk on a concrete store, for the witnesses of the canonical properties: columns that
  give back what they take, a sales mapping, and a frame with two sales of one SKU, the later first.
\<close>

definition w_env :: sink_env where
  "w_env =
     \<lparr>sk_rows = \<lparr>re_orjson = (\<lambda>_. ''{}''), re_orjson_value = (\<lambda>_. ''null''), re_str = (\<lambda>_. ''?'')\<rparr>,
      sk_column = (\<lambda>_ _ v. Some (Some v)), sk_checks = (\<lambda>_ _. True)\<rparr>"

lemma w_laws: "column_laws w_env"
  by (simp add: column_laws_def w_env_def)

lemma w_stored: "stored w_env m c v = Some v"
  by (simp add: stored_def w_env_def split: option.split)

lemma w_set_columns:
  "set_columns w_env m now cs params r =
     Some (\<lambda>c. if c = ''last_updated_at'' then instant now else if c \<in> set cs then get params c else r c)"
  by (rule trans [OF set_columns_def]) (simp add: w_stored list_all_iff fun_eq_iff)

lemma w_row_ok:
  "row_ok w_env m r \<longleftrightarrow> list_all (\<lambda>c. r c \<noteq> None) (not_null m) \<and> (m = StoreSkuCurrentPosition \<longrightarrow> presence_pairing r)"
  by (simp add: row_ok_def w_env_def)

definition w_event :: ingress_ready where
  "w_event =
     \<lparr>ir_trace_id = 7, ir_tenant_id = 1, ir_store_id = 2, ir_source_id = ''pos'', ir_template_id = 3,
      ir_bronze_ref = 4, ir_gcs_uri = ''gs://b/o'', ir_received_ts = 500, ir_delimiter = '','',
      ir_tenant_display_code = None, ir_store_code = None, ir_replay = False, ir_parent_trace_id = None\<rparr>"

definition w_source :: source_mapping where
  "w_source =
     \<lparr>sm_version = 1, sm_rename = map (\<lambda>c. (c, c)) [''sku_id'', ''source_sale_timestamp'', ''event_date'',
        ''event_subtype'', ''transaction_id'', ''line_item_seq'', ''quantity'', ''unit_retail_price'',
        ''unit_sale_price'', ''currency''],
      sm_normalize = [], sm_cast = [], sm_derive = []\<rparr>"

definition w_loaded :: loaded_mapping where
  "w_loaded =
     \<lparr>lm_mapping_version_id = 9, lm_source = w_source, lm_target_model = StoreSkuSaleEvent, lm_hot_complete = False\<rparr>"

definition w_mapping_row :: source_row where
  "w_mapping_row =
     \<lparr>sr_tenant_id = 1, sr_source_id = ''pos'', sr_template_id = 3, sr_active = True, sr_mapping_version_id = 9,
      sr_template_type = ''sales'', sr_pre_suite_ref = None, sr_post_suite_ref = None, sr_rules = Some w_source\<rparr>"

lemma w_fitting: "fitting_models (target_columns w_source) = Inr [StoreSkuSaleEvent]"
proof -
  have "set (target_columns w_source) \<subseteq> set (cp_mapping_produced sale_event_provenance)"
    "\<not> set (target_columns w_source) \<subseteq> set (cp_mapping_produced change_event_provenance)"
    by code_simp+
  then show ?thesis by (simp add: fitting_models_def EVENT_MODELS_def mapping_produced)
qed

lemma w_incomplete: "classify_hot_completeness w_source StoreSkuSaleEvent = Inr False"
proof -
  have "guaranteed_hot_columns w_source StoreSkuSaleEvent = Inr [''current_retail_price'', ''currency'']" by code_simp
  then show ?thesis by (simp add: classify_hot_completeness_def hot_required)
qed

lemma w_load: "load_active_mapping [w_mapping_row] 1 ''pos'' 3 = Inr w_loaded"
proof -
  have rules: "sm_rename w_source \<noteq> []" by (simp add: w_source_def)
  then show ?thesis
    using w_fitting w_incomplete
    by (simp add: load_active_mapping_def active_mapping_def w_mapping_row_def route_target_model_def lift_drift_def w_loaded_def)
qed

text \<open>Two sales of one SKU, the later first.\<close>

definition w_result :: mapping_result where
  "w_result =
     \<lparr>mr_contribution =
        [(''sku_id'', StrSeries [Some ''A1'', Some ''A1'']),
         (''source_sale_timestamp'', TypedSeries DDatetimeUTC [Some (VDatetime 100), Some (VDatetime 90)]),
         (''event_date'', TypedSeries DDate [Some (VDate 0), Some (VDate 0)]),
         (''event_subtype'', StrSeries [Some ''SALE'', Some ''SALE'']),
         (''transaction_id'', StrSeries [Some ''T1'', Some ''T1'']),
         (''line_item_seq'', TypedSeries DInt64 [Some (VInt 1), Some (VInt 2)]),
         (''quantity'', TypedSeries DInt64 [Some (VInt 1), Some (VInt 1)]),
         (''unit_retail_price'', TypedSeries DInt64 [Some (VDecimal 1000 2), Some (VDecimal 900 2)]),
         (''unit_sale_price'', TypedSeries DInt64 [Some (VDecimal 1000 2), Some (VDecimal 900 2)]),
         (''currency'', StrSeries [Some ''EUR'', Some ''EUR''])],
      mr_source_row_indices = [0, 1], mr_failures = []\<rparr>"

definition w_payload :: "nat \<Rightarrow> pyval dict" where
  "w_payload i = to_dicts (mr_contribution w_result) ! i"

definition w_row :: "nat \<Rightarrow> uuid \<Rightarrow> event_row" where
  "w_row i u =
     \<lparr>er_params = AList.update ''tax_treatment'' (Some (Text ''INCLUSIVE''))
        (dict_update (w_payload i) (consumer_columns (sk_rows w_env) w_event ''csv'' w_loaded u
          (if i = 0 then ''T1:1'' else ''T1:2'') (canonical_row_hash (sk_rows w_env) (w_payload i)) i)),
      er_source_event_id = (if i = 0 then ''T1:1'' else ''T1:2''), er_event_ts = (if i = 0 then 100 else 90),
      er_natural_key = (''A1'', None, None),
      er_hot_contributions =
        [(''current_retail_price'', Some (Cell (VDecimal (if i = 0 then 1000 else 900) 2))),
         (''currency'', Some (Text ''EUR''))],
      er_payload = w_payload i, er_row_hash = canonical_row_hash (sk_rows w_env) (w_payload i),
      er_chunk_row_index = i\<rparr>"

lemma w_payloads: "to_dicts (mr_contribution w_result) = [w_payload 0, w_payload 1]"
  by code_simp

lemma w_payload_facts:
  assumes "i = 0 \<or> i = 1"
  shows "index_column (w_payload i) ''source_sale_timestamp'' = Inr (Some (Cell (VDatetime (if i = 0 then 100 else 90))))"
    "derive_source_event_id (sk_rows w_env) (w_payload i) StoreSkuSaleEvent 4 i = (if i = 0 then ''T1:1'' else ''T1:2'')"
    "natural_key_of (sk_rows w_env) (w_payload i) = Inr (''A1'', None, None)"
    "hot_contributions (sk_rows w_env) (w_payload i) True =
        [(''current_retail_price'', Some (Cell (VDecimal (if i = 0 then 1000 else 900) 2))),
         (''currency'', Some (Text ''EUR''))]"
  using assms by (elim disjE; hypsubst; code_simp)+

lemma w_build:
  "build_event_rows (sk_rows w_env) ids w_event ''csv'' w_loaded w_result (Some (Text ''INCLUSIVE'')) =
     Inr [w_row 0 (ids 0), w_row 1 (ids 1)]"
proof -
  have one: "build_event_row (sk_rows w_env) w_event ''csv'' w_loaded (Some (Text ''INCLUSIVE'')) u (w_payload i, i) = Inr (w_row i u)"
    if "i = 0 \<or> i = 1" for i u
  proof -
    have "lm_target_model w_loaded = StoreSkuSaleEvent" "ir_bronze_ref w_event = 4"
      by (simp_all add: w_loaded_def w_event_def)
    then show ?thesis
      using w_payload_facts [OF that] by (simp add: build_event_row_def w_row_def event_ts_column_def Let_def)
  qed
  have "mr_source_row_indices w_result = [0, 1]" by (simp add: w_result_def)
  then show ?thesis unfolding build_event_rows_def w_payloads using one [of 0] one [of 1] by simp
qed

definition w_params :: "nat \<Rightarrow> string \<Rightarrow> uuid \<Rightarrow> pyval dict" where
  "w_params i h u = AList.update ''tax_treatment'' (Some (Text ''INCLUSIVE''))
     (dict_update (w_payload i) (consumer_columns (sk_rows w_env) w_event ''csv'' w_loaded u
        (if i = 0 then ''T1:1'' else ''T1:2'') h i))"

lemma get_update: "get (AList.update k v d) c = (if c = k then v else get d c)"
  by (simp add: get_def map_of_update)

lemma w_payload_get:
  assumes "i = 0 \<or> i = 1"
  shows "list_all (\<lambda>c. get (w_payload i) c \<noteq> None)
    [''sku_id'', ''source_sale_timestamp'', ''event_date'', ''event_subtype'', ''quantity'', ''unit_retail_price'',
     ''unit_sale_price'', ''currency'']"
  using assms by (elim disjE; hypsubst; code_simp)

lemma w_sale_columns:
  "not_null StoreSkuSaleEvent =
     [''id'', ''last_updated_at'', ''event_date'', ''tenant_id'', ''store_id'', ''sku_id'', ''event_subtype'',
      ''source_sale_timestamp'', ''quantity'', ''unit_retail_price'', ''unit_sale_price'', ''tax_treatment'',
      ''currency'', ''source_id'', ''source_event_id'', ''row_hash'', ''mapping_version_id'', ''trace_id'', ''dis_channel'']"
  "list_all (\<lambda>c. c = ''last_updated_at'' \<or> c \<in> set (insert_columns StoreSkuSaleEvent)) (not_null StoreSkuSaleEvent)"
  by code_simp+

lemma w_params_cols:
  assumes "i = 0 \<or> i = 1"
  shows "get (w_params i h u) ''id'' = Some (Uuid u)"
    "get (w_params i h u) ''source_event_id'' = Some (Text (if i = 0 then ''T1:1'' else ''T1:2''))"
    "list_all (\<lambda>c. c = ''last_updated_at'' \<or> get (w_params i h u) c \<noteq> None) (not_null StoreSkuSaleEvent)"
  using w_payload_get [OF assms]
  by (simp_all add: w_sale_columns(1) w_params_def get_update get_dict_update consumer_columns_def jsonb_object_def)

definition w_cand :: "nat \<Rightarrow> uuid \<Rightarrow> timestamp \<Rightarrow> db_row" where
  "w_cand i u now =
     (\<lambda>c. if c = ''last_updated_at'' then instant now
          else if c \<in> set (insert_columns StoreSkuSaleEvent) then get (er_params (w_row i u)) c else None)"

lemma w_candidate: "event_candidate w_env StoreSkuSaleEvent now (w_row i u) = Some (w_cand i u now)"
  unfolding event_candidate_def w_set_columns w_cand_def ..

lemma w_row_params: "er_params (w_row i u) = w_params i (canonical_row_hash (sk_rows w_env) (w_payload i)) u"
  by (simp add: w_row_def w_params_def)

lemma w_insert_columns: "''id'' \<in> set (insert_columns StoreSkuSaleEvent)" "''source_event_id'' \<in> set (insert_columns StoreSkuSaleEvent)"
  by code_simp+

lemma w_cand_cols:
  assumes "i = 0 \<or> i = 1"
  shows "w_cand i u now ''id'' = Some (Uuid u)" "w_cand i u now ''source_event_id'' = Some (Text (if i = 0 then ''T1:1'' else ''T1:2''))"
    "row_ok w_env StoreSkuSaleEvent (w_cand i u now)"
proof -
  note cols = w_params_cols [OF assms, of "canonical_row_hash (sk_rows w_env) (w_payload i)" u]
  show "w_cand i u now ''id'' = Some (Uuid u)" "w_cand i u now ''source_event_id'' = Some (Text (if i = 0 then ''T1:1'' else ''T1:2''))"
    using cols(1,2) w_insert_columns by (simp_all add: w_cand_def w_row_params)
  have "w_cand i u now c \<noteq> None" if "c \<in> set (not_null StoreSkuSaleEvent)" for c
    using that cols(3) w_sale_columns(2) unfolding list_all_iff by (auto simp: w_cand_def w_row_params instant_def)
  then show "row_ok w_env StoreSkuSaleEvent (w_cand i u now)" by (simp add: w_row_ok list_all_iff)
qed

definition w_key :: "pyval list" where
  "w_key = [Some (Uuid 1), Some (Uuid 2), Some (Text ''A1''), Some (Text []), Some (Text [])]"

definition w_good :: "db_row \<Rightarrow> bool" where
  "w_good r \<longleftrightarrow> hot_key r = w_key \<and> row_ok w_env StoreSkuCurrentPosition r"

definition w_group_at :: "nat \<Rightarrow> timestamp \<Rightarrow> hot_group" where
  "w_group_at i t =
     \<lparr>hg_natural_key = (''A1'', None, None), hg_projected = er_hot_contributions (w_row i 0),
      hg_last_source_event_at = t,
      hg_source_event_id = (if i = 0 then ''T1:1'' else ''T1:2''), hg_chunk_row_index = i\<rparr>"

definition w_group :: "nat \<Rightarrow> hot_group" where
  "w_group i = w_group_at i (if i = 0 then 100 else 90)"

lemma w_groups: "sorted_groups [w_row i u] = [w_group i]"
  by (simp add: sorted_groups_def group_hot_def add_to_groups_def new_group_def w_row_def w_group_def w_group_at_def)

lemma w_group_wf: "wf_group (w_group_at i t)"
  by (simp add: wf_group_def w_group_at_def w_row_def keys_def RESERVED_COLUMNS_def LINEAGE_COLUMNS_def)

lemma w_group_key: "group_key w_event (w_group_at i t) = w_key"
  by (simp add: group_key_def hot_sort_key_def w_group_at_def w_event_def w_key_def text_or_empty_def)

text \<open>One batch of one row, whatever the detection said.\<close>

lemma w_group_keys: "keys (hg_projected (w_group_at i t)) = [''current_retail_price'', ''currency'']"
  by (simp add: w_group_at_def w_row_def keys_def)

definition PAIRED_COLUMNS :: "string list" where
  "PAIRED_COLUMNS = [''promo_identifier'', ''promo_price'', ''expiry_date'', ''expiry_source'', ''expiry_confidence'']"

definition w_plain :: "hot_group \<Rightarrow> bool" where
  "w_plain g \<longleftrightarrow>
     hg_natural_key g = (''A1'', None, None) \<and> wf_group g \<and>
     set (keys (hg_projected g)) \<inter> set PAIRED_COLUMNS = {} \<and> None \<notin> snd ` set (hg_projected g)"

lemma w_group_plain: "w_plain (w_group_at i t)"
  using w_group_wf [of i t]
  by (simp add: w_plain_def PAIRED_COLUMNS_def w_group_keys) (simp add: w_group_at_def w_row_def)

lemma w_plain_key: "w_plain g \<Longrightarrow> group_key w_event g = w_key"
  by (simp add: w_plain_def group_key_def hot_sort_key_def w_event_def w_key_def text_or_empty_def)

lemma w_hot_params:
  assumes "w_plain g" and "c \<in> set (keys (hg_projected g) @ LINEAGE_COLUMNS)"
  shows "get (hot_params w_env w_event w_loaded g ''csv'' tax u) c \<noteq> None"
proof -
  have nk: "hg_natural_key g = (''A1'', None, None)" using assms(1) by (simp add: w_plain_def)
  show ?thesis
  proof (cases "map_of (rev (hg_projected g)) c")
    case None
    then have "c \<notin> set (keys (hg_projected g))" by (simp add: map_of_eq_None_iff keys_def)
    then have "c \<in> set LINEAGE_COLUMNS" using assms(2) by simp
    then show ?thesis
      using None unfolding hot_params_def nk prod.case get_dict_update
      by (auto simp: LINEAGE_COLUMNS_def get_def instant_def jsonb_object_def)
  next
    case (Some v)
    then have "v \<in> snd ` set (hg_projected g)" by (force dest: map_of_SomeD)
    moreover have "None \<notin> snd ` set (hg_projected g)" using assms(1) by (simp add: w_plain_def)
    ultimately have "v \<noteq> None" by metis
    then show ?thesis using Some unfolding hot_params_def nk prod.case get_dict_update by simp
  qed
qed

lemma w_merge:
  assumes "w_good r" and plain: "w_plain g"
  obtains r' outcome where "update_hot_incomplete_path w_env now (hot_params w_env w_event w_loaded g ''csv'' tax u)
      (keys (hg_projected g)) [r] = Inr (outcome, [r'])" "outcome \<noteq> Missing" "w_good r'"
proof -
  let ?p = "hot_params w_env w_event w_loaded g ''csv'' tax u"
  let ?cs = "keys (hg_projected g) @ LINEAGE_COLUMNS"
  define t where "t = (the (instant_of (get ?p ''last_source_event_at'')))"
  define r' where "r' = (\<lambda>c. if c = ''last_updated_at'' then instant now else if c \<in> set ?cs then get ?p c else r c)"
  have wf: "wf_group g" using plain by (simp add: w_plain_def)
  have key: "hot_key (get ?p) = w_key" unfolding hot_key_params [OF wf] by (rule w_plain_key [OF plain])
  have sets: "set_columns w_env StoreSkuCurrentPosition now ?cs ?p r = Some r'"
    unfolding w_set_columns r'_def ..
  have "hot_key r' = hot_key r" by (rule hot_change_key [OF wf sets])
  moreover have "row_ok w_env StoreSkuCurrentPosition r'"
  proof -
    have "r c \<noteq> None \<Longrightarrow> r' c \<noteq> None" for c using w_hot_params [OF plain, of c tax u] by (simp add: r'_def instant_def)
    moreover have "r' c = r c" if "c \<in> set PAIRED_COLUMNS \<or> c \<in> {''sku_variant'', ''sku_lot_batch''}" for c
      using that plain by (auto simp: r'_def w_plain_def PAIRED_COLUMNS_def LINEAGE_COLUMNS_def wf_group_def RESERVED_COLUMNS_def)
    ultimately show ?thesis
      using assms(1) by (simp add: w_good_def w_row_ok list_all_iff presence_pairing_def PAIRED_COLUMNS_def)
  qed
  ultimately have good: "w_good r'" using assms by (simp add: w_good_def)
  have r: "hot_key r = w_key" using assms by (simp add: w_good_def)
  show thesis
  proof (cases "clock_admits t r")
    case True
    then have "update_hot_incomplete_path w_env now ?p (keys (hg_projected g)) [r] = Inr (Written, [r'])"
      using r key good by (simp add: update_hot_incomplete_path_def update_rows_def sets t_def w_good_def)
    then show thesis using that good by blast
  next
    case False
    then have "update_hot_incomplete_path w_env now ?p (keys (hg_projected g)) [r] = Inr (NoopOlder, [r])"
      using r key by (simp add: update_hot_incomplete_path_def update_rows_def t_def)
    then show thesis using that assms by blast
  qed
qed

lemma w_commit:
  assumes i: "i = 0 \<or> i = 1" and good: "w_good r" and fresh: "Some (Uuid u) \<notin> (\<lambda>r. r ''id'') ` set log"
  obtains rep log' r' where
    "commit_batch w_env now ids w_event w_loaded ''csv'' tax [w_row i u] hits
       \<lparr>cd_sale_events = log, cd_change_events = [], cd_current_position = [r]\<rparr> =
     Inr (rep, \<lparr>cd_sale_events = log', cd_change_events = [], cd_current_position = [r']\<rparr>)"
    "missed rep = []" "w_good r'" "log' = log \<or> log' = log @ [w_cand i u now]"
    "hits = [] \<Longrightarrow> log = [] \<Longrightarrow> log' = [w_cand i u now]"
proof -
  obtain r' outcome where upd: "update_hot_incomplete_path w_env now (hot_params w_env w_event w_loaded (w_group i) ''csv'' tax (ids 0))
      (keys (hg_projected (w_group i))) [r] = Inr (outcome, [r'])" and out: "outcome \<noteq> Missing" "w_good r'"
    unfolding w_group_def by (rule w_merge [OF good w_group_plain])
  have hot: "merge_groups w_env now w_event w_loaded ''csv'' tax (zip [w_group i] (map ids [0..<length [w_group i]])) [r] =
      Inr ([(hg_natural_key (w_group i), outcome)], [r'])"
    using upd by (simp add: merge_groups_def upsert_hot_def w_loaded_def [of] Let_def)
  have one: "insert_events w_env StoreSkuSaleEvent now [w_row i u] log = Inr (claim_event (w_cand i u now) log)"
    using w_candidate [of now i u] w_cand_cols [OF i] fresh
    by (simp add: insert_events_def insert_event_def event_candidate_def)
  have target: "lm_target_model w_loaded = StoreSkuSaleEvent" by (simp add: w_loaded_def)
  define kept where "kept = fst (partition_redeliveries [w_row i u] hits)"
  have "kept = [] \<or> kept = [w_row i u]" by (simp add: kept_def partition_redeliveries_def Let_def)
  then obtain log' where ins: "insert_events w_env StoreSkuSaleEvent now kept log = Inr log'"
    and log': "log' = log \<or> log' = log @ [w_cand i u now]"
    using one by (auto simp: insert_events_def claim_event_def split: if_splits)
  have first: "log' = [w_cand i u now]" if "hits = []" "log = []"
    using that one ins by (simp add: kept_def partition_redeliveries_def noop_hits_def is_redelivery_def dict_of_def claim_event_def)
  show thesis
  proof (rule that)
    show "commit_batch w_env now ids w_event w_loaded ''csv'' tax [w_row i u] hits
       \<lparr>cd_sale_events = log, cd_change_events = [], cd_current_position = [r]\<rparr> =
     Inr (\<lparr>bt_hits = hits, bt_suppressed = snd (partition_redeliveries [w_row i u] hits), bt_inserted = length kept,
        bt_outcomes = [(hg_natural_key (w_group i), outcome)]\<rparr>,
      \<lparr>cd_sale_events = log', cd_change_events = [], cd_current_position = [r']\<rparr>)"
      using ins hot unfolding commit_batch_def Let_def target w_groups kept_def
      by (simp add: event_table_def set_event_table_def)
  qed (use out log' first in \<open>simp_all add: missed_def\<close>)
qed

text \<open>The chunk in batches of one row.\<close>

abbreviation w_tax :: pyval where
  "w_tax \<equiv> Some (Text ''INCLUSIVE'')"

definition w_draws :: "nat \<Rightarrow> timestamp \<times> (nat \<Rightarrow> uuid)" where
  "w_draws n = (1000 + int n, \<lambda>_. 40)"

definition w_hot :: db_row where
  "w_hot = get
     [(''id'', Some (Uuid 30)), (''last_updated_at'', instant 10), (''tenant_id'', Some (Uuid 1)), (''store_id'', Some (Uuid 2)),
      (''sku_id'', Some (Text ''A1'')), (''product_name'', Some (Text ''Milk'')),
      (''current_retail_price'', Some (Cell (VDecimal 800 2))), (''tax_treatment'', w_tax), (''currency'', Some (Text ''EUR'')),
      (''last_source_event_at'', instant 10), (''mapping_version_id'', Some (Cell (VInt 8))), (''trace_id'', Some (Uuid 6)),
      (''dis_channel'', Some (Text ''csv''))]"

definition w_db :: canonical_db where
  "w_db = \<lparr>cd_sale_events = [], cd_change_events = [], cd_current_position = [w_hot]\<rparr>"

lemma w_hot_good: "w_good w_hot"
  unfolding w_good_def w_row_ok by (intro conjI impI) code_simp+

lemma w_db_ok: "db_ok w_env w_db"
  using w_hot_good by (simp add: db_ok_def log_ok_def hot_ok_def w_db_def w_good_def)

lemma w_batches: "batches 1 [a, b] = [[a], [b]]"
  by (subst batches.simps, simp, subst batches.simps, simp, subst batches.simps, simp)

lemma w_write_chunk:
  "write_chunk w_env w_draws w_event w_loaded [a, b] dc tax 1 db =
     run_batches w_env w_event w_loaded dc tax [(w_draws 0, [a]), (w_draws 1, [b])]
       \<lparr>wr_event_rows_written = 0, wr_event_rows_suppressed = 0, wr_hot_rows_upserted = 0,
        wr_hot_noops = 0, wr_batches = 0, wr_duplicates = []\<rparr> db"
  unfolding write_chunk_def w_batches Let_def by simp

lemma w_completes:
  assumes "w_good r" and "Some (Uuid u) \<notin> (\<lambda>r. r ''id'') ` set log" "Some (Uuid v) \<notin> (\<lambda>r. r ''id'') ` set log" "u \<noteq> v"
  shows "\<exists>db' rep. write_chunk w_env w_draws w_event w_loaded [w_row 0 u, w_row 1 v] ''csv'' w_tax 1
    \<lparr>cd_sale_events = log, cd_change_events = [], cd_current_position = [r]\<rparr> = (db', Inr rep)"
proof -
  let ?db = "\<lambda>log r. \<lparr>cd_sale_events = log, cd_change_events = [], cd_current_position = [r]\<rparr>"
  let ?hits = "\<lambda>i u log. detect_duplicates w_env w_event w_loaded [w_row i u] (event_table (lm_target_model w_loaded) (?db log r))"
  have zero: "(0::nat) = 0 \<or> (0::nat) = 1" and one: "(1::nat) = 0 \<or> (1::nat) = 1" by simp_all
  obtain rep1 log' r' where b1: "write_batch w_env (fst (w_draws 0)) (snd (w_draws 0)) w_event w_loaded ''csv'' w_tax [w_row 0 u] (?db log r) =
      Inr (rep1, ?db log' r')" "missed rep1 = []" and r': "w_good r'"
      and log': "log' = log \<or> log' = log @ [w_cand 0 u (fst (w_draws 0))]"
    unfolding write_batch_def by (rule w_commit [OF zero assms(1,2)])
  have "Some (Uuid v) \<notin> (\<lambda>r. r ''id'') ` set log'" using log' assms(3,4) w_cand_cols(1) [OF zero] by auto
  then obtain rep2 log'' r'' where b2: "write_batch w_env (fst (w_draws 1)) (snd (w_draws 1)) w_event w_loaded ''csv'' w_tax [w_row 1 v] (?db log' r') =
      Inr (rep2, ?db log'' r'')" "missed rep2 = []"
    unfolding write_batch_def by (rule w_commit [OF one r'])
  show ?thesis unfolding w_write_chunk using b1 b2 by simp
qed

text \<open>Both rows minted with one identifier: the second batch is refused, the first stays.\<close>

lemma w_broken:
  obtains r' where "write_chunk w_env w_draws w_event w_loaded [w_row 0 50, w_row 1 50] ''csv'' w_tax 1 w_db =
    (\<lparr>cd_sale_events = [w_cand 0 50 1000], cd_change_events = [], cd_current_position = [r']\<rparr>, Inl DatabaseRefuses)"
    "w_good r'"
proof -
  let ?db = "\<lambda>log r. \<lparr>cd_sale_events = log, cd_change_events = [], cd_current_position = [r]\<rparr>"
  have zero: "(0::nat) = 0 \<or> (0::nat) = 1" and one: "(1::nat) = 0 \<or> (1::nat) = 1" by simp_all
  have draws: "fst (w_draws 0) = 1000" by (simp add: w_draws_def)
  have sale: "lm_target_model w_loaded = StoreSkuSaleEvent" by (simp add: w_loaded_def)
  have none: "latest_prior StoreSkuSaleEvent w_event [] key = None" for key by (simp add: latest_prior_def)
  have hits: "detect_duplicates w_env w_event w_loaded [w_row 0 50] (event_table (lm_target_model w_loaded) w_db) = []"
    by (simp add: sale detect_duplicates_def prior_rows_def event_table_def w_db_def none List.map_filter_def)
  obtain rep1 log' r' where b1: "commit_batch w_env (fst (w_draws 0)) (snd (w_draws 0)) w_event w_loaded ''csv'' w_tax [w_row 0 50] [] (?db [] w_hot) =
      Inr (rep1, ?db log' r')" "missed rep1 = []" and r': "w_good r'"
      and log': "log' = [w_cand 0 50 1000]"
    by (rule w_commit [OF zero w_hot_good, of 50 "[]" "fst (w_draws 0)" "snd (w_draws 0)" w_tax "[]"]) (simp_all add: draws)
  have key: "redelivery_key (w_cand 1 50 t) \<noteq> redelivery_key (w_cand 0 50 1000)" for t
    using w_cand_cols(2) [OF zero, of 50 1000] w_cand_cols(2) [OF one, of 50 t] by (simp add: redelivery_key_def)
  have none': "latest_prior StoreSkuSaleEvent w_event [w_cand 0 50 1000] ''T1:2'' = None"
    using w_cand_cols(2) [OF zero, of 50 1000] by (simp add: latest_prior_def)
  have hits': "detect_duplicates w_env w_event w_loaded [w_row 1 50] (event_table (lm_target_model w_loaded) (?db [w_cand 0 50 1000] r')) = []"
    using none' by (simp add: sale detect_duplicates_def prior_rows_def event_table_def List.map_filter_def w_row_def)
  have "insert_events w_env StoreSkuSaleEvent t [w_row 1 50] [w_cand 0 50 1000] = Inl DatabaseRefuses" for t
    using w_candidate [of t 1 50] w_cand_cols(1,3) [OF one] w_cand_cols(1) [OF zero] key [of t]
    by (simp add: insert_events_def insert_event_def event_candidate_def)
  then have b2: "write_batch w_env (fst (w_draws 1)) (snd (w_draws 1)) w_event w_loaded ''csv'' w_tax [w_row 1 50] (?db [w_cand 0 50 1000] r') =
      Inl DatabaseRefuses"
    unfolding write_batch_def hits' unfolding commit_batch_def sale
    by (simp add: Let_def event_table_def partition_redeliveries_def noop_hits_def is_redelivery_def dict_of_def)
  have "write_batch w_env (fst (w_draws 0)) (snd (w_draws 0)) w_event w_loaded ''csv'' w_tax [w_row 0 50] w_db =
      Inr (rep1, ?db [w_cand 0 50 1000] r')"
    using b1(1) unfolding write_batch_def hits log' by (simp add: w_db_def)
  then have "write_chunk w_env w_draws w_event w_loaded [w_row 0 50, w_row 1 50] ''csv'' w_tax 1 w_db =
      (?db [w_cand 0 50 1000] r', Inl DatabaseRefuses)"
    unfolding w_write_chunk using b1(2) b2 by simp
  then show thesis using that r' by blast
qed

lemma w_again:
  obtains db1 db2 db3 rep2 rep3 where
    "write_chunk w_env w_draws w_event w_loaded [w_row 0 50, w_row 1 50] ''csv'' w_tax 1 w_db = (db1, Inl DatabaseRefuses)"
    "write_chunk w_env w_draws w_event w_loaded [w_row 0 60, w_row 1 61] ''csv'' w_tax 1 db1 = (db2, Inr rep2)"
    "write_chunk w_env w_draws w_event w_loaded [w_row 0 70, w_row 1 71] ''csv'' w_tax 1 w_db = (db3, Inr rep3)"
proof -
  have zero: "(0::nat) = 0 \<or> (0::nat) = 1" by simp
  obtain r' where broken: "write_chunk w_env w_draws w_event w_loaded [w_row 0 50, w_row 1 50] ''csv'' w_tax 1 w_db =
      (\<lparr>cd_sale_events = [w_cand 0 50 1000], cd_change_events = [], cd_current_position = [r']\<rparr>, Inl DatabaseRefuses)"
    and r': "w_good r'" by (rule w_broken)
  have "\<exists>db2 rep2. write_chunk w_env w_draws w_event w_loaded [w_row 0 60, w_row 1 61] ''csv'' w_tax 1
      \<lparr>cd_sale_events = [w_cand 0 50 1000], cd_change_events = [], cd_current_position = [r']\<rparr> = (db2, Inr rep2)"
    by (rule w_completes [OF r']) (simp_all add: w_cand_cols(1) [OF zero])
  moreover have "\<exists>db3 rep3. write_chunk w_env w_draws w_event w_loaded [w_row 0 70, w_row 1 71] ''csv'' w_tax 1
      \<lparr>cd_sale_events = [], cd_change_events = [], cd_current_position = [w_hot]\<rparr> = (db3, Inr rep3)"
    by (rule w_completes [OF w_hot_good]) simp_all
  ultimately show thesis using that broken by (auto simp: w_db_def)
qed

text \<open>Rows for the orders and the duplicates.\<close>

definition w_event_row :: "timestamp \<Rightarrow> string \<Rightarrow> pyval \<Rightarrow> event_row" where
  "w_event_row t c v = (w_row 0 0)\<lparr>er_event_ts := t, er_hot_contributions := [(c, v)]\<rparr>"

lemma w_event_row_plain:
  assumes "c \<in> set [''stock_qty'', ''current_retail_price'']" and "v \<noteq> None"
  shows "w_plain (new_group (w_event_row t c v))"
  using assms
  by (auto simp: w_plain_def new_group_def w_event_row_def w_row_def wf_group_def keys_def PAIRED_COLUMNS_def
      RESERVED_COLUMNS_def LINEAGE_COLUMNS_def)

definition w_prior :: "string \<Rightarrow> uuid \<Rightarrow> db_row" where
  "w_prior key trace = get
     [(''id'', Some (Uuid trace)), (''tenant_id'', Some (Uuid 1)), (''store_id'', Some (Uuid 2)), (''source_id'', Some (Text ''pos'')),
      (''source_event_id'', Some (Text key)), (''trace_id'', Some (Uuid trace)), (''source_sale_timestamp'', instant 1),
      (''last_updated_at'', instant 1)]"

end
