(* ===== verification/Canonical_Properties.thy ===== *)
theory Canonical_Properties
  imports Canonical_Example
begin

text \<open>
  The properties of the canonical store: its invariant under any interleaving of committed batches,
  the hot merge as last-writer-wins registers, convergence of a repeated delivery, and the orders of
  events for which the merge does not keep what its descriptions promise.
\<close>

section \<open>The store\<close>

lemma w_extended:
  obtains db' where "canon_step w_env w_db db'"
proof -
  have zero: "(0::nat) = 0 \<or> (0::nat) = 1" by simp
  obtain rep log' r' where c: "commit_batch w_env 5 (\<lambda>_. 40) w_event w_loaded ''csv'' w_tax [w_row 0 50] []
      \<lparr>cd_sale_events = [], cd_change_events = [], cd_current_position = [w_hot]\<rparr> =
      Inr (rep, \<lparr>cd_sale_events = log', cd_change_events = [], cd_current_position = [r']\<rparr>)"
    by (rule w_commit [OF zero w_hot_good, of 50 "[]" 5 "\<lambda>_. 40" w_tax "[]"]) simp_all
  have "canon_step w_env w_db \<lparr>cd_sale_events = log', cd_change_events = [], cd_current_position = [r']\<rparr>"
    by (rule event_batch [OF _ w_build [of "\<lambda>_. 50"] _ c [folded w_db_def], where n = 1])
      (simp_all add: w_loaded_def EVENT_MODELS_def w_batches [unfolded One_nat_def])
  then show thesis by (rule that)
qed

text \<open>
  C31 (the canonical store): over any interleaving of committed batches of event and catalogue
  writes, by any number of instances and with whatever verdicts their duplicate detections gave, no
  two event rows share a redelivery key or an identifier, no two hot rows share a natural key, every
  row satisfies its constraints; the event logs only grow, no hot row disappears and no event clock
  runs backwards.
\<close>

theorem canonical_store_invariant:
  assumes "canon_steps env db db'" and "db_ok env db" and "column_laws env"
  shows "db_ok env db' \<and> extends db db'"
  using canon_steps_ok [OF assms] .

theorem canonical_store_invariant_witness:
  "\<exists>db'. canon_steps w_env w_db db' \<and> db_ok w_env db' \<and> extends w_db db'"
proof -
  obtain db' where "canon_step w_env w_db db'" by (rule w_extended)
  then have "canon_steps w_env w_db db'" by (rule canon_steps.more [OF canon_steps.none])
  then show ?thesis using canonical_store_invariant w_db_ok w_laws by blast
qed



text \<open>
  C33 (events never create a position): a chunk routed to an event model, however its delivery ends,
  leaves exactly the natural keys the hot table had, in place.
\<close>

theorem events_never_create:
  assumes "load_active_mapping mappings tenant_id source_id template_id = Inr loaded"
    and "lm_target_model loaded \<noteq> StoreSkuCurrentPosition"
    and "build_event_rows (sk_rows env) new_ids event dis_channel loaded result tax_treatment = Inr rows"
    and "write_chunk env draws event loaded rows dis_channel tax_treatment batch_size db = (db', res)"
    and "db_ok env db" and "column_laws env"
  shows "map hot_key (cd_current_position db') = map hot_key (cd_current_position db)"
  using write_chunk_keys [OF assms] by blast

theorem events_never_create_witness:
  "\<exists>db' res. write_chunk w_env w_draws w_event w_loaded [w_row 0 50, w_row 1 50] ''csv'' w_tax 1 w_db = (db', res) \<and>
     map hot_key (cd_current_position db') = map hot_key [w_hot]"
proof -
  obtain db1 where run: "write_chunk w_env w_draws w_event w_loaded [w_row 0 50, w_row 1 50] ''csv'' w_tax 1 w_db = (db1, Inl DatabaseRefuses)"
    by (rule w_again)
  have target: "lm_target_model w_loaded \<noteq> StoreSkuCurrentPosition" by (simp add: w_loaded_def)
  from events_never_create [OF w_load target w_build [of "\<lambda>_. 50"] run w_db_ok w_laws] run
  show ?thesis by (simp add: w_db_def)
qed

text \<open>
  C34 (a broken delivery converges): a delivery of an event chunk that ended anywhere, refused or
  missing a position after some committed batches, and was then delivered again to the end leaves in
  every hot row, up to its row time, what one undisturbed delivery leaves, whatever identifiers and
  transaction times the deliveries drew.
\<close>

theorem hot_rows_converge:
  assumes "build_event_rows (sk_rows env) ids1 event dis_channel loaded result tax = Inr rows1"
    and "build_event_rows (sk_rows env) ids2 event dis_channel loaded result tax = Inr rows2"
    and "build_event_rows (sk_rows env) ids3 event dis_channel loaded result tax = Inr rows3"
    and "write_chunk env draws1 event loaded rows1 dis_channel tax batch_size db = (db1, res1)"
    and "write_chunk env draws2 event loaded rows2 dis_channel tax batch_size db1 = (db2, Inr rep2)"
    and "write_chunk env draws3 event loaded rows3 dis_channel tax batch_size db = (db3, Inr rep3)"
    and "lm_target_model loaded \<in> set EVENT_MODELS" and "\<not> lm_hot_complete loaded"
    and "db_ok env db" and "column_laws env"
  shows "map_option hot_content (registers (cd_current_position db2) k) =
    map_option hot_content (registers (cd_current_position db3) k)"
  using redelivery_converges_hot [OF assms, of k] by (simp add: hot_cell_def)

theorem hot_rows_converge_witness:
  "\<exists>db1 db2 db3 rep2 rep3.
     write_chunk w_env w_draws w_event w_loaded [w_row 0 50, w_row 1 50] ''csv'' w_tax 1 w_db = (db1, Inl DatabaseRefuses) \<and>
     write_chunk w_env w_draws w_event w_loaded [w_row 0 60, w_row 1 61] ''csv'' w_tax 1 db1 = (db2, Inr rep2) \<and>
     write_chunk w_env w_draws w_event w_loaded [w_row 0 70, w_row 1 71] ''csv'' w_tax 1 w_db = (db3, Inr rep3) \<and>
     map_option hot_content (registers (cd_current_position db2) w_key) =
     map_option hot_content (registers (cd_current_position db3) w_key)"
proof -
  obtain db1 db2 db3 rep2 rep3 where runs:
    "write_chunk w_env w_draws w_event w_loaded [w_row 0 50, w_row 1 50] ''csv'' w_tax 1 w_db = (db1, Inl DatabaseRefuses)"
    "write_chunk w_env w_draws w_event w_loaded [w_row 0 60, w_row 1 61] ''csv'' w_tax 1 db1 = (db2, Inr rep2)"
    "write_chunk w_env w_draws w_event w_loaded [w_row 0 70, w_row 1 71] ''csv'' w_tax 1 w_db = (db3, Inr rep3)"
    by (rule w_again)
  have b: "build_event_rows (sk_rows w_env) (\<lambda>_. 50) w_event ''csv'' w_loaded w_result w_tax = Inr [w_row 0 50, w_row 1 50]"
    "build_event_rows (sk_rows w_env) (\<lambda>n. if n = 0 then 60 else 61) w_event ''csv'' w_loaded w_result w_tax = Inr [w_row 0 60, w_row 1 61]"
    "build_event_rows (sk_rows w_env) (\<lambda>n. if n = 0 then 70 else 71) w_event ''csv'' w_loaded w_result w_tax = Inr [w_row 0 70, w_row 1 71]"
    unfolding w_build by simp_all
  have l: "lm_target_model w_loaded \<in> set EVENT_MODELS" "\<not> lm_hot_complete w_loaded" by (simp_all add: w_loaded_def EVENT_MODELS_def)
  from hot_rows_converge [OF b runs l w_db_ok w_laws, of w_key] runs show ?thesis by blast
qed

section \<open>Orders of events the merge does not absorb\<close>

text \<open>
  C35 (a tie is not idempotent): an event row, a correction of it with the same event time and the
  same columns, and a redelivery of the first: the hot row is what it was before the correction. An
  exact tie rewrites identical values only when nothing came in between.
\<close>

theorem tie_redelivery_reverts:
  assumes "update_hot_incomplete_path env now1 (hot_params env event loaded a dc tax i) (keys (hg_projected a)) rows = Inr (o1, rows1)"
    and "update_hot_incomplete_path env now2 (hot_params env event loaded b dc tax j) (keys (hg_projected b)) rows1 = Inr (o2, rows2)"
    and "update_hot_incomplete_path env now3 (hot_params env event loaded a dc tax k) (keys (hg_projected a)) rows2 = Inr (o3, rows3)"
    and "hg_last_source_event_at b = hg_last_source_event_at a" and "group_key event b = group_key event a"
    and "set (keys (hg_projected b)) = set (keys (hg_projected a))"
    and "wf_group a" and "wf_group b" and "hot_ok env rows" and "column_laws env"
  shows "map_option hot_content (registers rows3 (group_key event a)) =
    map_option hot_content (registers rows1 (group_key event a))"
proof -
  note s1 = update_path_cell [OF assms(1,7,9,10)]
  note s2 = update_path_cell [OF assms(2,8) s1(1) assms(10)]
  note s3 = update_path_cell [OF assms(3,7) s2(1) assms(10)]
  let ?a = "group_op env event loaded dc tax a" and ?b = "group_op env event loaded dc tax b"
  obtain va vb where ops: "?a = (hg_last_source_event_at a, va)" "?b = (hg_last_source_event_at a, vb)"
    and dom: "va c = None \<longleftrightarrow> vb c = None" for c
    using assms(4,6) by (auto simp: group_op_def Let_def)
  have ta: "timed (hg_last_source_event_at a, va)" unfolding ops(1) [symmetric] by (rule group_op_timed [OF assms(10,7)])
  have tb: "timed (hg_last_source_event_at a, vb)" unfolding ops(2) [symmetric] by (rule group_op_timed [OF assms(10,8)])
  have "reg_op ?a (reg_op ?b (reg_op ?a r)) = reg_op ?a r" for r
    unfolding ops by (rule reg_op_tie [OF ta tb dom])
  then have "hot_cell rows3 (group_key event a) = hot_cell rows1 (group_key event a)"
    using s1(2) s2(2) s3(2) unfolding assms(5) by (cases "hot_cell rows (group_key event a)") simp_all
  then show ?thesis by (simp add: hot_cell_def)
qed

theorem tie_redelivery_reverts_witness:
  "\<exists>r1 r2 r3 o1 o2 o3.
     update_hot_incomplete_path w_env 5 (hot_params w_env w_event w_loaded (w_group_at 0 100) ''csv'' w_tax 40)
       (keys (hg_projected (w_group_at 0 100))) [w_hot] = Inr (o1, [r1]) \<and>
     update_hot_incomplete_path w_env 6 (hot_params w_env w_event w_loaded (w_group_at 1 100) ''csv'' w_tax 41)
       (keys (hg_projected (w_group_at 1 100))) [r1] = Inr (o2, [r2]) \<and>
     update_hot_incomplete_path w_env 7 (hot_params w_env w_event w_loaded (w_group_at 0 100) ''csv'' w_tax 42)
       (keys (hg_projected (w_group_at 0 100))) [r2] = Inr (o3, [r3]) \<and>
     map_option hot_content (registers [r3] w_key) = map_option hot_content (registers [r1] w_key)"
proof -
  obtain r1 o1 where s1: "update_hot_incomplete_path w_env 5 (hot_params w_env w_event w_loaded (w_group_at 0 100) ''csv'' w_tax 40)
      (keys (hg_projected (w_group_at 0 100))) [w_hot] = Inr (o1, [r1])" and g1: "w_good r1"
    by (rule w_merge [OF w_hot_good w_group_plain])
  obtain r2 o2 where s2: "update_hot_incomplete_path w_env 6 (hot_params w_env w_event w_loaded (w_group_at 1 100) ''csv'' w_tax 41)
      (keys (hg_projected (w_group_at 1 100))) [r1] = Inr (o2, [r2])" and g2: "w_good r2"
    by (rule w_merge [OF g1 w_group_plain])
  obtain r3 o3 where s3: "update_hot_incomplete_path w_env 7 (hot_params w_env w_event w_loaded (w_group_at 0 100) ''csv'' w_tax 42)
      (keys (hg_projected (w_group_at 0 100))) [r2] = Inr (o3, [r3])"
    by (rule w_merge [OF g2 w_group_plain])
  have ok: "hot_ok w_env [w_hot]" using w_db_ok by (simp add: db_ok_def w_db_def)
  have "hg_last_source_event_at (w_group_at 1 100) = hg_last_source_event_at (w_group_at 0 100)"
    by (simp add: w_group_at_def)
  from tie_redelivery_reverts [OF s1 s2 s3 this _ _ w_group_wf w_group_wf ok w_laws]
  have "map_option hot_content (registers [r3] w_key) = map_option hot_content (registers [r1] w_key)"
    unfolding w_group_key w_group_keys by simp
  then show ?thesis using s1 s2 s3 by blast
qed

text \<open>
  C36 (batching decides): of two event rows of one SKU with different columns, the later event first,
  the older one's column reaches the hot row when both rows fall into one batch; when the batch
  boundary falls between them, its write is an older-event no-op and the value is lost, whatever
  column it was for.
\<close>

theorem batching_decides_older_columns:
  assumes "update_hot_incomplete_path env now1 (hot_params env event loaded (new_group r1) dc tax i)
      (keys (er_hot_contributions r1)) rows = Inr (o1, rows1)"
    and "update_hot_incomplete_path env now2 (hot_params env event loaded (new_group r2) dc tax j)
      (keys (er_hot_contributions r2)) rows1 = Inr (o2, rows2)"
    and "er_natural_key r2 = er_natural_key r1" and "er_event_ts r2 < er_event_ts r1"
    and "er_hot_contributions r2 = [(c, v)]" and "c \<notin> set (keys (er_hot_contributions r1))"
    and "wf_group (new_group r1)" and "wf_group (new_group r2)" and "hot_ok env rows" and "column_laws env"
  shows "rows2 = rows1 \<and> o2 \<noteq> Written \<and>
    (\<exists>g. group_hot [r1, r2] = [g] \<and> hg_last_source_event_at g = er_event_ts r1 \<and> get (hg_projected g) c = v)"
proof -
  let ?k = "group_key event (new_group r1)"
  have proj: "keys (hg_projected (new_group r)) = keys (er_hot_contributions r)" for r by (simp add: new_group_def)
  note s1 = update_path_cell [OF assms(1) [folded proj] assms(7,9,10)]
  have key: "group_key event (new_group r2) = ?k" using assms(3) by (simp add: group_key_def hot_sort_key_def new_group_def)
  have late: "\<not> clock_admits (er_event_ts r2) r" if "r \<in> set rows1" "hot_key r = ?k" for r
  proof -
    have "registers rows1 ?k = Some r"
      using registers_unique [of rows1 r] s1(1) that by (simp add: hot_ok_def)
    then obtain s where "hot_content r = reg_op (group_op env event loaded dc tax (new_group r1)) s"
      using s1(2) by (auto simp: hot_cell_def map_option_case split: option.splits)
    moreover have "timed (group_op env event loaded dc tax (new_group r1))" by (rule group_op_timed [OF assms(10,7)])
    moreover have "fst (group_op env event loaded dc tax (new_group r1)) = er_event_ts r1" by (simp add: group_op_def new_group_def)
    ultimately obtain u where "hot_clock (hot_content r) = Some u" "er_event_ts r1 \<le> u"
      using reg_op_clock by (metis prod.collapse)
    then show ?thesis using assms(4) by (simp add: clock_admits_def)
  qed
  let ?p = "hot_params env event loaded (new_group r2) dc tax j"
  have p: "hot_key (get ?p) = ?k" using hot_key_params [OF assms(8)] key by simp
  have "get ?p ''last_source_event_at'' = instant (er_event_ts r2)"
    using get_hot_params(6) [OF assms(8) _ refl, of _ _ _ env event loaded dc tax j]
    by (cases "hg_natural_key (new_group r2)") (simp add: new_group_def)
  then have none: "\<not> list_ex (\<lambda>r. hot_key r = hot_key (get ?p) \<and> clock_admits (the (instant_of (get ?p ''last_source_event_at''))) r) rows1"
    using late by (auto simp: list_ex_iff p)
  have "rows2 = rows1" "o2 \<noteq> Written"
    using assms(2) none unfolding update_hot_incomplete_path_def Let_def bind_res_Inr_iff by (auto split: if_splits)
  moreover have "\<exists>g. group_hot [r1, r2] = [g] \<and> hg_last_source_event_at g = er_event_ts r1 \<and> get (hg_projected g) c = v"
    using assms(3-6)
    by (simp add: group_hot_def add_to_groups_def new_group_def merge_group_def Let_def has_key_def get_def map_of_update)
  ultimately show ?thesis by simp
qed

theorem batching_decides_older_columns_witness:
  "\<exists>o1 o2 r1. let stock = w_event_row 100 ''stock_qty'' (Some (Cell (VInt 3)));
        price = w_event_row 90 ''current_retail_price'' (Some (Cell (VDecimal 900 2))) in
     update_hot_incomplete_path w_env 5 (hot_params w_env w_event w_loaded (new_group stock) ''csv'' w_tax 40)
       [''stock_qty''] [w_hot] = Inr (o1, [r1]) \<and>
     update_hot_incomplete_path w_env 6 (hot_params w_env w_event w_loaded (new_group price) ''csv'' w_tax 41)
       [''current_retail_price''] [r1] = Inr (o2, [r1]) \<and> o2 \<noteq> Written \<and>
     (\<exists>g. group_hot [stock, price] = [g] \<and> hg_last_source_event_at g = 100 \<and>
        get (hg_projected g) ''current_retail_price'' = Some (Cell (VDecimal 900 2)))"
proof -
  let ?s = "w_event_row 100 ''stock_qty'' (Some (Cell (VInt 3)))"
  let ?p = "w_event_row 90 ''current_retail_price'' (Some (Cell (VDecimal 900 2)))"
  have plain: "w_plain (new_group ?s)" "w_plain (new_group ?p)" by (rule w_event_row_plain; simp)+
  have keys: "keys (hg_projected (new_group ?s)) = keys (er_hot_contributions ?s)"
    "keys (hg_projected (new_group ?p)) = keys (er_hot_contributions ?p)" by (simp_all add: new_group_def)
  obtain r1 o1 where s1: "update_hot_incomplete_path w_env 5 (hot_params w_env w_event w_loaded (new_group ?s) ''csv'' w_tax 40)
      (keys (er_hot_contributions ?s)) [w_hot] = Inr (o1, [r1])" and g1: "w_good r1"
    by (rule w_merge [OF w_hot_good plain(1), unfolded keys])
  obtain r2 o2 where s2: "update_hot_incomplete_path w_env 6 (hot_params w_env w_event w_loaded (new_group ?p) ''csv'' w_tax 41)
      (keys (er_hot_contributions ?p)) [r1] = Inr (o2, [r2])"
    by (rule w_merge [OF g1 plain(2), unfolded keys])
  have ok: "hot_ok w_env [w_hot]" using w_db_ok by (simp add: db_ok_def w_db_def)
  have facts: "er_natural_key ?p = er_natural_key ?s" "er_event_ts ?p < er_event_ts ?s" "er_event_ts ?s = 100"
    "er_hot_contributions ?p = [(''current_retail_price'', Some (Cell (VDecimal 900 2)))]"
    "''current_retail_price'' \<notin> set (keys (er_hot_contributions ?s))"
    "wf_group (new_group ?s)" "wf_group (new_group ?p)"
    "keys (er_hot_contributions ?s) = [''stock_qty'']" "keys (er_hot_contributions ?p) = [''current_retail_price'']"
    using plain by (simp_all add: w_event_row_def keys_def w_plain_def)
  note result = batching_decides_older_columns [OF s1 s2 facts(1,2,4-7) ok w_laws]
  show ?thesis
    unfolding Let_def using s1 s2 result facts(3) unfolding facts(8,9) by auto
qed


section \<open>Refusals and reports\<close>

lemma map_res_refused:
  fixes f :: "'a \<Rightarrow> sink_error + 'b"
  assumes "x \<in> set xs" and "f x = Inl DatabaseRefuses" and "\<And>y e. f y = Inl e \<Longrightarrow> e = DatabaseRefuses"
  shows "map_res f xs = Inl DatabaseRefuses"
  using assms(1)
proof (induction xs)
  case (Cons y xs)
  show ?case
  proof (cases "f y")
    case (Inl e)
    then show ?thesis using assms(3) by simp
  next
    case (Inr z)
    then have "x \<in> set xs" using Cons.prems assms(2) by auto
    then show ?thesis using Cons.IH Inr by simp
  qed
qed simp

text \<open>
  C38 (a promotion without its price): an event projects \<open>promo_identifier\<close> and never
  \<open>promo_price\<close>, and the hot table's CHECK wants a price beside an identifier. On a hot row without a
  promotional price the merge of such an event is refused, at every delivery.
\<close>

theorem promotion_refused:
  assumes "wf_group g" and "map_of (hg_projected g) ''promo_identifier'' = Some (Some p)"
    and "''promo_price'' \<notin> set (keys (hg_projected g))"
    and "r \<in> set rows" and "hot_key r = group_key event g" and "r ''promo_price'' = None"
    and "clock_admits (hg_last_source_event_at g) r"
    and "sk_column env StoreSkuCurrentPosition ''promo_identifier'' p \<noteq> Some None"
  shows "update_hot_incomplete_path env now (hot_params env event loaded g dis_channel tax_treatment new_id)
    (keys (hg_projected g)) rows = Inl DatabaseRefuses"
proof -
  let ?p = "hot_params env event loaded g dis_channel tax_treatment new_id"
  let ?change = "set_columns env StoreSkuCurrentPosition now (keys (hg_projected g) @ LINEAGE_COLUMNS) ?p"
  obtain sku variant lot where nk: "hg_natural_key g = (sku, variant, lot)" by (cases "hg_natural_key g") auto
  have ts: "the (instant_of (get ?p ''last_source_event_at'')) = hg_last_source_event_at g"
    using get_hot_params(6) [OF assms(1) nk refl, of env event loaded dis_channel tax_treatment new_id] by simp
  have key: "hot_key (get ?p) = group_key event g" by (rule hot_key_params [OF assms(1)])
  have "distinct (map fst (hg_projected g))" using assms(1) by (simp add: wf_group_def keys_def)
  then have "map_of (rev (hg_projected g)) ''promo_identifier'' = Some (Some p)" using map_of_SomeD [OF assms(2)]
    by (intro map_of_is_SomeI) (simp_all add: rev_map [symmetric])
  then have promo: "get ?p ''promo_identifier'' = Some p" unfolding hot_params_def nk prod.case get_dict_update by simp
  have "''promo_identifier'' \<in> set (keys (hg_projected g))"
    using assms(2) by (force simp: keys_def dest: map_of_SomeD)
  then have bad: "\<not> row_ok env StoreSkuCurrentPosition r'" if "?change r = Some r'" for r'
    using set_columns_some(1) [OF that, of "''promo_identifier''"] set_columns_some(2) [OF that, of "''promo_price''"]
      assms(3,6,8) promo
    by (auto simp: row_ok_def presence_pairing_def stored_def LINEAGE_COLUMNS_def)
  have "update_rows env (\<lambda>r. hot_key r = hot_key (get ?p) \<and>
      clock_admits (the (instant_of (get ?p ''last_source_event_at''))) r) ?change rows = Inl DatabaseRefuses"
    unfolding update_rows_def ts key
    by (rule map_res_refused [OF assms(4)])
      (use assms(5,7) bad in \<open>auto split: option.splits if_splits\<close>)
  then show ?thesis unfolding update_hot_incomplete_path_def Let_def by simp
qed

theorem promotion_refused_witness:
  "update_hot_incomplete_path w_env 5
     (hot_params w_env w_event w_loaded (new_group (w_event_row 100 ''promo_identifier'' (Some (Text ''P1'')))) ''csv'' w_tax 40)
     [''promo_identifier''] [w_hot] = Inl DatabaseRefuses"
proof -
  let ?g = "new_group (w_event_row 100 ''promo_identifier'' (Some (Text ''P1'')))"
  have nk: "hg_natural_key ?g = (''A1'', None, None)" and pr: "hg_projected ?g = [(''promo_identifier'', Some (Text ''P1''))]"
    and ts: "hg_last_source_event_at ?g = 100"
    by (simp_all add: new_group_def w_event_row_def w_row_def)
  have wf: "wf_group ?g" unfolding wf_group_def pr by (simp add: keys_def RESERVED_COLUMNS_def LINEAGE_COLUMNS_def)
  have key: "hot_key w_hot = group_key w_event ?g"
    using w_hot_good by (simp add: w_good_def group_key_def hot_sort_key_def nk w_event_def w_key_def text_or_empty_def)
  have cells: "w_hot ''promo_price'' = None" "clock_admits (hg_last_source_event_at ?g) w_hot"
    by (simp_all add: w_hot_def get_def ts clock_admits_def hot_clock_def)
  have cols: "sk_column w_env StoreSkuCurrentPosition ''promo_identifier'' (Text ''P1'') \<noteq> Some None"
    by (simp add: w_env_def)
  have proj: "map_of (hg_projected ?g) ''promo_identifier'' = Some (Some (Text ''P1''))"
    "''promo_price'' \<notin> set (keys (hg_projected ?g))" "keys (hg_projected ?g) = [''promo_identifier'']"
    unfolding pr by (simp_all add: keys_def)
  show ?thesis
    using promotion_refused [OF wf proj(1,2) _ key cells cols, of "[w_hot]"] unfolding proj(3) by simp
qed

text \<open>
  C39 (the trace of a hit): all duplicate hits of a batch name one prior trace, that of the prior row
  with the greatest key, whichever row each of them repeats.
\<close>

theorem duplicate_hits_share_a_trace:
  assumes "hit \<in> set (detect_duplicates env event loaded batch rows)"
  shows "dh_prior_trace_id hit =
    snd (last (prior_rows (lm_target_model loaded) event rows batch)) ''trace_id''"
proof -
  let ?priors = "prior_rows (lm_target_model loaded) event rows batch"
  have "?priors \<noteq> []" using assms by (auto simp: detect_duplicates_def Let_def List.map_filter_def)
  then show ?thesis
    using assms by (auto simp: detect_duplicates_def Let_def List.map_filter_def split: option.splits)
qed

theorem duplicate_hits_share_a_trace_witness:
  "map dh_prior_trace_id (detect_duplicates w_env w_event w_loaded [w_row 0 60, w_row 1 61]
     [w_prior ''T1:1'' 11, w_prior ''T1:2'' 12]) = [Some (Uuid 12), Some (Uuid 12)] \<and>
   w_prior ''T1:1'' 11 ''trace_id'' = Some (Uuid 11)"
proof -
  have ids: "er_source_event_id (w_row 0 60) = ''T1:1''" "er_source_event_id (w_row 1 61) = ''T1:2''" by (simp_all add: w_row_def)
  have sale: "lm_target_model w_loaded = StoreSkuSaleEvent" by (simp add: w_loaded_def)
  have keys: "sort (remdups [''T1:1'', ''T1:2'']) = [''T1:1'', ''T1:2'']" by code_simp
  have priors: "prior_rows StoreSkuSaleEvent w_event [w_prior ''T1:1'' 11, w_prior ''T1:2'' 12] [w_row 0 60, w_row 1 61] =
      [(''T1:1'', w_prior ''T1:1'' 11), (''T1:2'', w_prior ''T1:2'' 12)]"
    unfolding prior_rows_def list.map ids keys
    by (simp add: latest_prior_def same_source_def w_prior_def get_def w_event_def List.map_filter_def)
  let ?hits = "detect_duplicates w_env w_event w_loaded [w_row 0 60, w_row 1 61] [w_prior ''T1:1'' 11, w_prior ''T1:2'' 12]"
  have "length ?hits = 2"
    unfolding detect_duplicates_def sale priors Let_def using ids by (simp add: List.map_filter_def)
  then obtain h1 h2 where hits: "?hits = [h1, h2]" by (auto simp: numeral_2_eq_2 length_Suc_conv)
  have last: "snd (last (prior_rows (lm_target_model w_loaded) w_event [w_prior ''T1:1'' 11, w_prior ''T1:2'' 12]
      [w_row 0 60, w_row 1 61])) ''trace_id'' = Some (Uuid 12)"
    unfolding sale priors by (simp add: w_prior_def get_def)
  have "dh_prior_trace_id h = Some (Uuid 12)" if "h \<in> set ?hits" for h
    using duplicate_hits_share_a_trace [OF that] unfolding last .
  then have "map dh_prior_trace_id ?hits = [Some (Uuid 12), Some (Uuid 12)]" unfolding hits by simp
  moreover have "w_prior ''T1:1'' 11 ''trace_id'' = Some (Uuid 11)" by (simp add: w_prior_def get_def)
  ultimately show ?thesis ..
qed

text \<open>
  C40 (the batches of a chunk): for a positive batch size the loop over the batches ends, every row is
  in exactly one batch, in order, no batch is empty or larger than the size, and there are as many
  batches as the division rounded up.
\<close>

theorem batches_partition:
  fixes rows :: "'a list"
  assumes "0 < n"
  shows "concat (batches n rows) = rows \<and> (\<forall>b \<in> set (batches n rows). b \<noteq> [] \<and> length b \<le> n) \<and>
      length (batches n rows) = (length rows + n - 1) div n"
  using assms
proof (induction n rows rule: batches.induct)
    case (1 n rows)
    show ?case
    proof (cases "rows = []")
      case True
      have "batches n [] = ([] :: 'a list list)" by (subst batches.simps) simp
      then show ?thesis using True 1(2) by simp
    next
      case False
      have step: "batches n rows = take n rows # batches n (drop n rows)"
        using False 1(2) by (simp add: batches.simps [of n rows])
      have ih: "concat (batches n (drop n rows)) = drop n rows"
        "\<forall>b \<in> set (batches n (drop n rows)). b \<noteq> [] \<and> length b \<le> n"
        "length (batches n (drop n rows)) = (length (drop n rows) + n - 1) div n"
        using 1 False by auto
      have "Suc ((length rows - n + n - 1) div n) = (length rows + n - 1) div n"
      proof (cases "n \<le> length rows")
        case True
        then show ?thesis using 1(2) by (simp add: le_div_geq)
      next
        case False
        then have "length rows + n - 1 = n + (length rows - 1)" "length rows - 1 < n"
          using \<open>rows \<noteq> []\<close> 1(2) by (cases rows; simp)+
        then show ?thesis using False 1(2) by (simp add: le_div_geq)
      qed
      then show ?thesis using ih 1(2) False unfolding step by auto
    qed
qed

theorem batches_partition_witness:
  "batches 2 [1, 2, 3, 4, 5::nat] = [[1, 2], [3, 4], [5]] \<and> concat (batches 2 [1, 2, 3, 4, 5::nat]) = [1, 2, 3, 4, 5] \<and>
   length (batches 2 [1, 2, 3, 4, 5::nat]) = 3"
proof -
  have "batches 2 [1, 2, 3, 4, 5::nat] = [[1, 2], [3, 4], [5]]" by code_simp
  then show ?thesis using batches_partition [of 2 "[1, 2, 3, 4, 5::nat]"] by simp
qed

end
