(* ===== verification/Spec2Isabelle.thy ===== *)
theory Spec2Isabelle
  imports Mapping_Properties Ingest_Delivery Synapse_Holdout Sweep_Properties Axon_Properties Canonical_Properties
begin

text \<open>
  \<^bold>\<open>The program.\<close> Thalamus takes retail data from stores to daily recommendations. A file a store
  uploads is stored as an object and announced on a queue; the csv-ingest worker registers it in the
  bronze ledger and publishes \<open>ingress.ready\<close>; the streaming consumer fetches the object, maps its
  columns with the mapping of its template, and writes event rows and the hot table of current
  positions; Synapse's resolvers read those tables, its analyses judge positions, and its
  orchestrator runs the provisioned analyses once per slot and appends the proposed actions to a
  log; Axon sends the mails. Components meet only in tables, objects and messages, so the model has
  one state record per store, operations that take and return it, and step relations over them.

  \<^bold>\<open>Conventions.\<close> Effects are computations in the state-and-exception type of \<open>Effects\<close>, where every
  external call meets a fault or a crash given by the environment; plain errors are sums. Times are
  microseconds since the epoch, dates days since it; UUIDs are 128-bit words; SHA-256 works on
  32-bit words with wrap-around. Python's strings are lists of characters up to U+00FF. A dict is an
  association list with distinct keys where the order shows and a map elsewhere; a NULL or \<open>None\<close> is
  the option type's. Code outside the repository (polars, orjson, the database's column types, the
  mail provider, the clock, minted identifiers) is an argument of the definitions that use it, and
  what is relied on is a named hypothesis: \<open>column_laws\<close> for what columns give back, \<open>env_ok\<close> for the
  object store and the clock of the worker.

  \<^bold>\<open>Shared theories.\<close> \<open>Thalamus_Prelude\<close> has the result combinators and dict lemmas, \<open>Py_Text\<close> and
  \<open>Regex_Model\<close> Python's text and regular expressions, \<open>Json_Text\<close> the text form of JSON and its parser,
  \<open>Sha256\<close> the digest, \<open>Decimal_Arith\<close> the decimal context, \<open>Effects\<close> the triples, and \<open>Unique_Ledger\<close>
  the contract of an insert under a uniqueness constraint, a locale that the action log, the run
  table, the delivery ledger and the event log each interpret.

  \<^bold>\<open>Mapping\<close> (\<open>dis/libs/dis-mapping\<close>). \<open>Mapping_Rules\<close>: the rules of a mapping and their validation
  (\<open>models/transform.py\<close>, \<open>models/source_mapping.py\<close>). \<open>Mapping_Engine\<close>: rename, normalize, cast and
  derive over a frame, and \<open>apply_mapping\<close> (\<open>engine\<close>). \<open>Mapping_Correct\<close> proves the contract of a
  column-wise stage once, in the locale \<open>column_stage\<close>, and interprets it for the three stages;
  \<open>Mapping_Properties\<close>: totality on validated mappings, the partition of the rows, one report per
  cell, the shape of the contribution, which ops null a cell silently, the locale discipline.

  \<^bold>\<open>Ingest\<close> (\<open>dis/services/csv-ingest-worker\<close>, \<open>dis/libs/dis-storage\<close>, \<open>dis/libs/dis-pii\<close>).
  \<open>Object_Path\<close>: \<open>build_object_path\<close>, \<open>parse_object_path\<close> and their round trip. \<open>Pii_Gate\<close>: the header gate.
  \<open>Bronze_Store\<close>: the ledger, the deduplication query and the locale \<open>dedup_ledger\<close>. \<open>Csv_Ingest\<close>: the
  pipeline (\<open>pipeline.py\<close>), the routing of a message and the pull loop (\<open>subscriber.py\<close>). \<open>Csv_Ingest_Correct\<close>:
  one triple per operation for the invariant, under every schedule of faults. \<open>Consumer_Fetch\<close>: the
  checks of the consumer (\<open>pipeline/fetch.py\<close>) and the producer's session identifier.
  \<open>Ingest_Properties\<close>, \<open>Ingest_Delivery\<close>: deduplication, no PII header in bronze, what an
  acknowledgement means, convergence of redelivery, and which announcements the consumer accepts.

  \<^bold>\<open>Canonical store\<close> (\<open>dis/services/streaming-consumer\<close>, \<open>dis/libs/dis-canonical\<close>, \<open>dis-validation\<close>,
  \<open>dis-enrichment\<close>). \<open>Canonical_Models\<close>: the row models, column provenance with its drift check, the
  projections, routing and completeness of a mapping (\<open>pipeline/mapping.py\<close>). \<open>Canonical_Rows\<close>: the event
  rows of a contribution (\<open>pipeline/normalize.py\<close>). \<open>Canonical_Sink\<close>: duplicate detection, the event
  insert, the grouping and the two paths of the hot merge, batch by batch (\<open>sinks/canonical.py\<close>).
  \<open>Canonical_Registers\<close> and \<open>Canonical_Store\<close>: the event table as a claimed ledger, the hot table as a
  refinement of last-writer-wins registers, the step relation of committed batches and its
  invariant. \<open>Canonical_Redelivery\<close>: the loops over the batches, and a delivery repeated.
  \<open>Canonical_Example\<close> holds the concrete chunk of the witnesses, \<open>Canonical_Properties\<close> the properties.

  \<^bold>\<open>Synapse\<close> (\<open>synapse/src/synapse\<close>). \<open>Synapse_Core\<close>: slots, provisions, the holdout, descriptors and
  actions (\<open>core\<close>). \<open>Synapse_Resolvers\<close>: the latest-wins collapse and the reads over the canonical
  tables (\<open>resolvers\<close>). \<open>Dead_Stock\<close>, \<open>Stockout_Risk\<close>: the two analyses and their proposers.
  \<open>Synapse_Registry\<close> and \<open>Synapse_Gating\<close>: the registry's import-time checks and the gated resolution
  (\<open>registry.py\<close>, \<open>core/resolution.py\<close>). \<open>Synapse_Holdout\<close>: the share of the holdout. \<open>Synapse_Action_Log\<close>,
  \<open>Synapse_Runner\<close>: the persistence (\<open>persistence\<close>) and the sweep (\<open>orchestrator/runner.py\<close>, \<open>__main__.py\<close>).
  \<open>Synapse_Runs\<close>, \<open>Synapse_Sweeps\<close>: the invariant of the two ledgers over reachable worlds;
  \<open>Sweep_Properties\<close>: one run per slot, one action per key, settling, takeover, the log's round trip.

  \<^bold>\<open>Axon\<close> (\<open>axon/src/axon\<close>, \<open>axon/services/axon-sender\<close>). \<open>Axon_Delivery\<close>: the envelope, the delivery ledger and the
  SendGrid adapter; \<open>Axon_Sender\<close>: the pull loop and its reachable worlds; \<open>Axon_Properties\<close>: one row per
  delivery, the envelope's round trip, and when a message is sent more often than recorded.

  \<^bold>\<open>Bounds and fuel.\<close> The parser of JSON takes the length of its text as fuel, and each of its calls
  consumes a character. Decimal texts of naturals are computed by division with the number itself as
  fuel. The batch loop terminates because the remaining rows get fewer. No other recursion needs a
  bound: the models run over finite lists.

  \<^bold>\<open>Not modelled.\<close> Of the streaming consumer the validation suites (run by pandera and polars), the
  enrichment of the store's facts, quarantine and audit inserts, and the composition of the stages
  in \<open>orchestrate.py\<close>; Axon's list queries, the freshness rollup and the UI server of Synapse,
  which read and format; the rest of \<open>dis-ui-server\<close>, the mirror-sync consumer, the administration
  backend \<open>cm-backend\<close> and the connectors, which are CRUD and glue over frameworks outside the
  repository; migrations, schemas, infrastructure and user interfaces, which are not Python logic.
  Characters above U+00FF, the text of SQL statements (their effect is modelled) and the exponent
  limits of decimals are left out of the modelled parts.
\<close>

end
